(* ===== verification/Prelude.thy ===== *)
theory Prelude
  imports Main "HOL-Library.AList" "HOL-Library.Word" "HOL-Library.Code_Target_Numeral"
begin

text \<open>
  Shared vocabulary of the development: machine integers at their width, results as sums,
  the keyed containers of the program (\<open>DashMap\<close>, \<open>HashMap\<close>) as association lists with an
  interface locale, SQL statements over tables, and the two locales that lift one-step facts
  to runs. Everything a component proof needs more than once lives here, in the simpset or in
  one of the collections below.
\<close>

named_theorems int_simps \<open>saturating and wrapping machine arithmetic\<close>
named_theorems sql_simps \<open>the SQL statements over tables\<close>

section \<open>Machine integers\<close>

text \<open>
  Rust integers are kept as \<open>int\<close> or \<open>nat\<close> with the width written out. \<open>wrap_i64\<close> is the
  \<open>as i64\<close> cast and release-mode arithmetic, \<open>sat_i64\<close> the saturating operations,
  \<open>sat_u64\<close> the saturating operations on \<open>u64\<close>, \<open>wrap_u32\<close> and \<open>wrap_u64\<close> the unsigned
  casts.
\<close>

type_synonym bytes = "8 word list"

definition i64_min :: int where
  "i64_min = - (2 ^ 63)"

definition i64_max :: int where
  "i64_max = 2 ^ 63 - 1"

definition u64_max :: nat where
  "u64_max = 2 ^ 64 - 1"

definition wrap_i64 :: "int \<Rightarrow> int" where
  "wrap_i64 x = (x + 2 ^ 63) mod 2 ^ 64 - 2 ^ 63"

definition sat_i64 :: "int \<Rightarrow> int" where
  "sat_i64 x = max i64_min (min i64_max x)"

definition sat_u64 :: "nat \<Rightarrow> nat" where
  "sat_u64 x = min u64_max x"

definition wrap_u32 :: "nat \<Rightarrow> nat" where
  "wrap_u32 x = x mod 2 ^ 32"

definition in_i64 :: "int \<Rightarrow> bool" where
  "in_i64 x \<longleftrightarrow> i64_min \<le> x \<and> x \<le> i64_max"

lemma wrap_i64_id [int_simps]: "in_i64 x \<Longrightarrow> wrap_i64 x = x"
  by (simp add: wrap_i64_def in_i64_def i64_min_def i64_max_def)

lemma sat_i64_id [int_simps]: "in_i64 x \<Longrightarrow> sat_i64 x = x"
  by (simp add: sat_i64_def in_i64_def)

lemma in_i64_sat [simp]: "in_i64 (sat_i64 x)"
  by (auto simp: sat_i64_def in_i64_def i64_min_def i64_max_def)

lemma in_i64_wrap [simp]: "in_i64 (wrap_i64 x)"
proof -
  have "0 \<le> (x + 2 ^ 63) mod 2 ^ 64" and "(x + 2 ^ 63) mod 2 ^ 64 < (2::int) ^ 64"
    by (simp_all del: power_numeral)
  then show ?thesis
    by (simp add: wrap_i64_def in_i64_def i64_min_def i64_max_def)
qed

lemma sat_i64_mono: "x \<le> y \<Longrightarrow> sat_i64 x \<le> sat_i64 y"
  by (auto simp: sat_i64_def)

lemma wrap_u32_id [int_simps]: "x < 2 ^ 32 \<Longrightarrow> wrap_u32 x = x"
  by (simp add: wrap_u32_def)

lemma wrap_u32_less [simp]: "wrap_u32 x < 2 ^ 32"
  by (simp add: wrap_u32_def)

section \<open>Results\<close>

text \<open>Rust's \<open>Result<T, E>\<close> is \<open>'e + 'a\<close>; \<open>bindE\<close> is the \<open>?\<close> operator.\<close>

fun bindE :: "'e + 'a \<Rightarrow> ('a \<Rightarrow> 'e + 'b) \<Rightarrow> 'e + 'b" where
  "bindE (Inl e) f = Inl e"
| "bindE (Inr x) f = f x"

lemma bindE_Inr_iff: "bindE m f = Inr y \<longleftrightarrow> (\<exists>x. m = Inr x \<and> f x = Inr y)"
  by (cases m) auto

lemma bindE_Inl_iff: "bindE m f = Inl e \<longleftrightarrow> m = Inl e \<or> (\<exists>x. m = Inr x \<and> f x = Inl e)"
  by (cases m) auto

fun mapE :: "('a \<Rightarrow> 'e + 'b) \<Rightarrow> 'a list \<Rightarrow> 'e + 'b list" where
  "mapE f [] = Inr []"
| "mapE f (x # xs) = bindE (f x) (\<lambda>y. bindE (mapE f xs) (\<lambda>ys. Inr (y # ys)))"

lemma mapE_total: "(\<And>x. x \<in> set xs \<Longrightarrow> f x = Inr (g x)) \<Longrightarrow> mapE f xs = Inr (map g xs)"
  by (induction xs) auto

lemma mapE_map:
  assumes "mapE f xs = Inr ys" and "\<And>x y. f x = Inr y \<Longrightarrow> g y = h x"
  shows "map g ys = map h xs"
  using assms by (induction xs arbitrary: ys) (auto simp: bindE_Inr_iff)

section \<open>Keyed containers\<close>

text \<open>
  The concurrent and the plain hash maps of the program are association lists in iteration
  order: \<open>dget\<close>, \<open>dinsert\<close> and \<open>dremove\<close> are their lookup, insert and remove. Nothing below
  depends on the order, so a theorem about every list is a theorem about every iteration
  order.
\<close>

type_synonym ('k, 'v) dmap = "('k \<times> 'v) list"

definition dget :: "('k, 'v) dmap \<Rightarrow> 'k \<Rightarrow> 'v option" where
  "dget m k = map_of m k"

definition dinsert :: "'k \<Rightarrow> 'v \<Rightarrow> ('k, 'v) dmap \<Rightarrow> ('k, 'v) dmap" where
  "dinsert k v m = AList.update k v m"

definition dremove :: "'k \<Rightarrow> ('k, 'v) dmap \<Rightarrow> ('k, 'v) dmap" where
  "dremove k m = AList.delete k m"

definition dkeys :: "('k, 'v) dmap \<Rightarrow> 'k list" where
  "dkeys m = map fst m"

definition dmap_ok :: "('k, 'v) dmap \<Rightarrow> bool" where
  "dmap_ok m \<longleftrightarrow> distinct (dkeys m)"

text \<open>The interface the components rely on: a lookup after an insert and after a remove.\<close>

locale kv_map =
  fixes lookup :: "'m \<Rightarrow> 'k \<Rightarrow> 'v option"
    and put :: "'k \<Rightarrow> 'v \<Rightarrow> 'm \<Rightarrow> 'm"
    and del :: "'k \<Rightarrow> 'm \<Rightarrow> 'm"
    and wf :: "'m \<Rightarrow> bool"
  assumes lookup_put: "lookup (put k v m) k' = (if k' = k then Some v else lookup m k')"
    and lookup_del: "lookup (del k m) k' = (if k' = k then None else lookup m k')"
    and wf_put: "wf m \<Longrightarrow> wf (put k v m)"
    and wf_del: "wf m \<Longrightarrow> wf (del k m)"
begin

lemma lookup_fold_del: "lookup (fold del ks m) k = (if k \<in> set ks then None else lookup m k)"
  by (induction ks arbitrary: m) (auto simp: lookup_del)

lemma lookup_fold_put:
  "lookup (fold (\<lambda>k. put k v) ks m) k = (if k \<in> set ks then Some v else lookup m k)"
  by (induction ks arbitrary: m) (auto simp: lookup_put)

lemma wf_fold_del: "wf m \<Longrightarrow> wf (fold del ks m)"
  by (induction ks arbitrary: m) (auto simp: wf_del)

lemma wf_fold_put: "wf m \<Longrightarrow> wf (fold (\<lambda>k. put k v) ks m)"
  by (induction ks arbitrary: m) (auto simp: wf_put)

end

interpretation dm: kv_map dget dinsert dremove dmap_ok
  by unfold_locales
    (auto simp: dget_def dinsert_def dremove_def dmap_ok_def dkeys_def update_conv' delete_conv'
      intro: distinct_update distinct_delete)

declare dm.lookup_put [simp] dm.lookup_del [simp] dm.wf_put [simp] dm.wf_del [simp]

lemma dget_Nil [simp]: "dget [] k = None"
  by (simp add: dget_def)

lemma dmap_ok_Nil [simp]: "dmap_ok []"
  by (simp add: dmap_ok_def dkeys_def)

lemma dget_in_set: "dmap_ok m \<Longrightarrow> dget m k = Some v \<longleftrightarrow> (k, v) \<in> set m"
  by (simp add: dget_def dmap_ok_def dkeys_def map_of_eq_Some_iff)

lemma dget_mapval:
  "dget (map (\<lambda>(k, v). (k, f k v)) m) k = map_option (f k) (dget m k)"
  by (induction m) (auto simp: dget_def)

lemma dmap_ok_mapval [simp]: "dmap_ok (map (\<lambda>(k, v). (k, f k v)) m) = dmap_ok m"
  by (simp add: dmap_ok_def dkeys_def case_prod_beta comp_def)

lemma dget_filter:
  "dmap_ok m \<Longrightarrow> dget (filter (\<lambda>(k, v). P k v) m) k =
     (case dget m k of None \<Rightarrow> None | Some v \<Rightarrow> if P k v then Some v else None)"
  by (induction m) (auto simp: dget_def dmap_ok_def dkeys_def map_of_eq_None_iff image_iff
      split: option.splits if_splits)

lemma dmap_ok_filter [simp]: "dmap_ok m \<Longrightarrow> dmap_ok (filter P m)"
  by (simp add: dmap_ok_def dkeys_def distinct_map_filter)

section \<open>SQL statements over tables\<close>

text \<open>
  A table is the list of its rows in \<open>rowid\<close> order: SQLite gives a new row the largest rowid
  plus one, so an \<open>INSERT\<close> appends, an \<open>UPDATE\<close> (and the update half of an upsert) keeps the
  row's place and a \<open>DELETE\<close> filters. Each statement also gives the number of rows it touched.
\<close>

definition sql_update :: "('r \<Rightarrow> bool) \<Rightarrow> ('r \<Rightarrow> 'r) \<Rightarrow> 'r list \<Rightarrow> 'r list" where
  "sql_update p f t = map (\<lambda>r. if p r then f r else r) t"

definition sql_delete :: "('r \<Rightarrow> bool) \<Rightarrow> 'r list \<Rightarrow> 'r list" where
  "sql_delete p t = filter (\<lambda>r. \<not> p r) t"

definition sql_count :: "('r \<Rightarrow> bool) \<Rightarrow> 'r list \<Rightarrow> nat" where
  "sql_count p t = length (filter p t)"

definition sql_exists :: "('r \<Rightarrow> bool) \<Rightarrow> 'r list \<Rightarrow> bool" where
  "sql_exists p t \<longleftrightarrow> list_ex p t"

definition sql_find :: "('r \<Rightarrow> bool) \<Rightarrow> 'r list \<Rightarrow> 'r option" where
  "sql_find p t = List.find p t"

lemma sql_exists_iff: "sql_exists p t \<longleftrightarrow> (\<exists>r \<in> set t. p r)"
  by (simp add: sql_exists_def list_ex_iff)

lemma sql_exists_key [sql_simps]: "sql_exists (\<lambda>r. key r = x) t \<longleftrightarrow> x \<in> key ` set t"
  by (auto simp: sql_exists_iff)

lemma sql_exists_or [sql_simps]:
  "sql_exists (\<lambda>r. p r \<or> q r) t \<longleftrightarrow> sql_exists p t \<or> sql_exists q t"
  by (auto simp: sql_exists_iff)

lemma sql_count_pos [sql_simps]: "0 < sql_count p t \<longleftrightarrow> (\<exists>r \<in> set t. p r)"
  by (auto simp: sql_count_def filter_empty_conv)

lemma set_sql_delete [sql_simps]: "set (sql_delete p t) = {r \<in> set t. \<not> p r}"
  by (auto simp: sql_delete_def)

lemma set_sql_update:
  "set (sql_update p f t) = (\<lambda>r. if p r then f r else r) ` set t"
  by (simp add: sql_update_def)

lemma map_sql_update [sql_simps]:
  "(\<And>r. p r \<Longrightarrow> g (f r) = g r) \<Longrightarrow> map g (sql_update p f t) = map g t"
  by (simp add: sql_update_def)

lemma image_sql_update [sql_simps]:
  "(\<And>r. p r \<Longrightarrow> g (f r) = g r) \<Longrightarrow> g ` set (sql_update p f t) = g ` set t"
  by (simp flip: set_map add: map_sql_update)

lemma sql_update_none: "(\<And>r. r \<in> set t \<Longrightarrow> \<not> p r) \<Longrightarrow> sql_update p f t = t"
  by (simp add: sql_update_def map_idI)

lemma sql_delete_none: "(\<And>r. r \<in> set t \<Longrightarrow> \<not> p r) \<Longrightarrow> sql_delete p t = t"
  by (simp add: sql_delete_def)

lemma distinct_map_sql_delete [simp]: "distinct (map g t) \<Longrightarrow> distinct (map g (sql_delete p t))"
  by (simp add: sql_delete_def distinct_map_filter)

lemma sql_find_Some_iff:
  "sql_find p t = Some r \<Longrightarrow> r \<in> set t \<and> p r"
  by (auto simp: sql_find_def find_Some_iff in_set_conv_nth)

lemma sql_find_None_iff: "sql_find p t = None \<longleftrightarrow> (\<forall>r \<in> set t. \<not> p r)"
  by (auto simp: sql_find_def find_None_iff)

lemma sql_find_key:
  assumes "distinct (map key t)" and "r \<in> set t"
  shows "sql_find (\<lambda>x. key x = key r) t = Some r"
  using assms by (induction t) (auto simp: sql_find_def image_iff)

section \<open>Runs\<close>

text \<open>
  A component with state is a step function; a run feeds it a list of inputs. The locales
  lift a one-step fact to runs: an invariant under a guard on the inputs, and a reflexive,
  transitive relation between the states before and after.
\<close>

fun run :: "('e \<Rightarrow> 's \<Rightarrow> 's) \<Rightarrow> 'e list \<Rightarrow> 's \<Rightarrow> 's" where
  "run step [] s = s"
| "run step (e # es) s = run step es (step e s)"

fun admitted :: "('e \<Rightarrow> 's \<Rightarrow> 's) \<Rightarrow> ('e \<Rightarrow> 's \<Rightarrow> bool) \<Rightarrow> 'e list \<Rightarrow> 's \<Rightarrow> bool" where
  "admitted step ok [] s \<longleftrightarrow> True"
| "admitted step ok (e # es) s \<longleftrightarrow> ok e s \<and> admitted step ok es (step e s)"

lemma run_append: "run step (es @ es') s = run step es' (run step es s)"
  by (induction es arbitrary: s) auto

lemma admitted_append:
  "admitted step ok (es @ es') s \<longleftrightarrow> admitted step ok es s \<and> admitted step ok es' (run step es s)"
  by (induction es arbitrary: s) auto

locale invariant_machine =
  fixes step :: "'e \<Rightarrow> 's \<Rightarrow> 's"
    and ok :: "'e \<Rightarrow> 's \<Rightarrow> bool"
    and inv :: "'s \<Rightarrow> bool"
  assumes inv_step: "inv s \<Longrightarrow> ok e s \<Longrightarrow> inv (step e s)"
begin

lemma inv_run: "inv s \<Longrightarrow> admitted step ok es s \<Longrightarrow> inv (run step es s)"
  by (induction es arbitrary: s) (auto intro: inv_step)

end

locale monotone_machine = invariant_machine +
  fixes le :: "'s \<Rightarrow> 's \<Rightarrow> bool"
  assumes le_refl: "le s s"
    and le_trans: "le s t \<Longrightarrow> le t u \<Longrightarrow> le s u"
    and le_step: "inv s \<Longrightarrow> ok e s \<Longrightarrow> le s (step e s)"
begin

lemma le_run: "inv s \<Longrightarrow> admitted step ok es s \<Longrightarrow> le s (run step es s)"
proof (induction es arbitrary: s)
  case Nil
  show ?case by (simp add: le_refl)
next
  case (Cons e es)
  then have "le s (step e s)" and "inv (step e s)"
    by (auto intro: le_step inv_step)
  moreover from this Cons have "le (step e s) (run step es (step e s))"
    by auto
  ultimately show ?case by (auto intro: le_trans)
qed

end

end
