(* ===== verification/Clock.thy ===== *)
theory Clock
  imports Prelude
begin

text \<open>
  \<open>clock.rs\<close> and \<open>token.rs\<close>: epoch-second instants with a saturating addition and a clamped
  difference, and the session token with its hash. SHA-256 and the operating system's random
  generator are not part of the program: the hash function is an argument of the definitions
  that hash, and a token drawn by \<open>SessionToken::generate\<close> is an argument of the operations
  that draw one.
\<close>

named_theorems clock_simps \<open>arithmetic on instants\<close>

section \<open>Instants\<close>

type_synonym timestamp = int

text \<open>\<open>Timestamp::plus_secs\<close>: the \<open>u64\<close> is cast with \<open>as i64\<close>, then added saturating.\<close>

definition plus_secs :: "timestamp \<Rightarrow> nat \<Rightarrow> timestamp" where
  "plus_secs t secs = sat_i64 (t + wrap_i64 (int secs))"

text \<open>\<open>Timestamp::since\<close>: the subtraction is plain \<open>i64\<close> arithmetic, the result clamped at zero.\<close>

definition since :: "timestamp \<Rightarrow> timestamp \<Rightarrow> nat" where
  "since t earlier = (let d = wrap_i64 (t - earlier) in if d < 0 then 0 else nat d)"

text \<open>
  Instants and durations the arithmetic is exact on: every epoch second of the next billions
  of years, and every duration below \<open>2 ^ 62\<close>.
\<close>

definition sane_time :: "timestamp \<Rightarrow> bool" where
  "sane_time t \<longleftrightarrow> 0 \<le> t \<and> t < 2 ^ 62"

definition sane_secs :: "nat \<Rightarrow> bool" where
  "sane_secs n \<longleftrightarrow> n < 2 ^ 62"

lemma plus_secs_exact [clock_simps]:
  "sane_time t \<Longrightarrow> sane_secs n \<Longrightarrow> plus_secs t n = t + int n"
  by (simp add: plus_secs_def sane_time_def sane_secs_def wrap_i64_id sat_i64_id
      in_i64_def i64_min_def i64_max_def)

lemma since_exact [clock_simps]:
  "sane_time t \<Longrightarrow> sane_time u \<Longrightarrow> since t u = nat (t - u)"
  by (simp add: since_def sane_time_def wrap_i64_id in_i64_def i64_min_def i64_max_def)

lemma plus_secs_ge:
  "in_i64 t \<Longrightarrow> n < 2 ^ 63 \<Longrightarrow> t \<le> plus_secs t n"
  by (auto simp: plus_secs_def sat_i64_def wrap_i64_id in_i64_def i64_min_def i64_max_def)

lemma in_i64_plus_secs [simp]: "in_i64 (plus_secs t n)"
  by (simp add: plus_secs_def)

section \<open>Session tokens\<close>

text \<open>
  A \<open>SessionToken\<close> is its cookie value, a \<open>TokenHash\<close> the 32 bytes of its SHA-256.
  \<open>token_hash_of\<close> is \<open>TokenHash::of\<close> with the hash function as an argument.
\<close>

type_synonym session_token = string
type_synonym token_hash = bytes

definition token_hash_of :: "(string \<Rightarrow> bytes) \<Rightarrow> session_token \<Rightarrow> token_hash" where
  "token_hash_of sha256 value = sha256 value"

definition hex_digit :: "nat \<Rightarrow> char" where
  "hex_digit n = ''0123456789abcdef'' ! (n mod 16)"

definition hex_byte :: "8 word \<Rightarrow> string" where
  "hex_byte b = [hex_digit (unat b div 16), hex_digit (unat b)]"

definition short_hex :: "token_hash \<Rightarrow> string" where
  "short_hex h = concat (map hex_byte (take 4 h))"

end
