(* ===== verification/Schema.thy ===== *)
theory Schema
  imports Clock
begin

text \<open>
  The schema of the embedded store (\<open>store/mod.rs\<close>, migrations v1 to v6) and the row types of
  \<open>store/repo.rs\<close>. A table is a list of records in rowid order; the database is the record of
  all tables. Columns keep the encoding of the file: statuses are TEXT, sealed columns are
  bytes, JSON list columns are strings. The identifiers and statuses of \<open>session.rs\<close> that the
  rows carry are declared here because the store is below the session map.
\<close>

section \<open>Identifiers and statuses (session.rs)\<close>

type_synonym sid = string
type_synonym custody_id = string

datatype session_status = Alive | Tombstoned

datatype custody_status = Ok | Degraded | Dead

section \<open>Rows as callers see them (repo.rs)\<close>

record custody_row =
  cr_custody_id :: custody_id
  cr_sub :: string
  cr_refresh_tok :: bytes
  cr_access_tok :: bytes
  cr_access_exp :: timestamp
  cr_scope :: "string option"
  cr_status :: custody_status
  cr_next_refresh :: timestamp
  cr_fail_count :: int
  cr_updated_at :: timestamp
  cr_provider_id :: string

record session_row =
  sr_sid :: sid
  sr_custody_id :: custody_id
  sr_sub :: string
  sr_current_gen :: nat
  sr_idle_exp :: timestamp
  sr_absolute_exp :: timestamp
  sr_status :: session_status
  sr_created_at :: timestamp
  sr_meta :: "string option"

record generation_row =
  gr_token_hash :: token_hash
  gr_sid :: sid
  gr_gen_no :: nat
  gr_created_at :: timestamp
  gr_active_until :: timestamp
  gr_superseded_at :: "timestamp option"

record txn_row =
  tx_txn_id :: bytes
  tx_state :: string
  tx_nonce :: string
  tx_pkce_verifier :: string
  tx_return_to :: string
  tx_created_at :: timestamp

record audit_row =
  au_at :: timestamp
  au_action :: string
  au_outcome :: string
  au_actor_kind :: string
  au_actor_id :: "string option"
  au_subject :: "string option"
  au_sid :: "string option"
  au_custody_id :: "string option"
  au_key_id :: "string option"
  au_reason :: "string option"
  au_client_ip_prefix :: "string option"
  au_detail :: "string option"

section \<open>Tables of the session side (migrations v1, v3, v4, v6)\<close>

record db_custody =
  c_custody_id :: custody_id
  c_sub :: string
  c_refresh_tok :: bytes
  c_access_tok :: bytes
  c_access_exp :: timestamp
  c_scope :: "string option"
  c_status :: string
  c_next_refresh :: timestamp
  c_fail_count :: int
  c_updated_at :: timestamp
  c_provider_id :: string

record db_session =
  s_sid :: sid
  s_custody_id :: custody_id
  s_sub :: string
  s_current_gen :: int
  s_idle_exp :: timestamp
  s_absolute_exp :: timestamp
  s_status :: string
  s_created_at :: timestamp
  s_meta :: "string option"
  s_tombstoned_at :: "timestamp option"
  s_provider_id :: string

record db_generation =
  g_token_hash :: bytes
  g_sid :: sid
  g_gen_no :: int
  g_created_at :: timestamp
  g_active_until :: timestamp
  g_superseded_at :: "timestamp option"

record db_audit =
  a_seq :: int
  a_row :: audit_row

section \<open>Tables of the issuer and admin side (migrations v2, v5, v6)\<close>

record db_api_key =
  k_key_id :: string
  k_name :: string
  k_key_hash :: bytes
  k_created_at :: timestamp
  k_created_by :: "string option"
  k_last_used_at :: "timestamp option"
  k_revoked_at :: "timestamp option"

record db_tenant =
  t_tenant_id :: string
  t_display_name :: "string option"
  t_created_at :: timestamp
  t_disabled_at :: "timestamp option"

record db_principal =
  p_principal_id :: string
  p_tenant_id :: string
  p_name :: string
  p_kind :: string
  p_scope :: string
  p_indexes :: string
  p_audience :: string
  p_max_ttl_secs :: int
  p_created_at :: timestamp
  p_created_by :: "string option"
  p_last_used_at :: "timestamp option"
  p_revoked_at :: "timestamp option"

record db_secret =
  ps_secret_id :: string
  ps_principal_id :: string
  ps_secret_hash :: bytes
  ps_created_at :: timestamp
  ps_expires_at :: "timestamp option"
  ps_revoked_at :: "timestamp option"

record db_user_grant =
  ug_sub :: string
  ug_tenant_id :: string
  ug_roles :: string
  ug_indexes :: string
  ug_created_at :: timestamp
  ug_created_by :: "string option"
  ug_revoked_at :: "timestamp option"

record db_signing_key =
  sk_kid :: string
  sk_public_key :: bytes
  sk_seed_sealed :: bytes
  sk_created_at :: timestamp
  sk_activate_at :: timestamp
  sk_retire_at :: "timestamp option"
  sk_removed_at :: "timestamp option"

record db_provider =
  ip_id :: string
  ip_preset :: string
  ip_display_name :: string
  ip_issuer_url :: string
  ip_client_id :: string
  ip_client_secret_sealed :: bytes
  ip_scopes :: string
  ip_enabled :: bool
  ip_created_at :: timestamp
  ip_updated_at :: timestamp
  ip_deleted_at :: "timestamp option"

section \<open>The database\<close>

text \<open>
  \<open>audit_next_seq\<close> is SQLite's \<open>AUTOINCREMENT\<close> counter: the largest \<open>seq\<close> ever given out,
  which a delete does not lower.
\<close>

record db =
  custody_tbl :: "db_custody list"
  session_tbl :: "db_session list"
  generation_tbl :: "db_generation list"
  txn_tbl :: "txn_row list"
  audit_tbl :: "db_audit list"
  audit_next_seq :: int
  api_key_tbl :: "db_api_key list"
  tenant_tbl :: "db_tenant list"
  principal_tbl :: "db_principal list"
  secret_tbl :: "db_secret list"
  user_grant_tbl :: "db_user_grant list"
  signing_key_tbl :: "db_signing_key list"
  provider_tbl :: "db_provider list"

text \<open>
  A store just migrated: every table empty but \<open>tenant\<close>, seeded with \<open>default\<close> at the
  migration's time.
\<close>

definition migrated_db :: "timestamp \<Rightarrow> db" where
  "migrated_db now =
     \<lparr>custody_tbl = [], session_tbl = [], generation_tbl = [], txn_tbl = [], audit_tbl = [],
      audit_next_seq = 0, api_key_tbl = [],
      tenant_tbl = [\<lparr>t_tenant_id = ''default'', t_display_name = Some ''default'',
                      t_created_at = now, t_disabled_at = None\<rparr>],
      principal_tbl = [], secret_tbl = [], user_grant_tbl = [], signing_key_tbl = [],
      provider_tbl = []\<rparr>"

text \<open>
  The constraints the schema declares: primary keys and UNIQUE columns, foreign keys
  (\<open>foreign_keys = ON\<close>), the CHECK on \<open>principal.kind\<close>, and \<open>AUTOINCREMENT\<close>.
\<close>

definition principal_kinds :: "string list" where
  "principal_kinds = [''ingest'', ''node'', ''replica'', ''reader'', ''admin'']"

definition db_keys_ok :: "db \<Rightarrow> bool" where
  "db_keys_ok d \<longleftrightarrow>
     distinct (map c_custody_id (custody_tbl d)) \<and>
     distinct (map s_sid (session_tbl d)) \<and>
     distinct (map g_token_hash (generation_tbl d)) \<and>
     distinct (map tx_txn_id (txn_tbl d)) \<and>
     distinct (map k_key_id (api_key_tbl d)) \<and>
     distinct (map k_key_hash (api_key_tbl d)) \<and>
     distinct (map t_tenant_id (tenant_tbl d)) \<and>
     distinct (map p_principal_id (principal_tbl d)) \<and>
     distinct (map (\<lambda>p. (p_tenant_id p, p_name p)) (principal_tbl d)) \<and>
     distinct (map ps_secret_id (secret_tbl d)) \<and>
     distinct (map ps_secret_hash (secret_tbl d)) \<and>
     distinct (map (\<lambda>g. (ug_sub g, ug_tenant_id g)) (user_grant_tbl d)) \<and>
     distinct (map sk_kid (signing_key_tbl d)) \<and>
     distinct (map ip_id (provider_tbl d))"

definition db_fks_ok :: "db \<Rightarrow> bool" where
  "db_fks_ok d \<longleftrightarrow>
     s_custody_id ` set (session_tbl d) \<subseteq> c_custody_id ` set (custody_tbl d) \<and>
     g_sid ` set (generation_tbl d) \<subseteq> s_sid ` set (session_tbl d) \<and>
     p_tenant_id ` set (principal_tbl d) \<subseteq> t_tenant_id ` set (tenant_tbl d) \<and>
     ps_principal_id ` set (secret_tbl d) \<subseteq> p_principal_id ` set (principal_tbl d) \<and>
     ug_tenant_id ` set (user_grant_tbl d) \<subseteq> t_tenant_id ` set (tenant_tbl d)"

definition db_audit_ok :: "db \<Rightarrow> bool" where
  "db_audit_ok d \<longleftrightarrow>
     sorted_wrt (<) (map a_seq (audit_tbl d)) \<and>
     (\<forall>a \<in> set (audit_tbl d). a_seq a \<le> audit_next_seq d)"

definition db_ok :: "db \<Rightarrow> bool" where
  "db_ok d \<longleftrightarrow> db_keys_ok d \<and> db_fks_ok d \<and> db_audit_ok d \<and>
     p_kind ` set (principal_tbl d) \<subseteq> set principal_kinds"

lemma db_ok_migrated: "db_ok (migrated_db now)"
  by (simp add: db_ok_def db_keys_ok_def db_fks_ok_def db_audit_ok_def migrated_db_def)

end
