(* ===== verification/Crypto.thy ===== *)
theory Crypto
  imports Clock
begin

text \<open>
  \<open>store/crypto.rs\<close>: the keyring, the sealed-value format and its reading, key rotation, and
  the context strings that bind a ciphertext to its row and column. XChaCha20-Poly1305 and the
  random generator are not part of the program: encryption and decryption are arguments, with
  \<open>aead_correct\<close> and \<open>aead_binds\<close> naming what the code relies on, and the drawn nonce or key
  is an argument of the operation that draws it.
\<close>

named_theorems crypto_simps \<open>sealing and opening\<close>

section \<open>Strings as bytes\<close>

definition byte_of_char :: "char \<Rightarrow> 8 word" where
  "byte_of_char c = word_of_nat (of_char c)"

definition bytes_of :: "string \<Rightarrow> bytes" where
  "bytes_of s = map byte_of_char s"

lemma of_char_less_256: "(of_char c :: nat) < 256"
  by (metis nat_of_char_less_256)

lemma byte_of_char_inj: "byte_of_char c = byte_of_char d \<Longrightarrow> c = d"
proof -
  assume "byte_of_char c = byte_of_char d"
  then have "unat (byte_of_char c) = unat (byte_of_char d)" by simp
  then have "(of_char c :: nat) = of_char d"
    using of_char_less_256 [of c] of_char_less_256 [of d]
    by (simp add: byte_of_char_def unat_of_nat)
  then show "c = d" by simp
qed

lemma inj_byte_of_char: "inj byte_of_char"
  by (rule injI) (rule byte_of_char_inj)

lemma bytes_of_inj [simp]: "bytes_of s = bytes_of t \<longleftrightarrow> s = t"
  by (simp add: bytes_of_def inj_map_eq_map [OF inj_byte_of_char])

section \<open>The keyring\<close>

text \<open>
  \<open>keys\<close> is the \<open>BTreeMap\<close>: an association list in ascending key order.
\<close>

type_synonym key_id = "8 word"

record key_ring =
  kr_active :: key_id
  kr_keys :: "(key_id \<times> bytes) list"

definition format_v1 :: "8 word" where
  "format_v1 = 1"

definition nonce_len :: nat where
  "nonce_len = 24"

definition header_len :: nat where
  "header_len = 2"

fun btree_insert :: "key_id \<Rightarrow> bytes \<Rightarrow> (key_id \<times> bytes) list \<Rightarrow> (key_id \<times> bytes) list" where
  "btree_insert k v [] = [(k, v)]"
| "btree_insert k v ((k', v') # m) =
     (if k < k' then (k, v) # (k', v') # m
      else if k = k' then (k, v) # m
      else (k', v') # btree_insert k v m)"

definition ring_single :: "key_id \<Rightarrow> bytes \<Rightarrow> key_ring" where
  "ring_single i key = \<lparr>kr_active = i, kr_keys = [(i, key)]\<rparr>"

definition ring_aad :: "key_id \<Rightarrow> bytes \<Rightarrow> bytes" where
  "ring_aad kid ctx = [format_v1, kid] @ ctx"

text \<open>
  \<open>KeyRing::seal\<close>. \<open>None\<close> is the panic of indexing \<open>keys\<close> with an active id that is not there;
  \<open>nonce\<close> is what \<open>fill_random\<close> drew.
\<close>

definition ring_seal ::
  "(bytes \<Rightarrow> bytes \<Rightarrow> bytes \<Rightarrow> bytes \<Rightarrow> bytes) \<Rightarrow> key_ring \<Rightarrow> bytes \<Rightarrow> bytes \<Rightarrow> bytes \<Rightarrow> bytes option"
  where
  "ring_seal encrypt ring nonce plaintext ctx =
     (case map_of (kr_keys ring) (kr_active ring) of
        None \<Rightarrow> None
      | Some key \<Rightarrow>
          Some ([format_v1, kr_active ring] @ nonce @
                encrypt key nonce plaintext (ring_aad (kr_active ring) ctx)))"

datatype open_error = Too_Short nat | Unknown_Format "8 word" | Unknown_Key key_id | Auth_Failed

text \<open>\<open>KeyRing::open\<close>, every early return included.\<close>

definition ring_open ::
  "(bytes \<Rightarrow> bytes \<Rightarrow> bytes \<Rightarrow> bytes \<Rightarrow> bytes option) \<Rightarrow> key_ring \<Rightarrow> bytes \<Rightarrow> bytes \<Rightarrow> open_error + bytes"
  where
  "ring_open decrypt ring sealed ctx =
     (if length sealed < header_len + nonce_len then Inl (Too_Short (length sealed))
      else if sealed ! 0 \<noteq> format_v1 then Inl (Unknown_Format (sealed ! 0))
      else let kid = sealed ! 1 in
        (case map_of (kr_keys ring) kid of
           None \<Rightarrow> Inl (Unknown_Key kid)
         | Some key \<Rightarrow>
             let rest = drop header_len sealed;
                 nonce = take nonce_len rest;
                 ciphertext = drop nonce_len rest
             in (case decrypt key nonce ciphertext (ring_aad kid ctx) of
                   None \<Rightarrow> Inl Auth_Failed
                 | Some m \<Rightarrow> Inr m)))"

text \<open>\<open>key_id_of\<close>: which key sealed a value, read off its header.\<close>

definition key_id_of :: "bytes \<Rightarrow> key_id option" where
  "key_id_of sealed =
     (if header_len \<le> length sealed \<and> sealed ! 0 = format_v1 then Some (sealed ! 1) else None)"

text \<open>
  The keyring half of \<open>rotate_keyfile\<close>: \<open>checked_add\<close> on the active id, the fresh key
  inserted under it and made active. \<open>None\<close> is the refusal of a full keyring.
\<close>

definition rotate_ring :: "key_ring \<Rightarrow> bytes \<Rightarrow> (key_ring \<times> key_id) option" where
  "rotate_ring ring fresh =
     (if kr_active ring = 255 then None
      else let n = kr_active ring + 1
           in Some (ring\<lparr>kr_keys := btree_insert n fresh (kr_keys ring), kr_active := n\<rparr>, n))"

section \<open>Contexts\<close>

definition custody_context :: "string \<Rightarrow> string \<Rightarrow> bytes" where
  "custody_context custody column = bytes_of (''custody:'' @ custody @ '':'' @ column)"

definition signing_seed_context :: "string \<Rightarrow> bytes" where
  "signing_seed_context kid = bytes_of (''signing:'' @ kid @ '':seed'')"

definition provider_secret_context :: "string \<Rightarrow> bytes" where
  "provider_secret_context i = bytes_of (''provider:'' @ i @ '':client_secret'')"

text \<open>Every sealed column of the store, and the context its value is sealed under.\<close>

datatype sealed_column =
    Custody_Refresh string
  | Custody_Access string
  | Signing_Seed string
  | Provider_Secret string

fun column_context :: "sealed_column \<Rightarrow> bytes" where
  "column_context (Custody_Refresh c) = custody_context c ''refresh''"
| "column_context (Custody_Access c) = custody_context c ''access''"
| "column_context (Signing_Seed k) = signing_seed_context k"
| "column_context (Provider_Secret p) = provider_secret_context p"

section \<open>What the cipher is relied on for\<close>

definition aead_correct ::
  "(bytes \<Rightarrow> bytes \<Rightarrow> bytes \<Rightarrow> bytes \<Rightarrow> bytes) \<Rightarrow> (bytes \<Rightarrow> bytes \<Rightarrow> bytes \<Rightarrow> bytes \<Rightarrow> bytes option) \<Rightarrow> bool"
  where
  "aead_correct encrypt decrypt \<longleftrightarrow> (\<forall>k n m a. decrypt k n (encrypt k n m a) a = Some m)"

definition aead_binds ::
  "(bytes \<Rightarrow> bytes \<Rightarrow> bytes \<Rightarrow> bytes \<Rightarrow> bytes) \<Rightarrow> (bytes \<Rightarrow> bytes \<Rightarrow> bytes \<Rightarrow> bytes \<Rightarrow> bytes option) \<Rightarrow> bool"
  where
  "aead_binds encrypt decrypt \<longleftrightarrow>
     (\<forall>k n m a a'. a' \<noteq> a \<longrightarrow> decrypt k n (encrypt k n m a) a' = None)"

text \<open>A keyring that can seal: the active id names a key, and ids are in strict order.\<close>

definition ring_ok :: "key_ring \<Rightarrow> bool" where
  "ring_ok ring \<longleftrightarrow>
     kr_active ring \<in> fst ` set (kr_keys ring) \<and> sorted_wrt (<) (map fst (kr_keys ring)) \<and>
     (\<forall>k \<in> fst ` set (kr_keys ring). k \<le> kr_active ring)"

section \<open>Lemmas\<close>

lemma map_of_btree_insert:
  "sorted_wrt (<) (map fst m) \<Longrightarrow> map_of (btree_insert k v m) = (map_of m)(k \<mapsto> v)"
proof (induction k v m rule: btree_insert.induct)
  case (2 k v k' v' m)
  show ?case
  proof (cases "k < k'")
    case True
    with 2 show ?thesis by (simp add: fun_eq_iff)
  next
    case False
    with 2 show ?thesis by (auto simp: fun_eq_iff)
  qed
qed simp

lemma keys_btree_insert: "fst ` set (btree_insert k v m) = insert k (fst ` set m)"
  by (induction k v m rule: btree_insert.induct) auto

lemma sorted_btree_insert:
  "sorted_wrt (<) (map fst m) \<Longrightarrow> sorted_wrt (<) (map fst (btree_insert k v m))"
proof (induction k v m rule: btree_insert.induct)
  case (2 k v k' v' m)
  then show ?case
    using keys_btree_insert [of k v m]
    by (auto simp: image_iff dest: less_trans)
qed simp

lemma ring_seal_ok:
  assumes "ring_ok ring"
  obtains key where "map_of (kr_keys ring) (kr_active ring) = Some key"
    and "\<And>encrypt nonce p ctx. ring_seal encrypt ring nonce p ctx =
           Some ([format_v1, kr_active ring] @ nonce @
                 encrypt key nonce p (ring_aad (kr_active ring) ctx))"
proof -
  from assms have "map_of (kr_keys ring) (kr_active ring) \<noteq> None"
    by (simp add: ring_ok_def map_of_eq_None_iff)
  then obtain key where "map_of (kr_keys ring) (kr_active ring) = Some key" by auto
  then show thesis by (intro that) (auto simp: ring_seal_def)
qed

text \<open>What opening reads back out of a sealed value's bytes.\<close>

lemma ring_open_layout [crypto_simps]:
  assumes "length nonce = nonce_len"
  shows "ring_open decrypt ring ([format_v1, kid] @ nonce @ c) ctx =
     (case map_of (kr_keys ring) kid of
        None \<Rightarrow> Inl (Unknown_Key kid)
      | Some key \<Rightarrow> (case decrypt key nonce c (ring_aad kid ctx) of
                        None \<Rightarrow> Inl Auth_Failed | Some m \<Rightarrow> Inr m))"
  using assms
  by (simp add: ring_open_def header_len_def nonce_len_def Let_def split: option.split)

lemma key_id_of_layout [crypto_simps]: "key_id_of ([format_v1, kid] @ rest) = Some kid"
  by (simp add: key_id_of_def header_len_def)

lemma ring_ok_rotate:
  assumes "ring_ok ring" and "rotate_ring ring fresh = Some (ring', n)"
  shows "ring_ok ring'" and "n = kr_active ring'" and "kr_active ring < n"
    and "map_of (kr_keys ring') = (map_of (kr_keys ring))(n \<mapsto> fresh)"
proof -
  from assms(2) have neq: "kr_active ring \<noteq> 255" and n: "n = kr_active ring + 1"
    and ring': "ring' = ring\<lparr>kr_keys := btree_insert n fresh (kr_keys ring), kr_active := n\<rparr>"
    by (auto simp: rotate_ring_def Let_def split: if_splits)
  have lt: "kr_active ring < n"
  proof -
    have "unat (kr_active ring) \<noteq> unat (255 :: 8 word)"
      using neq by (simp add: word_unat_eq_iff)
    then have "unat (kr_active ring) \<noteq> 255" by simp
    moreover have "unat (kr_active ring) < 256" using unsigned_less [of "kr_active ring"] by simp
    ultimately show ?thesis
      unfolding n by (simp add: word_less_nat_alt unat_word_ariths)
  qed
  show "kr_active ring < n" by (rule lt)
  show "n = kr_active ring'" by (simp add: ring')
  from assms(1) have srt: "sorted_wrt (<) (map fst (kr_keys ring))" by (simp add: ring_ok_def)
  show "map_of (kr_keys ring') = (map_of (kr_keys ring))(n \<mapsto> fresh)"
    using map_of_btree_insert [OF srt] by (simp add: ring')
  show "ring_ok ring'"
    using assms(1) lt sorted_btree_insert [OF srt]
    by (force simp: ring_ok_def ring' keys_btree_insert)
qed

lemma append_suffix_neq: "length x = length y \<Longrightarrow> x \<noteq> y \<Longrightarrow> a @ x \<noteq> b @ y"
  by (auto simp: append_eq_append_conv)

lemma last_neq_append: "last x \<noteq> last y \<Longrightarrow> x \<noteq> [] \<Longrightarrow> y \<noteq> [] \<Longrightarrow> a @ x \<noteq> b @ y"
  by (metis last_appendR)

lemma column_context_inj: "column_context x = column_context y \<longleftrightarrow> x = y"
proof
  assume eq: "column_context x = column_context y"
  have h: "last ''refresh'' \<noteq> last ''access''" by simp
  show "x = y"
    using eq last_neq_append [of "'':refresh''" "'':access''"]
    by (cases x; cases y)
      (auto simp: custody_context_def signing_seed_context_def provider_secret_context_def)
qed simp

section \<open>Sealing as the store uses it\<close>

text \<open>
  \<open>crypto::seal\<close> and \<open>crypto::open\<close> work on the process's keyring. The store's functions take
  both as one argument, a \<open>crypto\<close>; \<open>ring_crypto\<close> is that argument for a keyring, with
  \<open>draw\<close> giving the nonce each call draws.
\<close>

record crypto =
  cseal :: "bytes \<Rightarrow> bytes \<Rightarrow> bytes"
  copen :: "bytes \<Rightarrow> bytes \<Rightarrow> open_error + bytes"
  cactive :: key_id

definition ring_crypto ::
  "(bytes \<Rightarrow> bytes \<Rightarrow> bytes \<Rightarrow> bytes \<Rightarrow> bytes) \<Rightarrow> (bytes \<Rightarrow> bytes \<Rightarrow> bytes \<Rightarrow> bytes \<Rightarrow> bytes option) \<Rightarrow>
   (bytes \<Rightarrow> bytes \<Rightarrow> bytes) \<Rightarrow> key_ring \<Rightarrow> crypto" where
  "ring_crypto encrypt decrypt draw ring =
     \<lparr>cseal = (\<lambda>p ctx. case ring_seal encrypt ring (draw p ctx) p ctx of None \<Rightarrow> [] | Some v \<Rightarrow> v),
      copen = ring_open decrypt ring,
      cactive = kr_active ring\<rparr>"

definition crypto_ok :: "crypto \<Rightarrow> bool" where
  "crypto_ok cr \<longleftrightarrow> (\<forall>p ctx. copen cr (cseal cr p ctx) ctx = Inr p) \<and>
     (\<forall>p ctx. key_id_of (cseal cr p ctx) = Some (cactive cr))"

lemma crypto_ok_ring:
  assumes "ring_ok ring" and "aead_correct encrypt decrypt"
    and "\<And>p ctx. length (draw p ctx) = nonce_len"
  shows "crypto_ok (ring_crypto encrypt decrypt draw ring)"
proof -
  obtain key where
    "map_of (kr_keys ring) (kr_active ring) = Some key"
    and "\<And>enc nonce p ctx. ring_seal enc ring nonce p ctx =
           Some ([format_v1, kr_active ring] @ nonce @
                 enc key nonce p (ring_aad (kr_active ring) ctx))"
    using ring_seal_ok [OF assms(1)] by metis
  with assms(2,3) show ?thesis
    by (simp add: crypto_ok_def ring_crypto_def ring_open_layout [simplified]
        key_id_of_layout [simplified] aead_correct_def)
qed

end
