(* ===== verification/Repo.thy ===== *)
theory Repo
  imports Schema Crypto "HOL-Library.Char_ord" "HOL-Library.List_Lexorder"
    "HOL-Library.Product_Lexorder"
begin

text \<open>
  \<open>store/repo.rs\<close>, the session side: custody, session, generation, login transaction and audit
  rows, the reaper, and the two boot-time reads. Every function takes the database and gives
  an error or the new database with its result; the constraints SQLite enforces (primary keys,
  foreign keys) are checks of the statements that can violate them. The lemmas show what each
  statement changes and that every one of them keeps \<open>db_ok\<close>.
\<close>

named_theorems repo_defs \<open>definitions of the store's operations\<close>

section \<open>Errors and status columns\<close>

datatype sqlite_error = Unique_Violation | Foreign_Key_Violation | Check_Violation | Io_Failure

datatype repo_error =
    Sqlite sqlite_error
  | Open_Failed open_error
  | Corrupt string

fun custody_status_to_str :: "custody_status \<Rightarrow> string" where
  "custody_status_to_str Ok = ''ok''"
| "custody_status_to_str Degraded = ''degraded''"
| "custody_status_to_str Dead = ''dead''"

definition custody_status_from_str :: "string \<Rightarrow> repo_error + custody_status" where
  "custody_status_from_str s =
     (if s = ''ok'' then Inr Ok
      else if s = ''degraded'' then Inr Degraded
      else if s = ''dead'' then Inr Dead
      else Inl (Corrupt (''unknown custody status '' @ s)))"

fun session_status_to_str :: "session_status \<Rightarrow> string" where
  "session_status_to_str Alive = ''alive''"
| "session_status_to_str Tombstoned = ''tombstoned''"

definition session_status_from_str :: "string \<Rightarrow> repo_error + session_status" where
  "session_status_from_str s =
     (if s = ''alive'' then Inr Alive
      else if s = ''tombstoned'' then Inr Tombstoned
      else Inl (Corrupt (''unknown session status '' @ s)))"

definition hash_bytes_from_blob :: "bytes \<Rightarrow> repo_error + bytes" where
  "hash_bytes_from_blob blob =
     (if length blob = 32 then Inr blob else Inl (Corrupt ''token_hash blob is not 32 bytes''))"

lemma custody_status_round [simp]:
  "custody_status_from_str (custody_status_to_str st) = Inr st"
  by (cases st) (simp_all add: custody_status_from_str_def)

lemma session_status_round [simp]:
  "session_status_from_str (session_status_to_str st) = Inr st"
  by (cases st) (simp_all add: session_status_from_str_def)

section \<open>custody\<close>

definition insert_custody :: "crypto \<Rightarrow> custody_row \<Rightarrow> db \<Rightarrow> repo_error + db" where
  [repo_defs]: "insert_custody cr row d =
     (if sql_exists (\<lambda>c. c_custody_id c = cr_custody_id row) (custody_tbl d)
      then Inl (Sqlite Unique_Violation)
      else Inr (d\<lparr>custody_tbl := custody_tbl d @
        [\<lparr>c_custody_id = cr_custody_id row, c_sub = cr_sub row,
          c_refresh_tok = cseal cr (cr_refresh_tok row)
            (custody_context (cr_custody_id row) ''refresh''),
          c_access_tok = cseal cr (cr_access_tok row)
            (custody_context (cr_custody_id row) ''access''),
          c_access_exp = cr_access_exp row, c_scope = cr_scope row,
          c_status = custody_status_to_str (cr_status row),
          c_next_refresh = cr_next_refresh row, c_fail_count = cr_fail_count row,
          c_updated_at = cr_updated_at row, c_provider_id = cr_provider_id row\<rparr>]\<rparr>))"

definition load_custody :: "crypto \<Rightarrow> custody_id \<Rightarrow> db \<Rightarrow> repo_error + custody_row option" where
  "load_custody cr cid d =
     (case sql_find (\<lambda>c. c_custody_id c = cid) (custody_tbl d) of
        None \<Rightarrow> Inr None
      | Some c \<Rightarrow>
          (case copen cr (c_refresh_tok c) (custody_context (c_custody_id c) ''refresh'') of
             Inl e \<Rightarrow> Inl (Open_Failed e)
           | Inr refresh_plain \<Rightarrow>
               (case copen cr (c_access_tok c) (custody_context (c_custody_id c) ''access'') of
                  Inl e \<Rightarrow> Inl (Open_Failed e)
                | Inr access_plain \<Rightarrow>
                    bindE (custody_status_from_str (c_status c)) (\<lambda>st.
                      Inr (Some \<lparr>cr_custody_id = c_custody_id c, cr_sub = c_sub c,
                        cr_refresh_tok = refresh_plain, cr_access_tok = access_plain,
                        cr_access_exp = c_access_exp c, cr_scope = c_scope c, cr_status = st,
                        cr_next_refresh = c_next_refresh c, cr_fail_count = c_fail_count c,
                        cr_updated_at = c_updated_at c, cr_provider_id = c_provider_id c\<rparr>)))))"

definition update_custody_success ::
  "crypto \<Rightarrow> custody_id \<Rightarrow> bytes \<Rightarrow> bytes \<Rightarrow> timestamp \<Rightarrow> timestamp \<Rightarrow> timestamp \<Rightarrow> db \<Rightarrow> db" where
  [repo_defs]: "update_custody_success cr cid refresh_tok access_tok access_exp next_refresh now d =
     d\<lparr>custody_tbl := sql_update (\<lambda>c. c_custody_id c = cid)
        (\<lambda>c. c\<lparr>c_refresh_tok := cseal cr refresh_tok (custody_context cid ''refresh''),
               c_access_tok := cseal cr access_tok (custody_context cid ''access''),
               c_access_exp := access_exp, c_next_refresh := next_refresh,
               c_status := ''ok'', c_fail_count := 0, c_updated_at := now\<rparr>)
        (custody_tbl d)\<rparr>"

definition update_custody_failure ::
  "custody_id \<Rightarrow> custody_status \<Rightarrow> int \<Rightarrow> timestamp \<Rightarrow> timestamp \<Rightarrow> db \<Rightarrow> db" where
  [repo_defs]: "update_custody_failure cid st fails next_refresh now d =
     d\<lparr>custody_tbl := sql_update (\<lambda>c. c_custody_id c = cid)
        (\<lambda>c. c\<lparr>c_status := custody_status_to_str st, c_fail_count := fails,
               c_next_refresh := next_refresh, c_updated_at := now\<rparr>)
        (custody_tbl d)\<rparr>"

text \<open>The schedule columns of every custody that is not dead, in \<open>next_refresh\<close> order.\<close>

record custody_schedule =
  cs_custody_id :: custody_id
  cs_access_exp :: timestamp
  cs_next_refresh :: timestamp
  cs_status :: custody_status
  cs_fail_count :: int

definition live_custody_schedules :: "db \<Rightarrow> repo_error + custody_schedule list" where
  "live_custody_schedules d =
     mapE (\<lambda>c. bindE (custody_status_from_str (c_status c)) (\<lambda>st.
            Inr \<lparr>cs_custody_id = c_custody_id c, cs_access_exp = c_access_exp c,
                 cs_next_refresh = c_next_refresh c, cs_status = st,
                 cs_fail_count = c_fail_count c\<rparr>))
       (sort_key c_next_refresh (filter (\<lambda>c. c_status c \<noteq> ''dead'') (custody_tbl d)))"

section \<open>session\<close>

definition insert_session :: "session_row \<Rightarrow> db \<Rightarrow> repo_error + db" where
  [repo_defs]: "insert_session row d =
     (if sql_exists (\<lambda>s. s_sid s = sr_sid row) (session_tbl d) then Inl (Sqlite Unique_Violation)
      else if \<not> sql_exists (\<lambda>c. c_custody_id c = sr_custody_id row) (custody_tbl d)
      then Inl (Sqlite Foreign_Key_Violation)
      else Inr (d\<lparr>session_tbl := session_tbl d @
        [\<lparr>s_sid = sr_sid row, s_custody_id = sr_custody_id row, s_sub = sr_sub row,
          s_current_gen = int (sr_current_gen row), s_idle_exp = sr_idle_exp row,
          s_absolute_exp = sr_absolute_exp row,
          s_status = session_status_to_str (sr_status row), s_created_at = sr_created_at row,
          s_meta = sr_meta row, s_tombstoned_at = None,
          s_provider_id =
            (case sql_find (\<lambda>c. c_custody_id c = sr_custody_id row) (custody_tbl d) of
               None \<Rightarrow> ''default'' | Some c \<Rightarrow> c_provider_id c)\<rparr>]\<rparr>))"

definition update_session_progress :: "sid \<Rightarrow> nat \<Rightarrow> timestamp \<Rightarrow> db \<Rightarrow> db" where
  [repo_defs]: "update_session_progress i current_gen idle_exp d =
     d\<lparr>session_tbl := sql_update (\<lambda>s. s_sid s = i)
        (\<lambda>s. s\<lparr>s_current_gen := int current_gen, s_idle_exp := idle_exp\<rparr>) (session_tbl d)\<rparr>"

definition tombstone_session_row :: "sid \<Rightarrow> timestamp \<Rightarrow> db \<Rightarrow> db" where
  [repo_defs]: "tombstone_session_row i now d =
     d\<lparr>session_tbl := sql_update (\<lambda>s. s_sid s = i)
        (\<lambda>s. s\<lparr>s_status := ''tombstoned'',
               s_tombstoned_at := (case s_tombstoned_at s of None \<Rightarrow> Some now | Some t \<Rightarrow> Some t)\<rparr>)
        (session_tbl d)\<rparr>"

text \<open>A stored session as the row the callers see; the counter is read back \<open>as u32\<close>.\<close>

definition session_row_of :: "db_session \<Rightarrow> repo_error + session_row" where
  "session_row_of s =
     bindE (session_status_from_str (s_status s)) (\<lambda>st.
       Inr \<lparr>sr_sid = s_sid s, sr_custody_id = s_custody_id s, sr_sub = s_sub s,
            sr_current_gen = nat (s_current_gen s mod 2 ^ 32), sr_idle_exp = s_idle_exp s,
            sr_absolute_exp = s_absolute_exp s, sr_status = st, sr_created_at = s_created_at s,
            sr_meta = s_meta s\<rparr>)"

definition load_session :: "sid \<Rightarrow> db \<Rightarrow> repo_error + session_row option" where
  "load_session i d =
     (case sql_find (\<lambda>s. s_sid s = i) (session_tbl d) of
        None \<Rightarrow> Inr None
      | Some s \<Rightarrow> bindE (session_row_of s) (\<lambda>r. Inr (Some r)))"

section \<open>generation\<close>

definition insert_generation ::
  "sid \<Rightarrow> nat \<Rightarrow> token_hash \<Rightarrow> timestamp \<Rightarrow> timestamp \<Rightarrow> db \<Rightarrow> repo_error + db" where
  [repo_defs]: "insert_generation i gen_no hash created_at active_until d =
     (if sql_exists (\<lambda>g. g_token_hash g = hash) (generation_tbl d)
      then Inl (Sqlite Unique_Violation)
      else if \<not> sql_exists (\<lambda>s. s_sid s = i) (session_tbl d)
      then Inl (Sqlite Foreign_Key_Violation)
      else Inr (d\<lparr>generation_tbl := generation_tbl d @
        [\<lparr>g_token_hash = hash, g_sid = i, g_gen_no = int gen_no, g_created_at = created_at,
          g_active_until = active_until, g_superseded_at = None\<rparr>]\<rparr>))"

definition update_generation_superseded :: "token_hash \<Rightarrow> timestamp \<Rightarrow> db \<Rightarrow> db" where
  [repo_defs]: "update_generation_superseded hash at d =
     d\<lparr>generation_tbl := sql_update (\<lambda>g. g_token_hash g = hash)
        (\<lambda>g. g\<lparr>g_superseded_at := Some at\<rparr>) (generation_tbl d)\<rparr>"

definition delete_generation :: "token_hash \<Rightarrow> db \<Rightarrow> db" where
  [repo_defs]: "delete_generation hash d =
     d\<lparr>generation_tbl := sql_delete (\<lambda>g. g_token_hash g = hash) (generation_tbl d)\<rparr>"

section \<open>txn\<close>

definition insert_txn :: "txn_row \<Rightarrow> db \<Rightarrow> repo_error + db" where
  [repo_defs]: "insert_txn row d =
     (if sql_exists (\<lambda>t. tx_txn_id t = tx_txn_id row) (txn_tbl d)
      then Inl (Sqlite Unique_Violation)
      else Inr (d\<lparr>txn_tbl := txn_tbl d @ [row]\<rparr>))"

text \<open>\<open>take_txn\<close>: the read and the delete are one transaction.\<close>

definition take_txn :: "bytes \<Rightarrow> db \<Rightarrow> txn_row option \<times> db" where
  [repo_defs]: "take_txn txn d =
     (case sql_find (\<lambda>t. tx_txn_id t = txn) (txn_tbl d) of
        None \<Rightarrow> (None, d)
      | Some row \<Rightarrow>
          (Some row, d\<lparr>txn_tbl := sql_delete (\<lambda>t. tx_txn_id t = txn) (txn_tbl d)\<rparr>))"

definition delete_expired_txns :: "timestamp \<Rightarrow> db \<Rightarrow> db \<times> nat" where
  [repo_defs]: "delete_expired_txns before d =
     (d\<lparr>txn_tbl := sql_delete (\<lambda>t. tx_created_at t < before) (txn_tbl d)\<rparr>,
      sql_count (\<lambda>t. tx_created_at t < before) (txn_tbl d))"

section \<open>The reaper\<close>

record reap_outcome =
  ro_generations :: nat
  ro_sessions :: nat
  ro_txns :: nat
  ro_custodies :: nat

definition doomed :: "timestamp \<Rightarrow> db_session \<Rightarrow> bool" where
  "doomed dead_before s \<longleftrightarrow>
     (s_status s = ''tombstoned'' \<and>
      (case s_tombstoned_at s of None \<Rightarrow> False | Some t \<Rightarrow> t < dead_before))
     \<or> s_absolute_exp s < dead_before"

text \<open>
  \<open>reap\<close>: four deletes in order. The second one is the only one a foreign key could refuse, so
  it carries the check; the fourth excludes referenced rows itself.
\<close>

definition reap :: "timestamp \<Rightarrow> timestamp \<Rightarrow> db \<Rightarrow> repo_error + db \<times> reap_outcome" where
  [repo_defs]: "reap dead_before txn_before d =
     (let sids = map s_sid (filter (doomed dead_before) (session_tbl d));
          gone_g = (\<lambda>g. g_sid g \<in> set sids);
          d1 = d\<lparr>generation_tbl := sql_delete gone_g (generation_tbl d)\<rparr>;
          gone_s = (\<lambda>s. s_sid s \<in> set sids);
          d2 = d1\<lparr>session_tbl := sql_delete gone_s (session_tbl d1)\<rparr>
      in if sql_exists (\<lambda>g. g_sid g \<in> set sids) (generation_tbl d1)
         then Inl (Sqlite Foreign_Key_Violation)
         else
           let gone_t = (\<lambda>t. tx_created_at t < txn_before);
               d3 = d2\<lparr>txn_tbl := sql_delete gone_t (txn_tbl d2)\<rparr>;
               gone_c = (\<lambda>c. c_custody_id c \<notin> set (map s_custody_id (session_tbl d3)));
               d4 = d3\<lparr>custody_tbl := sql_delete gone_c (custody_tbl d3)\<rparr>
           in Inr (d4, \<lparr>ro_generations = sql_count gone_g (generation_tbl d),
                        ro_sessions = sql_count gone_s (session_tbl d1),
                        ro_txns = sql_count gone_t (txn_tbl d2),
                        ro_custodies = sql_count gone_c (custody_tbl d3)\<rparr>))"

section \<open>audit\<close>

definition insert_audit :: "audit_row \<Rightarrow> db \<Rightarrow> db" where
  [repo_defs]: "insert_audit row d =
     d\<lparr>audit_tbl := audit_tbl d @ [\<lparr>a_seq = audit_next_seq d + 1, a_row = row\<rparr>],
       audit_next_seq := audit_next_seq d + 1\<rparr>"

definition prune_audit :: "timestamp \<Rightarrow> db \<Rightarrow> db \<times> nat" where
  [repo_defs]: "prune_audit before d =
     (d\<lparr>audit_tbl := sql_delete (\<lambda>a. au_at (a_row a) < before) (audit_tbl d)\<rparr>,
      sql_count (\<lambda>a. au_at (a_row a) < before) (audit_tbl d))"

section \<open>rehydrate\<close>

record rehydrated_session =
  rh_session :: session_row
  rh_generations :: "generation_row list"

text \<open>The join of live sessions with their generations, in the query's order.\<close>

definition rehydrate_rows :: "db \<Rightarrow> (db_session \<times> db_generation) list" where
  "rehydrate_rows d =
     sort_key (\<lambda>(s, g). (s_sid s, g_gen_no g))
       [(s, g). s \<leftarrow> session_tbl d, s_status s = ''alive'', g \<leftarrow> generation_tbl d, g_sid g = s_sid s]"

definition generation_row_of :: "db_generation \<Rightarrow> repo_error + generation_row" where
  "generation_row_of g =
     bindE (hash_bytes_from_blob (g_token_hash g)) (\<lambda>h.
       Inr \<lparr>gr_token_hash = h, gr_sid = g_sid g, gr_gen_no = nat (g_gen_no g mod 2 ^ 32),
            gr_created_at = g_created_at g, gr_active_until = g_active_until g,
            gr_superseded_at = g_superseded_at g\<rparr>)"

text \<open>One turn of the loop: append to the last entry of the same session, or open a new one.\<close>

definition push_row ::
  "session_row \<times> generation_row \<Rightarrow> rehydrated_session list \<Rightarrow> rehydrated_session list" where
  "push_row sg out =
     (if out \<noteq> [] \<and> sr_sid (rh_session (last out)) = sr_sid (fst sg)
      then butlast out @ [(last out)\<lparr>rh_generations := rh_generations (last out) @ [snd sg]\<rparr>]
      else out @ [\<lparr>rh_session = fst sg, rh_generations = [snd sg]\<rparr>])"

definition rehydrate :: "db \<Rightarrow> repo_error + rehydrated_session list" where
  "rehydrate d =
     bindE (mapE (\<lambda>(s, g). bindE (generation_row_of g) (\<lambda>gr.
                    bindE (session_row_of s) (\<lambda>sr. Inr (sr, gr))))
             (rehydrate_rows d))
       (\<lambda>rows. Inr (fold push_row rows []))"

section \<open>Every statement keeps the schema's constraints\<close>

named_theorems db_ok_keeps \<open>operations of the store that keep \<open>db_ok\<close>\<close>

lemmas db_ok_defs = db_ok_def db_keys_ok_def db_fks_ok_def db_audit_ok_def

lemma distinct_map_append1:
  "distinct (map f (xs @ [x])) \<longleftrightarrow> distinct (map f xs) \<and> f x \<notin> f ` set xs"
  by auto

lemma insert_custody_ok [db_ok_keeps]:
  "insert_custody cr row d = Inr d' \<Longrightarrow> db_ok d \<Longrightarrow> db_ok d'"
  by (auto simp: insert_custody_def db_ok_defs sql_simps image_subset_iff split: if_splits)

lemma update_custody_success_ok [db_ok_keeps]:
  "db_ok d \<Longrightarrow> db_ok (update_custody_success cr cid rt at ae nr now d)"
  by (auto simp: update_custody_success_def db_ok_defs sql_simps)

lemma update_custody_failure_ok [db_ok_keeps]:
  "db_ok d \<Longrightarrow> db_ok (update_custody_failure cid st fails nr now d)"
  by (auto simp: update_custody_failure_def db_ok_defs sql_simps)

lemma insert_session_ok [db_ok_keeps]:
  "insert_session row d = Inr d' \<Longrightarrow> db_ok d \<Longrightarrow> db_ok d'"
  by (auto simp: insert_session_def db_ok_defs sql_simps image_subset_iff split: if_splits)

lemma update_session_progress_ok [db_ok_keeps]:
  "db_ok d \<Longrightarrow> db_ok (update_session_progress i g e d)"
  by (auto simp: update_session_progress_def db_ok_defs sql_simps)

lemma tombstone_session_row_ok [db_ok_keeps]:
  "db_ok d \<Longrightarrow> db_ok (tombstone_session_row i now d)"
  by (auto simp: tombstone_session_row_def db_ok_defs sql_simps)

lemma insert_generation_ok [db_ok_keeps]:
  "insert_generation i n h c a d = Inr d' \<Longrightarrow> db_ok d \<Longrightarrow> db_ok d'"
  by (auto simp: insert_generation_def db_ok_defs sql_simps image_subset_iff split: if_splits)

lemma update_generation_superseded_ok [db_ok_keeps]:
  "db_ok d \<Longrightarrow> db_ok (update_generation_superseded h at d)"
  by (auto simp: update_generation_superseded_def db_ok_defs sql_simps)

lemma delete_generation_ok [db_ok_keeps]: "db_ok d \<Longrightarrow> db_ok (delete_generation h d)"
  by (auto simp: delete_generation_def db_ok_defs sql_simps)

lemma insert_txn_ok [db_ok_keeps]: "insert_txn row d = Inr d' \<Longrightarrow> db_ok d \<Longrightarrow> db_ok d'"
  by (auto simp: insert_txn_def db_ok_defs sql_simps image_subset_iff split: if_splits)

lemma take_txn_ok [db_ok_keeps]: "db_ok d \<Longrightarrow> db_ok (snd (take_txn t d))"
  by (auto simp: take_txn_def db_ok_defs sql_simps split: option.split)

lemma delete_expired_txns_ok [db_ok_keeps]: "db_ok d \<Longrightarrow> db_ok (fst (delete_expired_txns b d))"
  by (auto simp: delete_expired_txns_def db_ok_defs sql_simps)

lemma insert_audit_ok [db_ok_keeps]: "db_ok d \<Longrightarrow> db_ok (insert_audit row d)"
  by (fastforce simp: insert_audit_def db_ok_defs sorted_wrt_append)

lemma sorted_wrt_sql_delete: "sorted_wrt r (map f t) \<Longrightarrow> sorted_wrt r (map f (sql_delete p t))"
  by (simp add: sql_delete_def sorted_wrt_map sorted_wrt_filter)

lemma prune_audit_ok [db_ok_keeps]: "db_ok d \<Longrightarrow> db_ok (fst (prune_audit b d))"
  by (auto simp: prune_audit_def db_ok_defs sql_simps sorted_wrt_sql_delete)

section \<open>The reaper\<close>

text \<open>
  The deletes never run into a foreign key, so \<open>reap\<close> always succeeds, and what is left is
  described exactly.
\<close>

definition reaped :: "timestamp \<Rightarrow> timestamp \<Rightarrow> db \<Rightarrow> db" where
  "reaped dead_before txn_before d =
     (let sids = s_sid ` {s \<in> set (session_tbl d). doomed dead_before s};
          ss = filter (\<lambda>s. s_sid s \<notin> sids) (session_tbl d)
      in d\<lparr>generation_tbl := filter (\<lambda>g. g_sid g \<notin> sids) (generation_tbl d),
           session_tbl := ss,
           txn_tbl := filter (\<lambda>t. \<not> tx_created_at t < txn_before) (txn_tbl d),
           custody_tbl := filter (\<lambda>c. c_custody_id c \<in> s_custody_id ` set ss) (custody_tbl d)\<rparr>)"

lemma reap_total: "\<exists>out. reap dead_before txn_before d = Inr (reaped dead_before txn_before d, out)"
  by (auto simp: reap_def reaped_def Let_def sql_delete_def sql_exists_iff)

lemma reap_Inr: "reap dead_before txn_before d = Inr (d', out) \<Longrightarrow> d' = reaped dead_before txn_before d"
  using reap_total [of dead_before txn_before d] by auto

lemma image_kept: "x \<in> A \<Longrightarrow> f x \<in> g ` B \<Longrightarrow> f x \<in> g ` {c \<in> B. g c \<in> f ` A}"
  by (elim imageE, rule_tac x = xa in image_eqI) (simp_all add: image_iff, metis)

lemma reaped_ok [db_ok_keeps]: "db_ok d \<Longrightarrow> db_ok (reaped dead_before txn_before d)"
  by (auto simp: reaped_def Let_def db_ok_defs distinct_map_filter image_subset_iff intro!: image_kept)

lemma reap_ok [db_ok_keeps]: "reap b t d = Inr (d', out) \<Longrightarrow> db_ok d \<Longrightarrow> db_ok d'"
  by (auto dest: reap_Inr intro: reaped_ok)

lemma reaped_session_iff:
  assumes "db_ok d"
  shows "s \<in> set (session_tbl (reaped b t d)) \<longleftrightarrow> s \<in> set (session_tbl d) \<and> \<not> doomed b s"
proof -
  have "inj_on s_sid (set (session_tbl d))"
    using assms by (simp add: db_ok_defs distinct_map)
  then show ?thesis
    by (auto simp: reaped_def Let_def inj_on_def)
qed

end
