(* ===== verification/Repo_Admin.thy ===== *)
theory Repo_Admin
  imports Repo
begin

text \<open>
  \<open>store/repo.rs\<close>, the admin and issuer side: backend API keys, token-signing keys, identity
  providers, tenants, principals with their secrets, and user grants. JSON list columns go
  through \<open>serde_json\<close>, which is not part of the program: its writer and reader are the
  argument \<open>js\<close>. Mutations give the database and whether a row changed, the value the admin
  lane turns into a 404 or 409.
\<close>

record json =
  to_json :: "string list \<Rightarrow> string"
  from_json :: "string \<Rightarrow> string list option"

definition json_ok :: "json \<Rightarrow> bool" where
  "json_ok js \<longleftrightarrow> (\<forall>xs. from_json js (to_json js xs) = Some xs)"

definition json_list :: "json \<Rightarrow> string \<Rightarrow> repo_error + string list" where
  "json_list js raw =
     (case from_json js raw of None \<Rightarrow> Inl (Corrupt ''not a JSON array of strings'') | Some xs \<Rightarrow> Inr xs)"

section \<open>api\_key\<close>

definition insert_api_key ::
  "string \<Rightarrow> string \<Rightarrow> bytes \<Rightarrow> string option \<Rightarrow> timestamp \<Rightarrow> db \<Rightarrow> repo_error + db" where
  [repo_defs]: "insert_api_key key_id name key_hash created_by now d =
     (if sql_exists (\<lambda>k. k_key_id k = key_id \<or> k_key_hash k = key_hash) (api_key_tbl d)
      then Inl (Sqlite Unique_Violation)
      else Inr (d\<lparr>api_key_tbl := api_key_tbl d @
        [\<lparr>k_key_id = key_id, k_name = name, k_key_hash = key_hash, k_created_at = now,
          k_created_by = created_by, k_last_used_at = None, k_revoked_at = None\<rparr>]\<rparr>))"

definition find_live_api_key :: "bytes \<Rightarrow> db \<Rightarrow> db_api_key option" where
  "find_live_api_key key_hash d =
     sql_find (\<lambda>k. k_key_hash k = key_hash \<and> k_revoked_at k = None) (api_key_tbl d)"

definition revoke_api_key :: "string \<Rightarrow> timestamp \<Rightarrow> db \<Rightarrow> db \<times> bool" where
  [repo_defs]: "revoke_api_key key_id now d =
     (let p = (\<lambda>k. k_key_id k = key_id \<and> k_revoked_at k = None)
      in (d\<lparr>api_key_tbl := sql_update p (\<lambda>k. k\<lparr>k_revoked_at := Some now\<rparr>) (api_key_tbl d)\<rparr>,
          0 < sql_count p (api_key_tbl d)))"

definition touch_api_key :: "string \<Rightarrow> timestamp \<Rightarrow> db \<Rightarrow> db" where
  [repo_defs]: "touch_api_key key_id now d =
     d\<lparr>api_key_tbl := sql_update (\<lambda>k. k_key_id k = key_id)
        (\<lambda>k. k\<lparr>k_last_used_at := Some now\<rparr>) (api_key_tbl d)\<rparr>"

section \<open>signing\_key\<close>

record new_signing_key =
  nk_kid :: string
  nk_public_key :: bytes
  nk_seed :: bytes

definition insert_signing_key ::
  "crypto \<Rightarrow> new_signing_key \<Rightarrow> timestamp \<Rightarrow> timestamp \<Rightarrow> db \<Rightarrow> repo_error + db" where
  [repo_defs]: "insert_signing_key cr key now activate_at d =
     (if sql_exists (\<lambda>k. sk_kid k = nk_kid key) (signing_key_tbl d)
      then Inl (Sqlite Unique_Violation)
      else Inr (d\<lparr>signing_key_tbl := signing_key_tbl d @
        [\<lparr>sk_kid = nk_kid key, sk_public_key = nk_public_key key,
          sk_seed_sealed = cseal cr (nk_seed key) (signing_seed_context (nk_kid key)),
          sk_created_at = now, sk_activate_at = activate_at, sk_retire_at = None,
          sk_removed_at = None\<rparr>]\<rparr>))"

text \<open>\<open>retire_at IS NULL OR retire_at > ?\<close>\<close>

definition open_past :: "timestamp \<Rightarrow> timestamp option \<Rightarrow> bool" where
  "open_past at t \<longleftrightarrow> (case t of None \<Rightarrow> True | Some r \<Rightarrow> at < r)"

definition rotate_signing_key ::
  "crypto \<Rightarrow> new_signing_key \<Rightarrow> timestamp \<Rightarrow> timestamp \<Rightarrow> timestamp \<Rightarrow> db \<Rightarrow> repo_error + db" where
  [repo_defs]: "rotate_signing_key cr key now activate_at retire_at d =
     (let d1 = d\<lparr>signing_key_tbl :=
            sql_update (\<lambda>k. sk_removed_at k = None \<and> open_past retire_at (sk_retire_at k))
              (\<lambda>k. k\<lparr>sk_retire_at := Some retire_at\<rparr>) (signing_key_tbl d)\<rparr>;
          d2 = d1\<lparr>signing_key_tbl :=
            sql_update (\<lambda>k. sk_removed_at k = None \<and> activate_at < sk_activate_at k \<and>
                            open_past now (sk_retire_at k))
              (\<lambda>k. k\<lparr>sk_retire_at := Some now\<rparr>) (signing_key_tbl d1)\<rparr>
      in insert_signing_key cr key now activate_at d2)"

text \<open>Newest first: \<open>activate_at\<close>, then \<open>created_at\<close>, then \<open>rowid\<close>, all descending.\<close>

definition signing_key_order :: "db_signing_key list \<Rightarrow> db_signing_key list" where
  "signing_key_order t = rev (sort_key (\<lambda>k. (sk_activate_at k, sk_created_at k)) t)"

definition retire_due :: "timestamp \<Rightarrow> db_signing_key \<Rightarrow> bool" where
  "retire_due now k \<longleftrightarrow>
     sk_removed_at k = None \<and> (case sk_retire_at k of None \<Rightarrow> False | Some r \<Rightarrow> r \<le> now)"

definition retired_signing_keys_due :: "timestamp \<Rightarrow> db \<Rightarrow> string list" where
  "retired_signing_keys_due now d = map sk_kid (filter (retire_due now) (signing_key_tbl d))"

definition remove_retired_signing_key :: "string \<Rightarrow> timestamp \<Rightarrow> db \<Rightarrow> db \<times> bool" where
  [repo_defs]: "remove_retired_signing_key kid now d =
     (let p = (\<lambda>k. sk_kid k = kid \<and> retire_due now k)
      in (d\<lparr>signing_key_tbl :=
              sql_update p (\<lambda>k. k\<lparr>sk_removed_at := Some now\<rparr>) (signing_key_tbl d)\<rparr>,
          0 < sql_count p (signing_key_tbl d)))"

section \<open>identity\_provider\<close>

record new_provider =
  np_id :: string
  np_preset :: string
  np_display_name :: string
  np_issuer_url :: string
  np_client_id :: string
  np_client_secret :: bytes
  np_scopes :: "string list"
  np_enabled :: bool

record provider_update =
  pu_id :: string
  pu_preset :: string
  pu_display_name :: string
  pu_issuer_url :: string
  pu_client_id :: string
  pu_client_secret :: "bytes option"
  pu_scopes :: "string list"
  pu_enabled :: bool

definition insert_provider ::
  "crypto \<Rightarrow> json \<Rightarrow> new_provider \<Rightarrow> timestamp \<Rightarrow> db \<Rightarrow> db \<times> bool" where
  [repo_defs]: "insert_provider cr js p now d =
     (let sealed = cseal cr (np_client_secret p) (provider_secret_context (np_id p));
          revive = (\<lambda>r. ip_id r = np_id p \<and> ip_deleted_at r \<noteq> None \<and>
                        ip_issuer_url r = np_issuer_url p)
      in if sql_exists (\<lambda>r. ip_id r = np_id p) (provider_tbl d)
         then (d\<lparr>provider_tbl := sql_update revive
                 (\<lambda>r. r\<lparr>ip_preset := np_preset p, ip_display_name := np_display_name p,
                        ip_client_id := np_client_id p, ip_client_secret_sealed := sealed,
                        ip_scopes := to_json js (np_scopes p), ip_enabled := np_enabled p,
                        ip_created_at := now, ip_updated_at := now, ip_deleted_at := None\<rparr>)
                 (provider_tbl d)\<rparr>,
               0 < sql_count revive (provider_tbl d))
         else (d\<lparr>provider_tbl := provider_tbl d @
                 [\<lparr>ip_id = np_id p, ip_preset = np_preset p, ip_display_name = np_display_name p,
                   ip_issuer_url = np_issuer_url p, ip_client_id = np_client_id p,
                   ip_client_secret_sealed = sealed, ip_scopes = to_json js (np_scopes p),
                   ip_enabled = np_enabled p, ip_created_at = now, ip_updated_at = now,
                   ip_deleted_at = None\<rparr>]\<rparr>, True))"

definition update_provider ::
  "crypto \<Rightarrow> json \<Rightarrow> provider_update \<Rightarrow> timestamp \<Rightarrow> db \<Rightarrow> db \<times> bool" where
  [repo_defs]: "update_provider cr js p now d =
     (let sel = (\<lambda>r. ip_id r = pu_id p \<and> ip_deleted_at r = None)
      in (d\<lparr>provider_tbl := sql_update sel
              (\<lambda>r. r\<lparr>ip_preset := pu_preset p, ip_display_name := pu_display_name p,
                     ip_issuer_url := pu_issuer_url p, ip_client_id := pu_client_id p,
                     ip_client_secret_sealed :=
                       (case pu_client_secret p of
                          None \<Rightarrow> ip_client_secret_sealed r
                        | Some s \<Rightarrow> cseal cr s (provider_secret_context (pu_id p))),
                     ip_scopes := to_json js (pu_scopes p), ip_enabled := pu_enabled p,
                     ip_updated_at := now\<rparr>)
              (provider_tbl d)\<rparr>,
          0 < sql_count sel (provider_tbl d)))"

definition delete_provider :: "string \<Rightarrow> timestamp \<Rightarrow> db \<Rightarrow> db \<times> bool" where
  [repo_defs]: "delete_provider i now d =
     (let sel = (\<lambda>r. ip_id r = i \<and> ip_deleted_at r = None)
      in (d\<lparr>provider_tbl := sql_update sel
              (\<lambda>r. r\<lparr>ip_deleted_at := Some now, ip_updated_at := now, ip_enabled := False,
                     ip_client_secret_sealed := []\<rparr>)
              (provider_tbl d)\<rparr>,
          0 < sql_count sel (provider_tbl d)))"

text \<open>
  \<open>provider_namespace_in_use\<close>: a custody of the provider, or a subject spelled \<open><id>|...\<close> on
  a custody or a grant.
\<close>

definition provider_namespace_in_use :: "string \<Rightarrow> db \<Rightarrow> bool" where
  "provider_namespace_in_use i d \<longleftrightarrow>
     sql_exists (\<lambda>c. c_provider_id c = i \<or> take (length i + 1) (c_sub c) = i @ ''|'') (custody_tbl d)
     \<or> sql_exists (\<lambda>g. take (length i + 1) (ug_sub g) = i @ ''|'') (user_grant_tbl d)"

section \<open>tenant\<close>

definition insert_tenant :: "string \<Rightarrow> string option \<Rightarrow> timestamp \<Rightarrow> db \<Rightarrow> db \<times> bool" where
  [repo_defs]: "insert_tenant tenant display_name now d =
     (if sql_exists (\<lambda>t. t_tenant_id t = tenant) (tenant_tbl d) then (d, False)
      else (d\<lparr>tenant_tbl := tenant_tbl d @
              [\<lparr>t_tenant_id = tenant, t_display_name = display_name, t_created_at = now,
                t_disabled_at = None\<rparr>]\<rparr>, True))"

definition disable_tenant :: "string \<Rightarrow> timestamp \<Rightarrow> db \<Rightarrow> db \<times> bool" where
  [repo_defs]: "disable_tenant tenant now d =
     (let p = (\<lambda>t. t_tenant_id t = tenant \<and> t_disabled_at t = None)
      in (d\<lparr>tenant_tbl := sql_update p (\<lambda>t. t\<lparr>t_disabled_at := Some now\<rparr>) (tenant_tbl d)\<rparr>,
          0 < sql_count p (tenant_tbl d)))"

definition enable_tenant :: "string \<Rightarrow> db \<Rightarrow> db \<times> bool" where
  [repo_defs]: "enable_tenant tenant d =
     (let p = (\<lambda>t. t_tenant_id t = tenant \<and> t_disabled_at t \<noteq> None)
      in (d\<lparr>tenant_tbl := sql_update p (\<lambda>t. t\<lparr>t_disabled_at := None\<rparr>) (tenant_tbl d)\<rparr>,
          0 < sql_count p (tenant_tbl d)))"

definition tenant_is_disabled :: "string \<Rightarrow> db \<Rightarrow> bool" where
  "tenant_is_disabled tenant d =
     (case sql_find (\<lambda>t. t_tenant_id t = tenant) (tenant_tbl d) of
        None \<Rightarrow> False | Some t \<Rightarrow> t_disabled_at t \<noteq> None)"

definition ensure_tenant :: "string \<Rightarrow> timestamp \<Rightarrow> db \<Rightarrow> db \<times> bool" where
  [repo_defs]: "ensure_tenant tenant now d =
     (let d' = fst (insert_tenant tenant None now d) in (d', \<not> tenant_is_disabled tenant d'))"

section \<open>principal and principal\_secret\<close>

record new_secret =
  ns_secret_id :: string
  ns_hash :: bytes
  ns_expires_at :: "timestamp option"

record new_principal =
  npr_principal_id :: string
  npr_tenant_id :: string
  npr_name :: string
  npr_kind :: string
  npr_scopes :: "string list"
  npr_indexes :: "string list"
  npr_audience :: string
  npr_max_ttl_secs :: nat
  npr_created_by :: "string option"
  npr_secret :: new_secret

definition insert_secret :: "string \<Rightarrow> new_secret \<Rightarrow> timestamp \<Rightarrow> db \<Rightarrow> repo_error + db" where
  [repo_defs]: "insert_secret pid secret now d =
     (if sql_exists (\<lambda>s. ps_secret_id s = ns_secret_id secret \<or> ps_secret_hash s = ns_hash secret)
           (secret_tbl d)
      then Inl (Sqlite Unique_Violation)
      else if \<not> sql_exists (\<lambda>p. p_principal_id p = pid) (principal_tbl d)
      then Inl (Sqlite Foreign_Key_Violation)
      else Inr (d\<lparr>secret_tbl := secret_tbl d @
        [\<lparr>ps_secret_id = ns_secret_id secret, ps_principal_id = pid,
          ps_secret_hash = ns_hash secret, ps_created_at = now,
          ps_expires_at = ns_expires_at secret, ps_revoked_at = None\<rparr>]\<rparr>))"

text \<open>
  \<open>insert_principal\<close>. The upsert's conflict target is \<open>(tenant_id, name)\<close>, so that clash does
  nothing, while a clash of \<open>principal_id\<close> or an unknown \<open>kind\<close> is an error.
\<close>

definition insert_principal ::
  "json \<Rightarrow> new_principal \<Rightarrow> timestamp \<Rightarrow> db \<Rightarrow> repo_error + db \<times> bool" where
  [repo_defs]: "insert_principal js p now d =
     (case ensure_tenant (npr_tenant_id p) now d of (d1, enabled) \<Rightarrow>
        if \<not> enabled then Inr (d1, False)
        else if npr_kind p \<notin> set principal_kinds then Inl (Sqlite Check_Violation)
        else if sql_exists (\<lambda>r. p_tenant_id r = npr_tenant_id p \<and> p_name r = npr_name p)
                  (principal_tbl d1)
        then Inr (d1, False)
        else if sql_exists (\<lambda>r. p_principal_id r = npr_principal_id p) (principal_tbl d1)
        then Inl (Sqlite Unique_Violation)
        else
          let d2 = d1\<lparr>principal_tbl := principal_tbl d1 @
                [\<lparr>p_principal_id = npr_principal_id p, p_tenant_id = npr_tenant_id p,
                  p_name = npr_name p, p_kind = npr_kind p, p_scope = to_json js (npr_scopes p),
                  p_indexes = to_json js (npr_indexes p), p_audience = npr_audience p,
                  p_max_ttl_secs = wrap_i64 (int (npr_max_ttl_secs p)), p_created_at = now,
                  p_created_by = npr_created_by p, p_last_used_at = None,
                  p_revoked_at = None\<rparr>]\<rparr>
          in bindE (insert_secret (npr_principal_id p) (npr_secret p) now d2)
               (\<lambda>d3. Inr (d3, True)))"

definition revoke_principal :: "string \<Rightarrow> timestamp \<Rightarrow> db \<Rightarrow> db \<times> bool" where
  [repo_defs]: "revoke_principal pid now d =
     (let p = (\<lambda>r. p_principal_id r = pid \<and> p_revoked_at r = None)
      in (d\<lparr>principal_tbl := sql_update p (\<lambda>r. r\<lparr>p_revoked_at := Some now\<rparr>) (principal_tbl d)\<rparr>,
          0 < sql_count p (principal_tbl d)))"

definition touch_principal :: "string \<Rightarrow> timestamp \<Rightarrow> db \<Rightarrow> db" where
  [repo_defs]: "touch_principal pid now d =
     d\<lparr>principal_tbl := sql_update (\<lambda>r. p_principal_id r = pid)
        (\<lambda>r. r\<lparr>p_last_used_at := Some now\<rparr>) (principal_tbl d)\<rparr>"

definition add_principal_secret ::
  "string \<Rightarrow> new_secret \<Rightarrow> timestamp option \<Rightarrow> timestamp \<Rightarrow> db \<Rightarrow> repo_error + db \<times> bool" where
  [repo_defs]: "add_principal_secret pid secret expire_others_at now d =
     (if \<not> sql_exists (\<lambda>r. p_principal_id r = pid \<and> p_revoked_at r = None) (principal_tbl d)
      then Inr (d, False)
      else
        let d1 = (case expire_others_at of
                    None \<Rightarrow> d
                  | Some at \<Rightarrow>
                      d\<lparr>secret_tbl := sql_update
                         (\<lambda>s. ps_principal_id s = pid \<and> ps_revoked_at s = None \<and>
                              open_past at (ps_expires_at s))
                         (\<lambda>s. s\<lparr>ps_expires_at := Some at\<rparr>) (secret_tbl d)\<rparr>)
        in bindE (insert_secret pid secret now d1) (\<lambda>d2. Inr (d2, True)))"

definition revoke_principal_secret ::
  "string \<Rightarrow> string \<Rightarrow> timestamp \<Rightarrow> db \<Rightarrow> db \<times> bool" where
  [repo_defs]: "revoke_principal_secret pid secret now d =
     (let p = (\<lambda>s. ps_secret_id s = secret \<and> ps_principal_id s = pid \<and>
                   ps_revoked_at s = None)
      in (d\<lparr>secret_tbl := sql_update p (\<lambda>s. s\<lparr>ps_revoked_at := Some now\<rparr>) (secret_tbl d)\<rparr>,
          0 < sql_count p (secret_tbl d)))"

text \<open>\<open>SecretRow::live_at\<close> and the query of \<open>find_live_principal_by_secret\<close>.\<close>

definition secret_live_at :: "timestamp \<Rightarrow> db_secret \<Rightarrow> bool" where
  "secret_live_at now s \<longleftrightarrow> ps_revoked_at s = None \<and> open_past now (ps_expires_at s)"

record principal_row =
  pr_principal_id :: string
  pr_tenant_id :: string
  pr_name :: string
  pr_kind :: string
  pr_scopes :: "string list"
  pr_indexes :: "string list"
  pr_audience :: string
  pr_max_ttl_secs :: nat
  pr_created_at :: timestamp
  pr_created_by :: "string option"
  pr_last_used_at :: "timestamp option"
  pr_revoked_at :: "timestamp option"

definition principal_row_of :: "json \<Rightarrow> db_principal \<Rightarrow> repo_error + principal_row" where
  "principal_row_of js p =
     bindE (json_list js (p_scope p)) (\<lambda>scopes.
     bindE (json_list js (p_indexes p)) (\<lambda>indexes.
       Inr \<lparr>pr_principal_id = p_principal_id p, pr_tenant_id = p_tenant_id p, pr_name = p_name p,
            pr_kind = p_kind p, pr_scopes = scopes, pr_indexes = indexes,
            pr_audience = p_audience p, pr_max_ttl_secs = nat (max 0 (p_max_ttl_secs p)),
            pr_created_at = p_created_at p, pr_created_by = p_created_by p,
            pr_last_used_at = p_last_used_at p, pr_revoked_at = p_revoked_at p\<rparr>))"

definition live_principal_rows :: "bytes \<Rightarrow> timestamp \<Rightarrow> db \<Rightarrow> db_principal list" where
  "live_principal_rows secret_hash now d =
     [p. s \<leftarrow> secret_tbl d, ps_secret_hash s = secret_hash, secret_live_at now s,
         p \<leftarrow> principal_tbl d, p_principal_id p = ps_principal_id s, p_revoked_at p = None,
         t \<leftarrow> tenant_tbl d, t_tenant_id t = p_tenant_id p, t_disabled_at t = None]"

definition find_live_principal_by_secret ::
  "json \<Rightarrow> bytes \<Rightarrow> timestamp \<Rightarrow> db \<Rightarrow> repo_error + principal_row option" where
  "find_live_principal_by_secret js secret_hash now d =
     (case live_principal_rows secret_hash now d of
        [] \<Rightarrow> Inr None
      | p # _ \<Rightarrow> bindE (principal_row_of js p) (\<lambda>r. Inr (Some r)))"

section \<open>user\_grant\<close>

record new_user_grant =
  ng_sub :: string
  ng_tenant_id :: string
  ng_roles :: "string list"
  ng_indexes :: "string list"
  ng_created_by :: "string option"

definition insert_user_grant :: "json \<Rightarrow> new_user_grant \<Rightarrow> timestamp \<Rightarrow> db \<Rightarrow> db \<times> bool" where
  [repo_defs]: "insert_user_grant js g now d =
     (case ensure_tenant (ng_tenant_id g) now d of (d1, enabled) \<Rightarrow>
        if \<not> enabled then (d1, False)
        else
          let same = (\<lambda>r. ug_sub r = ng_sub g \<and> ug_tenant_id r = ng_tenant_id g);
              revive = (\<lambda>r. same r \<and> ug_revoked_at r \<noteq> None)
          in if sql_exists same (user_grant_tbl d1)
             then (d1\<lparr>user_grant_tbl := sql_update revive
                     (\<lambda>r. r\<lparr>ug_roles := to_json js (ng_roles g),
                            ug_indexes := to_json js (ng_indexes g), ug_created_at := now,
                            ug_created_by := ng_created_by g, ug_revoked_at := None\<rparr>)
                     (user_grant_tbl d1)\<rparr>,
                   0 < sql_count revive (user_grant_tbl d1))
             else (d1\<lparr>user_grant_tbl := user_grant_tbl d1 @
                     [\<lparr>ug_sub = ng_sub g, ug_tenant_id = ng_tenant_id g,
                       ug_roles = to_json js (ng_roles g), ug_indexes = to_json js (ng_indexes g),
                       ug_created_at = now, ug_created_by = ng_created_by g,
                       ug_revoked_at = None\<rparr>]\<rparr>, True))"

definition revoke_user_grant :: "string \<Rightarrow> string \<Rightarrow> timestamp \<Rightarrow> db \<Rightarrow> db \<times> bool" where
  [repo_defs]: "revoke_user_grant sub tenant now d =
     (let p = (\<lambda>g. ug_sub g = sub \<and> ug_tenant_id g = tenant \<and> ug_revoked_at g = None)
      in (d\<lparr>user_grant_tbl := sql_update p (\<lambda>g. g\<lparr>ug_revoked_at := Some now\<rparr>) (user_grant_tbl d)\<rparr>,
          0 < sql_count p (user_grant_tbl d)))"

text \<open>The grants a subject can be issued a token on, newest first.\<close>

definition live_user_grants :: "string \<Rightarrow> db \<Rightarrow> db_user_grant list" where
  "live_user_grants sub d =
     rev (sort_key ug_created_at
       [g. g \<leftarrow> user_grant_tbl d, ug_sub g = sub, ug_revoked_at g = None,
           t \<leftarrow> tenant_tbl d, t_tenant_id t = ug_tenant_id g, t_disabled_at t = None])"

section \<open>reseal\<close>

text \<open>
  \<open>reseal_all_with\<close>: every sealed column moved onto the active key of the given keyring. A row
  already under it is left alone, and so is one that does not open.
\<close>

record reseal_report =
  rr_resealed :: nat
  rr_current :: nat
  rr_failed :: nat

definition reseal_count ::
  "('r \<Rightarrow> bool) \<Rightarrow> ('r \<Rightarrow> bool) \<Rightarrow> 'r list \<Rightarrow> reseal_report" where
  "reseal_count current opens rows =
     \<lparr>rr_resealed = length (filter (\<lambda>r. \<not> current r \<and> opens r) rows),
      rr_current = length (filter current rows),
      rr_failed = length (filter (\<lambda>r. \<not> current r \<and> \<not> opens r) rows)\<rparr>"

definition custody_current :: "crypto \<Rightarrow> db_custody \<Rightarrow> bool" where
  "custody_current cr c \<longleftrightarrow> key_id_of (c_refresh_tok c) = Some (cactive cr) \<and>
     key_id_of (c_access_tok c) = Some (cactive cr)"

definition reseal_custody_row :: "crypto \<Rightarrow> db_custody \<Rightarrow> db_custody" where
  "reseal_custody_row cr c =
     (if custody_current cr c then c
      else let rctx = custody_context (c_custody_id c) ''refresh'';
               actx = custody_context (c_custody_id c) ''access''
           in (case (copen cr (c_refresh_tok c) rctx, copen cr (c_access_tok c) actx) of
                 (Inr refresh_plain, Inr access_plain) \<Rightarrow>
                   c\<lparr>c_refresh_tok := cseal cr refresh_plain rctx,
                     c_access_tok := cseal cr access_plain actx\<rparr>
               | _ \<Rightarrow> c))"

definition custody_opens :: "crypto \<Rightarrow> db_custody \<Rightarrow> bool" where
  "custody_opens cr c =
     (case (copen cr (c_refresh_tok c) (custody_context (c_custody_id c) ''refresh''),
            copen cr (c_access_tok c) (custody_context (c_custody_id c) ''access'')) of
        (Inr _, Inr _) \<Rightarrow> True | _ \<Rightarrow> False)"

definition reseal_custody_with :: "crypto \<Rightarrow> db \<Rightarrow> db \<times> reseal_report" where
  [repo_defs]: "reseal_custody_with cr d =
     (d\<lparr>custody_tbl := map (reseal_custody_row cr) (custody_tbl d)\<rparr>,
      reseal_count (custody_current cr) (custody_opens cr) (custody_tbl d))"

definition reseal_signing_row :: "crypto \<Rightarrow> db_signing_key \<Rightarrow> db_signing_key" where
  "reseal_signing_row cr k =
     (if key_id_of (sk_seed_sealed k) = Some (cactive cr) then k
      else let ctx = signing_seed_context (sk_kid k)
           in (case copen cr (sk_seed_sealed k) ctx of
                 Inr seed \<Rightarrow> k\<lparr>sk_seed_sealed := cseal cr seed ctx\<rparr>
               | Inl _ \<Rightarrow> k))"

definition reseal_signing_keys_with :: "crypto \<Rightarrow> db \<Rightarrow> db \<times> reseal_report" where
  [repo_defs]: "reseal_signing_keys_with cr d =
     (d\<lparr>signing_key_tbl := map (reseal_signing_row cr) (signing_key_tbl d)\<rparr>,
      reseal_count (\<lambda>k. key_id_of (sk_seed_sealed k) = Some (cactive cr))
        (\<lambda>k. \<not> isl (copen cr (sk_seed_sealed k) (signing_seed_context (sk_kid k))))
        (signing_key_tbl d))"

definition reseal_provider_row :: "crypto \<Rightarrow> db_provider \<Rightarrow> db_provider" where
  "reseal_provider_row cr r =
     (if ip_deleted_at r \<noteq> None \<or> key_id_of (ip_client_secret_sealed r) = Some (cactive cr) then r
      else let ctx = provider_secret_context (ip_id r)
           in (case copen cr (ip_client_secret_sealed r) ctx of
                 Inr plain \<Rightarrow> r\<lparr>ip_client_secret_sealed := cseal cr plain ctx\<rparr>
               | Inl _ \<Rightarrow> r))"

definition reseal_providers_with :: "crypto \<Rightarrow> db \<Rightarrow> db \<times> reseal_report" where
  [repo_defs]: "reseal_providers_with cr d =
     (d\<lparr>provider_tbl := map (reseal_provider_row cr) (provider_tbl d)\<rparr>,
      reseal_count (\<lambda>r. key_id_of (ip_client_secret_sealed r) = Some (cactive cr))
        (\<lambda>r. \<not> isl (copen cr (ip_client_secret_sealed r) (provider_secret_context (ip_id r))))
        (filter (\<lambda>r. ip_deleted_at r = None) (provider_tbl d)))"

record reseal_all =
  ra_custody :: reseal_report
  ra_signing_keys :: reseal_report
  ra_identity_providers :: reseal_report

definition reseal_all_with :: "crypto \<Rightarrow> db \<Rightarrow> db \<times> reseal_all" where
  [repo_defs]: "reseal_all_with cr d =
     (let (d1, custody) = reseal_custody_with cr d;
          (d2, signing) = reseal_signing_keys_with cr d1;
          (d3, providers) = reseal_providers_with cr d2
      in (d3, \<lparr>ra_custody = custody, ra_signing_keys = signing,
               ra_identity_providers = providers\<rparr>))"

section \<open>Every statement keeps the schema's constraints\<close>

lemma insert_api_key_ok [db_ok_keeps]:
  "insert_api_key i n h c now d = Inr d' \<Longrightarrow> db_ok d \<Longrightarrow> db_ok d'"
  by (auto simp: insert_api_key_def db_ok_defs sql_simps image_subset_iff split: if_splits)

lemma revoke_api_key_ok [db_ok_keeps]: "db_ok d \<Longrightarrow> db_ok (fst (revoke_api_key i now d))"
  by (simp add: revoke_api_key_def Let_def db_ok_defs sql_simps)

lemma touch_api_key_ok [db_ok_keeps]: "db_ok d \<Longrightarrow> db_ok (touch_api_key i now d)"
  by (simp add: touch_api_key_def db_ok_defs sql_simps)

lemma insert_signing_key_ok [db_ok_keeps]:
  "insert_signing_key cr k now a d = Inr d' \<Longrightarrow> db_ok d \<Longrightarrow> db_ok d'"
  by (auto simp: insert_signing_key_def db_ok_defs sql_simps image_subset_iff split: if_splits)

lemma signing_update_ok:
  "(\<And>k. p k \<Longrightarrow> sk_kid (f k) = sk_kid k) \<Longrightarrow> db_ok d \<Longrightarrow>
   db_ok (d\<lparr>signing_key_tbl := sql_update p f (signing_key_tbl d)\<rparr>)"
  by (simp add: db_ok_defs sql_simps)

lemma rotate_signing_key_ok [db_ok_keeps]:
  assumes "rotate_signing_key cr k now a r d = Inr d'" and "db_ok d"
  shows "db_ok d'"
  using assms unfolding rotate_signing_key_def Let_def
  by (elim insert_signing_key_ok) (simp add: db_ok_defs sql_simps)

lemma remove_retired_signing_key_ok [db_ok_keeps]:
  "db_ok d \<Longrightarrow> db_ok (fst (remove_retired_signing_key k now d))"
  by (simp add: remove_retired_signing_key_def Let_def signing_update_ok)

lemma insert_provider_ok [db_ok_keeps]: "db_ok d \<Longrightarrow> db_ok (fst (insert_provider cr js p now d))"
  by (auto simp: insert_provider_def Let_def db_ok_defs sql_simps image_subset_iff)

lemma update_provider_ok [db_ok_keeps]: "db_ok d \<Longrightarrow> db_ok (fst (update_provider cr js p now d))"
  by (simp add: update_provider_def Let_def db_ok_defs sql_simps)

lemma delete_provider_ok [db_ok_keeps]: "db_ok d \<Longrightarrow> db_ok (fst (delete_provider i now d))"
  by (simp add: delete_provider_def Let_def db_ok_defs sql_simps)

lemma insert_tenant_ok [db_ok_keeps]: "db_ok d \<Longrightarrow> db_ok (fst (insert_tenant t n now d))"
  by (auto simp: insert_tenant_def db_ok_defs sql_simps image_subset_iff)

lemma disable_tenant_ok [db_ok_keeps]: "db_ok d \<Longrightarrow> db_ok (fst (disable_tenant t now d))"
  by (simp add: disable_tenant_def Let_def db_ok_defs sql_simps)

lemma enable_tenant_ok [db_ok_keeps]: "db_ok d \<Longrightarrow> db_ok (fst (enable_tenant t d))"
  by (simp add: enable_tenant_def Let_def db_ok_defs sql_simps)

lemma ensure_tenant_props:
  assumes "ensure_tenant t now d = (d', b)" and "db_ok d"
  shows "db_ok d'" and "t \<in> t_tenant_id ` set (tenant_tbl d')"
proof -
  from assms(1) have d': "d' = fst (insert_tenant t None now d)"
    by (simp add: ensure_tenant_def Let_def)
  show "db_ok d'" unfolding d' by (rule insert_tenant_ok [OF assms(2)])
  show "t \<in> t_tenant_id ` set (tenant_tbl d')"
    unfolding d' by (auto simp: insert_tenant_def sql_simps)
qed

lemma insert_secret_ok [db_ok_keeps]:
  "insert_secret p s now d = Inr d' \<Longrightarrow> db_ok d \<Longrightarrow> db_ok d'"
  by (auto simp: insert_secret_def db_ok_defs sql_simps image_subset_iff split: if_splits)

lemma principal_insert_ok:
  assumes "db_ok d" and "p_kind r \<in> set principal_kinds"
    and "p_tenant_id r \<in> t_tenant_id ` set (tenant_tbl d)"
    and "p_principal_id r \<notin> p_principal_id ` set (principal_tbl d)"
    and "(p_tenant_id r, p_name r) \<notin> (\<lambda>p. (p_tenant_id p, p_name p)) ` set (principal_tbl d)"
  shows "db_ok (d\<lparr>principal_tbl := principal_tbl d @ [r]\<rparr>)"
  using assms by (auto simp: db_ok_defs image_subset_iff)

lemma insert_principal_ok [db_ok_keeps]:
  assumes "insert_principal js p now d = Inr (d', b)" and "db_ok d"
  shows "db_ok d'"
proof -
  obtain d1 e where e: "ensure_tenant (npr_tenant_id p) now d = (d1, e)" by fastforce
  note 1 = ensure_tenant_props [OF e assms(2)]
  from assms(1) 1 show ?thesis
    unfolding insert_principal_def e
    by (auto simp: bindE_Inr_iff Let_def sql_exists_iff split: if_splits
        intro!: principal_insert_ok elim!: insert_secret_ok)
qed

lemma revoke_principal_ok [db_ok_keeps]: "db_ok d \<Longrightarrow> db_ok (fst (revoke_principal p now d))"
  by (simp add: revoke_principal_def Let_def db_ok_defs sql_simps)

lemma touch_principal_ok [db_ok_keeps]: "db_ok d \<Longrightarrow> db_ok (touch_principal p now d)"
  by (simp add: touch_principal_def Let_def db_ok_defs sql_simps)

lemma secret_update_ok:
  "(\<And>s. p s \<Longrightarrow> ps_secret_id (f s) = ps_secret_id s \<and> ps_secret_hash (f s) = ps_secret_hash s \<and>
      ps_principal_id (f s) = ps_principal_id s) \<Longrightarrow> db_ok d \<Longrightarrow>
   db_ok (d\<lparr>secret_tbl := sql_update p f (secret_tbl d)\<rparr>)"
  by (simp add: db_ok_defs sql_simps)

lemma add_principal_secret_ok [db_ok_keeps]:
  "add_principal_secret p s e now d = Inr (d', b) \<Longrightarrow> db_ok d \<Longrightarrow> db_ok d'"
  by (auto simp: add_principal_secret_def Let_def bindE_Inr_iff split: if_splits option.splits
      elim!: insert_secret_ok intro!: secret_update_ok)

lemma revoke_principal_secret_ok [db_ok_keeps]:
  "db_ok d \<Longrightarrow> db_ok (fst (revoke_principal_secret p s now d))"
  by (simp add: revoke_principal_secret_def Let_def secret_update_ok)

lemma grant_update_ok:
  "(\<And>g. p g \<Longrightarrow> ug_sub (f g) = ug_sub g \<and> ug_tenant_id (f g) = ug_tenant_id g) \<Longrightarrow> db_ok d \<Longrightarrow>
   db_ok (d\<lparr>user_grant_tbl := sql_update p f (user_grant_tbl d)\<rparr>)"
  by (simp add: db_ok_defs sql_simps)

lemma insert_user_grant_ok [db_ok_keeps]:
  assumes "db_ok d"
  shows "db_ok (fst (insert_user_grant js g now d))"
proof -
  obtain d1 e where e: "ensure_tenant (ng_tenant_id g) now d = (d1, e)" by fastforce
  note 1 = ensure_tenant_props [OF e assms]
  have "db_ok (d1\<lparr>user_grant_tbl := user_grant_tbl d1 @ [r]\<rparr>)"
    if "\<not> sql_exists (\<lambda>r. ug_sub r = ng_sub g \<and> ug_tenant_id r = ng_tenant_id g) (user_grant_tbl d1)"
      and "ug_sub r = ng_sub g" and "ug_tenant_id r = ng_tenant_id g" for r
    using that 1 by (auto simp: db_ok_defs image_subset_iff sql_exists_iff)
  then show ?thesis
    by (auto simp: insert_user_grant_def e Let_def 1 intro!: grant_update_ok)
qed

lemma revoke_user_grant_ok [db_ok_keeps]: "db_ok d \<Longrightarrow> db_ok (fst (revoke_user_grant s t now d))"
  by (simp add: revoke_user_grant_def Let_def grant_update_ok)

lemma map_keep: "(\<And>r. g (f r) = g r) \<Longrightarrow> map g (map f t) = map g t"
  by simp

lemma reseal_row_keeps [simp]:
  "c_custody_id (reseal_custody_row cr c) = c_custody_id c"
  "sk_kid (reseal_signing_row cr k) = sk_kid k"
  "ip_id (reseal_provider_row cr r) = ip_id r"
  by (auto simp: reseal_custody_row_def reseal_signing_row_def reseal_provider_row_def Let_def
      split: sum.split)

lemma reseal_all_with_ok [db_ok_keeps]: "db_ok d \<Longrightarrow> db_ok (fst (reseal_all_with cr d))"
  by (simp add: reseal_all_with_def Let_def reseal_custody_with_def reseal_signing_keys_with_def
      reseal_providers_with_def db_ok_defs comp_def image_image)

end
