(* ===== verification/Writer.thy ===== *)
theory Writer
  imports Repo_Admin
begin

text \<open>
  \<open>store/writer.rs\<close>: the commands of the mutation channel, the batch applied as one
  transaction, and the single writer thread that drains the channel. A channel an ack is sent
  on is its identifier; the acks the thread sent are kept in order. Disk and lock errors come
  from the environment: \<open>io i\<close> says whether the \<open>i\<close>-th step of a batch (0 is the begin, then
  one per command, then the commit) fails for a reason outside the program.
\<close>

section \<open>Commands\<close>

type_synonym ack = nat

datatype custody_write =
    Custody_Insert custody_row
  | Custody_Success custody_id bytes bytes timestamp timestamp timestamp
  | Custody_Failure custody_id custody_status int timestamp timestamp

datatype admin_write =
    InsertApiKey string string bytes "string option" timestamp
  | RevokeApiKey string timestamp
  | TouchApiKey string timestamp
  | InsertSigningKey new_signing_key timestamp
  | RotateSigningKey new_signing_key timestamp timestamp timestamp
  | RemoveRetiredSigningKey string timestamp
  | InsertTenant string "string option" timestamp
  | DisableTenant string timestamp
  | EnableTenant string
  | InsertPrincipal new_principal timestamp
  | RevokePrincipal string timestamp
  | TouchPrincipal string timestamp
  | AddPrincipalSecret string new_secret "timestamp option" timestamp
  | RevokePrincipalSecret string string timestamp
  | InsertUserGrant new_user_grant timestamp
  | RevokeUserGrant string string timestamp
  | InsertProvider new_provider timestamp
  | UpdateProvider provider_update timestamp
  | DeleteProvider string timestamp

fun unapplied_reason :: "admin_write \<Rightarrow> string" where
  "unapplied_reason (InsertTenant _ _ _) = ''conflict''"
| "unapplied_reason (InsertPrincipal _ _) = ''conflict''"
| "unapplied_reason (InsertUserGrant _ _) = ''conflict''"
| "unapplied_reason (InsertProvider _ _) = ''conflict''"
| "unapplied_reason _ = ''not_found''"

datatype command =
    InsertSession session_row
  | UpdateSessionProgress sid nat timestamp
  | TombstoneSession sid timestamp
  | InsertGeneration sid nat token_hash timestamp timestamp
  | SupersedeGeneration token_hash timestamp
  | DeleteGeneration token_hash
  | InsertTxn txn_row
  | DeleteExpiredTxns timestamp
  | Custody custody_write ack
  | Admin admin_write "audit_row option" ack
  | Audit audit_row
  | PruneAudit timestamp
  | Reap timestamp timestamp
  | Reseal
  | Ping
  | Shutdown

section \<open>Applying one command\<close>

fun apply_custody :: "crypto \<Rightarrow> custody_write \<Rightarrow> db \<Rightarrow> repo_error + db" where
  "apply_custody cr (Custody_Insert row) d = insert_custody cr row d"
| "apply_custody cr (Custody_Success cid rt at ae nr now) d =
     Inr (update_custody_success cr cid rt at ae nr now d)"
| "apply_custody cr (Custody_Failure cid st fails nr now) d =
     Inr (update_custody_failure cid st fails nr now d)"

fun apply_admin :: "crypto \<Rightarrow> json \<Rightarrow> admin_write \<Rightarrow> db \<Rightarrow> repo_error + db \<times> bool" where
  "apply_admin cr js (InsertApiKey i n h c now) d =
     bindE (insert_api_key i n h c now d) (\<lambda>d'. Inr (d', True))"
| "apply_admin cr js (RevokeApiKey i now) d = Inr (revoke_api_key i now d)"
| "apply_admin cr js (TouchApiKey i now) d = Inr (touch_api_key i now d, True)"
| "apply_admin cr js (InsertSigningKey key now) d =
     bindE (insert_signing_key cr key now now d) (\<lambda>d'. Inr (d', True))"
| "apply_admin cr js (RotateSigningKey key now activate_at retire_at) d =
     bindE (rotate_signing_key cr key now activate_at retire_at d) (\<lambda>d'. Inr (d', True))"
| "apply_admin cr js (RemoveRetiredSigningKey kid now) d =
     Inr (remove_retired_signing_key kid now d)"
| "apply_admin cr js (InsertTenant t n now) d = Inr (insert_tenant t n now d)"
| "apply_admin cr js (DisableTenant t now) d = Inr (disable_tenant t now d)"
| "apply_admin cr js (EnableTenant t) d = Inr (enable_tenant t d)"
| "apply_admin cr js (InsertPrincipal p now) d = insert_principal js p now d"
| "apply_admin cr js (RevokePrincipal p now) d = Inr (revoke_principal p now d)"
| "apply_admin cr js (TouchPrincipal p now) d = Inr (touch_principal p now d, True)"
| "apply_admin cr js (AddPrincipalSecret p s e now) d = add_principal_secret p s e now d"
| "apply_admin cr js (RevokePrincipalSecret p s now) d = Inr (revoke_principal_secret p s now d)"
| "apply_admin cr js (InsertUserGrant g now) d = Inr (insert_user_grant js g now d)"
| "apply_admin cr js (RevokeUserGrant s t now) d = Inr (revoke_user_grant s t now d)"
| "apply_admin cr js (InsertProvider p now) d = Inr (insert_provider cr js p now d)"
| "apply_admin cr js (UpdateProvider p now) d = Inr (update_provider cr js p now d)"
| "apply_admin cr js (DeleteProvider i now) d = Inr (delete_provider i now d)"

text \<open>The Tier-A row as it is stored: an unapplied write is recorded as a failure.\<close>

definition tier_a_row :: "admin_write \<Rightarrow> bool \<Rightarrow> audit_row \<Rightarrow> audit_row" where
  "tier_a_row w applied row =
     (if applied then row
      else row\<lparr>au_outcome := ''failure'', au_reason := Some (unapplied_reason w)\<rparr>)"

text \<open>What a batch hands back beside the transaction's result.\<close>

record batch_out =
  bo_acks :: "ack list"
  bo_admin_acks :: "(ack \<times> bool) list"
  bo_shutdown :: bool

definition no_out :: batch_out where
  "no_out = \<lparr>bo_acks = [], bo_admin_acks = [], bo_shutdown = False\<rparr>"

fun apply_command ::
  "crypto \<Rightarrow> json \<Rightarrow> command \<Rightarrow> db \<times> batch_out \<Rightarrow> repo_error + db \<times> batch_out" where
  "apply_command cr js (InsertSession row) (d, b) = bindE (insert_session row d) (\<lambda>d'. Inr (d', b))"
| "apply_command cr js (UpdateSessionProgress i g e) (d, b) =
     Inr (update_session_progress i g e d, b)"
| "apply_command cr js (TombstoneSession i now) (d, b) = Inr (tombstone_session_row i now d, b)"
| "apply_command cr js (InsertGeneration i n h c a) (d, b) =
     bindE (insert_generation i n h c a d) (\<lambda>d'. Inr (d', b))"
| "apply_command cr js (SupersedeGeneration h at) (d, b) =
     Inr (update_generation_superseded h at d, b)"
| "apply_command cr js (DeleteGeneration h) (d, b) = Inr (delete_generation h d, b)"
| "apply_command cr js (InsertTxn row) (d, b) = bindE (insert_txn row d) (\<lambda>d'. Inr (d', b))"
| "apply_command cr js (DeleteExpiredTxns before) (d, b) =
     Inr (fst (delete_expired_txns before d), b)"
| "apply_command cr js (Custody w k) (d, b) =
     bindE (apply_custody cr w d) (\<lambda>d'. Inr (d', b\<lparr>bo_acks := bo_acks b @ [k]\<rparr>))"
| "apply_command cr js (Admin w audit k) (d, b) =
     bindE (apply_admin cr js w d) (\<lambda>(d', outcome).
       Inr (case audit of None \<Rightarrow> d' | Some row \<Rightarrow> insert_audit (tier_a_row w outcome row) d',
            b\<lparr>bo_admin_acks := bo_admin_acks b @ [(k, outcome)]\<rparr>))"
| "apply_command cr js (Audit row) (d, b) = Inr (insert_audit row d, b)"
| "apply_command cr js (PruneAudit before) (d, b) = Inr (fst (prune_audit before d), b)"
| "apply_command cr js (Reap dead_before txn_before) (d, b) =
     bindE (reap dead_before txn_before d) (\<lambda>(d', _). Inr (d', b))"
| "apply_command cr js Reseal (d, b) = Inr (fst (reseal_all_with cr d), b)"
| "apply_command cr js Ping (d, b) = Inr (d, b)"
| "apply_command cr js Shutdown (d, b) = Inr (d, b\<lparr>bo_shutdown := True\<rparr>)"

section \<open>apply\_batch and run\<close>

text \<open>
  The loop over the batch. It gives the transaction's result and the acks collected by then:
  a command that fails ends the loop, so its own ack and those behind it are not collected.
\<close>

fun apply_loop ::
  "crypto \<Rightarrow> json \<Rightarrow> (nat \<Rightarrow> bool) \<Rightarrow> nat \<Rightarrow> command list \<Rightarrow> db \<Rightarrow> batch_out \<Rightarrow>
   (repo_error + db) \<times> batch_out" where
  "apply_loop cr js io i [] d b = (if io i then Inl (Sqlite Io_Failure) else Inr d, b)"
| "apply_loop cr js io i (c # cs) d b =
     (if io i then (Inl (Sqlite Io_Failure), b)
      else case apply_command cr js c (d, b) of
             Inl e \<Rightarrow> (Inl e, b)
           | Inr (d', b') \<Rightarrow> apply_loop cr js io (i + 1) cs d' b')"

definition apply_batch ::
  "crypto \<Rightarrow> json \<Rightarrow> (nat \<Rightarrow> bool) \<Rightarrow> command list \<Rightarrow> db \<Rightarrow> (repo_error + db) \<times> batch_out" where
  "apply_batch cr js io batch d =
     (if io 0 then (Inl (Sqlite Io_Failure), no_out) else apply_loop cr js io 1 batch d no_out)"

text \<open>
  The writer: the committed database, the channel, whether the thread still runs, the audit
  sink's depth counter and every ack sent so far. \<open>Custody_Sent\<close> and \<open>Admin_Sent\<close> are what
  goes down the two kinds of ack channel; \<open>Dropped\<close> is a channel closed without a message,
  which the caller reads as \<open>writer thread dropped without acking\<close>.
\<close>

datatype ack_msg =
    Custody_Sent "repo_error + unit"
  | Admin_Sent "repo_error + bool"
  | Dropped

record writer =
  w_db :: db
  w_queue :: "command list"
  w_running :: bool
  w_depth :: int
  w_acked :: "(ack \<times> ack_msg) list"

definition is_audit :: "command \<Rightarrow> bool" where
  "is_audit c \<longleftrightarrow> (case c of Audit _ \<Rightarrow> True | _ \<Rightarrow> False)"

fun command_acks :: "command \<Rightarrow> ack list" where
  "command_acks (Custody _ k) = [k]"
| "command_acks (Admin _ _ k) = [k]"
| "command_acks _ = []"

definition settle :: "repo_error + db \<Rightarrow> batch_out \<Rightarrow> (ack \<times> ack_msg) list" where
  "settle result b =
     (case result of
        Inr _ \<Rightarrow> map (\<lambda>k. (k, Custody_Sent (Inr ()))) (bo_acks b) @
                map (\<lambda>(k, outcome). (k, Admin_Sent (Inr outcome))) (bo_admin_acks b)
      | Inl e \<Rightarrow> map (\<lambda>k. (k, Custody_Sent (Inl e))) (bo_acks b) @
                map (\<lambda>(k, _). (k, Admin_Sent (Inl e))) (bo_admin_acks b))"

definition dropped_acks :: "command list \<Rightarrow> batch_out \<Rightarrow> (ack \<times> ack_msg) list" where
  "dropped_acks batch b =
     map (\<lambda>k. (k, Dropped))
       (filter (\<lambda>k. k \<notin> set (bo_acks b) \<union> fst ` set (bo_admin_acks b))
          (concat (map command_acks batch)))"

text \<open>
  One turn of \<open>run\<close>: the thread takes the \<open>n\<close> commands that have queued up by the time its
  \<open>try_recv\<close> finds the channel empty (the queue may be longer when senders race with the
  drain), applies them as one batch and settles the acks. Nothing happens on an empty channel.
\<close>

definition writer_turn :: "crypto \<Rightarrow> json \<Rightarrow> (nat \<Rightarrow> bool) \<Rightarrow> nat \<Rightarrow> writer \<Rightarrow> writer" where
  "writer_turn cr js io n w =
     (if \<not> w_running w \<or> take n (w_queue w) = [] then w
      else let batch = take n (w_queue w);
               (result, b) = apply_batch cr js io batch (w_db w)
           in w\<lparr>w_db := (case result of Inr d \<Rightarrow> d | Inl _ \<Rightarrow> w_db w),
                w_queue := drop n (w_queue w),
                w_running := \<not> bo_shutdown b,
                w_depth := w_depth w - int (length (filter is_audit batch)),
                w_acked := w_acked w @ settle result b @ dropped_acks batch b\<rparr>)"

text \<open>\<open>WriterHandle::enqueue\<close>: a send to a writer that is gone is dropped.\<close>

definition enqueue :: "command \<Rightarrow> writer \<Rightarrow> writer" where
  "enqueue c w = (if w_running w then w\<lparr>w_queue := w_queue w @ [c]\<rparr> else w)"

definition new_writer :: "db \<Rightarrow> writer" where
  "new_writer d = \<lparr>w_db = d, w_queue = [], w_running = True, w_depth = 0, w_acked = []\<rparr>"

datatype writer_event = Send command | Turn "nat \<Rightarrow> bool" nat

fun writer_step :: "crypto \<Rightarrow> json \<Rightarrow> writer_event \<Rightarrow> writer \<Rightarrow> writer" where
  "writer_step cr js (Send c) w = enqueue c w"
| "writer_step cr js (Turn io n) w = writer_turn cr js io n w"

end
