(* ===== verification/Session.thy ===== *)
theory Session
  imports Writer
begin

text \<open>
  \<open>session.rs\<close>: the session state machine. An entry holds the generations of one session, the
  map holds the entries and the token index in front of them. The two \<open>DashMap\<close>s are keyed
  containers, the writer handle is an outbox of commands, the observer a list of announced
  events. \<open>hash\<close> is \<open>TokenHash::of\<close> and \<open>fresh\<close> the token \<open>SessionToken::generate\<close> drew. Every
  operation is one atomic step of the map.
\<close>

named_theorems session_defs \<open>operations of the session map\<close>

section \<open>Policy\<close>

datatype revocation_policy = Kill | Degrade

record session_policy =
  gen_ttl_secs :: nat
  grace_secs :: nat
  coalesce_secs :: nat
  idle_ttl_secs :: nat
  absolute_ttl_secs :: nat
  max_live_gens :: nat
  retired_memory :: nat
  on_upstream_revoked :: revocation_policy

definition default_policy :: session_policy where
  "default_policy =
     \<lparr>gen_ttl_secs = 600, grace_secs = 60, coalesce_secs = 30, idle_ttl_secs = 7 * 24 * 3600,
      absolute_ttl_secs = 30 * 24 * 3600, max_live_gens = 4, retired_memory = 8,
      on_upstream_revoked = Kill\<rparr>"

section \<open>Generations and verdicts\<close>

record generation =
  gn_gen_no :: nat
  gn_token_hash :: token_hash
  gn_created_at :: timestamp
  gn_active_until :: timestamp
  gn_superseded_at :: "timestamp option"

definition resource_valid_until :: "nat \<Rightarrow> generation \<Rightarrow> timestamp" where
  "resource_valid_until grace g =
     (case gn_superseded_at g of
        None \<Rightarrow> gn_active_until g
      | Some at \<Rightarrow> min (gn_active_until g) (plus_secs at grace))"

datatype expired_reason = Idle | Absolute | LoggedOut | UpstreamRevoked

datatype resolution =
    Unknown
  | Active sid nat bool
  | StaleRefreshable sid nat
  | Retired sid nat
  | HardExpired sid expired_reason

fun authenticates :: "resolution \<Rightarrow> bool" where
  "authenticates (Active _ _ _) = True"
| "authenticates _ = False"

datatype refresh_denied =
    Denied_Unknown
  | Denied_Retired sid nat
  | Denied_Expired sid expired_reason

record session_meta =
  sm_v :: nat
  sm_sub :: string
  sm_sid :: string
  sm_gen :: nat
  sm_active_until :: timestamp
  sm_refresh_until :: timestamp
  sm_absolute_until :: timestamp
  sm_custody :: custody_status

record restored_session =
  rs_sid :: sid
  rs_custody :: custody_id
  rs_sub :: string
  rs_current_gen :: nat
  rs_idle_exp :: timestamp
  rs_absolute_exp :: timestamp
  rs_gens :: "generation list"

datatype kill_reason = Kill_LoggedOut | Kill_UpstreamRevoked | Kill_AdminRevoked

datatype session_event =
    SessionKilled sid kill_reason
  | CustodyChanged sid custody_status

record issued_cookies =
  ic_token :: session_token
  ic_meta :: session_meta
  ic_rotated :: bool

record index_effects =
  fx_added :: "generation option"
  fx_superseded :: "(token_hash \<times> timestamp) option"
  fx_purged :: "token_hash list"

definition no_effects :: index_effects where
  "no_effects = \<lparr>fx_added = None, fx_superseded = None, fx_purged = []\<rparr>"

section \<open>One session\<close>

record session_entry =
  e_sid :: sid
  e_custody :: custody_id
  e_sub :: string
  e_gens :: "generation list"
  e_current_gen :: nat
  e_current_token :: "session_token option"
  e_idle_exp :: timestamp
  e_absolute_exp :: timestamp
  e_status :: session_status
  e_tombstoned_at :: "timestamp option"
  e_custody_status :: custody_status
  e_retired :: "(token_hash \<times> nat) list"

text \<open>\<open>current\<close>: \<open>None\<close> is the panic of its \<open>expect\<close>.\<close>

definition current :: "session_entry \<Rightarrow> generation option" where
  "current e = (if e_gens e = [] then None else Some (last (e_gens e)))"

definition session_expiry :: "session_entry \<Rightarrow> timestamp \<Rightarrow> session_policy \<Rightarrow> expired_reason option" where
  "session_expiry e now pol =
     (if e_status e = Tombstoned then Some LoggedOut
      else if e_absolute_exp e \<le> now then Some Absolute
      else if e_idle_exp e \<le> now then Some Idle
      else if e_custody_status e = Dead \<and> on_upstream_revoked pol = Kill then Some UpstreamRevoked
      else None)"

definition classify :: "session_entry \<Rightarrow> token_hash \<Rightarrow> timestamp \<Rightarrow> session_policy \<Rightarrow> resolution" where
  "classify e h now pol =
     (case session_expiry e now pol of
        Some reason \<Rightarrow> HardExpired (e_sid e) reason
      | None \<Rightarrow>
          (case List.find (\<lambda>g. gn_token_hash g = h) (e_gens e) of
             Some g \<Rightarrow>
               (let newest = (gn_gen_no g = e_current_gen e) in
                if now < resource_valid_until (grace_secs pol) g
                then Active (e_sid e) (gn_gen_no g) newest
                else if newest then StaleRefreshable (e_sid e) (gn_gen_no g)
                else Retired (e_sid e) (gn_gen_no g))
           | None \<Rightarrow>
               (case List.find (\<lambda>(h', _). h' = h) (e_retired e) of
                  Some (_, n) \<Rightarrow> Retired (e_sid e) n
                | None \<Rightarrow> Unknown)))"

definition entry_meta :: "session_entry \<Rightarrow> session_meta option" where
  "entry_meta e =
     (case current e of
        None \<Rightarrow> None
      | Some g \<Rightarrow>
          Some \<lparr>sm_v = 1, sm_sub = e_sub e, sm_sid = e_sid e, sm_gen = e_current_gen e,
                sm_active_until = gn_active_until g, sm_refresh_until = e_idle_exp e,
                sm_absolute_until = e_absolute_exp e, sm_custody = e_custody_status e\<rparr>)"

definition slide :: "timestamp \<Rightarrow> session_policy \<Rightarrow> session_entry \<Rightarrow> session_entry" where
  "slide now pol e = e\<lparr>e_idle_exp := min (plus_secs now (idle_ttl_secs pol)) (e_absolute_exp e)\<rparr>"

text \<open>\<open>retire\<close>: remember the hash, then forget the oldest ones beyond \<open>retired_memory\<close>.\<close>

fun trim_retired ::
  "nat \<Rightarrow> (token_hash \<times> nat) list \<Rightarrow> token_hash list \<Rightarrow> (token_hash \<times> nat) list \<times> token_hash list"
  where
  "trim_retired mem [] purged = ([], purged)"
| "trim_retired mem (x # xs) purged =
     (if mem < length (x # xs) then trim_retired mem xs (purged @ [fst x]) else (x # xs, purged))"

definition retire ::
  "session_policy \<Rightarrow> generation \<Rightarrow> (token_hash \<times> nat) list \<times> token_hash list \<Rightarrow>
   (token_hash \<times> nat) list \<times> token_hash list" where
  "retire pol g rp =
     trim_retired (retired_memory pol) (fst rp @ [(gn_token_hash g, gn_gen_no g)]) (snd rp)"

text \<open>The two loops of \<open>reap_generations\<close>: the expired generations, then the cap.\<close>

definition gen_expired :: "session_policy \<Rightarrow> nat \<Rightarrow> timestamp \<Rightarrow> generation \<Rightarrow> bool" where
  "gen_expired pol cur now g \<longleftrightarrow>
     gn_gen_no g \<noteq> cur \<and> resource_valid_until (grace_secs pol) g \<le> now"

fun reap_expired ::
  "session_policy \<Rightarrow> nat \<Rightarrow> timestamp \<Rightarrow> generation list \<Rightarrow> generation list \<Rightarrow>
   (token_hash \<times> nat) list \<times> token_hash list \<Rightarrow>
   generation list \<times> (token_hash \<times> nat) list \<times> token_hash list" where
  "reap_expired pol cur now kept [] rp = (kept, rp)"
| "reap_expired pol cur now kept (g # gs) rp =
     (if gen_expired pol cur now g then reap_expired pol cur now kept gs (retire pol g rp)
      else reap_expired pol cur now (kept @ [g]) gs rp)"

fun reap_cap ::
  "session_policy \<Rightarrow> generation list \<Rightarrow> (token_hash \<times> nat) list \<times> token_hash list \<Rightarrow>
   generation list \<times> (token_hash \<times> nat) list \<times> token_hash list" where
  "reap_cap pol [] rp = ([], rp)"
| "reap_cap pol (g # gs) rp =
     (if max (max_live_gens pol) 1 < length (g # gs) then reap_cap pol gs (retire pol g rp)
      else (g # gs, rp))"

definition reap_generations ::
  "timestamp \<Rightarrow> session_policy \<Rightarrow> session_entry \<Rightarrow> session_entry \<times> index_effects" where
  "reap_generations now pol e =
     (let (kept, rp) = reap_expired pol (e_current_gen e) now [] (e_gens e) (e_retired e, []);
          (gens, retired, purged) = reap_cap pol kept rp
      in (e\<lparr>e_gens := gens, e_retired := retired\<rparr>, no_effects\<lparr>fx_purged := purged\<rparr>))"

text \<open>\<open>mint\<close>: supersede the last generation, push the new one, reap. The counter is a \<open>u32\<close>.\<close>

definition supersede_last :: "timestamp \<Rightarrow> generation list \<Rightarrow> generation list" where
  "supersede_last now gs =
     (if gs = [] then [] else butlast gs @ [(last gs)\<lparr>gn_superseded_at := Some now\<rparr>])"

definition mint ::
  "(session_token \<Rightarrow> token_hash) \<Rightarrow> session_token \<Rightarrow> timestamp \<Rightarrow> session_policy \<Rightarrow> session_entry \<Rightarrow>
   session_entry \<times> index_effects" where
  "mint hash fresh now pol e =
     (let superseded = map_option (\<lambda>g. (gn_token_hash g, now)) (current e);
          n = wrap_u32 (e_current_gen e + 1);
          g = \<lparr>gn_gen_no = n, gn_token_hash = hash fresh, gn_created_at = now,
               gn_active_until = plus_secs now (gen_ttl_secs pol), gn_superseded_at = None\<rparr>;
          (e', fx) = reap_generations now pol
             (e\<lparr>e_gens := supersede_last now (e_gens e) @ [g], e_current_gen := n,
                e_current_token := Some fresh\<rparr>)
      in (e', fx\<lparr>fx_added := Some g, fx_superseded := superseded\<rparr>))"

definition all_hashes :: "session_entry \<Rightarrow> token_hash list" where
  "all_hashes e = map gn_token_hash (e_gens e) @ map fst (e_retired e)"

section \<open>The session map\<close>

record session_map =
  m_policy :: session_policy
  m_observed :: bool
  m_sessions :: "(sid, session_entry) dmap"
  m_index :: "(token_hash, sid) dmap"
  m_durable :: bool
  m_outbox :: "command list"
  m_events :: "session_event list"

definition new_map :: "session_policy \<Rightarrow> session_map" where
  "new_map pol = \<lparr>m_policy = pol, m_observed = False, m_sessions = [], m_index = [],
                  m_durable = False, m_outbox = [], m_events = []\<rparr>"

definition with_durability :: "session_policy \<Rightarrow> session_map" where
  "with_durability pol = (new_map pol)\<lparr>m_durable := True\<rparr>"

definition set_observer :: "session_map \<Rightarrow> session_map" where
  "set_observer m = m\<lparr>m_observed := True\<rparr>"

definition persist :: "command \<Rightarrow> session_map \<Rightarrow> session_map" where
  [session_defs]: "persist c m = (if m_durable m then m\<lparr>m_outbox := m_outbox m @ [c]\<rparr> else m)"

definition announce :: "session_event \<Rightarrow> session_map \<Rightarrow> session_map" where
  [session_defs]: "announce ev m = (if m_observed m then m\<lparr>m_events := m_events m @ [ev]\<rparr> else m)"

definition put_entry :: "sid \<Rightarrow> session_entry \<Rightarrow> session_map \<Rightarrow> session_map" where
  [session_defs]: "put_entry i e m = m\<lparr>m_sessions := dinsert i e (m_sessions m)\<rparr>"

definition new_entry ::
  "session_policy \<Rightarrow> sid \<Rightarrow> custody_id \<Rightarrow> string \<Rightarrow> session_token \<Rightarrow> token_hash \<Rightarrow> timestamp \<Rightarrow>
   session_entry" where
  "new_entry pol i custody sub token h now =
     (let absolute_exp = plus_secs now (absolute_ttl_secs pol)
      in \<lparr>e_sid = i, e_custody = custody, e_sub = sub,
          e_gens = [\<lparr>gn_gen_no = 1, gn_token_hash = h, gn_created_at = now,
                     gn_active_until = plus_secs now (gen_ttl_secs pol),
                     gn_superseded_at = None\<rparr>],
          e_current_gen = 1, e_current_token = Some token,
          e_idle_exp = min (plus_secs now (idle_ttl_secs pol)) absolute_exp,
          e_absolute_exp = absolute_exp, e_status = Alive, e_tombstoned_at = None,
          e_custody_status = Ok, e_retired = []\<rparr>)"

definition create ::
  "(session_token \<Rightarrow> token_hash) \<Rightarrow> session_token \<Rightarrow> sid \<Rightarrow> custody_id \<Rightarrow> string \<Rightarrow> timestamp \<Rightarrow>
   session_map \<Rightarrow> issued_cookies option \<times> session_map" where
  "create hash fresh i custody sub now m =
     (let pol = m_policy m; h = hash fresh;
          e = new_entry pol i custody sub fresh h now;
          m1 = m\<lparr>m_sessions := dinsert i e (m_sessions m), m_index := dinsert h i (m_index m)\<rparr>;
          m2 = persist (InsertSession
                 \<lparr>sr_sid = i, sr_custody_id = custody, sr_sub = sub, sr_current_gen = 1,
                  sr_idle_exp = e_idle_exp e, sr_absolute_exp = e_absolute_exp e,
                  sr_status = Alive, sr_created_at = now, sr_meta = None\<rparr>) m1;
          m3 = persist (InsertGeneration i 1 h now (plus_secs now (gen_ttl_secs pol))) m2
      in (map_option (\<lambda>meta. \<lparr>ic_token = fresh, ic_meta = meta, ic_rotated = True\<rparr>) (entry_meta e),
          m3))"

definition rehydrate_session :: "restored_session \<Rightarrow> session_map \<Rightarrow> bool \<times> session_map" where
  "rehydrate_session r m =
     (if rs_gens r = [] then (False, m)
      else let i = rs_sid r; ordered = sort_key gn_gen_no (rs_gens r)
           in (True,
               m\<lparr>m_index := fold (\<lambda>h. dinsert h i) (map gn_token_hash ordered) (m_index m),
                 m_sessions := dinsert i
                   \<lparr>e_sid = i, e_custody = rs_custody r, e_sub = rs_sub r, e_gens = ordered,
                    e_current_gen = rs_current_gen r, e_current_token = None,
                    e_idle_exp = rs_idle_exp r, e_absolute_exp = rs_absolute_exp r,
                    e_status = Alive, e_tombstoned_at = None, e_custody_status = Ok,
                    e_retired = []\<rparr> (m_sessions m)\<rparr>))"

definition sid_for_hash :: "token_hash \<Rightarrow> session_map \<Rightarrow> sid option" where
  "sid_for_hash h m = dget (m_index m) h"

definition entry_for_hash :: "token_hash \<Rightarrow> session_map \<Rightarrow> session_entry option" where
  "entry_for_hash h m =
     (case sid_for_hash h m of None \<Rightarrow> None | Some i \<Rightarrow> dget (m_sessions m) i)"

definition resolve :: "token_hash \<Rightarrow> timestamp \<Rightarrow> session_map \<Rightarrow> resolution" where
  "resolve h now m =
     (case entry_for_hash h m of None \<Rightarrow> Unknown | Some e \<Rightarrow> classify e h now (m_policy m))"

definition meta_for :: "token_hash \<Rightarrow> session_map \<Rightarrow> session_meta option" where
  "meta_for h m = (case entry_for_hash h m of None \<Rightarrow> None | Some e \<Rightarrow> entry_meta e)"

definition custody_for :: "token_hash \<Rightarrow> session_map \<Rightarrow> custody_id option" where
  "custody_for h m = map_option e_custody (entry_for_hash h m)"

text \<open>\<open>apply\<close>: the index and the durable record move together.\<close>

definition purge_hash :: "token_hash \<Rightarrow> session_map \<Rightarrow> session_map" where
  [session_defs]: "purge_hash h m =
     persist (DeleteGeneration h) (m\<lparr>m_index := dremove h (m_index m)\<rparr>)"

definition apply_effects :: "index_effects \<Rightarrow> sid \<Rightarrow> session_map \<Rightarrow> session_map" where
  "apply_effects fx i m =
     (let m1 = (case fx_added fx of
                  None \<Rightarrow> m
                | Some g \<Rightarrow>
                    persist (InsertGeneration i (gn_gen_no g) (gn_token_hash g) (gn_created_at g)
                               (gn_active_until g))
                      (m\<lparr>m_index := dinsert (gn_token_hash g) i (m_index m)\<rparr>));
          m2 = (case fx_superseded fx of
                  None \<Rightarrow> m1
                | Some (h, at) \<Rightarrow> persist (SupersedeGeneration h at) m1)
      in fold purge_hash (fx_purged fx) m2)"

text \<open>
  \<open>refresh\<close>. The part under the entry lock gives the token, whether it rotated, the entry
  after the slide and the effects to apply; \<open>None\<close> is a panic of \<open>current\<close>.
\<close>

definition refresh_entry ::
  "(session_token \<Rightarrow> token_hash) \<Rightarrow> session_token \<Rightarrow> timestamp \<Rightarrow> session_policy \<Rightarrow> session_entry \<Rightarrow>
   (session_token \<times> bool \<times> session_entry \<times> index_effects) option" where
  "refresh_entry hash fresh now pol e =
     (case current e of
        None \<Rightarrow> None
      | Some cur \<Rightarrow>
          (let within_coalesce = since now (gn_created_at cur) < coalesce_secs pol;
               coalesced = (if within_coalesce then e_current_token e else None)
           in (case coalesced of
                 Some token \<Rightarrow> Some (token, False, slide now pol e, no_effects)
               | None \<Rightarrow>
                   (let (e', fx) = mint hash fresh now pol e
                    in Some (fresh, True, slide now pol e', fx)))))"

definition refresh ::
  "(session_token \<Rightarrow> token_hash) \<Rightarrow> session_token \<Rightarrow> token_hash \<Rightarrow> timestamp \<Rightarrow> session_map \<Rightarrow>
   (refresh_denied + issued_cookies) option \<times> session_map" where
  "refresh hash fresh h now m =
     (case sid_for_hash h m of
        None \<Rightarrow> (Some (Inl Denied_Unknown), m)
      | Some i \<Rightarrow>
          (case dget (m_sessions m) i of
             None \<Rightarrow> (Some (Inl Denied_Unknown), m)
           | Some e \<Rightarrow>
               (case classify e h now (m_policy m) of
                  Unknown \<Rightarrow> (Some (Inl Denied_Unknown), m)
                | Retired s n \<Rightarrow> (Some (Inl (Denied_Retired s n)), m)
                | HardExpired s reason \<Rightarrow> (Some (Inl (Denied_Expired s reason)), m)
                | _ \<Rightarrow>
                    (case refresh_entry hash fresh now (m_policy m) e of
                       None \<Rightarrow> (None, m)
                     | Some (token, rotated, e', fx) \<Rightarrow>
                         (let m1 = put_entry i e' m
                          in (case entry_meta e' of
                                None \<Rightarrow> (None, m1)
                              | Some meta \<Rightarrow>
                                  (Some (Inr \<lparr>ic_token = token, ic_meta = meta,
                                              ic_rotated = rotated\<rparr>),
                                   persist (UpdateSessionProgress i (e_current_gen e') (e_idle_exp e'))
                                     (apply_effects fx i m1))))))))"

definition kill_entry :: "timestamp \<Rightarrow> session_entry \<Rightarrow> session_entry" where
  "kill_entry now e =
     e\<lparr>e_status := Tombstoned, e_tombstoned_at := Some now, e_current_token := None\<rparr>"

definition tombstone_session_with_reason ::
  "sid \<Rightarrow> timestamp \<Rightarrow> kill_reason \<Rightarrow> session_map \<Rightarrow> bool \<times> session_map" where
  "tombstone_session_with_reason i now reason m =
     (case dget (m_sessions m) i of
        Some e \<Rightarrow>
          if e_status e = Alive
          then (True,
                announce (SessionKilled i reason)
                  (persist (TombstoneSession i now)
                    (m\<lparr>m_sessions := dinsert i (kill_entry now e) (m_sessions m)\<rparr>)))
          else (False, m)
      | None \<Rightarrow> (False, m))"

definition tombstone_session :: "sid \<Rightarrow> timestamp \<Rightarrow> session_map \<Rightarrow> bool \<times> session_map" where
  "tombstone_session i now m = tombstone_session_with_reason i now Kill_LoggedOut m"

fun tombstone_each :: "timestamp \<Rightarrow> sid list \<Rightarrow> session_map \<Rightarrow> nat \<times> session_map" where
  "tombstone_each now [] m = (0, m)"
| "tombstone_each now (i # is) m =
     (let (killed, m1) = tombstone_session_with_reason i now Kill_UpstreamRevoked m;
          (n, m2) = tombstone_each now is m1
      in ((if killed then 1 else 0) + n, m2))"

definition tombstone_by_custody :: "custody_id \<Rightarrow> timestamp \<Rightarrow> session_map \<Rightarrow> nat \<times> session_map" where
  "tombstone_by_custody custody now m =
     tombstone_each now
       [e_sid e. (_, e) \<leftarrow> m_sessions m, e_custody e = custody \<and> e_status e = Alive] m"

definition set_custody_status ::
  "custody_id \<Rightarrow> custody_status \<Rightarrow> session_map \<Rightarrow> nat \<times> session_map" where
  "set_custody_status custody st m =
     (let hit = (\<lambda>e. e_custody e = custody);
          changed = [e_sid e. (_, e) \<leftarrow> m_sessions m, hit e \<and> e_custody_status e \<noteq> st];
          m1 = m\<lparr>m_sessions :=
                  map (\<lambda>(i, e). (i, if hit e then e\<lparr>e_custody_status := st\<rparr> else e)) (m_sessions m)\<rparr>
      in (length (filter (\<lambda>(_, e). hit e) (m_sessions m)),
          fold (\<lambda>i. announce (CustodyChanged i st)) changed m1))"

text \<open>\<open>sweep\<close>: the pass over the entries, then the removals.\<close>

definition collectible :: "timestamp \<Rightarrow> session_policy \<Rightarrow> session_entry \<Rightarrow> bool" where
  "collectible now pol e =
     (case session_expiry e now pol of
        Some LoggedOut \<Rightarrow>
          (case e_tombstoned_at e of None \<Rightarrow> False | Some at \<Rightarrow> grace_secs pol \<le> since now at)
      | Some _ \<Rightarrow> grace_secs pol \<le> since now (e_idle_exp e)
      | None \<Rightarrow> False)"

definition sweep_reap ::
  "timestamp \<Rightarrow> sid \<Rightarrow> session_entry \<Rightarrow> session_map \<Rightarrow> session_map \<times> nat" where
  "sweep_reap now i e m =
     (let (e', fx) = reap_generations now (m_policy m) e
      in (apply_effects fx (e_sid e) (put_entry i e' m),
          length (e_gens e) - length (e_gens e')))"

fun sweep_pass ::
  "timestamp \<Rightarrow> (sid \<times> session_entry) list \<Rightarrow> session_map \<times> nat \<times> sid list \<Rightarrow>
   session_map \<times> nat \<times> sid list" where
  "sweep_pass now [] acc = acc"
| "sweep_pass now ((i, e) # es) (m, retired, removable) =
     (if collectible now (m_policy m) e
      then sweep_pass now es (m, retired, removable @ [e_sid e])
      else (case sweep_reap now i e m of (m', k) \<Rightarrow> sweep_pass now es (m', retired + k, removable)))"

fun remove_sessions :: "sid list \<Rightarrow> session_map \<times> nat \<Rightarrow> session_map \<times> nat" where
  "remove_sessions [] acc = acc"
| "remove_sessions (i # is) (m, removed) =
     (case dget (m_sessions m) i of
        None \<Rightarrow> remove_sessions is (m, removed)
      | Some e \<Rightarrow>
          remove_sessions is
            (m\<lparr>m_sessions := dremove i (m_sessions m),
               m_index := fold dremove (all_hashes e) (m_index m)\<rparr>, removed + 1))"

definition sweep :: "timestamp \<Rightarrow> session_map \<Rightarrow> (nat \<times> nat) \<times> session_map" where
  "sweep now m =
     (let (m1, retired, removable) = sweep_pass now (m_sessions m) (m, 0, []);
          (m2, removed) = remove_sessions removable (m1, 0)
      in ((removed, retired), m2))"

end
