(* ===== verification/Session_Entry.thy ===== *)
theory Session_Entry
  imports Session "HOL-Library.Multiset"
begin

text \<open>
  One session in isolation: what the reaping loops compute in closed form, the well-formedness
  invariant of an entry, and that minting, sliding, reaping and killing keep it. The map-level
  theories rest on these facts only.
\<close>

section \<open>The retired ring in closed form\<close>

lemma trim_retired_eq:
  "trim_retired mem xs p =
     (drop (length xs - mem) xs, p @ map fst (take (length xs - mem) xs))"
  by (induction mem xs p rule: trim_retired.induct) (auto simp: Suc_diff_le not_less)

abbreviation retired_pair :: "generation \<Rightarrow> token_hash \<times> nat" where
  "retired_pair g \<equiv> (gn_token_hash g, gn_gen_no g)"

lemma fold_retire_eq:
  assumes "length r \<le> retired_memory pol"
  shows "fold (retire pol) gs (r, p) =
     (let all = r @ map retired_pair gs; k = length all - retired_memory pol
      in (drop k all, p @ map fst (take k all)))"
  using assms
proof (induction gs arbitrary: r p)
  case Nil
  then show ?case by simp
next
  case (Cons g gs)
  define k where "k = length (r @ [retired_pair g]) - retired_memory pol"
  define r' where "r' = drop k (r @ [retired_pair g])"
  define p' where "p' = p @ map fst (take k (r @ [retired_pair g]))"
  define l where "l = length (r' @ map retired_pair gs) - retired_memory pol"
  have step: "retire pol g (r, p) = (r', p')"
    by (simp add: retire_def trim_retired_eq r'_def p'_def k_def)
  have "length r' \<le> retired_memory pol" by (auto simp: r'_def k_def)
  from Cons.IH [OF this, of p']
  have IH: "fold (retire pol) gs (r', p') =
      (drop l (r' @ map retired_pair gs), p' @ map fst (take l (r' @ map retired_pair gs)))"
    by (simp add: Let_def l_def)
  have kl: "length (r @ map retired_pair (g # gs)) - retired_memory pol = k + l"
    using Cons.prems by (auto simp: k_def l_def r'_def)
  have split: "r @ map retired_pair (g # gs) =
      take k (r @ [retired_pair g]) @ r' @ map retired_pair gs"
    unfolding r'_def append.assoc [symmetric] append_take_drop_id by simp
  have len: "length (take k (r @ [retired_pair g])) = k" using Cons.prems by (auto simp: k_def)
  have "drop (k + l) (t @ x) = drop l x" "take (k + l) (t @ x) = t @ take l x"
    if "length t = k" for t x :: "(token_hash \<times> nat) list" using that by auto
  note td = this [OF len]
  show ?case
    unfolding fold_simps step IH Let_def kl unfolding split td by (simp add: p'_def)
qed

lemma reap_expired_eq:
  "reap_expired pol cur now kept gs rp =
     (kept @ filter (\<lambda>g. \<not> gen_expired pol cur now g) gs,
      fold (retire pol) (filter (gen_expired pol cur now) gs) rp)"
  by (induction pol cur now kept gs rp rule: reap_expired.induct) auto

lemma reap_cap_eq:
  "reap_cap pol gs rp =
     (drop (length gs - max (max_live_gens pol) 1) gs,
      fold (retire pol) (take (length gs - max (max_live_gens pol) 1) gs) rp)"
proof (induction pol gs rp rule: reap_cap.induct)
  case (2 pol g gs rp)
  define c where "c = max (max_live_gens pol) 1"
  have "length (g # gs) - c = Suc (length gs - c)" if "c < length (g # gs)"
    using that by auto
  with 2 show ?case
    unfolding reap_cap.simps c_def [symmetric] by (cases "c < length (g # gs)") simp_all
qed simp

text \<open>What \<open>reap_generations\<close> keeps, evicts by the cap, and retires.\<close>

definition kept_gens :: "timestamp \<Rightarrow> session_policy \<Rightarrow> session_entry \<Rightarrow> generation list" where
  "kept_gens now pol e =
     filter (\<lambda>g. \<not> gen_expired pol (e_current_gen e) now g) (e_gens e)"

definition surplus :: "timestamp \<Rightarrow> session_policy \<Rightarrow> session_entry \<Rightarrow> nat" where
  "surplus now pol e = length (kept_gens now pol e) - max (max_live_gens pol) 1"

definition retired_all :: "timestamp \<Rightarrow> session_policy \<Rightarrow> session_entry \<Rightarrow> (token_hash \<times> nat) list" where
  "retired_all now pol e =
     e_retired e @ map retired_pair (filter (gen_expired pol (e_current_gen e) now) (e_gens e)) @
     map retired_pair (take (surplus now pol e) (kept_gens now pol e))"

definition forgotten :: "timestamp \<Rightarrow> session_policy \<Rightarrow> session_entry \<Rightarrow> nat" where
  "forgotten now pol e = length (retired_all now pol e) - retired_memory pol"

lemma reap_generations_eq:
  assumes "length (e_retired e) \<le> retired_memory pol"
  shows "reap_generations now pol e =
     (e\<lparr>e_gens := drop (surplus now pol e) (kept_gens now pol e),
        e_retired := drop (forgotten now pol e) (retired_all now pol e)\<rparr>,
      no_effects\<lparr>fx_purged := map fst (take (forgotten now pol e) (retired_all now pol e))\<rparr>)"
proof -
  have "fold (retire pol) (take (surplus now pol e) (kept_gens now pol e))
         (fold (retire pol) (filter (gen_expired pol (e_current_gen e) now) (e_gens e))
           (e_retired e, [])) =
       (drop (forgotten now pol e) (retired_all now pol e),
        map fst (take (forgotten now pol e) (retired_all now pol e)))"
    using fold_retire_eq [OF assms, of
        "filter (gen_expired pol (e_current_gen e) now) (e_gens e) @
         take (surplus now pol e) (kept_gens now pol e)" "[]"]
    by (simp add: Let_def forgotten_def retired_all_def del: take_append drop_append)
  then show ?thesis
    unfolding surplus_def
    by (simp add: reap_generations_def reap_expired_eq reap_cap_eq flip: kept_gens_def)
qed

lemmas reap_fst = arg_cong [where f = fst, OF reap_generations_eq, simplified fst_conv]
lemmas reap_snd = arg_cong [where f = snd, OF reap_generations_eq, simplified snd_conv]

text \<open>Reaping moves hashes between the generations, the ring and the purge list, and loses none.\<close>

lemma mset_map_take_drop: "mset (map f (take n xs)) + mset (map f (drop n xs)) = mset (map f xs)"
  by (metis append_take_drop_id map_append mset_append)

lemma mset_map_partition:
  "mset (map f (filter p xs)) + mset (map f (filter (\<lambda>x. \<not> p x) xs)) = mset (map f xs)"
  by (induction xs) auto

lemma reap_generations_hashes:
  assumes "length (e_retired e) \<le> retired_memory pol"
    and "reap_generations now pol e = (e', fx)"
  shows "mset (all_hashes e') + mset (fx_purged fx) = mset (all_hashes e)"
proof -
  let ?exp = "gen_expired pol (e_current_gen e) now"
  let ?s = "surplus now pol e" and ?f = "forgotten now pol e"
  let ?K = "kept_gens now pol e" and ?R = "retired_all now pol e"
  have e': "e' = e\<lparr>e_gens := drop ?s ?K, e_retired := drop ?f ?R\<rparr>"
    and fx: "fx_purged fx = map fst (take ?f ?R)"
    using assms(2) reap_generations_eq [OF assms(1), of now] by auto
  have R: "mset (map fst (take ?f ?R)) + mset (map fst (drop ?f ?R)) = mset (map fst ?R)"
    by (rule mset_map_take_drop)
  have K: "mset (map gn_token_hash (take ?s ?K)) + mset (map gn_token_hash (drop ?s ?K)) =
           mset (map gn_token_hash ?K)"
    by (rule mset_map_take_drop)
  have G: "mset (map gn_token_hash (filter ?exp (e_gens e))) + mset (map gn_token_hash ?K) =
           mset (map gn_token_hash (e_gens e))"
    unfolding kept_gens_def by (rule mset_map_partition)
  have RR: "mset (map fst ?R) = mset (map fst (e_retired e)) +
      (mset (map gn_token_hash (filter ?exp (e_gens e))) + mset (map gn_token_hash (take ?s ?K)))"
    by (simp add: retired_all_def comp_def)
  have "all_hashes e' = map gn_token_hash (drop ?s ?K) @ map fst (drop ?f ?R)"
    by (simp add: e' all_hashes_def)
  then have "mset (all_hashes e') + mset (fx_purged fx) = mset (map gn_token_hash (drop ?s ?K)) +
      (mset (map fst (take ?f ?R)) + mset (map fst (drop ?f ?R)))"
    by (simp only: fx mset_append ac_simps)
  also have "\<dots> = mset (all_hashes e)"
    unfolding R RR all_hashes_def mset_append G [symmetric] K [symmetric] by (simp only: ac_simps)
  finally show ?thesis .
qed

section \<open>Well-formed entries\<close>

text \<open>
  The generations are in strictly ascending order, the last one is the current one, and the
  current one is exactly the one that has not been superseded.
\<close>

definition gens_wf :: "nat \<Rightarrow> generation list \<Rightarrow> bool" where
  "gens_wf cur gs \<longleftrightarrow>
     gs \<noteq> [] \<and> sorted_wrt (<) (map gn_gen_no gs) \<and> gn_gen_no (last gs) = cur \<and>
     (\<forall>g \<in> set gs. gn_superseded_at g = None \<longleftrightarrow> gn_gen_no g = cur)"

definition entry_wf :: "(session_token \<Rightarrow> token_hash) \<Rightarrow> session_policy \<Rightarrow> session_entry \<Rightarrow> bool" where
  "entry_wf hash pol e \<longleftrightarrow>
     gens_wf (e_current_gen e) (e_gens e) \<and>
     e_current_gen e < 2 ^ 32 \<and>
     distinct (all_hashes e) \<and>
     length (e_retired e) \<le> retired_memory pol \<and>
     (\<forall>(h, n) \<in> set (e_retired e). n < e_current_gen e) \<and>
     e_idle_exp e \<le> e_absolute_exp e \<and>
     (case e_current_token e of
        None \<Rightarrow> True
      | Some t \<Rightarrow> e_status e = Alive \<and> hash t = gn_token_hash (last (e_gens e))) \<and>
     (e_status e = Tombstoned \<longleftrightarrow> e_tombstoned_at e \<noteq> None)"

lemma gens_wf_le: "gens_wf cur gs \<Longrightarrow> g \<in> set gs \<Longrightarrow> gn_gen_no g \<le> cur"
  by (cases gs rule: rev_cases) (auto simp: gens_wf_def sorted_wrt_append less_imp_le)

lemma gens_wf_inj: "gens_wf cur gs \<Longrightarrow> g \<in> set gs \<Longrightarrow> g' \<in> set gs \<Longrightarrow>
    gn_gen_no g = gn_gen_no g' \<Longrightarrow> g = g'"
  by (auto simp: gens_wf_def strict_sorted_iff distinct_map inj_on_def)

lemma gens_wf_last_in: "gens_wf cur gs \<Longrightarrow> last gs \<in> set gs"
  by (simp add: gens_wf_def)

lemma gens_wf_eq_last: "gens_wf cur gs \<Longrightarrow> g \<in> set gs \<Longrightarrow> gn_gen_no g = cur \<longleftrightarrow> g = last gs"
  using gens_wf_inj [of cur gs g "last gs"] by (auto simp: gens_wf_def)

lemma sorted_wrt_map_drop: "sorted_wrt r (map f xs) \<Longrightarrow> sorted_wrt r (map f (drop n xs))"
  by (simp add: sorted_wrt_drop flip: drop_map)

lemma last_filter_last: "xs \<noteq> [] \<Longrightarrow> p (last xs) \<Longrightarrow> filter p xs \<noteq> [] \<and> last (filter p xs) = last xs"
  by (induction xs rule: rev_induct) auto

lemma reap_keeps_last:
  assumes "e_gens e \<noteq> []" and "gn_gen_no (last (e_gens e)) = e_current_gen e"
  shows "drop (surplus now pol e) (kept_gens now pol e) \<noteq> []"
    and "last (drop (surplus now pol e) (kept_gens now pol e)) = last (e_gens e)"
proof -
  have k: "kept_gens now pol e \<noteq> [] \<and> last (kept_gens now pol e) = last (e_gens e)"
    unfolding kept_gens_def using assms by (intro last_filter_last) (auto simp: gen_expired_def)
  then have "surplus now pol e < length (kept_gens now pol e)"
    by (simp add: surplus_def less_max_iff_disj)
  with k show "drop (surplus now pol e) (kept_gens now pol e) \<noteq> []"
    and "last (drop (surplus now pol e) (kept_gens now pol e)) = last (e_gens e)"
    by (simp_all add: last_drop)
qed

lemma gens_wf_kept:
  assumes "gens_wf (e_current_gen e) (e_gens e)"
  shows "gens_wf (e_current_gen e) (drop (surplus now pol e) (kept_gens now pol e))"
    and "last (drop (surplus now pol e) (kept_gens now pol e)) = last (e_gens e)"
proof -
  from assms have "e_gens e \<noteq> []" and "gn_gen_no (last (e_gens e)) = e_current_gen e"
    by (simp_all add: gens_wf_def)
  note kl = reap_keeps_last [OF this, of now pol]
  show l: "last (drop (surplus now pol e) (kept_gens now pol e)) = last (e_gens e)"
    by (fact kl(2))
  have "sorted_wrt (<) (map gn_gen_no (kept_gens now pol e))"
    using assms by (simp add: kept_gens_def gens_wf_def sorted_wrt_map sorted_wrt_filter)
  then show "gens_wf (e_current_gen e) (drop (surplus now pol e) (kept_gens now pol e))"
    using assms l kl(1)
    by (auto simp: gens_wf_def sorted_wrt_map_drop kept_gens_def dest!: in_set_dropD)
qed

lemma distinct_of_mset:
  assumes "mset a + mset b = mset c" and "distinct c"
  shows "distinct a" and "distinct b" and "set a \<inter> set b = {}" and "set c = set a \<union> set b"
proof -
  from assms(1) have m: "mset (a @ b) = mset c" by simp
  then have "distinct (a @ b)" using assms(2) mset_eq_imp_distinct_iff by blast
  then show "distinct a" and "distinct b" and "set a \<inter> set b = {}" by auto
  show "set c = set a \<union> set b" using mset_eq_setD [OF m] by auto
qed

text \<open>What \<open>reap_generations\<close> leaves untouched.\<close>

lemma reap_generations_frame:
  assumes "length (e_retired e) \<le> retired_memory pol"
    and "reap_generations now pol e = (e', fx)"
  shows "e_sid e' = e_sid e" "e_custody e' = e_custody e" "e_sub e' = e_sub e"
    "e_current_gen e' = e_current_gen e" "e_current_token e' = e_current_token e"
    "e_idle_exp e' = e_idle_exp e" "e_absolute_exp e' = e_absolute_exp e"
    "e_status e' = e_status e" "e_tombstoned_at e' = e_tombstoned_at e"
    "e_custody_status e' = e_custody_status e"
    "e_gens e' = drop (surplus now pol e) (kept_gens now pol e)"
    "e_retired e' = drop (forgotten now pol e) (retired_all now pol e)"
    "fx_added fx = None" "fx_superseded fx = None"
    "fx_purged fx = map fst (take (forgotten now pol e) (retired_all now pol e))"
  using assms(2) unfolding reap_generations_eq [OF assms(1)] by (auto simp: no_effects_def)

lemma reap_generations_wf:
  assumes wf: "entry_wf hash pol e" and r: "reap_generations now pol e = (e', fx)"
  shows "entry_wf hash pol e'" and "set (all_hashes e) = set (all_hashes e') \<union> set (fx_purged fx)"
    and "set (all_hashes e') \<inter> set (fx_purged fx) = {}"
proof -
  from wf have len: "length (e_retired e) \<le> retired_memory pol"
    and g: "gens_wf (e_current_gen e) (e_gens e)" and d: "distinct (all_hashes e)"
    by (auto simp: entry_wf_def)
  note fr = reap_generations_frame [OF len r]
  note hs = distinct_of_mset [OF reap_generations_hashes [OF len r] d]
  show "set (all_hashes e) = set (all_hashes e') \<union> set (fx_purged fx)"
    and "set (all_hashes e') \<inter> set (fx_purged fx) = {}" by (fact hs)+
  have "n < e_current_gen e" if "(h, n) \<in> set (retired_all now pol e)" for h n
  proof -
    have "gn_gen_no x < e_current_gen e"
      if "x \<in> set (take (surplus now pol e) (kept_gens now pol e))" for x
    proof -
      have "x \<in> set (e_gens e)" using that by (auto simp: kept_gens_def dest: in_set_takeD)
      moreover have "x \<noteq> last (e_gens e)"
      proof
        assume "x = last (e_gens e)"
        then have "x \<in> set (drop (surplus now pol e) (kept_gens now pol e))"
          using gens_wf_last_in [OF gens_wf_kept(1) [OF g]] gens_wf_kept(2) [OF g] by metis
        moreover have "distinct (kept_gens now pol e)"
          using g by (auto simp: kept_gens_def gens_wf_def strict_sorted_iff distinct_map)
        ultimately show False
          using that set_take_disj_set_drop_if_distinct [of "kept_gens now pol e" "surplus now pol e"
              "surplus now pol e"] by auto
      qed
      ultimately show ?thesis
        using gens_wf_le [OF g, of x] gens_wf_eq_last [OF g, of x] by linarith
    qed
    moreover have "gn_gen_no x < e_current_gen e"
      if "x \<in> set (e_gens e)" "gen_expired pol (e_current_gen e) now x" for x
      using that gens_wf_le [OF g, of x] by (auto simp: gen_expired_def)
    ultimately show ?thesis
      using that wf by (auto simp: retired_all_def entry_wf_def)
  qed
  then have "\<forall>(h, n) \<in> set (e_retired e'). n < e_current_gen e'"
    unfolding fr by (auto dest: in_set_dropD)
  moreover have "length (e_retired e') \<le> retired_memory pol"
    unfolding fr forgotten_def by auto
  moreover have "gens_wf (e_current_gen e') (e_gens e')" and "last (e_gens e') = last (e_gens e)"
    unfolding fr by (fact gens_wf_kept [OF g])+
  ultimately show "entry_wf hash pol e'"
    using wf hs(1) fr(1-10) by (auto simp: entry_wf_def split: option.splits)
qed

section \<open>Minting, sliding, killing\<close>

lemma set_supersede_last:
  "set (supersede_last now gs) = (if gs = [] then {} else
     set (butlast gs) \<union> {(last gs)\<lparr>gn_superseded_at := Some now\<rparr>})"
  by (auto simp: supersede_last_def)

lemma map_supersede_last [simp]:
  "map gn_gen_no (supersede_last now gs) = map gn_gen_no gs"
  "map gn_token_hash (supersede_last now gs) = map gn_token_hash gs"
  by (cases gs rule: rev_cases; simp add: supersede_last_def)+

definition minted :: "(session_token \<Rightarrow> token_hash) \<Rightarrow> session_token \<Rightarrow> timestamp \<Rightarrow> session_policy \<Rightarrow>
    session_entry \<Rightarrow> generation" where
  "minted hash fresh now pol e =
     \<lparr>gn_gen_no = wrap_u32 (e_current_gen e + 1), gn_token_hash = hash fresh, gn_created_at = now,
      gn_active_until = plus_secs now (gen_ttl_secs pol), gn_superseded_at = None\<rparr>"

definition pre_mint :: "(session_token \<Rightarrow> token_hash) \<Rightarrow> session_token \<Rightarrow> timestamp \<Rightarrow> session_policy \<Rightarrow>
    session_entry \<Rightarrow> session_entry" where
  "pre_mint hash fresh now pol e =
     e\<lparr>e_gens := supersede_last now (e_gens e) @ [minted hash fresh now pol e],
       e_current_gen := wrap_u32 (e_current_gen e + 1), e_current_token := Some fresh\<rparr>"

lemma pre_mint_sel [simp]:
  "e_sid (pre_mint hash fresh now pol e) = e_sid e"
  "e_custody (pre_mint hash fresh now pol e) = e_custody e"
  "e_sub (pre_mint hash fresh now pol e) = e_sub e"
  "e_current_gen (pre_mint hash fresh now pol e) = wrap_u32 (e_current_gen e + 1)"
  "e_current_token (pre_mint hash fresh now pol e) = Some fresh"
  "e_idle_exp (pre_mint hash fresh now pol e) = e_idle_exp e"
  "e_absolute_exp (pre_mint hash fresh now pol e) = e_absolute_exp e"
  "e_status (pre_mint hash fresh now pol e) = e_status e"
  "e_tombstoned_at (pre_mint hash fresh now pol e) = e_tombstoned_at e"
  "e_custody_status (pre_mint hash fresh now pol e) = e_custody_status e"
  "e_retired (pre_mint hash fresh now pol e) = e_retired e"
  "e_gens (pre_mint hash fresh now pol e) =
     supersede_last now (e_gens e) @ [minted hash fresh now pol e]"
  by (simp_all add: pre_mint_def)

lemma mint_eq:
  "mint hash fresh now pol e =
     (let (e', fx) = reap_generations now pol (pre_mint hash fresh now pol e)
      in (e', fx\<lparr>fx_added := Some (minted hash fresh now pol e),
                  fx_superseded := map_option (\<lambda>g. (gn_token_hash g, now)) (current e)\<rparr>))"
  by (simp add: mint_def pre_mint_def minted_def Let_def)

lemma minted_hash [simp]: "gn_token_hash (minted hash fresh now pol e) = hash fresh"
  by (simp add: minted_def)

lemma set_all_hashes_pre_mint:
  "set (all_hashes (pre_mint hash fresh now pol e)) = insert (hash fresh) (set (all_hashes e))"
proof -
  have "gn_token_hash ` set (supersede_last now (e_gens e)) = gn_token_hash ` set (e_gens e)"
    by (simp flip: set_map)
  then show ?thesis by (auto simp: all_hashes_def)
qed

lemma gens_wf_supersede:
  assumes "gens_wf cur gs" and "g \<in> set (supersede_last now gs)"
  shows "gn_superseded_at g \<noteq> None" and "gn_gen_no g \<le> cur"
proof -
  have d: "distinct gs" using assms(1) by (auto simp: gens_wf_def strict_sorted_iff distinct_map)
  have ne: "gs \<noteq> []" using assms(1) by (simp add: gens_wf_def)
  have "last gs \<notin> set (butlast gs)"
    using d ne by (metis append_butlast_last_id distinct.simps(2) distinct_append disjoint_iff
        list.set_intros(1))
  then have "g = (last gs)\<lparr>gn_superseded_at := Some now\<rparr> \<or> g \<in> set gs \<and> g \<noteq> last gs"
    using assms(2) ne by (auto simp: set_supersede_last dest: in_set_butlastD)
  then show "gn_superseded_at g \<noteq> None" and "gn_gen_no g \<le> cur"
    using assms(1) gens_wf_eq_last [OF assms(1), of g] gens_wf_le [OF assms(1), of g]
    by (auto simp: gens_wf_def)
qed

lemma pre_mint_wf:
  assumes wf: "entry_wf hash pol e" and "e_status e = Alive"
    and "hash fresh \<notin> set (all_hashes e)" and "e_current_gen e + 1 < 2 ^ 32"
  shows "entry_wf hash pol (pre_mint hash fresh now pol e)"
proof -
  let ?e = "pre_mint hash fresh now pol e"
  from wf have g: "gens_wf (e_current_gen e) (e_gens e)" and d: "distinct (all_hashes e)"
    by (auto simp: entry_wf_def)
  have n: "wrap_u32 (e_current_gen e + 1) = e_current_gen e + 1"
    using assms(4) by (rule wrap_u32_id)
  have "gens_wf (e_current_gen ?e) (e_gens ?e)"
    unfolding gens_wf_def
  proof (intro conjI ballI)
    show "sorted_wrt (<) (map gn_gen_no (e_gens ?e))"
      using g gens_wf_le [OF g]
      by (auto simp: sorted_wrt_append minted_def n [simplified] gens_wf_def less_Suc_eq_le)
  qed (auto simp: minted_def n [simplified] dest: gens_wf_supersede [OF g])
  moreover have "distinct (all_hashes ?e)"
    using d assms(3) by (auto simp: all_hashes_def)
  ultimately show ?thesis
    using wf assms(2,4) n by (auto simp: entry_wf_def minted_def)
qed

text \<open>Everything the map needs of \<open>mint\<close>.\<close>

lemma mint_wf:
  assumes wf: "entry_wf hash pol e" and alive: "e_status e = Alive"
    and fresh: "hash fresh \<notin> set (all_hashes e)" and bound: "e_current_gen e + 1 < 2 ^ 32"
    and m: "mint hash fresh now pol e = (e', fx)"
  shows "entry_wf hash pol e'"
    and "insert (hash fresh) (set (all_hashes e)) = set (all_hashes e') \<union> set (fx_purged fx)"
    and "set (all_hashes e') \<inter> set (fx_purged fx) = {}"
    and "fx_added fx = Some (minted hash fresh now pol e)"
    and "fx_superseded fx = Some (gn_token_hash (last (e_gens e)), now)"
    and "last (e_gens e') = minted hash fresh now pol e"
    and "e_current_gen e' = e_current_gen e + 1"
    and "hash fresh \<notin> set (fx_purged fx)"
proof -
  obtain fx' where r: "reap_generations now pol (pre_mint hash fresh now pol e) = (e', fx')"
    and fx: "fx = fx'\<lparr>fx_added := Some (minted hash fresh now pol e),
                  fx_superseded := map_option (\<lambda>g. (gn_token_hash g, now)) (current e)\<rparr>"
    using m by (auto simp: mint_eq Let_def split: prod.splits)
  note pre = pre_mint_wf [OF wf alive fresh bound, of now]
  note wf' = reap_generations_wf [OF pre r]
  from wf' show "entry_wf hash pol e'"
    and u: "insert (hash fresh) (set (all_hashes e)) = set (all_hashes e') \<union> set (fx_purged fx)"
    and i: "set (all_hashes e') \<inter> set (fx_purged fx) = {}"
    by (simp_all add: fx set_all_hashes_pre_mint)
  show "fx_added fx = Some (minted hash fresh now pol e)" by (simp add: fx)
  show "fx_superseded fx = Some (gn_token_hash (last (e_gens e)), now)"
    using wf by (auto simp: fx current_def entry_wf_def gens_wf_def)
  have len: "length (e_retired (pre_mint hash fresh now pol e)) \<le> retired_memory pol"
    and g: "gens_wf (e_current_gen (pre_mint hash fresh now pol e)) (e_gens (pre_mint hash fresh now pol e))"
    using pre by (auto simp: entry_wf_def)
  note fr = reap_generations_frame [OF len r]
  show l: "last (e_gens e') = minted hash fresh now pol e"
    using gens_wf_kept(2) [OF g] by (simp add: fr)
  show "e_current_gen e' = e_current_gen e + 1"
    using bound by (simp add: fr wrap_u32_id)
  have "e_gens e' \<noteq> []" using wf'(1) by (simp add: entry_wf_def gens_wf_def)
  then have "hash fresh \<in> set (all_hashes e')"
    using l by (metis UnI1 all_hashes_def image_eqI last_in_set list.set_map minted_hash set_append)
  with i show "hash fresh \<notin> set (fx_purged fx)" by auto
qed

lemma mint_frame:
  assumes "length (e_retired e) \<le> retired_memory pol" and "mint hash fresh now pol e = (e', fx)"
  shows "e_sid e' = e_sid e" "e_custody e' = e_custody e" "e_sub e' = e_sub e"
    "e_idle_exp e' = e_idle_exp e" "e_absolute_exp e' = e_absolute_exp e"
    "e_status e' = e_status e" "e_tombstoned_at e' = e_tombstoned_at e"
    "e_custody_status e' = e_custody_status e"
proof -
  obtain fx' where r: "reap_generations now pol (pre_mint hash fresh now pol e) = (e', fx')"
    using assms(2) by (auto simp: mint_eq Let_def split: prod.splits)
  have len: "length (e_retired (pre_mint hash fresh now pol e)) \<le> retired_memory pol"
    using assms(1) by simp
  show "e_sid e' = e_sid e" "e_custody e' = e_custody e" "e_sub e' = e_sub e"
    "e_idle_exp e' = e_idle_exp e" "e_absolute_exp e' = e_absolute_exp e"
    "e_status e' = e_status e" "e_tombstoned_at e' = e_tombstoned_at e"
    "e_custody_status e' = e_custody_status e"
    by (simp_all add: reap_generations_frame [OF len r])
qed

text \<open>The minted generation survives its own reaping, so \<open>current\<close> has something to give.\<close>

lemma mint_last:
  assumes "length (e_retired e) \<le> retired_memory pol" and "mint hash fresh now pol e = (e', fx)"
  shows "e_gens e' \<noteq> []" and "last (e_gens e') = minted hash fresh now pol e"
proof -
  let ?p = "pre_mint hash fresh now pol e"
  obtain fx' where r: "reap_generations now pol ?p = (e', fx')"
    using assms(2) by (auto simp: mint_eq Let_def split: prod.splits)
  have "length (e_retired ?p) \<le> retired_memory pol" using assms(1) by simp
  note fr = reap_generations_frame [OF this r]
  have "e_gens ?p \<noteq> []" "gn_gen_no (last (e_gens ?p)) = e_current_gen ?p"
    by (simp_all add: minted_def)
  from reap_keeps_last [OF this, of now pol]
  show "e_gens e' \<noteq> []" and "last (e_gens e') = minted hash fresh now pol e"
    by (simp_all add: fr del: drop_eq_Nil)
qed

lemma slide_sel [simp]:
  "e_sid (slide now pol e) = e_sid e" "e_custody (slide now pol e) = e_custody e"
  "e_sub (slide now pol e) = e_sub e" "e_gens (slide now pol e) = e_gens e"
  "e_current_gen (slide now pol e) = e_current_gen e"
  "e_current_token (slide now pol e) = e_current_token e"
  "e_absolute_exp (slide now pol e) = e_absolute_exp e" "e_status (slide now pol e) = e_status e"
  "e_tombstoned_at (slide now pol e) = e_tombstoned_at e"
  "e_custody_status (slide now pol e) = e_custody_status e"
  "e_retired (slide now pol e) = e_retired e"
  "all_hashes (slide now pol e) = all_hashes e"
  by (simp_all add: slide_def all_hashes_def)

lemma slide_wf [simp]: "entry_wf hash pol e \<Longrightarrow> entry_wf hash pol (slide now pol e)"
  by (simp add: entry_wf_def slide_def all_hashes_def split: option.splits)

lemma kill_sel [simp]:
  "e_sid (kill_entry now e) = e_sid e" "e_custody (kill_entry now e) = e_custody e"
  "e_gens (kill_entry now e) = e_gens e" "e_status (kill_entry now e) = Tombstoned"
  "all_hashes (kill_entry now e) = all_hashes e"
  by (simp_all add: kill_entry_def all_hashes_def)

lemma kill_wf [simp]: "entry_wf hash pol e \<Longrightarrow> entry_wf hash pol (kill_entry now e)"
  by (simp add: entry_wf_def kill_entry_def all_hashes_def)

lemma custody_status_wf [simp]:
  "entry_wf hash pol (e\<lparr>e_custody_status := st\<rparr>) = entry_wf hash pol e"
  "all_hashes (e\<lparr>e_custody_status := st\<rparr>) = all_hashes e"
  by (simp_all add: entry_wf_def all_hashes_def cong: option.case_cong)

lemma new_entry_wf:
  assumes "hash token = h"
  shows "entry_wf hash pol (new_entry pol i c sub token h now)"
    and "all_hashes (new_entry pol i c sub token h now) = [h]"
  using assms by (auto simp: new_entry_def Let_def entry_wf_def gens_wf_def all_hashes_def)

section \<open>refresh on one entry\<close>

text \<open>
  The two ways a refresh goes: it coalesces onto the current token or it mints.
\<close>

lemma refresh_entry_cases:
  assumes wf: "entry_wf hash pol e"
  obtains
    (coalesce) t where "since now (gn_created_at (last (e_gens e))) < coalesce_secs pol"
      "e_current_token e = Some t"
      "refresh_entry hash fresh now pol e = Some (t, False, slide now pol e, no_effects)"
  | (mints) e' fx where "since now (gn_created_at (last (e_gens e))) < coalesce_secs pol \<Longrightarrow>
        e_current_token e = None"
      "mint hash fresh now pol e = (e', fx)"
      "refresh_entry hash fresh now pol e = Some (fresh, True, slide now pol e', fx)"
proof -
  from wf have c: "current e = Some (last (e_gens e))"
    by (simp add: current_def entry_wf_def gens_wf_def)
  show thesis
  proof (cases "since now (gn_created_at (last (e_gens e))) < coalesce_secs pol \<and>
      e_current_token e \<noteq> None")
    case True
    then obtain t where "e_current_token e = Some t" by auto
    with True c show thesis by (intro coalesce) (auto simp: refresh_entry_def)
  next
    case False
    obtain e' fx where "mint hash fresh now pol e = (e', fx)" by fastforce
    with False c show thesis by (intro mints) (auto simp: refresh_entry_def Let_def)
  qed
qed

lemma refresh_entry_meta:
  assumes wf: "entry_wf hash pol e" and r: "refresh_entry hash fresh now pol e = Some (t, b, e', fx)"
  obtains meta where "entry_meta e' = Some meta"
proof -
  have "e_gens e' \<noteq> []"
  proof (cases rule: refresh_entry_cases [OF wf, of now fresh, case_names coalesce mints])
    case (coalesce t)
    with r wf show ?thesis by (auto simp: entry_wf_def gens_wf_def)
  next
    case (mints e1 fx1)
    with r wf mint_last(1) [OF _ mints(2)] show ?thesis by (auto simp: entry_wf_def)
  qed
  then show thesis by (intro that) (simp add: entry_meta_def current_def)
qed

end
