(* ===== verification/Session_Wf.thy ===== *)
theory Session_Wf
  imports Session_Entry
begin

text \<open>
  The invariant of the session map: every entry is well formed and filed under its own sid,
  and the token index lists exactly the hashes the entries lay claim to. Every operation keeps
  it, so every run of admitted operations does. The operations are collected in one step
  function, with a guard for what they rely on: a fresh sid and token, a counter that has not
  reached the end of \<open>u32\<close>, and rows at boot that fit together.
\<close>

section \<open>The invariant\<close>

definition map_wf :: "(session_token \<Rightarrow> token_hash) \<Rightarrow> session_map \<Rightarrow> bool" where
  "map_wf hash m \<longleftrightarrow>
     dmap_ok (m_sessions m) \<and> dmap_ok (m_index m) \<and>
     (\<forall>(i, e) \<in> set (m_sessions m). e_sid e = i \<and> entry_wf hash (m_policy m) e \<and>
        (\<forall>h \<in> set (all_hashes e). dget (m_index m) h = Some i)) \<and>
     (\<forall>(h, i) \<in> set (m_index m).
        case dget (m_sessions m) i of None \<Rightarrow> False | Some e \<Rightarrow> h \<in> set (all_hashes e))"

definition hashes_of :: "session_map \<Rightarrow> sid \<Rightarrow> token_hash set" where
  "hashes_of m i = (case dget (m_sessions m) i of None \<Rightarrow> {} | Some e \<Rightarrow> set (all_hashes e))"

lemma map_wf_alt:
  "map_wf hash m \<longleftrightarrow>
     dmap_ok (m_sessions m) \<and> dmap_ok (m_index m) \<and>
     (\<forall>i e. dget (m_sessions m) i = Some e \<longrightarrow> e_sid e = i \<and> entry_wf hash (m_policy m) e) \<and>
     (\<forall>h i. dget (m_index m) h = Some i \<longleftrightarrow> h \<in> hashes_of m i)"
  (is "_ \<longleftrightarrow> ?R")
proof
  assume wf: "map_wf hash m"
  then have ok: "dmap_ok (m_sessions m)" "dmap_ok (m_index m)" by (simp_all add: map_wf_def)
  have e: "e_sid e = i \<and> entry_wf hash (m_policy m) e \<and>
      (\<forall>h \<in> set (all_hashes e). dget (m_index m) h = Some i)"
    if "dget (m_sessions m) i = Some e" for i e
    using that wf ok(1) by (auto simp: map_wf_def dget_in_set)
  have "h \<in> hashes_of m i" if "dget (m_index m) h = Some i" for h i
  proof -
    have "(h, i) \<in> set (m_index m)" using that ok(2) by (simp add: dget_in_set)
    with wf show ?thesis by (auto simp: map_wf_def hashes_of_def split: option.splits)
  qed
  moreover have "dget (m_index m) h = Some i" if "h \<in> hashes_of m i" for h i
    using that e by (auto simp: hashes_of_def split: option.splits)
  ultimately show ?R using ok e by blast
next
  assume R: ?R
  then have ok: "dmap_ok (m_sessions m)" "dmap_ok (m_index m)" by simp_all
  show "map_wf hash m"
    unfolding map_wf_def
  proof (intro conjI ok ballI; clarsimp)
    fix i e assume "(i, e) \<in> set (m_sessions m)"
    then have "dget (m_sessions m) i = Some e" using ok by (simp add: dget_in_set)
    then show "e_sid e = i \<and> entry_wf hash (m_policy m) e \<and>
        (\<forall>h \<in> set (all_hashes e). dget (m_index m) h = Some i)"
      using R by (simp add: hashes_of_def)
  next
    fix h i assume "(h, i) \<in> set (m_index m)"
    then have "h \<in> hashes_of m i" using R ok by (simp flip: dget_in_set)
    then show "case dget (m_sessions m) i of None \<Rightarrow> False | Some e \<Rightarrow> h \<in> set (all_hashes e)"
      by (simp add: hashes_of_def split: option.splits)
  qed
qed

lemma map_wfD:
  assumes "map_wf hash m"
  shows "dmap_ok (m_sessions m)" and "dmap_ok (m_index m)"
    and "dget (m_sessions m) i = Some e \<Longrightarrow> e_sid e = i"
    and "dget (m_sessions m) i = Some e \<Longrightarrow> entry_wf hash (m_policy m) e"
    and "dget (m_index m) h = Some i \<longleftrightarrow> h \<in> hashes_of m i"
  using assms by (auto simp: map_wf_alt)

lemma map_wf_sid_for:
  assumes "map_wf hash m" and "sid_for_hash h m = Some i"
  obtains e where "dget (m_sessions m) i = Some e" "h \<in> set (all_hashes e)" "e_sid e = i"
    "entry_wf hash (m_policy m) e"
  using assms by (auto simp: sid_for_hash_def map_wf_alt hashes_of_def split: option.splits)

text \<open>Replacing one entry, with the index following.\<close>

lemma map_wf_put:
  assumes wf: "map_wf hash m"
    and e': "e_sid e' = i" "entry_wf hash (m_policy m) e'"
    and s: "m_sessions m' = dinsert i e' (m_sessions m)" and p: "m_policy m' = m_policy m"
    and ok: "dmap_ok (m_index m')"
    and ix: "\<And>h. dget (m_index m') h =
               (if h \<in> set (all_hashes e') then Some i
                else if h \<in> hashes_of m i then None else dget (m_index m) h)"
    and new: "\<And>h. h \<in> set (all_hashes e') \<Longrightarrow> h \<notin> hashes_of m i \<Longrightarrow> dget (m_index m) h = None"
  shows "map_wf hash m'"
proof -
  have ho: "hashes_of m' j = (if j = i then set (all_hashes e') else hashes_of m j)" for j
    by (simp add: hashes_of_def s)
  have "dget (m_index m') h = Some j \<longleftrightarrow> h \<in> hashes_of m' j" for h j
  proof (cases "h \<in> set (all_hashes e') \<or> h \<in> hashes_of m i")
    case True
    then show ?thesis
      unfolding ho ix using map_wfD(5) [OF wf, of h j] map_wfD(5) [OF wf, of h i] new [of h]
      by auto
  next
    case False
    then show ?thesis unfolding ho ix using map_wfD(5) [OF wf, of h j] by auto
  qed
  then show ?thesis
    using wf e' ok unfolding map_wf_alt s p by auto
qed

section \<open>What the effects do\<close>

lemma persist_sel [simp]:
  "m_policy (persist c m) = m_policy m" "m_sessions (persist c m) = m_sessions m"
  "m_index (persist c m) = m_index m" "m_events (persist c m) = m_events m"
  "m_durable (persist c m) = m_durable m" "m_observed (persist c m) = m_observed m"
  by (simp_all add: persist_def)

lemma announce_sel [simp]:
  "m_policy (announce ev m) = m_policy m" "m_sessions (announce ev m) = m_sessions m"
  "m_index (announce ev m) = m_index m" "m_outbox (announce ev m) = m_outbox m"
  "m_durable (announce ev m) = m_durable m" "m_observed (announce ev m) = m_observed m"
  by (simp_all add: announce_def)

lemma put_entry_sel [simp]:
  "m_policy (put_entry i e m) = m_policy m"
  "m_sessions (put_entry i e m) = dinsert i e (m_sessions m)"
  "m_index (put_entry i e m) = m_index m" "m_events (put_entry i e m) = m_events m"
  "m_outbox (put_entry i e m) = m_outbox m"
  "m_durable (put_entry i e m) = m_durable m" "m_observed (put_entry i e m) = m_observed m"
  by (simp_all add: put_entry_def)

lemma fold_announce_sel [simp]:
  "m_policy (fold (\<lambda>i. announce (f i)) is m) = m_policy m"
  "m_sessions (fold (\<lambda>i. announce (f i)) is m) = m_sessions m"
  "m_index (fold (\<lambda>i. announce (f i)) is m) = m_index m"
  "m_outbox (fold (\<lambda>i. announce (f i)) is m) = m_outbox m"
  "m_durable (fold (\<lambda>i. announce (f i)) is m) = m_durable m"
  "m_observed (fold (\<lambda>i. announce (f i)) is m) = m_observed m"
  by (induction "is" arbitrary: m) simp_all

lemma fold_purge_sel [simp]:
  "m_policy (fold purge_hash hs m) = m_policy m"
  "m_sessions (fold purge_hash hs m) = m_sessions m"
  "m_index (fold purge_hash hs m) = fold dremove hs (m_index m)"
  "m_events (fold purge_hash hs m) = m_events m"
  "m_durable (fold purge_hash hs m) = m_durable m"
  "m_observed (fold purge_hash hs m) = m_observed m"
  by (induction hs arbitrary: m) (simp_all add: purge_hash_def)

lemma apply_effects_sel [simp]:
  "m_policy (apply_effects fx i m) = m_policy m"
  "m_sessions (apply_effects fx i m) = m_sessions m"
  "m_events (apply_effects fx i m) = m_events m"
  "m_durable (apply_effects fx i m) = m_durable m"
  "m_observed (apply_effects fx i m) = m_observed m"
  by (simp_all add: apply_effects_def Let_def split: option.splits)

lemma apply_effects_index:
  "dget (m_index (apply_effects fx i m)) h =
     (if h \<in> set (fx_purged fx) then None
      else case fx_added fx of
             None \<Rightarrow> dget (m_index m) h
           | Some g \<Rightarrow> if h = gn_token_hash g then Some i else dget (m_index m) h)"
  "dmap_ok (m_index m) \<Longrightarrow> dmap_ok (m_index (apply_effects fx i m))"
  by (auto simp: apply_effects_def Let_def dm.lookup_fold_del dm.wf_fold_del split: option.split)

section \<open>The operations keep the invariant\<close>

lemma map_wf_new: "map_wf hash (new_map pol)" "map_wf hash (with_durability pol)"
  by (simp_all add: map_wf_def new_map_def with_durability_def)

lemma map_wf_cong:
  "m_policy m' = m_policy m \<Longrightarrow> m_sessions m' = m_sessions m \<Longrightarrow> m_index m' = m_index m \<Longrightarrow>
   map_wf hash m' = map_wf hash m"
  by (simp add: map_wf_def)

lemma map_wf_persist [simp]:
  "map_wf hash (persist c m) = map_wf hash m" "map_wf hash (announce ev m) = map_wf hash m"
  by (rule map_wf_cong; simp)+

lemma create_wf:
  assumes wf: "map_wf hash m" and "dget (m_sessions m) i = None"
    and "dget (m_index m) (hash fresh) = None"
  shows "map_wf hash (snd (create hash fresh i c sub now m))"
proof -
  let ?e = "new_entry (m_policy m) i c sub fresh (hash fresh) now"
  have "e_sid ?e = i" by (simp add: new_entry_def Let_def)
  moreover have "hashes_of m i = {}" using assms(2) by (simp add: hashes_of_def)
  ultimately show ?thesis
    using assms(3) new_entry_wf [of hash fresh "hash fresh" "m_policy m" i c sub now]
    by (intro map_wf_put [OF wf, of ?e i]) (auto simp: create_def Let_def map_wfD(2) [OF wf])
qed

text \<open>A refresh that is let through, and what it does to the map.\<close>

definition refreshable :: "resolution \<Rightarrow> bool" where
  "refreshable r \<longleftrightarrow> (case r of Active _ _ _ \<Rightarrow> True | StaleRefreshable _ _ \<Rightarrow> True | _ \<Rightarrow> False)"

lemma refresh_denied:
  assumes "\<not> refreshable (resolve h now m)"
  shows "snd (refresh hash fresh h now m) = m"
  using assms
  by (auto simp: refresh_def resolve_def entry_for_hash_def refreshable_def split: option.split
      resolution.split)

lemma classify_refreshable_alive:
  "refreshable (classify e h now pol) \<Longrightarrow>
   session_expiry e now pol = None \<and> e_status e = Alive \<and> now < e_absolute_exp e \<and> now < e_idle_exp e"
  by (auto simp: classify_def refreshable_def session_expiry_def split: option.splits if_splits)
     (metis session_status.exhaust)+

lemma refresh_granted:
  assumes wf: "map_wf hash m" and ok: "refreshable (resolve h now m)"
  obtains i e token rotated e' fx meta where
    "sid_for_hash h m = Some i" "dget (m_sessions m) i = Some e" "e_sid e = i"
    "entry_wf hash (m_policy m) e" "h \<in> set (all_hashes e)" "e_status e = Alive"
    "refreshable (classify e h now (m_policy m))"
    "refresh_entry hash fresh now (m_policy m) e = Some (token, rotated, e', fx)"
    "entry_meta e' = Some meta"
    "refresh hash fresh h now m =
       (Some (Inr \<lparr>ic_token = token, ic_meta = meta, ic_rotated = rotated\<rparr>),
        persist (UpdateSessionProgress i (e_current_gen e') (e_idle_exp e'))
          (apply_effects fx i (put_entry i e' m)))"
proof -
  from ok obtain i where i: "sid_for_hash h m = Some i"
    by (auto simp: resolve_def entry_for_hash_def refreshable_def split: option.splits)
  from wf i obtain e where e: "dget (m_sessions m) i = Some e" "h \<in> set (all_hashes e)"
    "e_sid e = i" "entry_wf hash (m_policy m) e" by (rule map_wf_sid_for)
  from ok i e(1) have c: "refreshable (classify e h now (m_policy m))"
    by (simp add: resolve_def entry_for_hash_def)
  obtain token rotated e' fx where
    r: "refresh_entry hash fresh now (m_policy m) e = Some (token, rotated, e', fx)"
    by (rule refresh_entry_cases [OF e(4), of now fresh])
  obtain meta where meta: "entry_meta e' = Some meta"
    by (rule refresh_entry_meta [OF e(4) r])
  have "e_status e = Alive" using classify_refreshable_alive [OF c] by simp
  moreover have "refresh hash fresh h now m =
       (Some (Inr \<lparr>ic_token = token, ic_meta = meta, ic_rotated = rotated\<rparr>),
        persist (UpdateSessionProgress i (e_current_gen e') (e_idle_exp e'))
          (apply_effects fx i (put_entry i e' m)))"
    using i e(1) c r meta
    by (auto simp: refresh_def refreshable_def Let_def split: resolution.splits)
  ultimately show thesis by (rule that [OF i e(1,3,4,2) _ c r meta])
qed

text \<open>Under the guard, the entry a refresh leaves is well formed and its hashes are known.\<close>

lemma refresh_entry_wf:
  assumes wf: "entry_wf hash pol e" and alive: "e_status e = Alive"
    and fresh: "hash fresh \<notin> set (all_hashes e)" and bound: "e_current_gen e + 1 < 2 ^ 32"
    and r: "refresh_entry hash fresh now pol e = Some (token, rotated, e', fx)"
  shows "entry_wf hash pol e'" and "e_sid e' = e_sid e"
    and "set (all_hashes e') \<inter> set (fx_purged fx) = {}"
    and "(case fx_added fx of None \<Rightarrow> {} | Some g \<Rightarrow> {gn_token_hash g}) \<union> set (all_hashes e) =
         set (all_hashes e') \<union> set (fx_purged fx)"
    and "fx_added fx = None \<or> map_option gn_token_hash (fx_added fx) = Some (hash fresh)"
    and "case fx_added fx of None \<Rightarrow> True | Some g \<Rightarrow> hash fresh \<in> set (all_hashes e')"
proof -
  have len: "length (e_retired e) \<le> retired_memory pol" using wf by (simp add: entry_wf_def)
  have "entry_wf hash pol e' \<and> e_sid e' = e_sid e \<and> set (all_hashes e') \<inter> set (fx_purged fx) = {} \<and>
    (case fx_added fx of None \<Rightarrow> {} | Some g \<Rightarrow> {gn_token_hash g}) \<union> set (all_hashes e) =
         set (all_hashes e') \<union> set (fx_purged fx) \<and>
    (fx_added fx = None \<or> map_option gn_token_hash (fx_added fx) = Some (hash fresh)) \<and>
    (case fx_added fx of None \<Rightarrow> True | Some g \<Rightarrow> hash fresh \<in> set (all_hashes e'))"
  proof (cases rule: refresh_entry_cases [OF wf, of now fresh, case_names coalesce mints])
    case (coalesce t)
    with r wf show ?thesis by (auto simp: no_effects_def)
  next
    case (mints e1 fx1)
    note mw = mint_wf [OF wf alive fresh bound mints(2)]
    have "e' = slide now pol e1" "fx = fx1" using r mints(3) by auto
    with mw mint_frame(1) [OF len mints(2)] show ?thesis by auto
  qed
  then show "entry_wf hash pol e'" and "e_sid e' = e_sid e"
    and "set (all_hashes e') \<inter> set (fx_purged fx) = {}"
    and "(case fx_added fx of None \<Rightarrow> {} | Some g \<Rightarrow> {gn_token_hash g}) \<union> set (all_hashes e) =
         set (all_hashes e') \<union> set (fx_purged fx)"
    and "fx_added fx = None \<or> map_option gn_token_hash (fx_added fx) = Some (hash fresh)"
    and "case fx_added fx of None \<Rightarrow> True | Some g \<Rightarrow> hash fresh \<in> set (all_hashes e')"
    by auto
qed

text \<open>The effects of a reap or a mint, applied with the entry they came from.\<close>

lemma apply_effects_wf:
  assumes wf: "map_wf hash m" and e: "dget (m_sessions m) i = Some e"
    and e': "entry_wf hash (m_policy m) e'" "e_sid e' = i"
    and disj: "set (all_hashes e') \<inter> set (fx_purged fx) = {}"
    and un: "(case fx_added fx of None \<Rightarrow> {} | Some g \<Rightarrow> {gn_token_hash g}) \<union> set (all_hashes e) =
         set (all_hashes e') \<union> set (fx_purged fx)"
    and new: "\<And>g. fx_added fx = Some g \<Longrightarrow> dget (m_index m) (gn_token_hash g) = None"
  shows "map_wf hash (apply_effects fx i (put_entry i e' m))"
proof (rule map_wf_put [OF wf e'(2,1)])
  have hs: "hashes_of m i = set (all_hashes e)" by (simp add: hashes_of_def e)
  have ix: "h \<in> set (all_hashes e) \<Longrightarrow> dget (m_index m) h = Some i" for h
    using map_wfD(5) [OF wf, of h i] hs by simp
  show "dget (m_index (apply_effects fx i (put_entry i e' m))) h =
      (if h \<in> set (all_hashes e') then Some i
       else if h \<in> hashes_of m i then None else dget (m_index m) h)" for h
    unfolding apply_effects_index hs put_entry_sel
    using disj un ix [of h] new by (auto split: option.splits)
  show "dget (m_index m) h = None" if "h \<in> set (all_hashes e')" "h \<notin> hashes_of m i" for h
  proof (cases "fx_added fx")
    case None
    with that un show ?thesis by (auto simp: hs)
  next
    case (Some g)
    with that un have "h = gn_token_hash g" by (auto simp: hs)
    with new [OF Some] show ?thesis by simp
  qed
  show "dmap_ok (m_index (apply_effects fx i (put_entry i e' m)))"
    using map_wfD(2) [OF wf] by (simp add: apply_effects_index)
qed simp_all

lemma refresh_wf:
  assumes wf: "map_wf hash m" and fresh: "dget (m_index m) (hash fresh) = None"
    and bound: "\<And>e. entry_for_hash h m = Some e \<Longrightarrow> e_current_gen e + 1 < 2 ^ 32"
  shows "map_wf hash (snd (refresh hash fresh h now m))"
proof (cases "refreshable (resolve h now m)")
  case False
  then show ?thesis using wf by (simp add: refresh_denied)
next
  case True
  from refresh_granted [OF wf True, of fresh]
  obtain i e token rotated e' fx meta where
    r: "sid_for_hash h m = Some i" "dget (m_sessions m) i = Some e" "e_sid e = i"
    "entry_wf hash (m_policy m) e" "e_status e = Alive"
    "refresh_entry hash fresh now (m_policy m) e = Some (token, rotated, e', fx)"
    and res: "snd (refresh hash fresh h now m) =
        persist (UpdateSessionProgress i (e_current_gen e') (e_idle_exp e'))
          (apply_effects fx i (put_entry i e' m))"
    by (metis snd_conv)
  have "hash fresh \<notin> set (all_hashes e)"
    using map_wfD(5) [OF wf, of "hash fresh" i] fresh r(2) by (auto simp: hashes_of_def)
  moreover have "e_current_gen e + 1 < 2 ^ 32"
    using bound r(1,2) by (simp add: entry_for_hash_def)
  ultimately have w: "entry_wf hash (m_policy m) e'" "e_sid e' = i"
    "set (all_hashes e') \<inter> set (fx_purged fx) = {}"
    "(case fx_added fx of None \<Rightarrow> {} | Some g \<Rightarrow> {gn_token_hash g}) \<union> set (all_hashes e) =
       set (all_hashes e') \<union> set (fx_purged fx)"
    "fx_added fx = None \<or> map_option gn_token_hash (fx_added fx) = Some (hash fresh)"
    using refresh_entry_wf [OF r(4,5) _ _ r(6)] r(3) by simp_all
  have "dget (m_index m) (gn_token_hash g) = None" if "fx_added fx = Some g" for g
    using w(5) fresh that by auto
  from apply_effects_wf [OF wf r(2) w(1-4) this]
  show ?thesis by (simp add: res)
qed

lemma kill_put_wf:
  assumes wf: "map_wf hash m" and e: "dget (m_sessions m) i = Some e"
    and e': "entry_wf hash (m_policy m) e'" "e_sid e' = i" "all_hashes e' = all_hashes e"
  shows "map_wf hash (m\<lparr>m_sessions := dinsert i e' (m_sessions m)\<rparr>)"
proof (rule map_wf_put [OF wf e'(2,1)])
  have hs: "hashes_of m i = set (all_hashes e')" by (simp add: hashes_of_def e e'(3))
  show "dget (m_index (m\<lparr>m_sessions := dinsert i e' (m_sessions m)\<rparr>)) h =
      (if h \<in> set (all_hashes e') then Some i
       else if h \<in> hashes_of m i then None else dget (m_index m) h)" for h
    using map_wfD(5) [OF wf, of h i] by (simp add: hs)
qed (simp_all add: hashes_of_def e e'(3) map_wfD(2) [OF wf])

lemma tombstone_reason_wf:
  assumes wf: "map_wf hash m"
  shows "map_wf hash (snd (tombstone_session_with_reason i now reason m))"
  using kill_put_wf [OF wf, of i] map_wfD(3,4) [OF wf, of i] wf
  by (auto simp: tombstone_session_with_reason_def split: option.split)

lemma tombstone_each_wf: "map_wf hash m \<Longrightarrow> map_wf hash (snd (tombstone_each now is m))"
proof (induction now "is" m rule: tombstone_each.induct)
  case (2 now i "is" m)
  then show ?case
    using tombstone_reason_wf [of hash m i now Kill_UpstreamRevoked]
    by (auto simp: Let_def split: prod.splits)
qed simp

lemma tombstone_by_custody_wf: "map_wf hash m \<Longrightarrow> map_wf hash (snd (tombstone_by_custody c now m))"
  by (simp add: tombstone_by_custody_def tombstone_each_wf)

definition with_custody_status ::
  "custody_id \<Rightarrow> custody_status \<Rightarrow> session_entry \<Rightarrow> session_entry" where
  "with_custody_status c st e = (if e_custody e = c then e\<lparr>e_custody_status := st\<rparr> else e)"

lemma with_custody_status_sel [simp]:
  "e_sid (with_custody_status c st e) = e_sid e"
  "all_hashes (with_custody_status c st e) = all_hashes e"
  "entry_wf hash pol (with_custody_status c st e) = entry_wf hash pol e"
  "e_gens (with_custody_status c st e) = e_gens e"
  "e_retired (with_custody_status c st e) = e_retired e"
  "e_status (with_custody_status c st e) = e_status e"
  "e_absolute_exp (with_custody_status c st e) = e_absolute_exp e"
  "e_idle_exp (with_custody_status c st e) = e_idle_exp e"
  "e_current_gen (with_custody_status c st e) = e_current_gen e"
  by (simp_all add: with_custody_status_def)

lemma set_custody_status_sel:
  "m_sessions (snd (set_custody_status c st m)) =
     map (\<lambda>(i, e). (i, with_custody_status c st e)) (m_sessions m)"
  "m_index (snd (set_custody_status c st m)) = m_index m"
  "m_policy (snd (set_custody_status c st m)) = m_policy m"
  "m_outbox (snd (set_custody_status c st m)) = m_outbox m"
  by (simp_all add: set_custody_status_def Let_def with_custody_status_def)

lemma set_custody_status_lookup:
  "dget (m_sessions (snd (set_custody_status c st m))) i =
     map_option (with_custody_status c st) (dget (m_sessions m) i)"
  unfolding set_custody_status_sel by (rule dget_mapval)

lemma set_custody_status_wf:
  assumes "map_wf hash m"
  shows "map_wf hash (snd (set_custody_status c st m))"
proof -
  let ?m = "snd (set_custody_status c st m)"
  have "hashes_of ?m i = hashes_of m i" for i
    by (simp add: hashes_of_def set_custody_status_lookup split: option.split)
  then show ?thesis
    using assms unfolding map_wf_alt set_custody_status_lookup
    by (auto simp: set_custody_status_sel)
qed

section \<open>The sweep\<close>

lemma reap_sid:
  "entry_wf hash pol e \<Longrightarrow> e_sid (fst (reap_generations now pol e)) = e_sid e"
  using reap_generations_frame(1) [of e pol now] by (cases "reap_generations now pol e")
     (auto simp: entry_wf_def)

lemma sweep_reap_wf:
  assumes wf: "map_wf hash m" and e: "dget (m_sessions m) i = Some e"
  shows "map_wf hash (fst (sweep_reap now i e m))"
    and "m_sessions (fst (sweep_reap now i e m)) =
           dinsert i (fst (reap_generations now (m_policy m) e)) (m_sessions m)"
    and "m_policy (fst (sweep_reap now i e m)) = m_policy m"
proof -
  obtain e' fx where r: "reap_generations now (m_policy m) e = (e', fx)" by fastforce
  note ew = map_wfD(4) [OF wf e] and es = map_wfD(3) [OF wf e]
  have len: "length (e_retired e) \<le> retired_memory (m_policy m)"
    using ew by (simp add: entry_wf_def)
  note w = reap_generations_wf [OF ew r] and fr = reap_generations_frame [OF len r]
  have s: "fst (sweep_reap now i e m) = apply_effects fx i (put_entry i e' m)"
    by (simp add: sweep_reap_def r es)
  show "map_wf hash (fst (sweep_reap now i e m))"
    unfolding s using w fr es by (intro apply_effects_wf [OF wf e]) auto
  show "m_sessions (fst (sweep_reap now i e m)) =
           dinsert i (fst (reap_generations now (m_policy m) e)) (m_sessions m)"
    and "m_policy (fst (sweep_reap now i e m)) = m_policy m"
    by (simp_all add: s r)
qed

lemma sweep_pass_spec:
  assumes "map_wf hash m" and "distinct (map fst es)"
    and "\<And>i e. (i, e) \<in> set es \<Longrightarrow> dget (m_sessions m) i = Some e"
    and "sweep_pass now es (m, retired, removable) = (m', retired', removable')"
  shows "map_wf hash m' \<and> m_policy m' = m_policy m \<and>
     removable' = removable @ map fst (filter (\<lambda>(i, e). collectible now (m_policy m) e) es) \<and>
     (\<forall>i. dget (m_sessions m') i =
        (case map_of es i of
           None \<Rightarrow> dget (m_sessions m) i
         | Some e \<Rightarrow> Some (if collectible now (m_policy m) e then e
                           else fst (reap_generations now (m_policy m) e))))"
  using assms
proof (induction es arbitrary: m retired removable)
  case Nil
  then show ?case by simp
next
  case (Cons ie es)
  obtain i e where ie: "ie = (i, e)" by fastforce
  have e: "dget (m_sessions m) i = Some e" using Cons.prems(3) ie by simp
  note wf = Cons.prems(1)
  have mo: "map_of es i = None" using Cons.prems(2) by (simp add: ie map_of_eq_None_iff)
  show ?case
  proof (cases "collectible now (m_policy m) e")
    case True
    then have "sweep_pass now es (m, retired, removable @ [i]) = (m', retired', removable')"
      using Cons.prems(4) map_wfD(3) [OF wf e] by (simp add: ie)
    from Cons.IH [OF wf _ _ this] Cons.prems(2,3) show ?thesis
      using True e mo by (auto simp: ie)
  next
    case False
    note sr = sweep_reap_wf [OF wf e, of now]
    let ?m = "fst (sweep_reap now i e m)"
    have p: "sweep_pass now es (?m, retired + snd (sweep_reap now i e m), removable) =
        (m', retired', removable')"
      using Cons.prems(4) False by (simp add: ie split: prod.splits)
    have "dget (m_sessions ?m) j = Some e'" if "(j, e') \<in> set es" for j e'
      using that Cons.prems(2,3) by (force simp: ie sr(2))
    from Cons.IH [OF sr(1) _ this p] Cons.prems(2) show ?thesis
      using False e mo by (auto simp: ie sr(2,3) split: option.splits)
  qed
qed

lemma remove_one_wf:
  assumes wf: "map_wf hash m" and e: "dget (m_sessions m) i = Some e"
  shows "map_wf hash (m\<lparr>m_sessions := dremove i (m_sessions m),
               m_index := fold dremove (all_hashes e) (m_index m)\<rparr>)" (is "map_wf hash ?m")
proof -
  have ho: "hashes_of ?m j = (if j = i then {} else hashes_of m j)" for j
    by (simp add: hashes_of_def)
  have "dget (m_index ?m) h = Some j \<longleftrightarrow> h \<in> hashes_of ?m j" for h j
  proof (cases "h \<in> set (all_hashes e)")
    case True
    then have "dget (m_index m) h = Some i"
      using map_wfD(5) [OF wf, of h i] e by (simp add: hashes_of_def)
    with True map_wfD(5) [OF wf, of h j] show ?thesis
      unfolding ho by (auto simp: dm.lookup_fold_del)
  next
    case False
    moreover have "h \<notin> hashes_of m i" using False e by (simp add: hashes_of_def)
    ultimately show ?thesis
      unfolding ho using map_wfD(5) [OF wf, of h j] by (auto simp: dm.lookup_fold_del)
  qed
  then show ?thesis
    using wf unfolding map_wf_alt by (auto simp: dm.wf_fold_del)
qed

lemma remove_sessions_spec:
  assumes "map_wf hash m" and "remove_sessions is (m, k) = (m', k')"
  shows "map_wf hash m' \<and> m_policy m' = m_policy m \<and>
     (\<forall>i. dget (m_sessions m') i = (if i \<in> set is then None else dget (m_sessions m) i))"
  using assms
proof (induction "is" "(m, k)" arbitrary: m k rule: remove_sessions.induct)
  case (2 i "is" m k)
  show ?case
  proof (cases "dget (m_sessions m) i")
    case None
    with 2 show ?thesis by auto
  next
    case (Some e)
    from 2(2) [OF Some remove_one_wf [OF 2(3) Some]] 2(4) Some show ?thesis by auto
  qed
qed simp

text \<open>What a sweep does to each session, and that it keeps the invariant.\<close>

lemma sweep_spec:
  assumes wf: "map_wf hash m"
  shows "map_wf hash (snd (sweep now m))"
    and "m_policy (snd (sweep now m)) = m_policy m"
    and "dget (m_sessions (snd (sweep now m))) i =
      (case dget (m_sessions m) i of
         None \<Rightarrow> None
       | Some e \<Rightarrow> if collectible now (m_policy m) e then None
                   else Some (fst (reap_generations now (m_policy m) e)))"
proof -
  obtain m1 retired removable where
    p: "sweep_pass now (m_sessions m) (m, 0, []) = (m1, retired, removable)"
    by (cases "sweep_pass now (m_sessions m) (m, 0, [])") auto
  obtain m2 removed where r: "remove_sessions removable (m1, 0) = (m2, removed)" by fastforce
  have s: "snd (sweep now m) = m2" by (simp add: sweep_def p r)
  have ok: "dmap_ok (m_sessions m)" by (rule map_wfD(1) [OF wf])
  have 1: "map_wf hash m1 \<and> m_policy m1 = m_policy m \<and>
     removable = map fst (filter (\<lambda>(i, e). collectible now (m_policy m) e) (m_sessions m)) \<and>
     (\<forall>i. dget (m_sessions m1) i =
        (case dget (m_sessions m) i of
           None \<Rightarrow> None
         | Some e \<Rightarrow> Some (if collectible now (m_policy m) e then e
                           else fst (reap_generations now (m_policy m) e))))"
    using sweep_pass_spec [OF wf _ _ p] ok
    by (auto simp: dmap_ok_def dkeys_def dget_def split: option.splits)
  then have 2: "map_wf hash m2 \<and> m_policy m2 = m_policy m1 \<and>
     (\<forall>i. dget (m_sessions m2) i = (if i \<in> set removable then None else dget (m_sessions m1) i))"
    using remove_sessions_spec [OF _ r] by blast
  show "map_wf hash (snd (sweep now m))" and "m_policy (snd (sweep now m)) = m_policy m"
    using 1 2 s by auto
  have "i \<in> set removable \<longleftrightarrow>
      (\<exists>e. dget (m_sessions m) i = Some e \<and> collectible now (m_policy m) e)"
    using 1 ok by (force simp: dget_in_set)
  then show "dget (m_sessions (snd (sweep now m))) i =
      (case dget (m_sessions m) i of
         None \<Rightarrow> None
       | Some e \<Rightarrow> if collectible now (m_policy m) e then None
                   else Some (fst (reap_generations now (m_policy m) e)))"
    using 1 2 s by (auto split: option.splits)
qed

section \<open>Rehydration\<close>

text \<open>Rows that fit together, and with the map they are added to.\<close>

definition restored_ok :: "restored_session \<Rightarrow> session_map \<Rightarrow> bool" where
  "restored_ok r m \<longleftrightarrow>
     dget (m_sessions m) (rs_sid r) = None \<and>
     gens_wf (rs_current_gen r) (sort_key gn_gen_no (rs_gens r)) \<and>
     rs_current_gen r < 2 ^ 32 \<and>
     distinct (map gn_token_hash (rs_gens r)) \<and>
     (\<forall>g \<in> set (rs_gens r). dget (m_index m) (gn_token_hash g) = None) \<and>
     rs_idle_exp r \<le> rs_absolute_exp r"

lemma gens_wf_Nil [simp]: "\<not> gens_wf cur []"
  by (simp add: gens_wf_def)

definition restored_entry :: "restored_session \<Rightarrow> session_entry" where
  "restored_entry r =
     \<lparr>e_sid = rs_sid r, e_custody = rs_custody r, e_sub = rs_sub r,
      e_gens = sort_key gn_gen_no (rs_gens r), e_current_gen = rs_current_gen r,
      e_current_token = None, e_idle_exp = rs_idle_exp r, e_absolute_exp = rs_absolute_exp r,
      e_status = Alive, e_tombstoned_at = None, e_custody_status = Ok, e_retired = []\<rparr>"

lemma distinct_map_sort_key: "distinct (map f xs) \<Longrightarrow> distinct (map f (sort_key k xs))"
  by (metis distinct_map distinct_sort set_sort)

lemma rehydrate_session_sel:
  assumes "rs_gens r \<noteq> []"
  shows "m_sessions (snd (rehydrate_session r m)) =
       dinsert (rs_sid r) (restored_entry r) (m_sessions m)"
    and "m_policy (snd (rehydrate_session r m)) = m_policy m"
    and "m_outbox (snd (rehydrate_session r m)) = m_outbox m"
    and "m_events (snd (rehydrate_session r m)) = m_events m"
    and "dget (m_index (snd (rehydrate_session r m))) h =
       (if h \<in> gn_token_hash ` set (rs_gens r) then Some (rs_sid r) else dget (m_index m) h)"
  using assms by (simp_all add: rehydrate_session_def Let_def restored_entry_def dm.lookup_fold_put)

lemma restored_entry_wf:
  "restored_ok r m \<Longrightarrow> entry_wf hash pol (restored_entry r)"
  by (auto simp: restored_ok_def restored_entry_def entry_wf_def all_hashes_def
      intro: distinct_map_sort_key)

lemma rehydrate_session_wf:
  assumes wf: "map_wf hash m" and ok: "restored_ok r m"
  shows "map_wf hash (snd (rehydrate_session r m))"
proof (rule map_wf_put [OF wf _ restored_entry_wf [OF ok], of "rs_sid r"])
  from ok have ne: "rs_gens r \<noteq> []" by (auto simp: restored_ok_def)
  note sel = rehydrate_session_sel [OF ne]
  have hs: "set (all_hashes (restored_entry r)) = gn_token_hash ` set (rs_gens r)"
    by (simp add: all_hashes_def restored_entry_def)
  have none: "hashes_of m (rs_sid r) = {}" using ok by (simp add: hashes_of_def restored_ok_def)
  show "e_sid (restored_entry r) = rs_sid r" by (simp add: restored_entry_def)
  show "m_sessions (snd (rehydrate_session r m)) =
       dinsert (rs_sid r) (restored_entry r) (m_sessions m)" by (rule sel)
  show "m_policy (snd (rehydrate_session r m)) = m_policy m" by (rule sel)
  show "dmap_ok (m_index (snd (rehydrate_session r m)))"
    using map_wfD(2) [OF wf] by (simp add: rehydrate_session_def Let_def dm.wf_fold_put)
  show "dget (m_index (snd (rehydrate_session r m))) h =
      (if h \<in> set (all_hashes (restored_entry r)) then Some (rs_sid r)
       else if h \<in> hashes_of m (rs_sid r) then None else dget (m_index m) h)" for h
    unfolding sel hs none by simp
  show "dget (m_index m) h = None"
    if "h \<in> set (all_hashes (restored_entry r))" "h \<notin> hashes_of m (rs_sid r)" for h
    using that ok unfolding hs by (auto simp: restored_ok_def)
qed

section \<open>The map as a machine\<close>

datatype session_op =
    Do_Create session_token sid custody_id string timestamp
  | Do_Refresh session_token token_hash timestamp
  | Do_Tombstone sid timestamp kill_reason
  | Do_Tombstone_Custody custody_id timestamp
  | Do_Set_Custody custody_id custody_status
  | Do_Sweep timestamp
  | Do_Rehydrate restored_session

fun session_step :: "(session_token \<Rightarrow> token_hash) \<Rightarrow> session_op \<Rightarrow> session_map \<Rightarrow> session_map" where
  "session_step hash (Do_Create fresh i c sub now) m = snd (create hash fresh i c sub now m)"
| "session_step hash (Do_Refresh fresh h now) m = snd (refresh hash fresh h now m)"
| "session_step hash (Do_Tombstone i now reason) m =
     snd (tombstone_session_with_reason i now reason m)"
| "session_step hash (Do_Tombstone_Custody c now) m = snd (tombstone_by_custody c now m)"
| "session_step hash (Do_Set_Custody c st) m = snd (set_custody_status c st m)"
| "session_step hash (Do_Sweep now) m = snd (sweep now m)"
| "session_step hash (Do_Rehydrate r) m = snd (rehydrate_session r m)"

fun session_admits :: "(session_token \<Rightarrow> token_hash) \<Rightarrow> session_op \<Rightarrow> session_map \<Rightarrow> bool" where
  "session_admits hash (Do_Create fresh i c sub now) m \<longleftrightarrow>
     dget (m_sessions m) i = None \<and> dget (m_index m) (hash fresh) = None"
| "session_admits hash (Do_Refresh fresh h now) m \<longleftrightarrow>
     dget (m_index m) (hash fresh) = None \<and>
     (case entry_for_hash h m of None \<Rightarrow> True | Some e \<Rightarrow> e_current_gen e + 1 < 2 ^ 32)"
| "session_admits hash (Do_Rehydrate r) m \<longleftrightarrow> restored_ok r m"
| "session_admits hash _ m \<longleftrightarrow> True"

lemma session_step_wf:
  "map_wf hash m \<Longrightarrow> session_admits hash op m \<Longrightarrow> map_wf hash (session_step hash op m)"
  by (cases op)
    (auto intro!: create_wf refresh_wf tombstone_reason_wf tombstone_by_custody_wf
      set_custody_status_wf sweep_spec(1) rehydrate_session_wf split: option.splits)

interpretation smap: invariant_machine "session_step hash" "session_admits hash" "map_wf hash"
  for hash
  by unfold_locales (rule session_step_wf)

end
