(* ===== verification/Session_Safety.thy ===== *)
theory Session_Safety
  imports Session_Wf
begin

text \<open>
  What the session map promises, over runs of its operations. \<open>entry_step\<close> is the view one
  session has of an operation; every run-level fact is an invariant of it, lifted through the
  map.
\<close>

section \<open>An operation as one session sees it\<close>

inductive entry_step ::
  "(session_token \<Rightarrow> token_hash) \<Rightarrow> session_policy \<Rightarrow> session_op \<Rightarrow> session_entry \<Rightarrow>
   session_entry option \<Rightarrow> bool" for hash pol where
  Stay: "entry_step hash pol op e (Some e)"
| Refreshed: "refreshable (classify e h now pol) \<Longrightarrow> hash fresh \<notin> set (all_hashes e) \<Longrightarrow>
    e_current_gen e + 1 < 2 ^ 32 \<Longrightarrow>
    refresh_entry hash fresh now pol e = Some (token, rotated, e', fx) \<Longrightarrow>
    entry_step hash pol (Do_Refresh fresh h now) e (Some e')"
| Killed: "e_status e = Alive \<Longrightarrow> entry_step hash pol (Do_Tombstone i now reason) e (Some (kill_entry now e))"
| Revoked: "e_status e = Alive \<Longrightarrow>
    entry_step hash pol (Do_Tombstone_Custody c now) e (Some (kill_entry now e))"
| Restatus: "entry_step hash pol (Do_Set_Custody c st) e (Some (with_custody_status c st e))"
| Reaped: "\<not> collectible now pol e \<Longrightarrow>
    entry_step hash pol (Do_Sweep now) e (Some (fst (reap_generations now pol e)))"
| Collected: "collectible now pol e \<Longrightarrow> entry_step hash pol (Do_Sweep now) e None"

inductive_cases entry_step_NoneE: "entry_step hash pol op e None"

fun op_sid :: "session_op \<Rightarrow> sid option" where
  "op_sid (Do_Create _ i _ _ _) = Some i"
| "op_sid (Do_Rehydrate r) = Some (rs_sid r)"
| "op_sid _ = None"

lemma tombstone_reason_lookup:
  "dget (m_sessions (snd (tombstone_session_with_reason i now reason m))) j =
     (case dget (m_sessions m) j of
        None \<Rightarrow> None
      | Some e \<Rightarrow> Some (if j = i \<and> e_status e = Alive then kill_entry now e else e))"
  by (auto simp: tombstone_session_with_reason_def split: option.split)

lemma tombstone_each_lookup:
  "dget (m_sessions (snd (tombstone_each now is m))) j =
     (case dget (m_sessions m) j of
        None \<Rightarrow> None
      | Some e \<Rightarrow> Some (if j \<in> set is \<and> e_status e = Alive then kill_entry now e else e))"
proof (induction now "is" m rule: tombstone_each.induct)
  case (2 now i "is" m)
  obtain k m1 where 1: "tombstone_session_with_reason i now Kill_UpstreamRevoked m = (k, m1)"
    by fastforce
  obtain n m2 where 2: "tombstone_each now is m1 = (n, m2)" by fastforce
  show ?case
    using "2.IH" [OF 1 [symmetric]] tombstone_reason_lookup [of i now Kill_UpstreamRevoked m j]
    by (auto simp: 1 2 split: option.splits)
qed (simp split: option.split)

lemma tombstone_reason_policy [simp]:
  "m_policy (snd (tombstone_session_with_reason i now reason m)) = m_policy m"
  by (simp add: tombstone_session_with_reason_def split: option.split)

lemma tombstone_each_policy [simp]: "m_policy (snd (tombstone_each now is m)) = m_policy m"
proof (induction now "is" m rule: tombstone_each.induct)
  case (2 now i "is" m)
  obtain k m1 where 1: "tombstone_session_with_reason i now Kill_UpstreamRevoked m = (k, m1)"
    by fastforce
  then have "m_policy m1 = m_policy m" by (metis snd_conv tombstone_reason_policy)
  with 2 1 show ?case by (cases "tombstone_each now is m1") auto
qed simp

lemma session_step_policy:
  assumes "map_wf hash m"
  shows "m_policy (session_step hash op m) = m_policy m"
  using assms
  by (cases op) (auto simp: create_def Let_def refresh_def tombstone_by_custody_def
      set_custody_status_sel sweep_spec(2) rehydrate_session_def split: option.split resolution.split)

text \<open>A refresh moves the entry it is about and no other.\<close>

lemma refresh_lookup:
  assumes wf: "map_wf hash m" and ok: "session_admits hash (Do_Refresh fresh h now) m"
    and e: "dget (m_sessions m) j = Some e"
  shows "\<exists>e'. dget (m_sessions (snd (refresh hash fresh h now m))) j = Some e' \<and>
     entry_step hash (m_policy m) (Do_Refresh fresh h now) e (Some e')"
proof (cases "refreshable (resolve h now m)")
  case False
  then show ?thesis using e by (auto simp: refresh_denied intro: entry_step.Stay)
next
  case True
  from refresh_granted [OF wf True, of fresh]
  obtain i e0 token rotated e' fx where
    r: "sid_for_hash h m = Some i" "dget (m_sessions m) i = Some e0"
    "refreshable (classify e0 h now (m_policy m))"
    "refresh_entry hash fresh now (m_policy m) e0 = Some (token, rotated, e', fx)"
    and res: "snd (refresh hash fresh h now m) =
        persist (UpdateSessionProgress i (e_current_gen e') (e_idle_exp e'))
          (apply_effects fx i (put_entry i e' m))"
    by (metis snd_conv)
  show ?thesis
  proof (cases "j = i")
    case True
    have "hash fresh \<notin> set (all_hashes e0)"
      using map_wfD(5) [OF wf, of "hash fresh" i] ok r(2) by (auto simp: hashes_of_def)
    moreover have "e_current_gen e0 + 1 < 2 ^ 32"
      using ok r(1,2) by (simp add: entry_for_hash_def)
    ultimately show ?thesis
      using True e r by (auto simp: res intro!: entry_step.Refreshed)
  next
    case False
    then show ?thesis using e by (auto simp: res intro: entry_step.Stay)
  qed
qed

lemma session_step_entry:
  assumes wf: "map_wf hash m" and ok: "session_admits hash op m"
    and e: "dget (m_sessions m) i = Some e"
  shows "entry_step hash (m_policy m) op e (dget (m_sessions (session_step hash op m)) i)"
proof (cases op)
  case (Do_Create fresh j c sub now)
  with ok e have "i \<noteq> j" by auto
  then show ?thesis
    using e by (auto simp: Do_Create create_def Let_def intro: entry_step.Stay)
next
  case (Do_Refresh fresh h now)
  from refresh_lookup [OF wf ok [unfolded Do_Refresh] e] show ?thesis
    by (auto simp: Do_Refresh)
next
  case (Do_Tombstone j now reason)
  then show ?thesis
    using e by (auto simp: tombstone_reason_lookup intro: entry_step.intros)
next
  case (Do_Tombstone_Custody c now)
  then show ?thesis
    using e by (auto simp: tombstone_by_custody_def tombstone_each_lookup intro: entry_step.intros)
next
  case (Do_Set_Custody c st)
  then show ?thesis
    using e by (auto simp: set_custody_status_lookup intro: entry_step.intros)
next
  case (Do_Sweep now)
  then show ?thesis
    using e by (auto simp: sweep_spec(3) [OF wf] intro: entry_step.intros)
next
  case (Do_Rehydrate r)
  with ok e have "i \<noteq> rs_sid r" "rs_gens r \<noteq> []" by (auto simp: restored_ok_def)
  then show ?thesis
    using e by (auto simp: Do_Rehydrate rehydrate_session_sel intro: entry_step.Stay)
qed

text \<open>A session that is not there appears only by \<open>create\<close> or \<open>rehydrate_session\<close>.\<close>

lemma session_step_absent:
  assumes wf: "map_wf hash m" and none: "dget (m_sessions m) i = None" and "op_sid op \<noteq> Some i"
  shows "dget (m_sessions (session_step hash op m)) i = None"
proof (cases op)
  case (Do_Refresh fresh h now)
  show ?thesis
  proof (cases "refreshable (resolve h now m)")
    case False
    then show ?thesis using none by (simp add: Do_Refresh refresh_denied)
  next
    case True
    from refresh_granted [OF wf True, of fresh] obtain j e0 e' fx where
      "dget (m_sessions m) j = Some e0"
      and "snd (refresh hash fresh h now m) =
        persist (UpdateSessionProgress j (e_current_gen e') (e_idle_exp e'))
          (apply_effects fx j (put_entry j e' m))"
      by (metis snd_conv)
    with none show ?thesis by (auto simp: Do_Refresh)
  qed
next
  case (Do_Rehydrate r)
  with assms show ?thesis
    by (cases "rs_gens r = []") (auto simp: rehydrate_session_sel, simp add: rehydrate_session_def)
qed (use assms in \<open>auto simp: create_def Let_def tombstone_reason_lookup tombstone_by_custody_def
      tombstone_each_lookup set_custody_status_lookup sweep_spec(3)\<close>)

section \<open>Facts about one session, lifted to runs\<close>

definition entry_holds :: "sid \<Rightarrow> (session_entry \<Rightarrow> bool) \<Rightarrow> session_map \<Rightarrow> bool" where
  "entry_holds i p m \<longleftrightarrow> (case dget (m_sessions m) i of None \<Rightarrow> True | Some e \<Rightarrow> p e)"

text \<open>
  The operations of a run about session \<open>i\<close>: admitted ones, none of which creates a second
  session under the same sid, each satisfying \<open>g\<close>.
\<close>

definition admits_for ::
  "(session_token \<Rightarrow> token_hash) \<Rightarrow> sid \<Rightarrow> (session_op \<Rightarrow> bool) \<Rightarrow> session_op \<Rightarrow> session_map \<Rightarrow> bool"
  where
  "admits_for hash i g op m \<longleftrightarrow> session_admits hash op m \<and> op_sid op \<noteq> Some i \<and> g op"

locale entry_property =
  fixes hash :: "session_token \<Rightarrow> token_hash"
    and pol :: session_policy
    and g :: "session_op \<Rightarrow> bool"
    and p :: "session_entry \<Rightarrow> bool"
  assumes p_step: "entry_wf hash pol e \<Longrightarrow> p e \<Longrightarrow> g op \<Longrightarrow> entry_step hash pol op e (Some e') \<Longrightarrow> p e'"
begin

lemma holds_step:
  assumes wf: "map_wf hash m" and pol: "m_policy m = pol" and h: "entry_holds i p m"
    and ok: "admits_for hash i g op m"
  shows "entry_holds i p (session_step hash op m)"
proof (cases "dget (m_sessions m) i")
  case None
  with ok session_step_absent [OF wf None, of op] show ?thesis
    by (simp add: admits_for_def entry_holds_def)
next
  case (Some e)
  from ok have "session_admits hash op m" by (simp add: admits_for_def)
  from session_step_entry [OF wf this Some] have
    st: "entry_step hash pol op e (dget (m_sessions (session_step hash op m)) i)" by (simp add: pol)
  show ?thesis
  proof (cases "dget (m_sessions (session_step hash op m)) i")
    case None
    then show ?thesis by (simp add: entry_holds_def)
  next
    case (Some e')
    with st ok h \<open>dget (m_sessions m) i = Some e\<close> map_wfD(4) [OF wf, of i e] show ?thesis
      by (auto simp: entry_holds_def admits_for_def pol intro: p_step)
  qed
qed

lemma invariant_machine_run:
  "invariant_machine (session_step hash) (admits_for hash i g)
     (\<lambda>m. map_wf hash m \<and> m_policy m = pol \<and> entry_holds i p m)"
  by unfold_locales
    (auto simp: admits_for_def session_step_policy intro: session_step_wf holds_step)

end

sublocale entry_property \<subseteq> run: invariant_machine "session_step hash" "admits_for hash i g"
    "\<lambda>m. map_wf hash m \<and> m_policy m = pol \<and> entry_holds i p m" for i
  by (rule invariant_machine_run)

section \<open>Tokens do not change hands\<close>

text \<open>The hashes an operation can put into the index.\<close>

fun op_mints :: "(session_token \<Rightarrow> token_hash) \<Rightarrow> session_op \<Rightarrow> token_hash set" where
  "op_mints hash (Do_Create fresh _ _ _ _) = {hash fresh}"
| "op_mints hash (Do_Refresh fresh _ _) = {hash fresh}"
| "op_mints hash (Do_Rehydrate r) = gn_token_hash ` set (rs_gens r)"
| "op_mints hash _ = {}"

lemma entry_step_hashes:
  assumes wf: "entry_wf hash pol e" and st: "entry_step hash pol op e (Some e')"
  shows "set (all_hashes e') \<subseteq> set (all_hashes e) \<union> op_mints hash op"
  using st
proof cases
  case (Refreshed h now fresh token rotated fx)
  note al = classify_refreshable_alive [OF Refreshed(2)]
  from refresh_entry_wf [OF wf _ Refreshed(3,4,5)] al show ?thesis
    by (auto simp: Refreshed(1) split: option.splits)
next
  case (Reaped now)
  then show ?thesis
    using reap_generations_wf(2) [OF wf, of now] by (cases "reap_generations now pol e") auto
qed auto

lemma session_step_hashes:
  assumes wf: "map_wf hash m" and ok: "session_admits hash op m"
  shows "hashes_of (session_step hash op m) j \<subseteq> hashes_of m j \<union> op_mints hash op"
proof (cases "dget (m_sessions m) j")
  case (Some e)
  from session_step_entry [OF wf ok Some] entry_step_hashes [OF map_wfD(4) [OF wf Some]]
  show ?thesis
    by (cases "dget (m_sessions (session_step hash op m)) j") (auto simp: hashes_of_def Some dest!: subsetD)
next
  case None
  show ?thesis
  proof (cases "op_sid op = Some j")
    case False
    with session_step_absent [OF wf None] show ?thesis by (simp add: hashes_of_def)
  next
    case True
    then show ?thesis
    proof (cases op)
      case (Do_Create fresh i c sub now)
      with True show ?thesis
        by (auto simp: hashes_of_def create_def Let_def new_entry_wf(2))
    next
      case (Do_Rehydrate r)
      with True ok show ?thesis
        by (cases "rs_gens r = []")
          (auto simp: hashes_of_def rehydrate_session_sel restored_entry_def all_hashes_def restored_ok_def)
    qed auto
  qed
qed

text \<open>A token hash that no operation mints again belongs to its session or to nobody.\<close>

definition owned_or_gone :: "token_hash \<Rightarrow> sid \<Rightarrow> session_map \<Rightarrow> bool" where
  "owned_or_gone h i m \<longleftrightarrow> dget (m_index m) h = None \<or> dget (m_index m) h = Some i"

lemma owned_step:
  assumes wf: "map_wf hash m" and ok: "session_admits hash op m" and "owned_or_gone h i m"
    and "h \<notin> op_mints hash op"
  shows "owned_or_gone h i (session_step hash op m)"
proof (cases "dget (m_index (session_step hash op m)) h")
  case (Some j)
  then have "h \<in> hashes_of (session_step hash op m) j"
    using map_wfD(5) [OF session_step_wf [OF wf ok]] by simp
  with session_step_hashes [OF wf ok] assms(4) have "h \<in> hashes_of m j" by auto
  then have "dget (m_index m) h = Some j" using map_wfD(5) [OF wf] by simp
  with assms(3) Some show ?thesis by (auto simp: owned_or_gone_def)
qed (simp add: owned_or_gone_def)

lemma owned_run:
  assumes "map_wf hash m" and "owned_or_gone h i m"
    and "admitted (session_step hash) (admits_for hash i (\<lambda>op. h \<notin> op_mints hash op \<and> g op)) ops m"
  shows "owned_or_gone h i (run (session_step hash) ops m)"
proof -
  have "invariant_machine (session_step hash)
      (admits_for hash i (\<lambda>op. h \<notin> op_mints hash op \<and> g op)) (\<lambda>m. map_wf hash m \<and> owned_or_gone h i m)"
    by unfold_locales (auto simp: admits_for_def intro: session_step_wf owned_step)
  from invariant_machine.inv_run [OF this, of m ops] assms show ?thesis by auto
qed

section \<open>The invariant over runs\<close>

text \<open>
  C1. Starting from an empty map, every run of operations on fresh sids and tokens leaves every
  entry well formed and the index listing exactly the tokens of the entries; in particular no
  session ever loses its current generation, so the \<open>expect\<close> in \<open>current\<close> cannot fire.
\<close>

theorem session_map_invariant:
  assumes "admitted (session_step hash) (session_admits hash) ops (with_durability pol)"
  shows "map_wf hash (run (session_step hash) ops (with_durability pol))"
  using assms by (intro smap.inv_run map_wf_new)

section \<open>Kill is final\<close>

interpretation dead: entry_property hash pol g "\<lambda>e. e_status e = Tombstoned" for hash pol g
proof
  fix e op e'
  assume wf: "entry_wf hash pol e" and d: "e_status e = Tombstoned"
    and st: "entry_step hash pol op e (Some e')"
  from st show "e_status e' = Tombstoned"
  proof cases
    case (Refreshed h now fresh token rotated fx)
    with d classify_refreshable_alive [OF Refreshed(2)] show ?thesis by simp
  next
    case (Reaped now)
    then show ?thesis
      using d wf reap_generations_frame(8) [of e pol now]
      by (cases "reap_generations now pol e") (auto simp: entry_wf_def)
  qed (use d in auto)
qed

lemma tombstoned_not_refreshable:
  assumes "entry_holds i (\<lambda>e. e_status e = Tombstoned) m" and "owned_or_gone h i m"
  shows "\<not> refreshable (resolve h t m)"
  using assms
  by (auto simp: resolve_def entry_for_hash_def sid_for_hash_def owned_or_gone_def entry_holds_def
      classify_def session_expiry_def refreshable_def split: option.splits)

lemma authenticates_refreshable: "authenticates r \<Longrightarrow> refreshable r"
  by (cases r) (simp_all add: refreshable_def)

lemma killed_not_refreshable:
  assumes wf: "map_wf hash m" and "dget (m_sessions m) i = Some e" and h: "h \<in> set (all_hashes e)"
    and run: "admitted (session_step hash) (admits_for hash i (\<lambda>op. h \<notin> op_mints hash op)) ops
       (snd (tombstone_session_with_reason i now reason m))"
  shows "\<not> refreshable (resolve h t (run (session_step hash) ops
       (snd (tombstone_session_with_reason i now reason m))))"
proof -
  let ?k = "snd (tombstone_session_with_reason i now reason m)"
  have wk: "map_wf hash ?k" by (rule tombstone_reason_wf [OF wf])
  have "entry_holds i (\<lambda>e. e_status e = Tombstoned) ?k"
    using assms(2) by (auto simp: entry_holds_def tombstone_reason_lookup) (metis session_status.exhaust)
  with wk dead.run.inv_run [where pol = "m_policy m" and i = i, OF _ run]
  have "entry_holds i (\<lambda>e. e_status e = Tombstoned) (run (session_step hash) ops ?k)" by simp
  moreover have "owned_or_gone h i ?k"
    using h assms(2) map_wfD(5) [OF wk, of h i]
    by (auto simp: owned_or_gone_def hashes_of_def tombstone_reason_lookup)
  with wk run have "owned_or_gone h i (run (session_step hash) ops ?k)"
    by (intro owned_run [where g = "\<lambda>_. True"]) simp_all
  ultimately show ?thesis by (rule tombstoned_not_refreshable)
qed

text \<open>
  C3 (INV-7). One kill ends every generation of the session at once and for good: after it, and
  after any further run of operations, no token the session ever had in the index authenticates
  or refreshes at any time.
\<close>

theorem kill_is_final:
  assumes wf: "map_wf hash m" and "dget (m_sessions m) i = Some e" and h: "h \<in> set (all_hashes e)"
    and run: "admitted (session_step hash) (admits_for hash i (\<lambda>op. h \<notin> op_mints hash op)) ops
       (snd (tombstone_session_with_reason i now reason m))"
  shows "\<not> refreshable (resolve h t (run (session_step hash) ops
       (snd (tombstone_session_with_reason i now reason m))))"
  using assms by (rule killed_not_refreshable)

section \<open>A session to evaluate on\<close>

definition demo_map :: session_map where
  "demo_map = snd (create bytes_of ''tok1'' ''s1'' ''c1'' ''alice'' 1000
     (set_observer (with_durability default_policy)))"

definition demo_entry :: session_entry where
  "demo_entry = new_entry default_policy ''s1'' ''c1'' ''alice'' ''tok1'' (bytes_of ''tok1'') 1000"

lemma demo_map_wf: "map_wf bytes_of demo_map"
  by code_simp

lemma demo_map_lookup: "dget (m_sessions demo_map) ''s1'' = Some demo_entry"
  by code_simp

text \<open>A create, a refresh after the coalescing window, a sweep, a logout.\<close>

theorem session_map_invariant_witness:
  "map_wf bytes_of (run (session_step bytes_of)
     [Do_Create ''tok1'' ''s1'' ''c1'' ''alice'' 1000, Do_Refresh ''tok2'' (bytes_of ''tok1'') 1040,
      Do_Sweep 1110, Do_Tombstone ''s1'' 1120 Kill_LoggedOut] (with_durability default_policy))"
  by (rule session_map_invariant) code_simp

text \<open>A logout, then a refresh attempt and a sweep.\<close>

theorem kill_is_final_witness:
  "\<not> refreshable (resolve (bytes_of ''tok1'') 1100
     (run (session_step bytes_of) [Do_Refresh ''tok2'' (bytes_of ''tok1'') 1050, Do_Sweep 1060]
       (snd (tombstone_session_with_reason ''s1'' 1040 Kill_LoggedOut demo_map))))"
  by (rule kill_is_final [OF demo_map_wf demo_map_lookup]; code_simp)

section \<open>The absolute ceiling\<close>

interpretation ceiling: entry_property hash pol g "\<lambda>e. e_absolute_exp e = a" for hash pol g a
proof
  fix e op e'
  assume wf: "entry_wf hash pol e" and a: "e_absolute_exp e = a"
    and st: "entry_step hash pol op e (Some e')"
  have len: "length (e_retired e) \<le> retired_memory pol" using wf by (simp add: entry_wf_def)
  from st show "e_absolute_exp e' = a"
  proof cases
    case (Refreshed h now fresh token rotated fx)
    show ?thesis
    proof (cases rule: refresh_entry_cases [OF wf, of now fresh, case_names coalesce mints])
      case (coalesce t)
      with Refreshed a show ?thesis by auto
    next
      case (mints e1 fx1)
      with Refreshed a mint_frame(5) [OF len mints(2)] show ?thesis by auto
    qed
  next
    case (Reaped now)
    then show ?thesis
      using a reap_generations_frame(7) [OF len, of now] by (cases "reap_generations now pol e") auto
  qed (use a in \<open>auto simp: kill_entry_def\<close>)
qed

lemma expired_not_refreshable:
  "session_expiry e t pol \<noteq> None \<Longrightarrow> \<not> refreshable (classify e h t pol)"
  by (auto simp: classify_def refreshable_def)

text \<open>
  C4. The absolute ceiling is never extended: whatever happens to a session after its creation,
  from \<open>absolute_ttl_secs\<close> after it on no token of the session authenticates or refreshes.
\<close>

theorem absolute_ceiling_holds:
  assumes wf: "map_wf hash m" and new: "session_admits hash (Do_Create fresh i c sub now) m"
    and "sane_time now" and "sane_secs (absolute_ttl_secs (m_policy m))"
    and run: "admitted (session_step hash) (admits_for hash i (\<lambda>_. True)) ops
        (snd (create hash fresh i c sub now m))"
    and late: "now + int (absolute_ttl_secs (m_policy m)) \<le> t"
    and owner: "sid_for_hash h (run (session_step hash) ops (snd (create hash fresh i c sub now m))) = Some i"
  shows "\<not> refreshable (resolve h t (run (session_step hash) ops (snd (create hash fresh i c sub now m))))"
proof -
  let ?m = "snd (create hash fresh i c sub now m)" and ?a = "now + int (absolute_ttl_secs (m_policy m))"
  let ?r = "run (session_step hash) ops ?m"
  have "map_wf hash ?m" using create_wf [OF wf] new by simp
  moreover have "m_policy ?m = m_policy m" by (simp add: create_def Let_def)
  moreover have "entry_holds i (\<lambda>e. e_absolute_exp e = ?a) ?m"
    using assms(3,4)
    by (simp add: entry_holds_def create_def Let_def new_entry_def plus_secs_exact)
  ultimately have "map_wf hash ?r \<and> m_policy ?r = m_policy m \<and> entry_holds i (\<lambda>e. e_absolute_exp e = ?a) ?r"
    using ceiling.run.inv_run [OF _ run] by blast
  then obtain e where "entry_for_hash h ?r = Some e" "e_absolute_exp e = ?a"
    using owner by (auto elim!: map_wf_sid_for simp: entry_for_hash_def entry_holds_def)
  with late show ?thesis
    by (auto simp: resolve_def session_expiry_def intro!: expired_not_refreshable)
qed

text \<open>Thirty days after its creation, a session that was refreshed once is over.\<close>

theorem absolute_ceiling_witness:
  "\<not> refreshable (resolve (bytes_of ''tok2'') 2593000
     (run (session_step bytes_of) [Do_Refresh ''tok2'' (bytes_of ''tok1'') 2000]
       (snd (create bytes_of ''tok1'' ''s1'' ''c1'' ''alice'' 1000 (with_durability default_policy)))))"
  by (rule absolute_ceiling_holds [OF map_wf_new(2)]; code_simp)

section \<open>Refresh is total\<close>

text \<open>
  C7. A refresh answers for every token: it succeeds for exactly the resolutions \<open>Active\<close> and
  \<open>StaleRefreshable\<close>, never panics, and a denied one changes nothing.
\<close>

theorem refresh_is_total:
  assumes wf: "map_wf hash m"
  shows "if refreshable (resolve h now m)
     then \<exists>c. fst (refresh hash fresh h now m) = Some (Inr c)
     else (\<exists>d. fst (refresh hash fresh h now m) = Some (Inl d)) \<and> snd (refresh hash fresh h now m) = m"
proof (cases "refreshable (resolve h now m)")
  case True
  from refresh_granted [OF wf True, of fresh] show ?thesis using True by (metis fst_conv)
next
  case False
  then show ?thesis
    by (auto simp: refresh_denied refresh_def resolve_def entry_for_hash_def refreshable_def
        split: option.split resolution.split)
qed

text \<open>One refresh that rotates, and one with a token nobody issued.\<close>

theorem refresh_is_total_witness:
  "(\<exists>c. fst (refresh bytes_of ''tok2'' (bytes_of ''tok1'') 1040 demo_map) = Some (Inr c)) \<and>
   snd (refresh bytes_of ''tok2'' (bytes_of ''nope'') 1040 demo_map) = demo_map"
proof -
  have "(refreshable (resolve (bytes_of ''tok1'') 1040 demo_map)) \<and>
      (\<not> refreshable (resolve (bytes_of ''nope'') 1040 demo_map))" by code_simp
  then show ?thesis
    using refresh_is_total [OF demo_map_wf, of "bytes_of ''tok1''" 1040 "''tok2''"]
      refresh_is_total [OF demo_map_wf, of "bytes_of ''nope''" 1040 "''tok2''"] by simp
qed

end
