(* ===== verification/Session_Grace.thy ===== *)
theory Session_Grace
  imports Session_Safety
begin

text \<open>
  Non-invalidating rotation (INV-6) over runs. The cap on live generations never evicts a
  generation still inside its grace window when \<open>max_live_gens - 1\<close> coalescing windows cover
  the grace period, because mints of one session are a coalescing window apart. With that, a
  current token keeps authenticating for the whole grace period whatever else happens.
\<close>

section \<open>Spacing of mints\<close>

text \<open>Generations in order, each superseded before its successor was born, births spaced.\<close>

definition spaced_after :: "nat \<Rightarrow> generation \<Rightarrow> generation \<Rightarrow> bool" where
  "spaced_after coal g g' \<longleftrightarrow>
     gn_created_at g + int coal \<le> gn_created_at g' \<and>
     (case gn_superseded_at g of None \<Rightarrow> False | Some s \<Rightarrow> sane_time s \<and> s \<le> gn_created_at g')"

definition entry_spaced :: "session_policy \<Rightarrow> session_entry \<Rightarrow> bool" where
  "entry_spaced pol e \<longleftrightarrow>
     sorted_wrt (spaced_after (coalesce_secs pol)) (e_gens e) \<and>
     (\<forall>g \<in> set (e_gens e). sane_time (gn_created_at g)) \<and>
     length (e_gens e) \<le> max (max_live_gens pol) 1 \<and>
     (e_status e = Alive \<longrightarrow> e_current_token e \<noteq> None)"

text \<open>What the policy has to satisfy; the defaults do.\<close>

definition grace_covered :: "session_policy \<Rightarrow> bool" where
  "grace_covered pol \<longleftrightarrow>
     0 < coalesce_secs pol \<and> 2 \<le> max_live_gens pol \<and> sane_secs (grace_secs pol) \<and>
     grace_secs pol \<le> (max_live_gens pol - 1) * coalesce_secs pol"

lemma grace_covered_default: "grace_covered default_policy"
  by code_simp

lemma spaced_last:
  assumes "sorted_wrt (spaced_after coal) (g # gs)" and "gs \<noteq> []"
  shows "\<exists>s. gn_superseded_at g = Some s \<and> sane_time s \<and>
     s + int ((length gs - 1) * coal) \<le> gn_created_at (last gs)"
  using assms
proof (induction gs arbitrary: g)
  case (Cons g' gs)
  show ?case
  proof (cases "gs = []")
    case True
    with Cons.prems show ?thesis by (auto simp: spaced_after_def split: option.splits)
  next
    case False
    have s': "sorted_wrt (spaced_after coal) (g' # gs)" using Cons.prems by simp
    have far: "gn_created_at g' + int (length gs * coal) \<le> gn_created_at (last gs)"
      using s' False
    proof (induction gs arbitrary: g')
      case (Cons x xs)
      show ?case
      proof (cases "xs = []")
        case True
        with Cons.prems show ?thesis by (auto simp: spaced_after_def)
      next
        case False
        with Cons.IH [of x] Cons.prems show ?thesis
          by (auto simp: spaced_after_def algebra_simps)
      qed
    qed simp
    from Cons.prems obtain s where "gn_superseded_at g = Some s" "sane_time s" "s \<le> gn_created_at g'"
      by (auto simp: spaced_after_def split: option.splits)
    with far False show ?thesis by (auto simp: algebra_simps)
  qed
qed simp

text \<open>So the cap has nothing to evict at a mint.\<close>

lemma spaced_no_surplus:
  assumes cov: "grace_covered pol"
    and sp: "sorted_wrt (spaced_after (coalesce_secs pol)) (e_gens e)"
    and len: "length (e_gens e) \<le> max_live_gens pol + 1"
    and now: "gn_created_at (last (e_gens e)) = now"
    and gw: "gens_wf (e_current_gen e) (e_gens e)"
  shows "surplus now pol e = 0"
proof (rule ccontr)
  assume s: "surplus now pol e \<noteq> 0"
  let ?k = "kept_gens now pol e"
  from cov have cap: "max (max_live_gens pol) 1 = max_live_gens pol" by (simp add: grace_covered_def)
  have lk: "max_live_gens pol < length ?k" using s by (simp add: surplus_def cap)
  then have ne: "e_gens e \<noteq> []" by (auto simp: kept_gens_def)
  have lkeq: "length ?k = max_live_gens pol + 1"
    using lk len length_filter_le [of _ "e_gens e"] unfolding kept_gens_def
    by (metis Suc_eq_plus1 Suc_leI le_antisym le_trans)
  then obtain g gs where k: "?k = g # gs" "length gs = max_live_gens pol" by (cases ?k) auto
  then have gne: "gs \<noteq> []" using cov by (auto simp: grace_covered_def)
  have "last ?k = last (e_gens e)"
    using last_filter_last [OF ne, of "\<lambda>g. \<not> gen_expired pol (e_current_gen e) now g"] gw
    by (simp add: kept_gens_def gen_expired_def gens_wf_def)
  then have lgs: "gn_created_at (last gs) = now" using now k(1) gne by simp
  have srt: "sorted_wrt (spaced_after (coalesce_secs pol)) (g # gs)"
    using sp sorted_wrt_filter unfolding k(1) [symmetric] kept_gens_def by blast
  from spaced_last [OF srt gne] obtain u where u: "gn_superseded_at g = Some u" "sane_time u"
    "u + int ((length gs - 1) * coalesce_secs pol) \<le> now" using lgs by auto
  have "int (grace_secs pol) \<le> int ((max_live_gens pol - 1) * coalesce_secs pol)"
    using cov unfolding grace_covered_def by (intro iffD2 [OF of_nat_le_iff]) simp
  then have exp: "u + int (grace_secs pol) \<le> now" using u(3) by (simp add: k(2))
  have "resource_valid_until (grace_secs pol) g \<le> now"
    using exp u(1,2) cov by (simp add: resource_valid_until_def plus_secs_exact grace_covered_def min_le_iff_disj)
  moreover have "g \<in> set ?k" by (simp add: k(1))
  then have "gn_gen_no g \<noteq> e_current_gen e"
    using gw u(1) by (force simp: kept_gens_def gens_wf_def)
  ultimately have "gen_expired pol (e_current_gen e) now g" by (simp add: gen_expired_def)
  moreover have "g \<in> set ?k" by (simp add: k(1))
  ultimately show False by (simp add: kept_gens_def)
qed

section \<open>Spacing is kept\<close>

lemma sorted_supersede_mint:
  assumes sp: "sorted_wrt (spaced_after coal) gs" and ne: "gs \<noteq> []"
    and gap: "gn_created_at (last gs) + int coal \<le> now" and sane: "sane_time now"
    and "\<And>g. g \<in> set gs \<Longrightarrow> gn_created_at g \<le> gn_created_at (last gs)"
    and n: "gn_created_at n = now"
  shows "sorted_wrt (spaced_after coal) (supersede_last now gs @ [n])"
proof -
  obtain xs l where gs: "gs = xs @ [l]" using ne by (metis append_butlast_last_id)
  have "spaced_after coal g n" if "g \<in> set xs" for g
    using that sp gap n unfolding gs by (auto simp: sorted_wrt_append spaced_after_def split: option.splits)
  then show ?thesis
    using sp gap n sane unfolding gs
    by (auto simp: supersede_last_def sorted_wrt_append spaced_after_def split: option.splits)
qed

lemma spaced_le_last:
  assumes "sorted_wrt (spaced_after coal) gs" and "g \<in> set gs"
  shows "gn_created_at g \<le> gn_created_at (last gs)"
  using assms by (cases gs rule: rev_cases) (auto simp: sorted_wrt_append spaced_after_def)

lemma kept_gens_facts:
  "set (kept_gens now pol e) = {g \<in> set (e_gens e). \<not> gen_expired pol (e_current_gen e) now g}"
  "sorted_wrt r (e_gens e) \<Longrightarrow> sorted_wrt r (kept_gens now pol e)"
  "length (kept_gens now pol e) \<le> length (e_gens e)"
  by (auto simp: kept_gens_def sorted_wrt_filter)

lemma reap_spaced:
  assumes "entry_wf hash pol e" and "entry_spaced pol e"
  shows "entry_spaced pol (fst (reap_generations now pol e))"
proof -
  obtain e' fx where r: "reap_generations now pol e = (e', fx)" by fastforce
  have len: "length (e_retired e) \<le> retired_memory pol" using assms(1) by (simp add: entry_wf_def)
  note fr = reap_generations_frame [OF len r]
  have "length (e_gens e') \<le> max (max_live_gens pol) 1" unfolding fr by (auto simp: surplus_def)
  with assms(2) show ?thesis
    by (auto simp: r entry_spaced_def fr kept_gens_facts sorted_wrt_drop dest!: in_set_dropD)
qed

text \<open>A mint of a spaced entry: nothing is evicted, and the result is spaced.\<close>

lemma mint_spaced:
  assumes wf: "entry_wf hash pol e" and sp: "entry_spaced pol e" and cov: "grace_covered pol"
    and alive: "e_status e = Alive" and fresh: "hash fresh \<notin> set (all_hashes e)"
    and bound: "e_current_gen e + 1 < 2 ^ 32" and sane: "sane_time now"
    and gap: "coalesce_secs pol \<le> since now (gn_created_at (last (e_gens e)))"
    and m: "mint hash fresh now pol e = (e', fx)"
  shows "entry_spaced pol e'"
    and "e_gens e' = kept_gens now pol (pre_mint hash fresh now pol e)"
proof -
  let ?p = "pre_mint hash fresh now pol e"
  obtain fx' where r: "reap_generations now pol ?p = (e', fx')"
    using m by (auto simp: mint_eq Let_def split: prod.splits)
  note pw = pre_mint_wf [OF wf alive fresh bound, of now]
  from pw have len: "length (e_retired ?p) \<le> retired_memory pol"
    and gw: "gens_wf (e_current_gen ?p) (e_gens ?p)" by (simp_all add: entry_wf_def)
  note fr = reap_generations_frame [OF len r]
  from wf have ne: "e_gens e \<noteq> []" by (simp add: entry_wf_def gens_wf_def)
  have srt: "sorted_wrt (spaced_after (coalesce_secs pol)) (e_gens e)"
    and sane_g: "\<forall>g \<in> set (e_gens e). sane_time (gn_created_at g)"
    and le: "length (e_gens e) \<le> max (max_live_gens pol) 1"
    using sp by (auto simp: entry_spaced_def)
  have sl: "sane_time (gn_created_at (last (e_gens e)))" using sane_g ne by simp
  have gap': "gn_created_at (last (e_gens e)) + int (coalesce_secs pol) \<le> now"
    using gap cov unfolding since_exact [OF sane sl] by (auto simp: grace_covered_def)
  have sp': "sorted_wrt (spaced_after (coalesce_secs pol)) (e_gens ?p)"
    using sorted_supersede_mint [OF srt ne gap' sane spaced_le_last [OF srt],
        of "minted hash fresh now pol e"] by (simp add: minted_def)
  have lp: "length (e_gens ?p) \<le> max_live_gens pol + 1"
    using le ne cov by (simp add: supersede_last_def grace_covered_def)
  have "surplus now pol ?p = 0"
    by (rule spaced_no_surplus [OF cov sp' lp _ gw]) (simp add: minted_def)
  then show k: "e_gens e' = kept_gens now pol ?p" by (simp add: fr)
  have sane': "\<forall>g \<in> set (e_gens ?p). sane_time (gn_created_at g)"
    using sane_g sane ne
    by (auto simp: set_supersede_last minted_def dest: in_set_butlastD)
  have "length (e_gens e') \<le> max (max_live_gens pol) 1"
    unfolding fr by (auto simp: surplus_def)
  with sp' sane' show "entry_spaced pol e'"
    unfolding entry_spaced_def k by (simp add: fr kept_gens_facts del: pre_mint_sel(12))
qed

section \<open>The token in use\<close>

fun op_time :: "session_op \<Rightarrow> timestamp option" where
  "op_time (Do_Create _ _ _ _ now) = Some now"
| "op_time (Do_Refresh _ _ now) = Some now"
| "op_time (Do_Tombstone _ now _) = Some now"
| "op_time (Do_Tombstone_Custody _ now) = Some now"
| "op_time (Do_Set_Custody _ _) = None"
| "op_time (Do_Sweep now) = Some now"
| "op_time (Do_Rehydrate _) = None"

definition op_within :: "timestamp \<Rightarrow> timestamp \<Rightarrow> session_op \<Rightarrow> bool" where
  "op_within t0 t op \<longleftrightarrow>
     (case op_time op of None \<Rightarrow> True | Some now \<Rightarrow> sane_time now \<and> t0 \<le> now \<and> now \<le> t)"

text \<open>
  The generation of hash \<open>h\<close> is still there, with the lifetime it was given, and if it has been
  superseded then not before \<open>t0\<close>.
\<close>

definition gen_holds :: "timestamp \<Rightarrow> timestamp \<Rightarrow> token_hash \<Rightarrow> generation \<Rightarrow> bool" where
  "gen_holds t0 a h g \<longleftrightarrow>
     gn_token_hash g = h \<and> gn_active_until g = a \<and>
     (case gn_superseded_at g of None \<Rightarrow> True | Some s \<Rightarrow> sane_time s \<and> t0 \<le> s)"

definition token_holds :: "session_policy \<Rightarrow> timestamp \<Rightarrow> timestamp \<Rightarrow> token_hash \<Rightarrow> session_entry \<Rightarrow> bool" where
  "token_holds pol t0 a h e \<longleftrightarrow> entry_spaced pol e \<and> list_ex (gen_holds t0 a h) (e_gens e)"

lemma gen_holds_valid:
  assumes "gen_holds t0 a h g" and "sane_secs grace" and "now < a" and "now < t0 + int grace"
  shows "now < resource_valid_until grace g"
  using assms
  by (auto simp: gen_holds_def resource_valid_until_def plus_secs_exact split: option.splits)

lemma token_holds_reap:
  assumes wf: "entry_wf hash pol e" and th: "token_holds pol t0 a h e"
    and "sane_secs (grace_secs pol)" "now < a" "now < t0 + int (grace_secs pol)"
  shows "token_holds pol t0 a h (fst (reap_generations now pol e))"
proof -
  obtain e' fx where r: "reap_generations now pol e = (e', fx)" by fastforce
  have len: "length (e_retired e) \<le> retired_memory pol" using wf by (simp add: entry_wf_def)
  note fr = reap_generations_frame [OF len r]
  from th obtain g where g: "g \<in> set (e_gens e)" "gen_holds t0 a h g"
    by (auto simp: token_holds_def list_ex_iff)
  have "length (kept_gens now pol e) \<le> length (e_gens e)" by (rule kept_gens_facts)
  with th have "surplus now pol e = 0" by (simp add: token_holds_def entry_spaced_def surplus_def)
  moreover have "\<not> gen_expired pol (e_current_gen e) now g"
    using gen_holds_valid [OF g(2) assms(3,4,5)] by (simp add: gen_expired_def)
  ultimately have "g \<in> set (e_gens e')" using g(1) by (simp add: fr kept_gens_def)
  with g(2) reap_spaced [OF wf, of now] th show ?thesis
    by (auto simp: token_holds_def list_ex_iff r)
qed

lemma token_holds_mint:
  assumes wf: "entry_wf hash pol e" and th: "token_holds pol t0 a h e" and cov: "grace_covered pol"
    and alive: "e_status e = Alive" and fresh: "hash fresh \<notin> set (all_hashes e)"
    and bound: "e_current_gen e + 1 < 2 ^ 32" and sane: "sane_time now"
    and gap: "coalesce_secs pol \<le> since now (gn_created_at (last (e_gens e)))"
    and m: "mint hash fresh now pol e = (e', fx)"
    and t: "t0 \<le> now" "now < a" "now < t0 + int (grace_secs pol)"
  shows "token_holds pol t0 a h e'"
proof -
  let ?p = "pre_mint hash fresh now pol e"
  from th have sp: "entry_spaced pol e" by (simp add: token_holds_def)
  note ms = mint_spaced [OF wf sp cov alive fresh bound sane gap m]
  from wf have gw: "gens_wf (e_current_gen e) (e_gens e)" by (simp add: entry_wf_def)
  then have ne: "e_gens e \<noteq> []" by (simp add: gens_wf_def)
  from th obtain g where g: "g \<in> set (e_gens e)" "gen_holds t0 a h g"
    by (auto simp: token_holds_def list_ex_iff)
  obtain g' where g': "g' \<in> set (e_gens ?p)" "gen_holds t0 a h g'"
  proof (cases "g = last (e_gens e)")
    case True
    with g t sane ne show thesis
      by (intro that [of "g\<lparr>gn_superseded_at := Some now\<rparr>"])
         (auto simp: set_supersede_last gen_holds_def split: option.splits)
  next
    case False
    with g have "g \<in> set (butlast (e_gens e))"
      by (metis append_butlast_last_id ne Un_iff empty_iff insert_iff list.set(1,2) set_append)
    with g ne show thesis by (intro that [of g]) (auto simp: set_supersede_last)
  qed
  have "\<not> gen_expired pol (e_current_gen ?p) now g'"
    using gen_holds_valid [OF g'(2) _ t(2,3)] cov by (simp add: gen_expired_def grace_covered_def)
  with g'(1) have "g' \<in> set (e_gens e')" unfolding ms(2) kept_gens_facts by blast
  with g'(2) ms(1) show ?thesis by (auto simp: token_holds_def list_ex_iff)
qed

lemma token_holds_step:
  assumes cov: "grace_covered pol" and t: "t < a" "t < t0 + int (grace_secs pol)"
    and wf: "entry_wf hash pol e" and th: "token_holds pol t0 a h e" and op: "op_within t0 t op"
    and st: "entry_step hash pol op e (Some e')"
  shows "token_holds pol t0 a h e'"
  using st
proof cases
  case (Refreshed h' now fresh token rotated fx)
  note al = classify_refreshable_alive [OF Refreshed(2)]
  from op Refreshed(1) have now: "sane_time now" "t0 \<le> now" "now \<le> t" by (auto simp: op_within_def)
  show ?thesis
  proof (cases rule: refresh_entry_cases [OF wf, of now fresh, case_names coalesce mints])
    case (coalesce tok)
    with Refreshed th show ?thesis by (auto simp: token_holds_def entry_spaced_def)
  next
    case (mints e1 fx1)
    have "e_current_token e \<noteq> None" using th al by (simp add: token_holds_def entry_spaced_def)
    with mints(1) have "coalesce_secs pol \<le> since now (gn_created_at (last (e_gens e)))" by linarith
    with al now t have "token_holds pol t0 a h e1"
      by (intro token_holds_mint [OF wf th cov _ Refreshed(3,4) now(1) _ mints(2)]) auto
    moreover have "e' = slide now pol e1" using Refreshed(5) mints(3) by simp
    ultimately show ?thesis by (simp add: token_holds_def entry_spaced_def)
  qed
next
  case (Restatus c st)
  then show ?thesis
    using th by (simp add: token_holds_def entry_spaced_def with_custody_status_def)
next
  case (Reaped now)
  from op Reaped have now: "now \<le> t" by (auto simp: op_within_def)
  with Reaped t cov show ?thesis
    by (auto simp: grace_covered_def intro!: token_holds_reap [OF wf th])
qed (use th in \<open>auto simp: token_holds_def entry_spaced_def kill_entry_def\<close>)

definition op_sane :: "session_op \<Rightarrow> bool" where
  "op_sane op \<longleftrightarrow> (case op_time op of None \<Rightarrow> True | Some now \<Rightarrow> sane_time now)"

lemma spaced_step:
  assumes cov: "grace_covered pol"
    and wf: "entry_wf hash pol e" and sp: "entry_spaced pol e" and op: "op_sane op"
    and st: "entry_step hash pol op e (Some e')"
  shows "entry_spaced pol e'"
  using st
proof cases
  case (Refreshed h' now fresh token rotated fx)
  note al = classify_refreshable_alive [OF Refreshed(2)]
  from op Refreshed(1) have now: "sane_time now" by (auto simp: op_sane_def)
  show ?thesis
  proof (cases rule: refresh_entry_cases [OF wf, of now fresh, case_names coalesce mints])
    case (coalesce tok)
    with Refreshed sp show ?thesis by (auto simp: entry_spaced_def)
  next
    case (mints e1 fx1)
    have "e_current_token e \<noteq> None" using sp al by (simp add: entry_spaced_def)
    with mints(1) have "coalesce_secs pol \<le> since now (gn_created_at (last (e_gens e)))" by linarith
    with al have "entry_spaced pol e1"
      by (intro mint_spaced(1) [OF wf sp cov _ Refreshed(3,4) now _ mints(2)]) auto
    moreover have "e' = slide now pol e1" using Refreshed(5) mints(3) by simp
    ultimately show ?thesis by (simp add: entry_spaced_def)
  qed
next
  case (Restatus c st)
  then show ?thesis using sp by (simp add: entry_spaced_def with_custody_status_def)
next
  case (Reaped now)
  then show ?thesis using reap_spaced [OF wf sp] by simp
qed (use sp in \<open>auto simp: entry_spaced_def kill_entry_def\<close>)

lemma spaced_property: "grace_covered pol \<Longrightarrow> entry_property hash pol op_sane (entry_spaced pol)"
  by unfold_locales (rule spaced_step)

lemma token_property:
  "grace_covered pol \<Longrightarrow> t < a \<Longrightarrow> t < t0 + int (grace_secs pol) \<Longrightarrow>
   entry_property hash pol (op_within t0 t) (token_holds pol t0 a h)"
  by unfold_locales (rule token_holds_step)

lemmas entry_property_run = invariant_machine.inv_run [OF entry_property.invariant_machine_run]

lemma new_entry_spaced:
  "sane_time now \<Longrightarrow> entry_spaced pol (new_entry pol i c sub token h now)"
  by (simp add: entry_spaced_def new_entry_def Let_def)

lemma find_gen:
  assumes "distinct (map gn_token_hash gs)" and "g \<in> set gs"
  shows "List.find (\<lambda>x. gn_token_hash x = gn_token_hash g) gs = Some g"
  using assms by (induction gs) auto

text \<open>A generation that is there and in time resolves to \<open>Active\<close>.\<close>

lemma resolve_active:
  assumes wf: "map_wf hash m" and e: "dget (m_sessions m) i = Some e"
    and live: "session_expiry e t (m_policy m) = None" and g: "g \<in> set (e_gens e)"
    and t: "t < resource_valid_until (grace_secs (m_policy m)) g"
  shows "resolve (gn_token_hash g) t m = Active i (gn_gen_no g) (gn_gen_no g = e_current_gen e)"
proof -
  note ew = map_wfD(4) [OF wf e] and es = map_wfD(3) [OF wf e]
  have "gn_token_hash g \<in> hashes_of m i" using g by (simp add: hashes_of_def e all_hashes_def)
  then have ix: "entry_for_hash (gn_token_hash g) m = Some e"
    using map_wfD(5) [OF wf, of "gn_token_hash g" i] by (simp add: entry_for_hash_def sid_for_hash_def e)
  have "distinct (map gn_token_hash (e_gens e))" using ew by (simp add: entry_wf_def all_hashes_def)
  from find_gen [OF this g] show ?thesis
    using live t by (simp add: resolve_def ix classify_def es Let_def)
qed

text \<open>
  C2 (INV-6, non-invalidating rotation). Take a session created by this process and any run of
  operations on it; let \<open>h\<close> be the token hash that is current at that point. Whatever operations
  follow in \<open>[t0, t]\<close> - any number of refreshes by any client, sweeps, custody changes - as long
  as the session itself is still alive at \<open>t\<close>, the token still authenticates at \<open>t\<close>, for
  every \<open>t\<close> before the end of its own lifetime and before \<open>t0 + grace_secs\<close>. The cap on live
  generations does not break this when \<open>max_live_gens - 1\<close> coalescing windows cover the grace
  period, which the default policy satisfies.
\<close>

theorem rotation_does_not_invalidate:
  assumes wf: "map_wf hash m" and pol: "pol = m_policy m" and cov: "grace_covered pol"
    and new: "session_admits hash (Do_Create fresh i c sub born) m" and "sane_time born"
    and run1: "admitted (session_step hash) (admits_for hash i op_sane) ops1
        (snd (create hash fresh i c sub born m))"
    and m1: "m1 = run (session_step hash) ops1 (snd (create hash fresh i c sub born m))"
    and e1: "dget (m_sessions m1) i = Some e1"
    and run2: "admitted (session_step hash) (admits_for hash i (op_within t0 t)) ops2 m1"
    and m2: "m2 = run (session_step hash) ops2 m1"
    and e2: "dget (m_sessions m2) i = Some e2" and live: "session_expiry e2 t pol = None"
    and t: "t < gn_active_until (last (e_gens e1))" "t < t0 + int (grace_secs pol)"
  shows "\<exists>n newest. resolve (gn_token_hash (last (e_gens e1))) t m2 = Active i n newest"
proof -
  let ?m0 = "snd (create hash fresh i c sub born m)"
  let ?h = "gn_token_hash (last (e_gens e1))" and ?a = "gn_active_until (last (e_gens e1))"
  have "map_wf hash ?m0 \<and> m_policy ?m0 = pol \<and> entry_holds i (entry_spaced pol) ?m0"
    using create_wf [OF wf] new new_entry_spaced [OF \<open>sane_time born\<close>]
    by (simp add: pol create_def Let_def entry_holds_def)
  from entry_property_run [OF spaced_property [OF cov] this run1]
  have 1: "map_wf hash m1" "m_policy m1 = pol" "entry_spaced pol e1"
    using e1 by (auto simp: m1 [symmetric] entry_holds_def)
  note ew = map_wfD(4) [OF 1(1) e1]
  have l: "last (e_gens e1) \<in> set (e_gens e1)" "gn_superseded_at (last (e_gens e1)) = None"
    using ew by (auto simp: entry_wf_def gens_wf_def)
  then have "token_holds pol t0 ?a ?h e1"
    using 1(3) by (auto simp: token_holds_def list_ex_iff gen_holds_def intro!: bexI [OF _ l(1)])
  then have "map_wf hash m1 \<and> m_policy m1 = pol \<and> entry_holds i (token_holds pol t0 ?a ?h) m1"
    using 1 e1 by (simp add: entry_holds_def)
  from entry_property_run [OF token_property [OF cov t] this run2]
  have 2: "map_wf hash m2" "m_policy m2 = pol" "token_holds pol t0 ?a ?h e2"
    using e2 by (auto simp: m2 [symmetric] entry_holds_def)
  then obtain g where g: "g \<in> set (e_gens e2)" "gen_holds t0 ?a ?h g"
    by (auto simp: token_holds_def list_ex_iff)
  have "t < resource_valid_until (grace_secs (m_policy m2)) g"
    using gen_holds_valid [OF g(2) _ t] cov by (simp add: 2 grace_covered_def)
  from resolve_active [OF 2(1) e2 _ g(1) this] live g(2) show ?thesis
    by (auto simp: 2 gen_holds_def)
qed

text \<open>
  A login at 1000; at 1100 the token is still current. A rotation follows at 1100, and at 1159
  the original token still authenticates.
\<close>

definition demo_after :: session_map where
  "demo_after = run (session_step bytes_of)
     [Do_Refresh ''tok2'' (bytes_of ''tok1'') 1100] demo_map"

theorem rotation_does_not_invalidate_witness:
  "\<exists>n newest. resolve (bytes_of ''tok1'') 1159 demo_after = Active ''s1'' n newest"
proof -
  let ?base = "set_observer (with_durability default_policy)"
  have wf: "map_wf bytes_of ?base" by code_simp
  have cov: "grace_covered default_policy" by (rule grace_covered_default)
  have pol: "default_policy = m_policy ?base" by code_simp
  have new: "session_admits bytes_of (Do_Create ''tok1'' ''s1'' ''c1'' ''alice'' 1000) ?base" by code_simp
  have r1: "admitted (session_step bytes_of) (admits_for bytes_of ''s1'' op_sane) []
      (snd (create bytes_of ''tok1'' ''s1'' ''c1'' ''alice'' 1000 ?base))" by simp
  have m1: "demo_map = run (session_step bytes_of) []
      (snd (create bytes_of ''tok1'' ''s1'' ''c1'' ''alice'' 1000 ?base))"
    by (simp add: demo_map_def)
  have r2: "admitted (session_step bytes_of) (admits_for bytes_of ''s1'' (op_within 1100 1159))
     [Do_Refresh ''tok2'' (bytes_of ''tok1'') 1100] demo_map" by code_simp
  have "case dget (m_sessions demo_after) ''s1'' of
      None \<Rightarrow> False | Some e \<Rightarrow> session_expiry e 1159 default_policy = None" by code_simp
  then obtain e2 where e2: "dget (m_sessions demo_after) ''s1'' = Some e2"
    and live: "session_expiry e2 1159 default_policy = None" by (auto split: option.splits)
  have t: "((1159::int) < gn_active_until (last (e_gens demo_entry))) \<and>
      ((1159::int) < 1100 + int (grace_secs default_policy))" by code_simp
  have "gn_token_hash (last (e_gens demo_entry)) = bytes_of ''tok1''" by code_simp
  then show ?thesis
    using rotation_does_not_invalidate [OF wf pol cov new _ r1 m1 demo_map_lookup r2 demo_after_def
        e2 live t [THEN conjunct1] t [THEN conjunct2]] by (simp add: sane_time_def)
qed

end
