(* ===== verification/Session_Refresh.thy ===== *)
theory Session_Refresh
  imports Session_Grace
begin

text \<open>
  What a refresh hands out and what a sweep takes away: coalescing of concurrent refreshes, the
  token a refresh issues, the bound on simultaneously valid tokens, and that the sweep cannot
  be observed through a token that still works.
\<close>

section \<open>Coalescing\<close>

text \<open>A burst of refresh requests: the answers in order, and the map after them.\<close>

fun refresh_burst ::
  "(session_token \<Rightarrow> token_hash) \<Rightarrow> (session_token \<times> token_hash \<times> timestamp) list \<Rightarrow> session_map \<Rightarrow>
   (refresh_denied + issued_cookies) option list \<times> session_map" where
  "refresh_burst hash [] m = ([], m)"
| "refresh_burst hash ((fresh, h, now) # reqs) m =
     (let (r, m1) = refresh hash fresh h now m; (rs, m2) = refresh_burst hash reqs m1
      in (r # rs, m2))"

text \<open>An answer that hands out \<open>tok\<close> without rotating.\<close>

definition reissues :: "session_token \<Rightarrow> (refresh_denied + issued_cookies) option \<Rightarrow> bool" where
  "reissues tok r \<longleftrightarrow> (\<exists>c. r = Some (Inr c) \<and> ic_token c = tok \<and> \<not> ic_rotated c)"

lemma coalesced_refresh:
  assumes wf: "map_wf hash m" and own: "sid_for_hash h m = Some i"
    and e: "dget (m_sessions m) i = Some e" and tok: "e_current_token e = Some tok"
    and ref: "refreshable (resolve h now m)"
    and win: "since now (gn_created_at (last (e_gens e))) < coalesce_secs (m_policy m)"
  obtains r m' where "refresh hash fresh h now m = (r, m')" "reissues tok r" "map_wf hash m'"
    "m_index m' = m_index m" "m_policy m' = m_policy m" "dget (m_sessions m') i = Some (slide now (m_policy m) e)"
proof -
  have ew: "entry_wf hash (m_policy m) e" by (rule map_wfD(4) [OF wf e])
  have c: "current e = Some (last (e_gens e))" using ew by (simp add: current_def entry_wf_def gens_wf_def)
  have re: "refresh_entry hash fresh now (m_policy m) e = Some (tok, False, slide now (m_policy m) e, no_effects)"
    using win tok by (simp add: refresh_entry_def c)
  from refresh_granted [OF wf ref, of fresh] obtain meta where
    res: "refresh hash fresh h now m =
       (Some (Inr \<lparr>ic_token = tok, ic_meta = meta, ic_rotated = False\<rparr>),
        persist (UpdateSessionProgress i (e_current_gen e) (e_idle_exp (slide now (m_policy m) e)))
          (apply_effects no_effects i (put_entry i (slide now (m_policy m) e) m)))"
    using own e re by (metis (no_types, lifting) Pair_inject option.inject slide_sel(5))
  let ?m = "snd (refresh hash fresh h now m)"
  have m': "map_wf hash ?m" "m_index ?m = m_index m" "m_policy ?m = m_policy m"
    "dget (m_sessions ?m) i = Some (slide now (m_policy m) e)"
  proof -
    show "m_index ?m = m_index m" "m_policy ?m = m_policy m"
      "dget (m_sessions ?m) i = Some (slide now (m_policy m) e)"
      by (simp_all add: res apply_effects_def no_effects_def)
    have "e_sid e = i" by (rule map_wfD(3) [OF wf e])
    then show "map_wf hash ?m"
      using apply_effects_wf [OF wf e, of "slide now (m_policy m) e" no_effects] ew
      by (simp add: res no_effects_def)
  qed
  show thesis
    using that [of "fst (refresh hash fresh h now m)" ?m] m' by (simp add: res reissues_def)
qed

text \<open>A request that is in time for the current generation and whose token may be refreshed.\<close>

definition coalescible :: "session_map \<Rightarrow> sid \<Rightarrow> session_entry \<Rightarrow> token_hash \<Rightarrow> timestamp \<Rightarrow> bool" where
  "coalescible m i e h now \<longleftrightarrow>
     sid_for_hash h m = Some i \<and> refreshable (resolve h now m) \<and> sane_time now \<and>
     gn_created_at (last (e_gens e)) \<le> now \<and> since now (gn_created_at (last (e_gens e))) < coalesce_secs (m_policy m)"

text \<open>
  A request that is granted slides the idle expiry, and the next one still finds the session alive:
  both lie within \<open>coalesce_secs\<close> of the same instant, and the idle lifetime is not shorter.
\<close>

lemma slide_keeps_coalescible:
  assumes "map_wf hash m" and "dget (m_sessions m) i = Some e"
    and "coalesce_secs (m_policy m) \<le> idle_ttl_secs (m_policy m)" "sane_secs (idle_ttl_secs (m_policy m))"
    and "sane_time (gn_created_at (last (e_gens e)))"
    and "coalescible m i e h now" and "coalescible m i e h' now'"
    and "m_index m' = m_index m" "m_policy m' = m_policy m" "dget (m_sessions m') i = Some (slide now (m_policy m) e)"
  shows "coalescible m' i (slide now (m_policy m) e) h' now'"
proof -
  let ?p = "m_policy m"
  have c: "sane_time now" "sane_time now'" "gn_created_at (last (e_gens e)) \<le> now" "gn_created_at (last (e_gens e)) \<le> now'"
    "since now' (gn_created_at (last (e_gens e))) < coalesce_secs ?p" "sid_for_hash h' m = Some i" "refreshable (resolve h' now' m)"
    using assms(6,7) by (auto simp: coalescible_def)
  have "now' < plus_secs now (idle_ttl_secs ?p)"
    using c(3,4,5) assms(3) by (simp add: since_exact [OF c(2) assms(5)] plus_secs_exact [OF c(1) assms(4)])
  moreover have "e_sid (slide now ?p e) = e_sid e" "session_expiry e now' ?p = None"
    using c(6,7) assms(2) by (auto simp: resolve_def entry_for_hash_def refreshable_def classify_def slide_def
        split: option.splits if_splits resolution.splits)
  ultimately have "session_expiry (slide now ?p e) now' ?p = None"
    by (auto simp: session_expiry_def slide_def split: if_splits)
  with \<open>session_expiry e now' ?p = None\<close> have "classify (slide now ?p e) h' now' ?p = classify e h' now' ?p"
    by (simp add: classify_def slide_def Let_def split: option.split)
  then have "refreshable (resolve h' now' m')"
    using c(6,7) assms(2,8-10) by (simp add: resolve_def entry_for_hash_def sid_for_hash_def)
  with assms(6-9) show ?thesis by (auto simp: coalescible_def sid_for_hash_def slide_def)
qed

lemma burst_coalesces:
  assumes "map_wf hash m" and "dget (m_sessions m) i = Some e" and "e_current_token e = Some tok"
    and "coalesce_secs (m_policy m) \<le> idle_ttl_secs (m_policy m)" "sane_secs (idle_ttl_secs (m_policy m))"
    and "sane_time (gn_created_at (last (e_gens e)))"
    and "\<forall>(fresh, h, now) \<in> set reqs. coalescible m i e h now"
  shows "list_all (reissues tok) (fst (refresh_burst hash reqs m)) \<and>
     m_index (snd (refresh_burst hash reqs m)) = m_index m \<and>
     (\<exists>e'. dget (m_sessions (snd (refresh_burst hash reqs m))) i = Some e' \<and> e_gens e' = e_gens e)"
  using assms
proof (induction hash reqs m arbitrary: e rule: refresh_burst.induct)
  case (2 hash fresh h now reqs m)
  let ?e = "slide now (m_policy m) e"
  from 2(8) have req: "coalescible m i e h now" by auto
  then have "sid_for_hash h m = Some i" "refreshable (resolve h now m)"
    "since now (gn_created_at (last (e_gens e))) < coalesce_secs (m_policy m)" by (auto simp: coalescible_def)
  from coalesced_refresh [OF 2(2) this(1) 2(3,4) this(2,3), of fresh]
  obtain r m' where s: "refresh hash fresh h now m = (r, m')" "reissues tok r" "map_wf hash m'"
    "m_index m' = m_index m" "m_policy m' = m_policy m" "dget (m_sessions m') i = Some ?e" .
  have rest: "\<forall>(fresh, h, now) \<in> set reqs. coalescible m' i ?e h now"
    using slide_keeps_coalescible [OF 2(2,3,5-7) req _ s(4-6)] 2(8) by auto
  have "list_all (reissues tok) (fst (refresh_burst hash reqs m')) \<and>
     m_index (snd (refresh_burst hash reqs m')) = m_index m' \<and>
     (\<exists>e''. dget (m_sessions (snd (refresh_burst hash reqs m'))) i = Some e'' \<and> e_gens e'' = e_gens ?e)"
    using 2(4-7) s(5) by (intro 2(1) [OF s(1) [symmetric] refl s(3,6) _ _ _ _ rest]) simp_all
  with s show ?case by (cases "refresh_burst hash reqs m'") auto
qed auto

text \<open>
  C34. A burst of refreshes rotates once: within \<open>coalesce_secs\<close> of the birth of the current
  generation, every request that presents a refreshable token of the session is handed that
  generation's token, none is refused, nothing is rotated, and the generations and the token index
  stay as they were. The idle lifetime is at least \<open>coalesce_secs\<close>.
\<close>

theorem concurrent_refreshes_coalesce:
  assumes "map_wf hash m" and "dget (m_sessions m) i = Some e" and "e_current_token e = Some tok"
    and "coalesce_secs (m_policy m) \<le> idle_ttl_secs (m_policy m)" "sane_secs (idle_ttl_secs (m_policy m))"
    and "sane_time (gn_created_at (last (e_gens e)))"
    and "\<forall>(fresh, h, now) \<in> set reqs. coalescible m i e h now"
  shows "list_all (reissues tok) (fst (refresh_burst hash reqs m)) \<and>
     m_index (snd (refresh_burst hash reqs m)) = m_index m \<and>
     (\<exists>e'. dget (m_sessions (snd (refresh_burst hash reqs m))) i = Some e' \<and> e_gens e' = e_gens e)"
  using assms by (rule burst_coalesces)

text \<open>Three tabs refresh within the first half minute after login.\<close>

theorem concurrent_refreshes_coalesce_witness:
  "list_all (reissues ''tok1'') (fst (refresh_burst bytes_of
     [(''a'', bytes_of ''tok1'', 1001), (''b'', bytes_of ''tok1'', 1002), (''c'', bytes_of ''tok1'', 1029)]
     demo_map))"
proof -
  have "e_current_token demo_entry = Some ''tok1'' \<and>
      coalesce_secs (m_policy demo_map) \<le> idle_ttl_secs (m_policy demo_map) \<and> sane_secs (idle_ttl_secs (m_policy demo_map)) \<and>
      sane_time (gn_created_at (last (e_gens demo_entry))) \<and>
      (\<forall>(fresh, h, now) \<in> set [(''a'', bytes_of ''tok1'', 1001), (''b'', bytes_of ''tok1'', 1002), (''c'', bytes_of ''tok1'', 1029)].
         coalescible demo_map ''s1'' demo_entry h now)" by code_simp
  then show ?thesis using concurrent_refreshes_coalesce [OF demo_map_wf demo_map_lookup] by blast
qed

section \<open>The token a refresh issues\<close>

text \<open>
  The cookie a refresh issues is the session's newest one: presented at once it resolves to
  the current generation, and when the refresh rotated it authenticates.
\<close>

theorem refresh_issues_newest:
  assumes wf: "map_wf hash m" and ok: "session_admits hash (Do_Refresh fresh h now) m"
    and r: "refresh hash fresh h now m = (Some (Inr c), m')"
    and sane: "sane_time now" "sane_secs (gen_ttl_secs (m_policy m))" "sane_secs (idle_ttl_secs (m_policy m))"
    and pos: "0 < gen_ttl_secs (m_policy m)" "0 < idle_ttl_secs (m_policy m)"
  shows "(\<exists>i n. resolve (hash (ic_token c)) now m' = Active i n True) \<or>
     \<not> ic_rotated c \<and> (\<exists>i n. resolve (hash (ic_token c)) now m' = StaleRefreshable i n)"
proof -
  let ?p = "m_policy m"
  have ref: "refreshable (resolve h now m)"
  proof (rule ccontr)
    assume "\<not> refreshable (resolve h now m)"
    then show False
      using r by (auto simp: refresh_def resolve_def entry_for_hash_def refreshable_def
          split: option.splits resolution.splits)
  qed
  from refresh_granted [OF wf ref, of fresh] obtain i e token rotated e' fx meta where
    g: "sid_for_hash h m = Some i" "dget (m_sessions m) i = Some e" "e_sid e = i"
      "entry_wf hash ?p e" "h \<in> set (all_hashes e)" "e_status e = Alive"
      "refreshable (classify e h now ?p)"
      "refresh_entry hash fresh now ?p e = Some (token, rotated, e', fx)"
    and res: "refresh hash fresh h now m =
       (Some (Inr \<lparr>ic_token = token, ic_meta = meta, ic_rotated = rotated\<rparr>),
        persist (UpdateSessionProgress i (e_current_gen e') (e_idle_exp e'))
          (apply_effects fx i (put_entry i e' m)))" by metis
  have wf': "map_wf hash m'"
    using refresh_wf [OF wf, of fresh h now] ok r by (auto split: option.splits)
  have c: "ic_token c = token" "ic_rotated c = rotated" using r res by auto
  have e': "dget (m_sessions m') i = Some e'" and pol': "m_policy m' = ?p" using r res by auto
  note ew' = map_wfD(4) [OF wf' e', unfolded pol']
  note al = classify_refreshable_alive [OF g(7)]
  have len: "length (e_retired e) \<le> retired_memory ?p" using g(4) by (simp add: entry_wf_def)
  have main: "hash token = gn_token_hash (last (e_gens e')) \<and> session_expiry e' now ?p = None \<and>
      (rotated \<longrightarrow> now < gn_active_until (last (e_gens e')))"
  proof (cases rule: refresh_entry_cases [OF g(4), of now fresh, case_names coalesce mints])
    case (coalesce t)
    with g(8) have eq: "e' = slide now ?p e" "token = t" "\<not> rotated" by auto
    with coalesce(2) g(4) al sane pos show ?thesis
      by (auto simp: entry_wf_def session_expiry_def slide_def plus_secs_exact split: if_splits)
  next
    case (mints e1 fx1)
    with g(8) have eq: "e' = slide now ?p e1" "token = fresh" by auto
    note ml = mint_last(2) [OF len mints(2)] and mf = mint_frame [OF len mints(2)]
    show ?thesis
      using al sane pos
      by (auto simp: eq ml minted_def session_expiry_def slide_def mf plus_secs_exact split: if_splits)
  qed
  let ?l = "last (e_gens e')"
  from ew' have l: "?l \<in> set (e_gens e')" "gn_gen_no ?l = e_current_gen e'" "gn_superseded_at ?l = None"
    by (auto simp: entry_wf_def gens_wf_def)
  have rv: "resource_valid_until (grace_secs ?p) ?l = gn_active_until ?l"
    by (simp add: resource_valid_until_def l(3))
  show ?thesis
  proof (cases "now < gn_active_until ?l")
    case True
    with resolve_active [OF wf' e' _ l(1)] main show ?thesis by (simp add: pol' rv c l(2))
  next
    case False
    have "?l \<in> set (e_gens e')" by (rule l)
    then have "gn_token_hash ?l \<in> hashes_of m' i" by (simp add: hashes_of_def e' all_hashes_def)
    then have ix: "entry_for_hash (gn_token_hash ?l) m' = Some e'"
      using map_wfD(5) [OF wf', of "gn_token_hash ?l" i] by (simp add: entry_for_hash_def sid_for_hash_def e')
    have "distinct (map gn_token_hash (e_gens e'))" using ew' by (simp add: entry_wf_def all_hashes_def)
    from find_gen [OF this l(1)] False main show ?thesis
      by (auto simp: c resolve_def ix classify_def pol' Let_def rv l(2))
  qed
qed

text \<open>A refresh forty seconds after login rotates; the new cookie works at once.\<close>

theorem refresh_issues_newest_witness:
  "\<exists>c i n. fst (refresh bytes_of ''tok2'' (bytes_of ''tok1'') 1040 demo_map) = Some (Inr c) \<and>
     (resolve (bytes_of (ic_token c)) 1040 (snd (refresh bytes_of ''tok2'' (bytes_of ''tok1'') 1040 demo_map))
        = Active i n True \<or> \<not> ic_rotated c)"
proof -
  let ?r = "refresh bytes_of ''tok2'' (bytes_of ''tok1'') 1040 demo_map"
  have ok: "session_admits bytes_of (Do_Refresh ''tok2'' (bytes_of ''tok1'') 1040) demo_map" by code_simp
  have "case fst ?r of Some (Inr c) \<Rightarrow> True | _ \<Rightarrow> False" by code_simp
  then obtain c where c: "?r = (Some (Inr c), snd ?r)"
    by (cases ?r) (auto split: option.splits sum.splits)
  have pol: "m_policy demo_map = default_policy" by code_simp
  have "sane_time 1040" "sane_secs (gen_ttl_secs (m_policy demo_map))"
    "sane_secs (idle_ttl_secs (m_policy demo_map))" "0 < gen_ttl_secs (m_policy demo_map)"
    "0 < idle_ttl_secs (m_policy demo_map)" by (simp_all add: pol default_policy_def sane_time_def sane_secs_def)
  from refresh_issues_newest [OF demo_map_wf ok c this] c show ?thesis by (metis fst_conv)
qed

section \<open>At most \<open>max_live_gens\<close> tokens authenticate\<close>

interpretation capped: entry_property hash pol g "\<lambda>e. length (e_gens e) \<le> max (max_live_gens pol) 1"
  for hash pol g
proof
  fix e op e'
  assume wf: "entry_wf hash pol e" and c: "length (e_gens e) \<le> max (max_live_gens pol) 1"
    and st: "entry_step hash pol op e (Some e')"
  have len: "length (e_retired e) \<le> retired_memory pol" using wf by (simp add: entry_wf_def)
  have reap: "length (e_gens (fst (reap_generations now pol x))) \<le> max (max_live_gens pol) 1"
    if "length (e_retired x) \<le> retired_memory pol" for now x
    using reap_generations_frame(11) [OF that, of now]
    by (cases "reap_generations now pol x") (auto simp: surplus_def)
  from st show "length (e_gens e') \<le> max (max_live_gens pol) 1"
  proof cases
    case (Refreshed h now fresh token rotated fx)
    show ?thesis
    proof (cases rule: refresh_entry_cases [OF wf, of now fresh, case_names coalesce mints])
      case (coalesce t)
      with Refreshed c show ?thesis by auto
    next
      case (mints e1 fx1)
      have "e1 = fst (reap_generations now pol (pre_mint hash fresh now pol e))"
        using mints(2) by (auto simp: mint_eq Let_def split: prod.splits)
      with reap [of "pre_mint hash fresh now pol e" now] len have
        "length (e_gens e1) \<le> max (max_live_gens pol) 1" by simp
      with Refreshed mints(3) show ?thesis by auto
    qed
  next
    case (Reaped now)
    with reap [OF len] show ?thesis by simp
  qed (use c in \<open>auto simp: kill_entry_def\<close>)
qed

lemma authenticating_in_gens:
  assumes wf: "map_wf hash m" and own: "sid_for_hash h m = Some i"
    and e: "dget (m_sessions m) i = Some e" and a: "authenticates (resolve h t m)"
  shows "h \<in> gn_token_hash ` set (e_gens e)"
proof -
  have "authenticates (classify e h t (m_policy m))"
    using a by (simp add: resolve_def entry_for_hash_def own e)
  then obtain g where "List.find (\<lambda>g. gn_token_hash g = h) (e_gens e) = Some g"
    by (auto simp: classify_def Let_def split: option.splits if_splits)
  then show ?thesis by (auto simp: find_Some_iff)
qed

text \<open>
  C35 (INV-6). At any time at most \<open>max_live_gens\<close> tokens of a session created by this process
  authenticate, after any run of operations.
\<close>

theorem live_tokens_bounded:
  assumes wf: "map_wf hash m" and new: "session_admits hash (Do_Create fresh i c sub now) m"
    and run: "admitted (session_step hash) (admits_for hash i (\<lambda>_. True)) ops
        (snd (create hash fresh i c sub now m))"
    and m': "m' = run (session_step hash) ops (snd (create hash fresh i c sub now m))"
  shows "card {h. sid_for_hash h m' = Some i \<and> authenticates (resolve h t m')} \<le>
     max (max_live_gens (m_policy m)) 1"
proof -
  let ?m = "snd (create hash fresh i c sub now m)"
  have "map_wf hash ?m \<and> m_policy ?m = m_policy m \<and>
      entry_holds i (\<lambda>e. length (e_gens e) \<le> max (max_live_gens (m_policy m)) 1) ?m"
    using create_wf [OF wf] new by (simp add: entry_holds_def create_def Let_def new_entry_def)
  then have 1: "map_wf hash m' \<and> m_policy m' = m_policy m \<and>
      entry_holds i (\<lambda>e. length (e_gens e) \<le> max (max_live_gens (m_policy m)) 1) m'"
    unfolding m' by (rule capped.run.inv_run [OF _ run])
  show ?thesis
  proof (cases "dget (m_sessions m') i")
    case None
    then have "{h. sid_for_hash h m' = Some i \<and> authenticates (resolve h t m')} = {}"
      by (auto simp: resolve_def entry_for_hash_def)
    then show ?thesis by (simp only: card.empty le0)
  next
    case (Some e)
    have "{h. sid_for_hash h m' = Some i \<and> authenticates (resolve h t m')} \<subseteq>
        gn_token_hash ` set (e_gens e)"
      using authenticating_in_gens [OF _ _ Some] 1 by blast
    then have "card {h. sid_for_hash h m' = Some i \<and> authenticates (resolve h t m')} \<le>
        card (gn_token_hash ` set (e_gens e))"
      by (rule card_mono [rotated]) (rule finite_imageI [OF finite_set])
    also have "\<dots> \<le> card (set (e_gens e))" by (rule card_image_le [OF finite_set])
    also have "\<dots> \<le> length (e_gens e)" by (rule card_length)
    finally have "card {h. sid_for_hash h m' = Some i \<and> authenticates (resolve h t m')} \<le>
        length (e_gens e)" .
    with 1 Some show ?thesis by (simp add: entry_holds_def)
  qed
qed

theorem live_tokens_bounded_witness:
  "card {h. sid_for_hash h demo_after = Some ''s1'' \<and> authenticates (resolve h 1159 demo_after)} \<le> 4"
proof -
  let ?base = "set_observer (with_durability default_policy)"
  have wf: "map_wf bytes_of ?base"
    and new: "session_admits bytes_of (Do_Create ''tok1'' ''s1'' ''c1'' ''alice'' 1000) ?base"
    and pol: "max (max_live_gens (m_policy ?base)) 1 = 4" by code_simp+
  have r: "admitted (session_step bytes_of) (admits_for bytes_of ''s1'' (\<lambda>_. True))
      [Do_Refresh ''tok2'' (bytes_of ''tok1'') 1100] demo_map" by code_simp
  from live_tokens_bounded [OF wf new r [unfolded demo_map_def] demo_after_def [unfolded demo_map_def],
      where t = 1159] show ?thesis by (simp only: pol)
qed

section \<open>The sweep is not observable\<close>

lemma expiry_mono:
  "session_expiry e now pol \<noteq> None \<Longrightarrow> now \<le> t \<Longrightarrow> session_expiry e t pol \<noteq> None"
  by (auto simp: session_expiry_def split: if_splits)

lemma collectible_expired: "collectible now pol e \<Longrightarrow> session_expiry e now pol \<noteq> None"
  by (auto simp: collectible_def split: option.splits)

lemma find_retired:
  assumes "distinct (map fst xs)" and "(h, n) \<in> set xs"
  shows "List.find (\<lambda>(h', _). h' = h) xs = Some (h, n)"
  using assms by (induction xs) (auto simp: image_iff)

text \<open>An entry before and after reaping gives the same answer to a token that still works.\<close>

lemma classify_reap:
  assumes wf: "entry_wf hash pol e" and cap: "length (e_gens e) \<le> max (max_live_gens pol) 1"
    and t: "now \<le> t" and h: "h \<in> set (all_hashes (fst (reap_generations now pol e)))"
  shows "classify (fst (reap_generations now pol e)) h t pol = classify e h t pol"
proof -
  obtain e' fx where r: "reap_generations now pol e = (e', fx)" by fastforce
  have len: "length (e_retired e) \<le> retired_memory pol" using wf by (simp add: entry_wf_def)
  note fr = reap_generations_frame [OF len r]
  have "length (kept_gens now pol e) \<le> length (e_gens e)" by (rule kept_gens_facts)
  then have s0: "surplus now pol e = 0" using cap by (simp add: surplus_def)
  have gens: "e_gens e' = kept_gens now pol e" by (simp add: fr s0)
  have ret: "e_retired e' = drop (forgotten now pol e) (e_retired e @
      map retired_pair (filter (gen_expired pol (e_current_gen e) now) (e_gens e)))"
    by (simp add: fr retired_all_def s0)
  have d: "distinct (all_hashes e)" and d': "distinct (all_hashes e')"
    using wf reap_generations_wf(1) [OF wf r] by (auto simp: entry_wf_def)
  have exp: "session_expiry e' t pol = session_expiry e t pol" by (simp add: session_expiry_def fr)
  show ?thesis
  proof (cases "h \<in> gn_token_hash ` set (e_gens e')")
    case True
    then obtain g where g: "g \<in> set (e_gens e')" "gn_token_hash g = h" by auto
    then have "g \<in> set (e_gens e)" by (simp add: gens kept_gens_facts)
    with g d d' have "List.find (\<lambda>x. gn_token_hash x = h) (e_gens e) = Some g"
      "List.find (\<lambda>x. gn_token_hash x = h) (e_gens e') = Some g"
      using find_gen by (auto simp: all_hashes_def)
    then show ?thesis by (simp add: r classify_def exp fr(1,4) Let_def split: option.split)
  next
    case False
    then have "h \<in> fst ` set (e_retired e')" using h by (simp add: r all_hashes_def)
    then obtain n where n: "(h, n) \<in> set (e_retired e')" by auto
    have fr': "List.find (\<lambda>(h', _). h' = h) (e_retired e') = Some (h, n)"
      using find_retired [OF _ n] d' by (simp add: all_hashes_def)
    have nf': "List.find (\<lambda>x. gn_token_hash x = h) (e_gens e') = None"
      using False by (auto simp: find_None_iff)
    from n have n2: "(h, n) \<in> set (e_retired e) \<or>
        (\<exists>g \<in> set (e_gens e). gen_expired pol (e_current_gen e) now g \<and> retired_pair g = (h, n))"
      unfolding ret by (auto dest!: in_set_dropD)
    then show ?thesis
    proof
      assume old: "(h, n) \<in> set (e_retired e)"
      then have nf: "List.find (\<lambda>x. gn_token_hash x = h) (e_gens e) = None"
        using d by (force simp: find_None_iff all_hashes_def)
      have "List.find (\<lambda>(h', _). h' = h) (e_retired e) = Some (h, n)"
        using find_retired [OF _ old] d by (simp add: all_hashes_def)
      with nf nf' fr' show ?thesis by (simp add: r classify_def exp fr(1,4) Let_def split: option.split)
    next
      assume "\<exists>g \<in> set (e_gens e). gen_expired pol (e_current_gen e) now g \<and> retired_pair g = (h, n)"
      then obtain g where g: "g \<in> set (e_gens e)" "gen_expired pol (e_current_gen e) now g"
        "gn_token_hash g = h" "gn_gen_no g = n" by auto
      have "List.find (\<lambda>x. gn_token_hash x = h) (e_gens e) = Some g"
        using find_gen [OF _ g(1)] d g(3) by (auto simp: all_hashes_def)
      moreover have "gn_gen_no g \<noteq> e_current_gen e" "\<not> t < resource_valid_until (grace_secs pol) g"
        using g(2) t by (auto simp: gen_expired_def)
      ultimately show ?thesis using nf' fr' g(4) by (simp add: r classify_def exp fr(1,4) Let_def split: option.split)
    qed
  qed
qed

lemma purged_not_refreshable:
  assumes wf: "entry_wf hash pol e" and cap: "length (e_gens e) \<le> max (max_live_gens pol) 1"
    and t: "now \<le> t" and r: "reap_generations now pol e = (e', fx)" and h: "h \<in> set (fx_purged fx)"
  shows "\<not> refreshable (classify e h t pol)"
proof -
  have len: "length (e_retired e) \<le> retired_memory pol" using wf by (simp add: entry_wf_def)
  note fr = reap_generations_frame [OF len r]
  have d: "distinct (all_hashes e)" using wf by (simp add: entry_wf_def)
  have "length (kept_gens now pol e) \<le> length (e_gens e)" by (rule kept_gens_facts)
  then have s0: "surplus now pol e = 0" using cap by (simp add: surplus_def)
  from h have "h \<in> fst ` set (e_retired e) \<or>
      (\<exists>g \<in> set (e_gens e). gen_expired pol (e_current_gen e) now g \<and> gn_token_hash g = h)"
  proof -
    obtain b where "(h, b) \<in> set (retired_all now pol e)"
      using h by (auto simp: fr dest!: in_set_takeD)
    then show ?thesis by (auto simp: retired_all_def s0 intro: rev_image_eqI)
  qed
  then show ?thesis
  proof
    assume "h \<in> fst ` set (e_retired e)"
    then have "List.find (\<lambda>x. gn_token_hash x = h) (e_gens e) = None"
      using d by (auto simp: find_None_iff all_hashes_def)
    then show ?thesis by (auto simp: classify_def refreshable_def split: option.splits)
  next
    assume "\<exists>g \<in> set (e_gens e). gen_expired pol (e_current_gen e) now g \<and> gn_token_hash g = h"
    then obtain g where g: "g \<in> set (e_gens e)" "gen_expired pol (e_current_gen e) now g"
      "gn_token_hash g = h" by auto
    have "List.find (\<lambda>x. gn_token_hash x = h) (e_gens e) = Some g"
      using find_gen [OF _ g(1)] d g(3) by (auto simp: all_hashes_def)
    with g(2) t show ?thesis
      by (auto simp: classify_def refreshable_def gen_expired_def Let_def split: option.splits)
  qed
qed

text \<open>
  Reaping is an optimisation, not the semantic: for every token and every time from the
  sweep on, the sweep changes nothing about whether the token authenticates or refreshes, and a
  token that does resolves to the same generation of the same session. (Sessions within the cap,
  which every session created by this process is.)
\<close>

theorem sweep_not_observable:
  assumes wf: "map_wf hash m" and t: "now \<le> t"
    and cap: "\<forall>(i, e) \<in> set (m_sessions m). length (e_gens e) \<le> max (max_live_gens (m_policy m)) 1"
    and m': "m' = snd (sweep now m)"
  shows "refreshable (resolve h t m') = refreshable (resolve h t m) \<and>
     (refreshable (resolve h t m) \<longrightarrow> resolve h t m' = resolve h t m)"
proof -
  note sp = sweep_spec [OF wf, of now, folded m']
  show ?thesis
  proof (cases "sid_for_hash h m")
    case None
    have "sid_for_hash h m' = None"
    proof (rule ccontr)
      assume "sid_for_hash h m' \<noteq> None"
      then obtain i where "h \<in> hashes_of m' i" using map_wfD(5) [OF sp(1)] by (auto simp: sid_for_hash_def)
      then have "h \<in> hashes_of m i"
        using session_step_hashes [OF wf, of "Do_Sweep now" i] m' by auto
      with None map_wfD(5) [OF wf, of h i] show False by (simp add: sid_for_hash_def)
    qed
    with None show ?thesis by (simp add: resolve_def entry_for_hash_def)
  next
    case (Some i)
    then obtain e where e: "dget (m_sessions m) i = Some e" "h \<in> set (all_hashes e)"
      "entry_wf hash (m_policy m) e" by (rule map_wf_sid_for [OF wf])
    have r: "resolve h t m = classify e h t (m_policy m)"
      by (simp add: resolve_def entry_for_hash_def Some e)
    have c: "length (e_gens e) \<le> max (max_live_gens (m_policy m)) 1"
      using cap e(1) map_wfD(1) [OF wf] by (auto simp: dget_in_set)
    show ?thesis
    proof (cases "sid_for_hash h m'")
      case (Some j)
      then have hj: "h \<in> hashes_of m' j" using map_wfD(5) [OF sp(1)] by (simp add: sid_for_hash_def)
      then have "h \<in> hashes_of m j" using session_step_hashes [OF wf, of "Do_Sweep now" j] m' by auto
      then have "j = i" using map_wfD(5) [OF wf, of h] \<open>sid_for_hash h m = Some i\<close>
        by (metis option.inject sid_for_hash_def)
      with hj e(1) sp(3) [of i] have
        e': "dget (m_sessions m') i = Some (fst (reap_generations now (m_policy m) e))"
        and "h \<in> set (all_hashes (fst (reap_generations now (m_policy m) e)))"
        by (auto simp: hashes_of_def split: option.splits if_splits)
      then have "resolve h t m' = resolve h t m"
        using Some \<open>j = i\<close> classify_reap [OF e(3) c t]
        by (simp add: resolve_def [of h t m'] entry_for_hash_def sp(2) r)
      then show ?thesis by simp
    next
      case None
      then have "\<not> refreshable (resolve h t m')" by (simp add: resolve_def entry_for_hash_def refreshable_def)
      moreover have "\<not> refreshable (resolve h t m)"
      proof (cases "collectible now (m_policy m) e")
        case True
        from expiry_mono [OF collectible_expired [OF True] t] show ?thesis
          unfolding r by (rule expired_not_refreshable)
      next
        case False
        obtain e' fx where rg: "reap_generations now (m_policy m) e = (e', fx)" by fastforce
        have "h \<notin> hashes_of m' i"
          using None map_wfD(5) [OF sp(1), of h i] by (simp add: sid_for_hash_def)
        then have "h \<in> set (fx_purged fx)"
          using sp(3) [of i] e(1,2) False reap_generations_wf(2) [OF e(3) rg] by (auto simp: hashes_of_def rg)
        then show ?thesis unfolding r by (rule purged_not_refreshable [OF e(3) c t rg])
      qed
      ultimately show ?thesis by simp
    qed
  qed
qed

end
