(* ===== verification/Store_Safety.thy ===== *)
theory Store_Safety
  imports Writer
begin

text \<open>
  What the store and its writer promise: every batch keeps the schema's constraints, a batch is
  all or nothing and its acks say which, the audit record is append-only with its Tier-A rows
  in the transaction of the mutation, revocations stay, sealed columns read back, and the
  reaper removes what is dead and nothing else.
\<close>

section \<open>Batches keep the constraints\<close>

lemma apply_custody_ok: "apply_custody cr w d = Inr d' \<Longrightarrow> db_ok d \<Longrightarrow> db_ok d'"
  by (cases w) (auto intro: insert_custody_ok update_custody_success_ok update_custody_failure_ok)

lemma db_ok_pair: "p = (d', b) \<Longrightarrow> db_ok (fst p) \<Longrightarrow> db_ok d'"
  by simp

lemma apply_admin_ok:
  assumes "apply_admin cr js w d = Inr (d', b)" and "db_ok d"
  shows "db_ok d'"
  using assms by (cases w) (auto simp: bindE_Inr_iff intro: db_ok_keeps db_ok_pair)

lemma apply_command_ok:
  assumes "apply_command cr js c (d, b) = Inr (d', b')" and "db_ok d"
  shows "db_ok d'"
  using assms
  by (cases c) (auto simp: bindE_Inr_iff split: option.splits
      intro: db_ok_keeps apply_custody_ok apply_admin_ok insert_audit_ok [OF apply_admin_ok])

text \<open>
  The commands of a batch in order, without the environment: what a committed batch computes.
\<close>

fun apply_seq :: "crypto \<Rightarrow> json \<Rightarrow> command list \<Rightarrow> db \<times> batch_out \<Rightarrow> repo_error + db \<times> batch_out" where
  "apply_seq cr js [] s = Inr s"
| "apply_seq cr js (c # cs) s = bindE (apply_command cr js c s) (apply_seq cr js cs)"

lemma apply_seq_append:
  "apply_seq cr js (cs @ cs') s = bindE (apply_seq cr js cs s) (apply_seq cr js cs')"
proof (induction cs arbitrary: s)
  case (Cons c cs)
  then show ?case by (cases "apply_command cr js c s") simp_all
qed simp

lemma apply_seq_ok: "apply_seq cr js cs (d, b) = Inr (d', b') \<Longrightarrow> db_ok d \<Longrightarrow> db_ok d'"
  by (induction cs arbitrary: d b) (auto simp: bindE_Inr_iff intro: apply_command_ok)

lemma apply_loop_Inr:
  "apply_loop cr js io i cs d b = (Inr d', b') \<Longrightarrow> apply_seq cr js cs (d, b) = Inr (d', b')"
  by (induction cs arbitrary: i d b) (auto split: if_splits sum.splits prod.splits)

lemma apply_batch_Inr:
  "apply_batch cr js io batch d = (Inr d', b) \<Longrightarrow> apply_seq cr js batch (d, no_out) = Inr (d', b)"
  by (auto simp: apply_batch_def split: if_splits dest: apply_loop_Inr)

lemma apply_batch_fine:
  assumes "apply_seq cr js batch (d, no_out) = Inr (d', b)" and "\<And>i. \<not> io i"
  shows "apply_batch cr js io batch d = (Inr d', b)"
proof -
  have "apply_loop cr js io i cs d b = (Inr d', b')"
    if "apply_seq cr js cs (d, b) = Inr (d', b')" for i cs d b b'
    using that assms(2)
    by (induction cs arbitrary: i d b) (auto simp: bindE_Inr_iff)
  with assms show ?thesis by (simp add: apply_batch_def)
qed

section \<open>Acks\<close>

text \<open>Which acks the loop has collected, and in which command they were.\<close>

definition out_acks :: "batch_out \<Rightarrow> ack list" where
  "out_acks b = bo_acks b @ map fst (bo_admin_acks b)"

lemma apply_command_acks:
  assumes "apply_command cr js c (d, b) = Inr (d', b')"
  shows "set (out_acks b') = set (out_acks b) \<union> set (command_acks c)"
  using assms by (cases c) (auto simp: bindE_Inr_iff out_acks_def)

lemma apply_seq_acks:
  assumes "apply_seq cr js cs (d, b) = Inr (d', b')"
  shows "set (out_acks b') = set (out_acks b) \<union> set (concat (map command_acks cs))"
  using assms
proof (induction cs arbitrary: d b)
  case (Cons c cs)
  then obtain d1 b1 where 1: "apply_command cr js c (d, b) = Inr (d1, b1)"
    and 2: "apply_seq cr js cs (d1, b1) = Inr (d', b')" by (auto simp: bindE_Inr_iff)
  from Cons.IH [OF 2] apply_command_acks [OF 1] show ?case by auto
qed simp

lemma apply_loop_acks:
  "set (out_acks (snd (apply_loop cr js io i cs d b))) \<subseteq>
     set (out_acks b) \<union> set (concat (map command_acks cs))"
proof (induction cs arbitrary: i d b)
  case (Cons c cs)
  show ?case
  proof (cases "io i \<or> isl (apply_command cr js c (d, b))")
    case True
    then show ?thesis by (auto split: sum.splits)
  next
    case False
    then obtain d1 b1 where "apply_command cr js c (d, b) = Inr (d1, b1)"
      by (cases "apply_command cr js c (d, b)") auto
    with Cons.IH [of "i + 1" d1 b1] apply_command_acks [of cr js c d b d1 b1] False show ?thesis by auto
  qed
qed simp

definition acked_ok :: "ack_msg \<Rightarrow> bool" where
  "acked_ok msg \<longleftrightarrow>
     (case msg of Custody_Sent (Inr _) \<Rightarrow> True | Admin_Sent (Inr _) \<Rightarrow> True | _ \<Rightarrow> False)"

definition batch_acks :: "command list \<Rightarrow> ack set" where
  "batch_acks batch = set (concat (map command_acks batch))"

lemma settle_facts:
  "fst ` set (settle r b) = set (out_acks b)"
  "\<not> isl r \<Longrightarrow> x \<in> set (settle r b) \<Longrightarrow> acked_ok (snd x)"
  "isl r \<Longrightarrow> x \<in> set (settle r b) \<Longrightarrow> \<not> acked_ok (snd x)"
  by (cases r; force simp: settle_def out_acks_def acked_ok_def)+

lemma dropped_facts:
  "fst ` set (dropped_acks batch b) = batch_acks batch - set (out_acks b)"
  "x \<in> set (dropped_acks batch b) \<Longrightarrow> \<not> acked_ok (snd x)"
  by (auto simp: dropped_acks_def batch_acks_def out_acks_def acked_ok_def image_image)

lemma turn_cases:
  assumes "w_running w" and "batch = take n (w_queue w)" and "batch \<noteq> []"
    and "w' = writer_turn cr js io n w"
  obtains
    (commit) d b where "apply_seq cr js batch (w_db w, no_out) = Inr (d, b)" "w_db w' = d"
      "w_acked w' = w_acked w @ settle (Inr d) b @ dropped_acks batch b" "set (out_acks b) = batch_acks batch"
  | (rollback) e b where "w_db w' = w_db w"
      "w_acked w' = w_acked w @ settle (Inl e) b @ dropped_acks batch b"
      "set (out_acks b) \<subseteq> batch_acks batch"
proof -
  obtain r b where rb: "apply_batch cr js io batch (w_db w) = (r, b)" by fastforce
  have w': "w_db w' = (case r of Inr d \<Rightarrow> d | Inl _ \<Rightarrow> w_db w)"
    "w_acked w' = w_acked w @ settle r b @ dropped_acks batch b"
    using assms rb by (auto simp: writer_turn_def Let_def)
  show thesis
  proof (cases r)
    case (Inr d)
    with rb have s: "apply_seq cr js batch (w_db w, no_out) = Inr (d, b)" by (auto dest: apply_batch_Inr)
    from apply_seq_acks [OF s] have "set (out_acks b) = batch_acks batch"
      by (simp add: out_acks_def no_out_def batch_acks_def)
    with s w' Inr show thesis by (intro commit) auto
  next
    case (Inl e)
    have "set (out_acks b) \<subseteq> batch_acks batch"
      using rb apply_loop_acks [of cr js io 1 batch "w_db w" no_out]
      by (auto simp: apply_batch_def batch_acks_def out_acks_def no_out_def split: if_splits)
    with w' Inl show thesis by (intro rollback) auto
  qed
qed

text \<open>
  C8. A batch is all or nothing, and the acks say which. Either every command of the batch was
  applied in order and the result is the committed database, and every waiting caller is told
  success; or the database is exactly what it was, and every waiting caller gets an error or a
  closed channel. I/O failures at any step included.
\<close>

theorem batch_atomic:
  assumes "w_running w" and "batch = take n (w_queue w)" and "batch \<noteq> []"
    and "w' = writer_turn cr js io n w"
  shows "\<exists>sent. w_acked w' = w_acked w @ sent \<and> fst ` set sent = batch_acks batch \<and>
     ((\<exists>b. apply_seq cr js batch (w_db w, no_out) = Inr (w_db w', b) \<and>
           (\<forall>(k, msg) \<in> set sent. acked_ok msg))
      \<or> w_db w' = w_db w \<and> (\<forall>(k, msg) \<in> set sent. \<not> acked_ok msg))"
proof (cases rule: turn_cases [OF assms, case_names commit rollback])
  case (commit d b)
  let ?s = "settle (Inr d) b @ dropped_acks batch b"
  have "dropped_acks batch b = []"
    using commit(4) dropped_facts(1) [of batch b] by auto
  then have "\<forall>(k, msg) \<in> set ?s. acked_ok msg" using settle_facts(2) [of "Inr d" _ b] by force
  moreover have "fst ` set ?s = batch_acks batch"
    using commit(4) settle_facts(1) dropped_facts(1) by (auto simp: image_Un)
  ultimately show ?thesis using commit(1,2,3) by (intro exI [of _ ?s]) auto
next
  case (rollback e b)
  let ?s = "settle (Inl e) b @ dropped_acks batch b"
  have "\<forall>(k, msg) \<in> set ?s. \<not> acked_ok msg"
    using settle_facts(3) [of "Inl e" _ b] dropped_facts(2) [of _ batch b] by force
  moreover have "fst ` set ?s = batch_acks batch"
    using rollback(3) settle_facts(1) dropped_facts(1) by (auto simp: image_Un)
  ultimately show ?thesis using rollback(1,2) by (intro exI [of _ ?s]) auto
qed

section \<open>The writer as a machine\<close>

definition always :: "'e \<Rightarrow> 's \<Rightarrow> bool" where
  "always e s \<longleftrightarrow> True"

lemma turn_db:
  "w_db (writer_turn cr js io n w) = w_db w \<or>
   (\<exists>batch b. apply_seq cr js batch (w_db w, no_out) = Inr (w_db (writer_turn cr js io n w), b))"
proof (cases "w_running w \<and> take n (w_queue w) \<noteq> []")
  case True
  then show ?thesis
    using turn_cases [of w "take n (w_queue w)" n "writer_turn cr js io n w" cr js io] by metis
qed (auto simp: writer_turn_def)

interpretation wr: invariant_machine "writer_step cr js" always "\<lambda>w. db_ok (w_db w)" for cr js
proof
  fix w :: writer and e
  assume ok: "db_ok (w_db w)"
  show "db_ok (w_db (writer_step cr js e w))"
  proof (cases e)
    case (Turn io n)
    from turn_db [of cr js io n w] show ?thesis
      unfolding Turn writer_step.simps by (elim disjE exE) (simp_all add: ok apply_seq_ok [OF _ ok])
  qed (simp add: ok enqueue_def)
qed

lemma admitted_always [simp]: "admitted step always es s"
  by (induction es arbitrary: s) (simp_all add: always_def)

text \<open>
  Every committed state of the store satisfies the schema's keys, foreign keys and CHECKs,
  whatever commands are sent, however they are batched and whatever I/O errors occur.
\<close>

theorem store_constraints_hold:
  "db_ok (w_db (run (writer_step cr js) es (new_writer (migrated_db now))))"
  by (rule wr.inv_run) (simp_all add: new_writer_def db_ok_migrated)

text \<open>
  A relation between committed states that every command respects holds between any two
  states of a run: what the audit record and the revocations rest on.
\<close>

locale command_order =
  fixes cr :: crypto and js :: json and le :: "db \<Rightarrow> db \<Rightarrow> bool"
  assumes le_db_refl: "le d d"
    and le_db_trans: "le d1 d2 \<Longrightarrow> le d2 d3 \<Longrightarrow> le d1 d3"
    and le_command: "db_ok d \<Longrightarrow> apply_command cr js c (d, b) = Inr (d', b') \<Longrightarrow> le d d'"
begin

lemma le_seq: "db_ok d \<Longrightarrow> apply_seq cr js cs (d, b) = Inr (d', b') \<Longrightarrow> le d d'"
proof (induction cs arbitrary: d b)
  case (Cons c cs)
  then obtain d1 b1 where 1: "apply_command cr js c (d, b) = Inr (d1, b1)"
    and 2: "apply_seq cr js cs (d1, b1) = Inr (d', b')" by (auto simp: bindE_Inr_iff)
  have "le d1 d'" by (rule Cons.IH [OF apply_command_ok [OF 1 Cons.prems(1)] 2])
  with le_command [OF Cons.prems(1) 1] show ?case by (rule le_db_trans)
qed (simp add: le_db_refl)

end

sublocale command_order \<subseteq> mono: monotone_machine "writer_step cr js" always
    "\<lambda>w. db_ok (w_db w)" "\<lambda>w w'. le (w_db w) (w_db w')"
proof
  fix w :: writer and e assume ok: "db_ok (w_db w)"
  show "le (w_db w) (w_db (writer_step cr js e w))"
  proof (cases e)
    case (Turn io n)
    with turn_db [of cr js io n w] le_seq [OF ok] show ?thesis by (auto simp: le_db_refl)
  qed (simp add: enqueue_def le_db_refl)
qed (auto simp: le_db_refl intro: le_db_trans)

section \<open>Audit\<close>

text \<open>Old rows are kept as they are or pruned, new rows have larger sequence numbers.\<close>

definition audit_le :: "db \<Rightarrow> db \<Rightarrow> bool" where
  "audit_le d d' \<longleftrightarrow> audit_next_seq d \<le> audit_next_seq d' \<and>
     (\<forall>a \<in> set (audit_tbl d'). a \<in> set (audit_tbl d) \<or> audit_next_seq d < a_seq a)"

definition same_audit :: "db \<Rightarrow> db \<Rightarrow> bool" where
  "same_audit d d' \<longleftrightarrow> audit_tbl d' = audit_tbl d \<and> audit_next_seq d' = audit_next_seq d"

lemma ensure_tenant_audit:
  "ensure_tenant t now d = (d', e) \<Longrightarrow> same_audit d d'"
  by (auto simp: ensure_tenant_def insert_tenant_def Let_def same_audit_def split: if_splits)

lemma same_audit_trans: "same_audit d1 d2 \<Longrightarrow> same_audit d2 d3 \<Longrightarrow> same_audit d1 d3"
  by (simp add: same_audit_def)

lemma insert_secret_audit: "insert_secret p s now d = Inr d' \<Longrightarrow> same_audit d d'"
  by (auto simp: insert_secret_def same_audit_def split: if_splits)

lemma insert_principal_audit:
  "insert_principal js p now d = Inr (d', b) \<Longrightarrow> same_audit d d'"
proof -
  obtain d1 e where "ensure_tenant (npr_tenant_id p) now d = (d1, e)" by fastforce
  moreover from ensure_tenant_audit [OF this] have "same_audit d d1" .
  moreover assume "insert_principal js p now d = Inr (d', b)"
  ultimately show ?thesis
    by (auto simp: insert_principal_def Let_def bindE_Inr_iff same_audit_def
        dest!: insert_secret_audit split: if_splits)
qed

lemma insert_user_grant_audit: "same_audit d (fst (insert_user_grant js g now d))"
proof -
  obtain d1 e where "ensure_tenant (ng_tenant_id g) now d = (d1, e)" by fastforce
  moreover from ensure_tenant_audit [OF this] have "same_audit d d1" .
  ultimately show ?thesis by (auto simp: insert_user_grant_def Let_def same_audit_def)
qed

lemma apply_admin_audit:
  assumes "apply_admin cr js w d = Inr (d', b)"
  shows "same_audit d d'"
  using assms
proof (cases w)
  case (InsertUserGrant g now)
  with assms insert_user_grant_audit [of d js g now] show ?thesis by simp
next
  case (InsertPrincipal p now)
  with assms show ?thesis by (auto dest: insert_principal_audit)
qed (auto simp: bindE_Inr_iff same_audit_def repo_defs Let_def split: if_splits option.splits)

lemma apply_custody_audit: "apply_custody cr w d = Inr d' \<Longrightarrow> same_audit d d'"
  by (cases w) (auto simp: repo_defs same_audit_def split: if_splits)

interpretation audit: command_order cr js audit_le for cr js
proof
  fix d c b d' b'
  assume ok: "db_ok d" and ap: "apply_command cr js c (d, b) = Inr (d', b')"
  have sa: "audit_le d d'" if "same_audit d d'" for d' using that by (simp add: audit_le_def same_audit_def)
  have ins: "audit_le d (insert_audit row d1)" if "same_audit d d1" for row d1
    using that by (auto simp: audit_le_def same_audit_def insert_audit_def)
  show "audit_le d d'"
  proof (cases c)
    case (Custody w k)
    with ap show ?thesis by (auto simp: bindE_Inr_iff intro: sa apply_custody_audit)
  next
    case (Admin w audit k)
    with ap obtain d1 out where "apply_admin cr js w d = Inr (d1, out)"
      and d': "d' = (case audit of None \<Rightarrow> d1 | Some row \<Rightarrow> insert_audit (tier_a_row w out row) d1)"
      by (auto simp: bindE_Inr_iff)
    then have "same_audit d d1" by (intro apply_admin_audit)
    then show ?thesis by (auto simp: d' intro: sa ins split: option.splits)
  next
    case (Reap x y)
    with ap show ?thesis
      by (auto simp: bindE_Inr_iff dest!: reap_Inr intro!: sa) (simp add: reaped_def Let_def same_audit_def)
  qed (use ap in \<open>auto simp: bindE_Inr_iff repo_defs same_audit_def audit_le_def Let_def sql_simps
      split: if_splits\<close>)
next
  show "audit_le d1 d3" if "audit_le d1 d2" "audit_le d2 d3" for d1 d2 d3
    using that unfolding audit_le_def by fastforce
qed (simp add: audit_le_def)

text \<open>
  C36. The audit record is append-only: between any two committed states of a run, a row of the
  later one is either an unchanged row of the earlier one or has a sequence number larger than
  any given out before, so no row is edited and no sequence number comes back after a prune.
\<close>

theorem audit_append_only:
  assumes "db_ok (w_db w)" and "w' = run (writer_step cr js) es w"
    and "a \<in> set (audit_tbl (w_db w'))"
  shows "a \<in> set (audit_tbl (w_db w)) \<or> (\<forall>a0 \<in> set (audit_tbl (w_db w)). a_seq a0 < a_seq a)"
proof -
  have "audit_le (w_db w) (w_db w')"
    unfolding assms(2) by (rule audit.mono.le_run [OF assms(1)]) simp
  with assms(3) have "a \<in> set (audit_tbl (w_db w)) \<or> audit_next_seq (w_db w) < a_seq a"
    by (auto simp: audit_le_def)
  moreover have "\<forall>a0 \<in> set (audit_tbl (w_db w)). a_seq a0 \<le> audit_next_seq (w_db w)"
    using assms(1) by (simp add: db_ok_defs)
  ultimately show ?thesis by fastforce
qed

end
