(* ===== verification/Sealing.thy ===== *)
theory Sealing
  imports Writer
begin

text \<open>
  Sealed columns: what was sealed opens again, under its own row and column only, before and
  after a key rotation; custody rows read back what was written; a reseal changes no plaintext
  and moves every readable row onto the active key.
\<close>

section \<open>Seal and open\<close>

text \<open>
  C40. Opening what a keyring sealed gives the plaintext back under the same context, and under
  the context of any other row or column of the store it fails authentication.
\<close>

theorem seal_open_bound:
  assumes "ring_ok ring" and "aead_correct encrypt decrypt" and "aead_binds encrypt decrypt"
    and "length nonce = nonce_len"
  shows "\<exists>sealed. ring_seal encrypt ring nonce p (column_context x) = Some sealed \<and>
     ring_open decrypt ring sealed (column_context y) = (if y = x then Inr p else Inl Auth_Failed)"
proof -
  obtain key where k: "map_of (kr_keys ring) (kr_active ring) = Some key"
    and s: "\<And>encrypt nonce p ctx. ring_seal encrypt ring nonce p ctx =
           Some ([format_v1, kr_active ring] @ nonce @
                 encrypt key nonce p (ring_aad (kr_active ring) ctx))"
    using ring_seal_ok [OF assms(1)] by metis
  have "ring_aad (kr_active ring) (column_context y) \<noteq> ring_aad (kr_active ring) (column_context x)"
    if "y \<noteq> x" using that column_context_inj by (simp add: ring_aad_def)
  then show ?thesis
    using assms(2,3) k unfolding s ring_open_layout [OF assms(4)]
    by (auto simp: aead_correct_def aead_binds_def ring_open_layout [OF assms(4), simplified])
qed

text \<open>
  A key rotation loses nothing: a value sealed before it still opens after it, new values
  are sealed under the new key, and a keyring that can seal stays one.
\<close>

theorem rotation_keeps_old_values:
  assumes "ring_ok ring" and "aead_correct encrypt decrypt" and "length nonce = nonce_len"
    and rot: "rotate_ring ring fresh = Some (ring', n)"
    and "ring_seal encrypt ring nonce p ctx = Some sealed"
  shows "ring_open decrypt ring' sealed ctx = Inr p \<and> ring_ok ring' \<and>
     (\<exists>sealed'. ring_seal encrypt ring' nonce p ctx = Some sealed' \<and> key_id_of sealed' = Some n \<and>
        ring_open decrypt ring' sealed' ctx = Inr p)"
proof -
  note r = ring_ok_rotate [OF assms(1) rot]
  obtain key where k: "map_of (kr_keys ring) (kr_active ring) = Some key"
    and s: "\<And>encrypt nonce p ctx. ring_seal encrypt ring nonce p ctx =
           Some ([format_v1, kr_active ring] @ nonce @
                 encrypt key nonce p (ring_aad (kr_active ring) ctx))"
    using ring_seal_ok [OF assms(1)] by metis
  obtain key' where k': "map_of (kr_keys ring') (kr_active ring') = Some key'"
    and s': "\<And>encrypt nonce p ctx. ring_seal encrypt ring' nonce p ctx =
           Some ([format_v1, kr_active ring'] @ nonce @
                 encrypt key' nonce p (ring_aad (kr_active ring') ctx))"
    using ring_seal_ok [OF r(1)] by metis
  have old: "map_of (kr_keys ring') (kr_active ring) = Some key" using r(3,4) k by auto
  have sealed: "sealed = [format_v1, kr_active ring] @ nonce @ encrypt key nonce p (ring_aad (kr_active ring) ctx)"
    using assms(5) s by simp
  have "ring_open decrypt ring' sealed ctx = Inr p"
    unfolding sealed ring_open_layout [OF assms(3)] using old assms(2) by (simp add: aead_correct_def)
  moreover have "ring_open decrypt ring' ([format_v1, kr_active ring'] @ nonce @
      encrypt key' nonce p (ring_aad (kr_active ring') ctx)) ctx = Inr p"
    unfolding ring_open_layout [OF assms(3)] using k' assms(2) by (simp add: aead_correct_def)
  ultimately show ?thesis using r(1,2) s' key_id_of_layout by auto
qed

section \<open>A cipher to evaluate with\<close>

text \<open>
  A toy cipher with the two properties: the ciphertext carries the associated data in a
  self-delimiting prefix.
\<close>

definition demo_prefix :: "bytes \<Rightarrow> bytes" where
  "demo_prefix a = replicate (length a) 1 @ [0] @ a"

definition demo_encrypt :: "bytes \<Rightarrow> bytes \<Rightarrow> bytes \<Rightarrow> bytes \<Rightarrow> bytes" where
  "demo_encrypt k n m a = demo_prefix a @ m"

definition demo_decrypt :: "bytes \<Rightarrow> bytes \<Rightarrow> bytes \<Rightarrow> bytes \<Rightarrow> bytes option" where
  "demo_decrypt k n c a =
     (let p = demo_prefix a in if take (length p) c = p then Some (drop (length p) c) else None)"

lemma replicate_prefix_eq:
  "replicate n (1::8 word) @ 0 # x = replicate m 1 @ 0 # y \<Longrightarrow> n = m \<and> x = y"
proof (induction n arbitrary: m)
  case 0
  then show ?case by (cases m) auto
next
  case (Suc n)
  then show ?case by (cases m) auto
qed

lemma demo_prefix_inj: "demo_prefix a @ x = demo_prefix b @ y \<Longrightarrow> a = b \<and> x = y"
  using replicate_prefix_eq [of "length a" "a @ x" "length b" "b @ y"]
  by (auto simp: demo_prefix_def)

lemma demo_correct: "aead_correct demo_encrypt demo_decrypt"
  by (simp add: aead_correct_def demo_encrypt_def demo_decrypt_def Let_def)

lemma demo_binds: "aead_binds demo_encrypt demo_decrypt"
  unfolding aead_binds_def demo_encrypt_def demo_decrypt_def Let_def
proof (intro allI impI)
  fix k n m a a' :: bytes
  assume ne: "a' \<noteq> a"
  have "take (length (demo_prefix a')) (demo_prefix a @ m) \<noteq> demo_prefix a'"
  proof
    assume "take (length (demo_prefix a')) (demo_prefix a @ m) = demo_prefix a'"
    then have "demo_prefix a' @ drop (length (demo_prefix a')) (demo_prefix a @ m) = demo_prefix a @ m"
      by (metis append_take_drop_id)
    from demo_prefix_inj [OF this] ne show False by simp
  qed
  then show "(if take (length (demo_prefix a')) (demo_prefix a @ m) = demo_prefix a'
      then Some (drop (length (demo_prefix a')) (demo_prefix a @ m)) else None) = None" by simp
qed

definition demo_ring :: key_ring where
  "demo_ring = ring_single 1 (replicate 32 7)"

definition demo_crypto :: crypto where
  "demo_crypto = ring_crypto demo_encrypt demo_decrypt (\<lambda>_ _. replicate nonce_len 0) demo_ring"

definition demo_json :: json where
  "demo_json = \<lparr>to_json = (\<lambda>xs. concat (map (\<lambda>x. x @ [CHR 0x0A]) xs)),
     from_json = (\<lambda>s. if s = [] then Some [] else None)\<rparr>"

lemma demo_ring_ok: "ring_ok demo_ring"
  by (simp add: demo_ring_def ring_single_def ring_ok_def)

lemma demo_crypto_ok: "crypto_ok demo_crypto"
  unfolding demo_crypto_def by (rule crypto_ok_ring [OF demo_ring_ok demo_correct]) simp

theorem seal_open_bound_witness:
  "\<exists>sealed. ring_seal demo_encrypt demo_ring (replicate nonce_len 0) [42]
       (column_context (Custody_Refresh ''c1'')) = Some sealed \<and>
     ring_open demo_decrypt demo_ring sealed (column_context (Custody_Access ''c1'')) = Inl Auth_Failed"
  using seal_open_bound [OF demo_ring_ok demo_correct demo_binds, of "replicate nonce_len 0" "[42]"
      "Custody_Refresh ''c1''" "Custody_Access ''c1''"] by simp

theorem rotation_keeps_old_values_witness:
  "\<exists>ring' n sealed. rotate_ring demo_ring (replicate 32 9) = Some (ring', n) \<and>
     ring_seal demo_encrypt demo_ring (replicate nonce_len 0) [42] [1] = Some sealed \<and>
     ring_open demo_decrypt ring' sealed [1] = Inr [42]"
proof -
  obtain ring' n where r: "rotate_ring demo_ring (replicate 32 9) = Some (ring', n)"
    by (simp add: rotate_ring_def demo_ring_def ring_single_def Let_def)
  obtain sealed where s: "ring_seal demo_encrypt demo_ring (replicate nonce_len 0) [42] [1] = Some sealed"
    by (simp add: ring_seal_def demo_ring_def ring_single_def)
  from rotation_keeps_old_values [OF demo_ring_ok demo_correct _ r s] r s show ?thesis by simp
qed

section \<open>Custody rows read back\<close>

lemma sql_find_append_new:
  "\<not> sql_exists p t \<Longrightarrow> p r \<Longrightarrow> sql_find p (t @ [r]) = Some r"
  by (induction t) (auto simp: sql_find_def sql_exists_def)

lemma sql_find_update:
  assumes "\<And>r. p r \<Longrightarrow> p (f r)"
  shows "sql_find p (sql_update p f t) = map_option f (sql_find p t)"
  using assms by (induction t) (auto simp: sql_find_def sql_update_def)

lemma load_after_insert:
  assumes "crypto_ok cr" and "insert_custody cr row d = Inr d1"
  shows "load_custody cr (cr_custody_id row) d1 = Inr (Some row)"
proof -
  let ?c = "\<lparr>c_custody_id = cr_custody_id row, c_sub = cr_sub row,
          c_refresh_tok = cseal cr (cr_refresh_tok row) (custody_context (cr_custody_id row) ''refresh''),
          c_access_tok = cseal cr (cr_access_tok row) (custody_context (cr_custody_id row) ''access''),
          c_access_exp = cr_access_exp row, c_scope = cr_scope row,
          c_status = custody_status_to_str (cr_status row),
          c_next_refresh = cr_next_refresh row, c_fail_count = cr_fail_count row,
          c_updated_at = cr_updated_at row, c_provider_id = cr_provider_id row\<rparr>"
  from assms(2) have "custody_tbl d1 = custody_tbl d @ [?c]"
    and "\<not> sql_exists (\<lambda>c. c_custody_id c = cr_custody_id row) (custody_tbl d)"
    by (auto simp: insert_custody_def split: if_splits)
  then have f: "sql_find (\<lambda>c. c_custody_id c = cr_custody_id row) (custody_tbl d1) = Some ?c"
    by (simp add: sql_find_append_new)
  with assms(1) show ?thesis by (simp add: load_custody_def crypto_ok_def)
qed

lemma load_after_success:
  assumes "crypto_ok cr" and "load_custody cr cid d = Inr (Some row)"
  shows "load_custody cr cid (update_custody_success cr cid rt at ae nr now d) =
     Inr (Some (row\<lparr>cr_refresh_tok := rt, cr_access_tok := at, cr_access_exp := ae,
                    cr_next_refresh := nr, cr_status := Ok, cr_fail_count := 0, cr_updated_at := now\<rparr>))"
proof -
  obtain c where c: "sql_find (\<lambda>c. c_custody_id c = cid) (custody_tbl d) = Some c"
    using assms(2) by (cases "sql_find (\<lambda>c. c_custody_id c = cid) (custody_tbl d)") (auto simp: load_custody_def)
  then have "c_custody_id c = cid" by (simp add: sql_find_def find_Some_iff) blast
  moreover have "custody_status_from_str ''ok'' = Inr Ok" by (simp add: custody_status_from_str_def)
  ultimately show ?thesis
    using assms c
    by (auto simp: load_custody_def update_custody_success_def sql_find_update crypto_ok_def bindE_Inr_iff
        split: sum.splits)
qed

text \<open>
  A custody row reads back as it was written, tokens decrypted, and after a successful
  upstream refresh it reads back with both rotated tokens, the new expiry and a clean status.
\<close>

theorem custody_round_trip:
  assumes "crypto_ok cr" and "insert_custody cr row d = Inr d1"
  shows "load_custody cr (cr_custody_id row) d1 = Inr (Some row) \<and>
     load_custody cr (cr_custody_id row)
       (update_custody_success cr (cr_custody_id row) rt at ae nr now d1) =
     Inr (Some (row\<lparr>cr_refresh_tok := rt, cr_access_tok := at, cr_access_exp := ae,
                    cr_next_refresh := nr, cr_status := Ok, cr_fail_count := 0,
                    cr_updated_at := now\<rparr>))"
  using load_after_insert [OF assms] load_after_success [OF assms(1) load_after_insert [OF assms]] by simp

definition demo_custody :: custody_row where
  "demo_custody = \<lparr>cr_custody_id = ''c1'', cr_sub = ''alice'', cr_refresh_tok = [1,2],
     cr_access_tok = [3], cr_access_exp = 4600, cr_scope = None, cr_status = Ok,
     cr_next_refresh = 2800, cr_fail_count = 0, cr_updated_at = 1000, cr_provider_id = ''default''\<rparr>"

section \<open>Resealing\<close>

lemma reseal_custody_row_open:
  assumes "crypto_ok cr"
  shows "copen cr (c_refresh_tok (reseal_custody_row cr c)) (custody_context (c_custody_id c) ''refresh'') =
         copen cr (c_refresh_tok c) (custody_context (c_custody_id c) ''refresh'')"
    and "copen cr (c_access_tok (reseal_custody_row cr c)) (custody_context (c_custody_id c) ''access'') =
         copen cr (c_access_tok c) (custody_context (c_custody_id c) ''access'')"
  using assms
  by (auto simp: reseal_custody_row_def Let_def crypto_ok_def split: sum.split)

lemma reseal_custody_row_frame [simp]:
  "c_sub (reseal_custody_row cr c) = c_sub c" "c_access_exp (reseal_custody_row cr c) = c_access_exp c"
  "c_scope (reseal_custody_row cr c) = c_scope c" "c_status (reseal_custody_row cr c) = c_status c"
  "c_next_refresh (reseal_custody_row cr c) = c_next_refresh c"
  "c_fail_count (reseal_custody_row cr c) = c_fail_count c"
  "c_updated_at (reseal_custody_row cr c) = c_updated_at c"
  "c_provider_id (reseal_custody_row cr c) = c_provider_id c"
  by (auto simp: reseal_custody_row_def Let_def split: sum.split)

lemma sql_find_map:
  assumes "\<And>r. p (f r) = p r"
  shows "sql_find p (map f t) = map_option f (sql_find p t)"
  using assms by (induction t) (auto simp: sql_find_def)

lemma reseal_all_custody_tbl:
  "custody_tbl (fst (reseal_all_with cr d)) = map (reseal_custody_row cr) (custody_tbl d)"
  by (simp add: reseal_all_with_def reseal_custody_with_def reseal_signing_keys_with_def
      reseal_providers_with_def Let_def)

lemma load_custody_reseal:
  assumes "crypto_ok cr"
  shows "load_custody cr cid (fst (reseal_all_with cr d)) = load_custody cr cid d"
proof (cases "sql_find (\<lambda>c. c_custody_id c = cid) (custody_tbl d)")
  case None
  then show ?thesis by (simp add: load_custody_def reseal_all_custody_tbl sql_find_map)
next
  case (Some c)
  then show ?thesis
    using reseal_custody_row_open [OF assms, of c]
    by (simp add: load_custody_def reseal_all_custody_tbl sql_find_map cong: sum.case_cong)
qed

text \<open>
  A reseal changes no plaintext: every custody loads to the same value, or fails with the
  same error, as before; and every custody that opens ends up with both tokens under the active
  key, so the retired key can be removed.
\<close>

theorem reseal_preserves_custody:
  assumes "crypto_ok cr"
  shows "load_custody cr cid (fst (reseal_all_with cr d)) = load_custody cr cid d \<and>
     (\<forall>c \<in> set (custody_tbl (fst (reseal_all_with cr d))). custody_opens cr c \<longrightarrow> custody_current cr c)"
proof
  show "load_custody cr cid (fst (reseal_all_with cr d)) = load_custody cr cid d"
    by (rule load_custody_reseal [OF assms])
  show "\<forall>c \<in> set (custody_tbl (fst (reseal_all_with cr d))). custody_opens cr c \<longrightarrow> custody_current cr c"
    using assms
    by (auto simp: reseal_all_custody_tbl reseal_custody_row_def Let_def custody_opens_def
        custody_current_def crypto_ok_def split: sum.splits)
qed

text \<open>A custody written under key 1, resealed under a keyring rotated to key 2.\<close>

definition demo_rotated :: key_ring where
  "demo_rotated = demo_ring\<lparr>kr_keys := btree_insert 2 (replicate 32 9) (kr_keys demo_ring), kr_active := 2\<rparr>"

definition demo_crypto2 :: crypto where
  "demo_crypto2 = ring_crypto demo_encrypt demo_decrypt (\<lambda>_ _. replicate nonce_len 0) demo_rotated"

definition demo_db :: db where
  "demo_db = (case insert_custody demo_crypto demo_custody (migrated_db 0) of Inr d \<Rightarrow> d | Inl _ \<Rightarrow> migrated_db 0)"

lemma demo_crypto2_ok: "crypto_ok demo_crypto2"
proof -
  have "ring_ok demo_rotated" by code_simp
  then show ?thesis unfolding demo_crypto2_def by (rule crypto_ok_ring [OF _ demo_correct]) simp
qed

end
