(* ===== verification/Store_Records.thy ===== *)
theory Store_Records
  imports Store_Safety Sealing
begin

text \<open>
  The admin lane and the record it leaves: Tier-A audit rows, writes that find nothing to do,
  revocations that stay, signing-key rotation, and the rows of the session side: death on disk,
  the reaper, single-use login transactions, sealed columns.
\<close>

section \<open>Admin writes that do nothing\<close>

lemma sql_count_0: "\<not> 0 < sql_count p t \<Longrightarrow> sql_update p f t = t"
  by (rule sql_update_none) (simp add: sql_count_pos)

lemma ensure_tenant_disabled: "ensure_tenant t now d = (d', False) \<Longrightarrow> d' = d"
  by (auto simp: ensure_tenant_def insert_tenant_def Let_def tenant_is_disabled_def sql_find_def
      sql_exists_def list_ex_iff find_None_iff split: if_splits option.splits)
     (auto simp: find_Some_iff nth_append split: if_splits)

lemma ensure_tenant_present:
  assumes "t \<in> t_tenant_id ` set (tenant_tbl d)"
  shows "fst (ensure_tenant t now d) = d"
  using assms by (simp add: ensure_tenant_def insert_tenant_def Let_def sql_simps)

lemma insert_principal_unapplied:
  assumes "insert_principal js p now d = Inr (d', False)" and "db_ok d"
  shows "d' = d"
proof -
  obtain d1 e where e: "ensure_tenant (npr_tenant_id p) now d = (d1, e)" by fastforce
  show ?thesis
  proof (cases e)
    case False
    with assms e show ?thesis by (auto simp: insert_principal_def dest: ensure_tenant_disabled)
  next
    case True
    with assms(1) e have "d' = d1" and
      ex: "sql_exists (\<lambda>r. p_tenant_id r = npr_tenant_id p \<and> p_name r = npr_name p) (principal_tbl d1)"
      by (auto simp: insert_principal_def Let_def bindE_Inr_iff split: if_splits)
    moreover have "principal_tbl d1 = principal_tbl d"
      using e by (auto simp: ensure_tenant_def insert_tenant_def Let_def split: if_splits)
    ultimately have "npr_tenant_id p \<in> p_tenant_id ` set (principal_tbl d)"
      by (auto simp: sql_exists_iff intro: rev_image_eqI)
    then have "npr_tenant_id p \<in> t_tenant_id ` set (tenant_tbl d)"
      using assms(2) by (auto simp: db_ok_defs)
    from ensure_tenant_present [OF this] e \<open>d' = d1\<close> show ?thesis by (metis fst_conv)
  qed
qed

lemma insert_user_grant_unapplied:
  assumes "insert_user_grant js g now d = (d', False)" and "db_ok d"
  shows "d' = d"
proof -
  obtain d1 e where e: "ensure_tenant (ng_tenant_id g) now d = (d1, e)" by fastforce
  show ?thesis
  proof (cases e)
    case False
    with assms e show ?thesis by (auto simp: insert_user_grant_def dest: ensure_tenant_disabled)
  next
    case True
    with assms(1) e have "d' = d1" and
      ex: "sql_exists (\<lambda>r. ug_sub r = ng_sub g \<and> ug_tenant_id r = ng_tenant_id g) (user_grant_tbl d1)"
      by (auto simp: insert_user_grant_def Let_def sql_count_0 split: if_splits)
    moreover have "user_grant_tbl d1 = user_grant_tbl d"
      using e by (auto simp: ensure_tenant_def insert_tenant_def Let_def split: if_splits)
    ultimately have "ng_tenant_id g \<in> ug_tenant_id ` set (user_grant_tbl d)"
      by (auto simp: sql_exists_iff intro: rev_image_eqI)
    then have "ng_tenant_id g \<in> t_tenant_id ` set (tenant_tbl d)"
      using assms(2) by (auto simp: db_ok_defs)
    from ensure_tenant_present [OF this] e \<open>d' = d1\<close> show ?thesis by (metis fst_conv)
  qed
qed

lemma apply_admin_unapplied:
  assumes "apply_admin cr js w d = Inr (d', False)" and "db_ok d"
  shows "d' = d"
  using assms
proof (cases w)
  case (InsertPrincipal p now)
  with assms show ?thesis by (auto dest: insert_principal_unapplied)
next
  case (InsertUserGrant g now)
  with assms show ?thesis by (auto dest: insert_user_grant_unapplied)
qed (auto simp: bindE_Inr_iff repo_defs Let_def sql_count_0 split: if_splits option.splits)

text \<open>
  Tier A (ADR-0015). An audited admin write and its record are one: when the command is
  applied, exactly one row is appended to the audit table, in the same state as the mutation and
  the outcome the caller is acked with. If the write found nothing to do, the row says
  \<open>failure\<close> with the reason and the rest of the database is what it was.
\<close>

theorem tier_a_record:
  assumes "db_ok d" and "apply_command cr js (Admin w (Some row) k) (d, b) = Inr (d', b')"
  shows "\<exists>d1 outcome. apply_admin cr js w d = Inr (d1, outcome) \<and>
     d' = insert_audit (if outcome then row
            else row\<lparr>au_outcome := ''failure'', au_reason := Some (unapplied_reason w)\<rparr>) d1 \<and>
     audit_tbl d1 = audit_tbl d \<and>
     bo_admin_acks b' = bo_admin_acks b @ [(k, outcome)] \<and> (\<not> outcome \<longrightarrow> d1 = d)"
proof -
  from assms(2) obtain d1 out where a: "apply_admin cr js w d = Inr (d1, out)"
    and "d' = insert_audit (tier_a_row w out row) d1"
    and "b' = b\<lparr>bo_admin_acks := bo_admin_acks b @ [(k, out)]\<rparr>"
    by (auto simp: bindE_Inr_iff)
  moreover have "audit_tbl d1 = audit_tbl d" using apply_admin_audit [OF a] by (simp add: same_audit_def)
  moreover have "\<not> out \<longrightarrow> d1 = d" using apply_admin_unapplied [OF _ assms(1)] a by auto
  ultimately show ?thesis by (auto simp: tier_a_row_def)
qed

section \<open>Revocation is final\<close>

text \<open>Every row of the first table has a successor in the second.\<close>

definition rows_le :: "('r \<Rightarrow> 'r \<Rightarrow> bool) \<Rightarrow> 'r list \<Rightarrow> 'r list \<Rightarrow> bool" where
  "rows_le r t t' \<longleftrightarrow> (\<forall>x \<in> set t. \<exists>y \<in> set t'. r x y)"

lemma rows_le_append: "(\<And>x. r x x) \<Longrightarrow> rows_le r t (t @ s)"
  by (auto simp: rows_le_def)

lemma rows_le_refl: "(\<And>x. r x x) \<Longrightarrow> rows_le r t t"
  by (auto simp: rows_le_def)

lemma rows_le_update:
  assumes "\<And>x. r x x" and "\<And>x. p x \<Longrightarrow> r x (f x)"
  shows "rows_le r t (sql_update p f t)"
  unfolding rows_le_def set_sql_update
proof
  fix x assume "x \<in> set t"
  from imageI [OF this, of "\<lambda>x. if p x then f x else x"] assms
  show "\<exists>y \<in> (\<lambda>x. if p x then f x else x) ` set t. r x y" by (intro bexI) auto
qed

lemma rows_le_trans:
  "(\<And>x y z. r x y \<Longrightarrow> r y z \<Longrightarrow> r x z) \<Longrightarrow> rows_le r t1 t2 \<Longrightarrow> rows_le r t2 t3 \<Longrightarrow> rows_le r t1 t3"
  by (fastforce simp: rows_le_def)

definition key_le :: "db_api_key \<Rightarrow> db_api_key \<Rightarrow> bool" where
  "key_le k k' \<longleftrightarrow> k_key_id k' = k_key_id k \<and> k_key_hash k' = k_key_hash k \<and>
     (k_revoked_at k \<noteq> None \<longrightarrow> k_revoked_at k' \<noteq> None)"

definition secret_le :: "db_secret \<Rightarrow> db_secret \<Rightarrow> bool" where
  "secret_le s s' \<longleftrightarrow> ps_secret_hash s' = ps_secret_hash s \<and> ps_principal_id s' = ps_principal_id s \<and>
     (ps_revoked_at s \<noteq> None \<longrightarrow> ps_revoked_at s' \<noteq> None)"

definition principal_le :: "db_principal \<Rightarrow> db_principal \<Rightarrow> bool" where
  "principal_le p p' \<longleftrightarrow> p_principal_id p' = p_principal_id p \<and>
     (p_revoked_at p \<noteq> None \<longrightarrow> p_revoked_at p' \<noteq> None)"

definition creds_le :: "db \<Rightarrow> db \<Rightarrow> bool" where
  "creds_le d d' \<longleftrightarrow> rows_le key_le (api_key_tbl d) (api_key_tbl d') \<and>
     rows_le secret_le (secret_tbl d) (secret_tbl d') \<and>
     rows_le principal_le (principal_tbl d) (principal_tbl d')"

lemma cred_refl [simp]: "key_le k k" "secret_le s s" "principal_le p p"
  by (simp_all add: key_le_def secret_le_def principal_le_def)

lemma creds_refl [simp]: "creds_le d d"
  by (simp add: creds_le_def rows_le_refl)

lemma creds_trans: "creds_le d1 d2 \<Longrightarrow> creds_le d2 d3 \<Longrightarrow> creds_le d1 d3"
  unfolding creds_le_def
  by (intro conjI; elim conjE; erule (1) rows_le_trans [rotated])
     (auto simp: key_le_def secret_le_def principal_le_def)

lemma creds_same:
  "api_key_tbl d' = api_key_tbl d \<Longrightarrow> secret_tbl d' = secret_tbl d \<Longrightarrow>
   principal_tbl d' = principal_tbl d \<Longrightarrow> creds_le d d'"
  by (simp add: creds_le_def rows_le_refl)

lemma ensure_tenant_creds: "ensure_tenant t now d = (d', e) \<Longrightarrow> creds_le d d'"
  by (auto simp: ensure_tenant_def insert_tenant_def Let_def split: if_splits intro: creds_same)

lemma insert_secret_creds: "insert_secret p s now d = Inr d' \<Longrightarrow> creds_le d d'"
  by (auto simp: insert_secret_def creds_le_def rows_le_append rows_le_refl split: if_splits)

lemma insert_principal_creds:
  assumes "insert_principal js p now d = Inr (d', b)"
  shows "creds_le d d'"
proof -
  obtain d1 e where e: "ensure_tenant (npr_tenant_id p) now d = (d1, e)" by fastforce
  have "creds_le d1 d'"
  proof (cases "d' = d1")
    case False
    then obtain r where "insert_secret (npr_principal_id p) (npr_secret p) now
        (d1\<lparr>principal_tbl := principal_tbl d1 @ [r]\<rparr>) = Inr d'"
      using assms e by (auto simp: insert_principal_def Let_def bindE_Inr_iff split: if_splits)
    from insert_secret_creds [OF this] have
      "creds_le (d1\<lparr>principal_tbl := principal_tbl d1 @ [r]\<rparr>) d'" .
    moreover have "creds_le d1 (d1\<lparr>principal_tbl := principal_tbl d1 @ [r]\<rparr>)"
      by (simp add: creds_le_def rows_le_append rows_le_refl)
    ultimately show ?thesis by (rule creds_trans [rotated])
  qed simp
  with ensure_tenant_creds [OF e] show ?thesis by (rule creds_trans)
qed

lemma add_principal_secret_creds:
  assumes "add_principal_secret p s e now d = Inr (d', b)"
  shows "creds_le d d'"
proof (cases "d' = d")
  case False
  let ?d = "\<lambda>at. d\<lparr>secret_tbl := sql_update
      (\<lambda>s. ps_principal_id s = p \<and> ps_revoked_at s = None \<and> open_past at (ps_expires_at s))
      (\<lambda>s. s\<lparr>ps_expires_at := Some at\<rparr>) (secret_tbl d)\<rparr>"
  from assms False obtain d1 where ins: "insert_secret p s now d1 = Inr d'" and "d1 = d \<or> (\<exists>at. d1 = ?d at)"
    by (auto simp: add_principal_secret_def Let_def bindE_Inr_iff split: if_splits option.splits)
  moreover have "creds_le d (?d at)" for at
    by (auto simp: creds_le_def rows_le_refl secret_le_def intro!: rows_le_update)
  ultimately have "creds_le d d1" by auto
  with insert_secret_creds [OF ins] show ?thesis by (blast intro: creds_trans)
qed simp

lemma insert_user_grant_creds: "creds_le d (fst (insert_user_grant js g now d))"
proof -
  obtain d1 e where e: "ensure_tenant (ng_tenant_id g) now d = (d1, e)" by fastforce
  have "creds_le d1 (fst (insert_user_grant js g now d))"
    by (auto simp: insert_user_grant_def e Let_def intro!: creds_same)
  with ensure_tenant_creds [OF e] show ?thesis by (rule creds_trans)
qed

lemma apply_admin_creds:
  assumes "apply_admin cr js w d = Inr (d', b)"
  shows "creds_le d d'"
  using assms
proof (cases w)
  case (InsertUserGrant g now)
  with assms insert_user_grant_creds [of d js g now] show ?thesis by simp
next
  case (InsertPrincipal p now)
  with assms show ?thesis by (auto dest: insert_principal_creds)
next
  case (AddPrincipalSecret p s e now)
  with assms show ?thesis by (auto dest: add_principal_secret_creds)
qed (auto simp: bindE_Inr_iff repo_defs Let_def creds_le_def key_le_def secret_le_def principal_le_def
    rows_le_refl split: if_splits option.splits intro!: rows_le_append rows_le_update rows_le_refl)

interpretation creds: command_order cr js creds_le for cr js
proof
  fix d c b d' b'
  assume ap: "apply_command cr js c (d, b) = Inr (d', b')"
  show "creds_le d d'"
  proof (cases c)
    case (Admin w audit k)
    with ap obtain d1 out where "apply_admin cr js w d = Inr (d1, out)"
      and d': "d' = (case audit of None \<Rightarrow> d1 | Some row \<Rightarrow> insert_audit (tier_a_row w out row) d1)"
      by (auto simp: bindE_Inr_iff)
    then have "creds_le d d1" by (intro apply_admin_creds)
    then show ?thesis by (auto simp: d' insert_audit_def creds_le_def split: option.splits)
  next
    case (Custody w k)
    with ap show ?thesis
      by (cases w) (auto simp: bindE_Inr_iff repo_defs intro!: creds_same split: if_splits)
  next
    case (Reap x y)
    with ap show ?thesis
      by (auto simp: bindE_Inr_iff dest!: reap_Inr intro!: creds_same) (simp_all add: reaped_def Let_def)
  qed (use ap in \<open>auto simp: bindE_Inr_iff repo_defs Let_def intro!: creds_same split: if_splits\<close>)
qed (auto intro: creds_trans)

lemma creds_run: "db_ok (w_db w) \<Longrightarrow> creds_le (w_db w) (w_db (run (writer_step cr js) es w))"
  by (rule creds.mono.le_run) simp_all

lemma distinct_key_eq: "distinct (map f t) \<Longrightarrow> x \<in> set t \<Longrightarrow> y \<in> set t \<Longrightarrow> f x = f y \<Longrightarrow> x = y"
  by (auto simp: distinct_map inj_on_def)

text \<open>
  A revoked backend API key never authenticates again: after any further run of the writer the
  lookup of its hash finds nothing, and no later insert can bring the hash back to life.
\<close>

lemma dead_api_key:
  assumes ok: "db_ok (w_db w)" and k: "k \<in> set (api_key_tbl (w_db w))" "k_revoked_at k \<noteq> None"
    and w': "w' = run (writer_step cr js) es w"
  shows "find_live_api_key (k_key_hash k) (w_db w') = None"
proof -
  have ok': "db_ok (w_db w')" unfolding w' by (rule wr.inv_run [OF ok]) simp
  obtain k' where k': "k' \<in> set (api_key_tbl (w_db w'))" "k_key_hash k' = k_key_hash k"
    "k_revoked_at k' \<noteq> None"
    using creds_run [OF ok, of cr js es] k by (force simp: w' creds_le_def rows_le_def key_le_def)
  have "x = k'" if "x \<in> set (api_key_tbl (w_db w'))" "k_key_hash x = k_key_hash k" for x
    using that k' ok' distinct_key_eq [of k_key_hash "api_key_tbl (w_db w')" x k'] by (simp add: db_ok_defs)
  with k'(3) show ?thesis by (auto simp: find_live_api_key_def sql_find_None_iff)
qed

text \<open>
  C38. A principal's secret stops working for good once the secret or the principal is revoked:
  after any further run of the writer, presenting it resolves to nobody at any time.
\<close>

theorem revoked_secret_stays_dead:
  assumes ok: "db_ok (w_db w)" and s: "s \<in> set (secret_tbl (w_db w))"
    and p: "p \<in> set (principal_tbl (w_db w))" "p_principal_id p = ps_principal_id s"
    and rev: "ps_revoked_at s \<noteq> None \<or> p_revoked_at p \<noteq> None"
    and w': "w' = run (writer_step cr js) es w"
  shows "find_live_principal_by_secret js (ps_secret_hash s) now (w_db w') = Inr None"
proof -
  have ok': "db_ok (w_db w')" unfolding w' by (rule wr.inv_run [OF ok]) simp
  have le: "creds_le (w_db w) (w_db w')" unfolding w' by (rule creds_run [OF ok])
  obtain s' where s': "s' \<in> set (secret_tbl (w_db w'))" "secret_le s s'"
    using le s by (auto simp: creds_le_def rows_le_def)
  obtain p' where p': "p' \<in> set (principal_tbl (w_db w'))" "principal_le p p'"
    using le p by (auto simp: creds_le_def rows_le_def)
  have "x = s'" if "x \<in> set (secret_tbl (w_db w'))" "ps_secret_hash x = ps_secret_hash s" for x
    using that s' ok' distinct_key_eq [of ps_secret_hash "secret_tbl (w_db w')" x s']
    by (simp add: db_ok_defs secret_le_def)
  moreover have "x = p'" if "x \<in> set (principal_tbl (w_db w'))" "p_principal_id x = ps_principal_id s'" for x
    using that p s' p' ok' distinct_key_eq [of p_principal_id "principal_tbl (w_db w')" x p']
    by (simp add: db_ok_defs secret_le_def principal_le_def)
  ultimately have "live_principal_rows (ps_secret_hash s) now (w_db w') = []"
    using rev s'(2) p'(2)
    by (auto simp: live_principal_rows_def secret_live_at_def secret_le_def principal_le_def)
  then show ?thesis by (simp add: find_live_principal_by_secret_def)
qed

section \<open>Death on disk\<close>

text \<open>Session \<open>i\<close> is not stored as alive, and no queued command would store it so.\<close>

definition not_alive :: "sid \<Rightarrow> db \<Rightarrow> bool" where
  "not_alive i d \<longleftrightarrow> (\<forall>s \<in> set (session_tbl d). s_sid s = i \<longrightarrow> s_status s = ''tombstoned'')"

definition inserts_session :: "sid \<Rightarrow> command \<Rightarrow> bool" where
  "inserts_session i c \<longleftrightarrow> (case c of InsertSession row \<Rightarrow> sr_sid row = i | _ \<Rightarrow> False)"

definition sends_no_session :: "sid \<Rightarrow> writer_event \<Rightarrow> writer \<Rightarrow> bool" where
  "sends_no_session i e w \<longleftrightarrow> (case e of Send c \<Rightarrow> \<not> inserts_session i c | Turn _ _ \<Rightarrow> True)"

lemma same_sessions_admin:
  assumes "apply_admin cr js w d = Inr (d', b)"
  shows "session_tbl d' = session_tbl d \<and> generation_tbl d' = generation_tbl d"
proof -
  have et: "session_tbl d1 = session_tbl d \<and> generation_tbl d1 = generation_tbl d"
    if "ensure_tenant t now d = (d1, e)" for t now d1 e
    using that by (auto simp: ensure_tenant_def insert_tenant_def Let_def split: if_splits)
  show ?thesis
    using assms
    by (cases w) (auto simp: bindE_Inr_iff repo_defs Let_def dest: et split: if_splits option.splits prod.splits)
qed

lemma not_alive_command:
  assumes "apply_command cr js c (d, b) = Inr (d', b')" and "not_alive i d" and "\<not> inserts_session i c"
  shows "not_alive i d'"
proof (cases c)
  case (Admin w audit k)
  with assms obtain d1 out where "apply_admin cr js w d = Inr (d1, out)"
    and d': "d' = (case audit of None \<Rightarrow> d1 | Some row \<Rightarrow> insert_audit (tier_a_row w out row) d1)"
    by (auto simp: bindE_Inr_iff)
  then have "session_tbl d1 = session_tbl d" by (simp add: same_sessions_admin)
  with assms show ?thesis by (auto simp: d' not_alive_def insert_audit_def split: option.splits)
next
  case (Custody w k)
  with assms show ?thesis
    by (cases w) (auto simp: bindE_Inr_iff repo_defs not_alive_def split: if_splits)
next
  case (Reap x y)
  with assms show ?thesis
    by (auto simp: bindE_Inr_iff not_alive_def dest!: reap_Inr) (auto simp: reaped_def Let_def)
qed (use assms in \<open>auto simp: bindE_Inr_iff repo_defs not_alive_def inserts_session_def Let_def
    set_sql_update split: if_splits\<close>)

lemma not_alive_seq:
  assumes "apply_seq cr js cs (d, b) = Inr (d', b')" and "not_alive i d"
    and "\<forall>c \<in> set cs. \<not> inserts_session i c"
  shows "not_alive i d'"
  using assms
  by (induction cs arbitrary: d b) (auto simp: bindE_Inr_iff dest: not_alive_command)

definition stays_dead :: "sid \<Rightarrow> writer \<Rightarrow> bool" where
  "stays_dead i w \<longleftrightarrow> not_alive i (w_db w) \<and> (\<forall>c \<in> set (w_queue w). \<not> inserts_session i c)"

interpretation dead_row: invariant_machine "writer_step cr js" "sends_no_session i" "stays_dead i"
  for cr js i
proof
  fix w :: writer and e
  assume inv: "stays_dead i w" and ok: "sends_no_session i e w"
  show "stays_dead i (writer_step cr js e w)"
  proof (cases e)
    case (Send c)
    with inv ok show ?thesis by (auto simp: stays_dead_def sends_no_session_def enqueue_def)
  next
    case (Turn io n)
    let ?w = "writer_turn cr js io n w"
    have q: "set (w_queue ?w) \<subseteq> set (w_queue w)"
      by (auto simp: writer_turn_def Let_def split: prod.splits dest: in_set_dropD)
    have "not_alive i (w_db ?w)"
    proof (cases "w_running w \<and> take n (w_queue w) \<noteq> []")
      case True
      then show ?thesis
        using turn_cases [of w "take n (w_queue w)" n ?w cr js io] inv
        by (metis in_set_takeD not_alive_seq stays_dead_def)
    next
      case False
      with inv show ?thesis by (auto simp: writer_turn_def stays_dead_def)
    qed
    with q inv show ?thesis by (auto simp: Turn stays_dead_def)
  qed
qed

abbreviation rh_sid :: "rehydrated_session \<Rightarrow> sid" where
  "rh_sid r \<equiv> sr_sid (rh_session r)"

lemma push_row_in:
  "r \<in> set (push_row x out) \<Longrightarrow> (\<exists>r0 \<in> set out. rh_sid r0 = rh_sid r) \<or> rh_sid r = sr_sid (fst x)"
  by (cases out rule: rev_cases) (auto simp: push_row_def split: if_splits)

lemma push_rows_in:
  "r \<in> set (fold push_row rows out) \<Longrightarrow>
   (\<exists>r0 \<in> set out. rh_sid r0 = rh_sid r) \<or> (\<exists>x \<in> set rows. sr_sid (fst x) = rh_sid r)"
proof (induction rows arbitrary: out)
  case (Cons x rows)
  from Cons.IH [of "push_row x out"] Cons.prems
  consider r0 where "r0 \<in> set (push_row x out)" "rh_sid r0 = rh_sid r"
    | y where "y \<in> set rows" "sr_sid (fst y) = rh_sid r" by auto
  then show ?case
  proof cases
    case 1
    from push_row_in [OF 1(1)] 1(2) show ?thesis by auto
  qed auto
qed auto

lemma mapE_in:
  "mapE f xs = Inr ys \<Longrightarrow> y \<in> set ys \<Longrightarrow> \<exists>x \<in> set xs. f x = Inr y"
  by (induction xs arbitrary: ys) (auto simp: bindE_Inr_iff)

lemma session_row_of_sid: "session_row_of s = Inr r \<Longrightarrow> sr_sid r = s_sid s"
  by (auto simp: session_row_of_def bindE_Inr_iff)

lemma rehydrate_alive:
  assumes "rehydrate d = Inr out" and "r \<in> set out"
  shows "\<exists>s \<in> set (session_tbl d). s_sid s = sr_sid (rh_session r) \<and> s_status s = ''alive''"
proof -
  from assms(1) obtain rows where rows: "mapE (\<lambda>(s, g). bindE (generation_row_of g) (\<lambda>gr.
        bindE (session_row_of s) (\<lambda>sr. Inr (sr, gr)))) (rehydrate_rows d) = Inr rows"
    and out: "out = fold push_row rows []" by (auto simp: rehydrate_def bindE_Inr_iff)
  from push_rows_in [OF assms(2) [unfolded out]]
  obtain x where x: "x \<in> set rows" "sr_sid (fst x) = rh_sid r" by auto
  from mapE_in [OF rows x(1)] obtain s g where "(s, g) \<in> set (rehydrate_rows d)"
    "session_row_of s = Inr (fst x)" by (auto simp: bindE_Inr_iff)
  moreover from this(2) have "s_sid s = sr_sid (fst x)"
    by (simp add: session_row_of_sid)
  ultimately show ?thesis using x(2) by (auto simp: rehydrate_rows_def)
qed

lemma not_alive_tombstone: "not_alive i (tombstone_session_row i now d)"
proof -
  have "s_status x = ''tombstoned''"
    if x: "x \<in> set (sql_update (\<lambda>s. s_sid s = i) (\<lambda>s. s\<lparr>s_status := ''tombstoned'',
             s_tombstoned_at := f s\<rparr>) t)" and i: "s_sid x = i" for x t f
  proof -
    from x obtain s where "x = (if s_sid s = i then s\<lparr>s_status := ''tombstoned'',
        s_tombstoned_at := f s\<rparr> else s)" unfolding set_sql_update by (rule imageE)
    with i show ?thesis by (cases "s_sid s = i") simp_all
  qed
  then show ?thesis unfolding not_alive_def tombstone_session_row_def by (intro ballI impI) simp
qed

text \<open>
  A session whose tombstone has been committed does not come back at a restart: after any
  further run of the writer that does not insert a session under the same sid, rehydration does
  not return it.
\<close>

theorem tombstoned_not_rehydrated:
  assumes "apply_command cr js (TombstoneSession i now) (w_db w0, b) = Inr (d, b')"
    and w: "w_db w = d" "\<forall>c \<in> set (w_queue w). \<not> inserts_session i c"
    and "admitted (writer_step cr js) (sends_no_session i) es w"
    and "rehydrate (w_db (run (writer_step cr js) es w)) = Inr out"
  shows "\<forall>r \<in> set out. sr_sid (rh_session r) \<noteq> i"
proof -
  have "not_alive i d"
    using assms(1) not_alive_tombstone [of i now "w_db w0"] by auto
  then have "stays_dead i w" using w by (simp add: stays_dead_def)
  from dead_row.inv_run [OF this assms(4)] have "not_alive i (w_db (run (writer_step cr js) es w))"
    by (simp add: stays_dead_def)
  note na = this
  show ?thesis
  proof
    fix r assume "r \<in> set out"
    from rehydrate_alive [OF assms(5) this] obtain s where
      s: "s \<in> set (session_tbl (w_db (run (writer_step cr js) es w)))" "s_sid s = rh_sid r"
        "s_status s = ''alive''" by blast
    show "rh_sid r \<noteq> i"
    proof
      assume "rh_sid r = i"
      with na s have "s_status s = ''tombstoned''" by (simp add: not_alive_def)
      with s(3) show False by simp
    qed
  qed
qed

section \<open>The reaper\<close>

text \<open>
  A reap always succeeds (no foreign key stops it) and removes exactly the dead: a session
  row survives if and only if it is neither tombstoned before the cutoff nor past its absolute
  ceiling by then, and a surviving session keeps all its generations and its custody.
\<close>

theorem reap_removes_exactly_the_dead:
  assumes ok: "db_ok d"
  shows "\<exists>d' out. reap dead_before txn_before d = Inr (d', out) \<and>
     (\<forall>s. s \<in> set (session_tbl d') \<longleftrightarrow> s \<in> set (session_tbl d) \<and> \<not> doomed dead_before s) \<and>
     (\<forall>s \<in> set (session_tbl d').
        (\<forall>g \<in> set (generation_tbl d). g_sid g = s_sid s \<longrightarrow> g \<in> set (generation_tbl d')) \<and>
        (\<forall>c \<in> set (custody_tbl d). c_custody_id c = s_custody_id s \<longrightarrow> c \<in> set (custody_tbl d')))"
proof -
  let ?d = "reaped dead_before txn_before d"
  obtain out where r: "reap dead_before txn_before d = Inr (?d, out)" using reap_total by blast
  have inj: "inj_on s_sid (set (session_tbl d))" using ok by (simp add: db_ok_defs distinct_map)
  have "g \<in> set (generation_tbl ?d)"
    if "s \<in> set (session_tbl ?d)" "g \<in> set (generation_tbl d)" "g_sid g = s_sid s" for s g
    using that by (auto simp: reaped_def Let_def)
  moreover have "c \<in> set (custody_tbl ?d)"
    if "s \<in> set (session_tbl ?d)" "c \<in> set (custody_tbl d)" "c_custody_id c = s_custody_id s" for s c
  proof -
    have "s_custody_id s \<in> s_custody_id ` set (session_tbl ?d)" using that(1) by (rule imageI)
    with that(2,3) show ?thesis by (simp add: reaped_def Let_def)
  qed
  ultimately show ?thesis using r reaped_session_iff [OF ok, of _ dead_before txn_before] by blast
qed

section \<open>Login transactions\<close>

definition no_txn :: "bytes \<Rightarrow> db \<Rightarrow> bool" where
  "no_txn t d \<longleftrightarrow> (\<forall>r \<in> set (txn_tbl d). tx_txn_id r \<noteq> t)"

lemma same_txns_admin:
  assumes "apply_admin cr js w d = Inr (d', b)"
  shows "txn_tbl d' = txn_tbl d"
proof -
  have et: "txn_tbl d1 = txn_tbl d" if "ensure_tenant t now d = (d1, e)" for t now d1 e
    using that by (auto simp: ensure_tenant_def insert_tenant_def Let_def split: if_splits)
  show ?thesis
    using assms
    by (cases w) (auto simp: bindE_Inr_iff repo_defs Let_def dest: et split: if_splits option.splits prod.splits)
qed

lemma no_txn_command:
  assumes "apply_command cr js c (d, b) = Inr (d', b')" and "no_txn t d"
    and "\<And>row. c = InsertTxn row \<Longrightarrow> tx_txn_id row \<noteq> t"
  shows "no_txn t d'"
proof (cases c)
  case (Admin w audit k)
  with assms obtain d1 out where "apply_admin cr js w d = Inr (d1, out)"
    and d': "d' = (case audit of None \<Rightarrow> d1 | Some row \<Rightarrow> insert_audit (tier_a_row w out row) d1)"
    by (auto simp: bindE_Inr_iff)
  then have "txn_tbl d1 = txn_tbl d" by (simp add: same_txns_admin)
  with assms show ?thesis by (auto simp: d' no_txn_def insert_audit_def split: option.splits)
next
  case (Custody w k)
  with assms show ?thesis by (cases w) (auto simp: bindE_Inr_iff repo_defs no_txn_def split: if_splits)
next
  case (Reap x y)
  with assms show ?thesis
    by (auto simp: bindE_Inr_iff no_txn_def dest!: reap_Inr) (auto simp: reaped_def Let_def)
qed (use assms in \<open>auto simp: bindE_Inr_iff repo_defs no_txn_def Let_def sql_simps split: if_splits\<close>)

lemma no_txn_seq:
  assumes "apply_seq cr js cs (d, b) = Inr (d', b')" and "no_txn t d"
    and "\<forall>row. InsertTxn row \<in> set cs \<longrightarrow> tx_txn_id row \<noteq> t"
  shows "no_txn t d'"
  using assms
proof (induction cs arbitrary: d b)
  case (Cons c cs)
  then obtain d1 b1 where 1: "apply_command cr js c (d, b) = Inr (d1, b1)"
    and 2: "apply_seq cr js cs (d1, b1) = Inr (d', b')" by (auto simp: bindE_Inr_iff)
  have "no_txn t d1" by (rule no_txn_command [OF 1 Cons.prems(2)]) (use Cons.prems(3) in auto)
  then show ?case using Cons.IH [OF 2] Cons.prems(3) by simp
qed simp

text \<open>
  A login transaction is single use: taking it gives the row that was stored and
  removes it, and after any further committed commands that do not insert the same id again,
  taking it once more gives nothing.
\<close>

theorem txn_single_use:
  assumes "db_ok d" and "row \<in> set (txn_tbl d)"
    and "\<forall>r. InsertTxn r \<in> set cs \<longrightarrow> tx_txn_id r \<noteq> tx_txn_id row"
    and "apply_seq cr js cs (snd (take_txn (tx_txn_id row) d), b) = Inr (d', b')"
  shows "fst (take_txn (tx_txn_id row) d) = Some row \<and> take_txn (tx_txn_id row) d' = (None, d')"
proof -
  have f: "sql_find (\<lambda>t. tx_txn_id t = tx_txn_id row) (txn_tbl d) = Some row"
    using sql_find_key [OF _ assms(2), of tx_txn_id] assms(1) by (simp add: db_ok_defs)
  then have "no_txn (tx_txn_id row) (snd (take_txn (tx_txn_id row) d))"
    by (simp add: take_txn_def no_txn_def sql_simps)
  from no_txn_seq [OF assms(4) this assms(3)] have "sql_find (\<lambda>t. tx_txn_id t = tx_txn_id row) (txn_tbl d') = None"
    by (simp add: no_txn_def sql_find_None_iff)
  with f show ?thesis by (simp add: take_txn_def)
qed

section \<open>Signing keys\<close>

lemma insert_signing_key_tbl:
  assumes "insert_signing_key cr key now activate_at d = Inr d'"
  shows "signing_key_tbl d' = signing_key_tbl d @
      [\<lparr>sk_kid = nk_kid key, sk_public_key = nk_public_key key,
        sk_seed_sealed = cseal cr (nk_seed key) (signing_seed_context (nk_kid key)),
        sk_created_at = now, sk_activate_at = activate_at, sk_retire_at = None,
        sk_removed_at = None\<rparr>]"
    and "nk_kid key \<notin> sk_kid ` set (signing_key_tbl d)"
  using assms by (auto simp: insert_signing_key_def sql_exists_key split: if_splits)

text \<open>
  After a rotation exactly the new key is open-ended among the published keys, every other
  published key stops being published no later than \<open>retire_at\<close>, and a published key planned
  to activate after the new one is retired at once.
\<close>

theorem rotation_leaves_one_open_key:
  assumes ok: "db_ok d" and r: "rotate_signing_key cr key now activate_at retire_at d = Inr d'"
    and le: "now \<le> retire_at"
  shows "\<forall>k \<in> set (signing_key_tbl d'). sk_removed_at k = None \<longrightarrow>
     (if sk_kid k = nk_kid key then sk_retire_at k = None \<and> sk_activate_at k = activate_at
      else \<exists>t. sk_retire_at k = Some t \<and> t \<le> retire_at \<and> (activate_at < sk_activate_at k \<longrightarrow> t \<le> now))"
proof -
  define f1 where "f1 k = (if sk_removed_at k = None \<and> open_past retire_at (sk_retire_at k)
      then k\<lparr>sk_retire_at := Some retire_at\<rparr> else k)" for k :: db_signing_key
  define f2 where "f2 k = (if sk_removed_at k = None \<and> activate_at < sk_activate_at k \<and>
      open_past now (sk_retire_at k) then k\<lparr>sk_retire_at := Some now\<rparr> else k)" for k :: db_signing_key
  obtain new where t: "signing_key_tbl d' = map f2 (map f1 (signing_key_tbl d)) @ [new]"
    and new: "sk_kid new = nk_kid key" "sk_retire_at new = None" "sk_activate_at new = activate_at"
    and fresh: "nk_kid key \<notin> sk_kid ` set (map f2 (map f1 (signing_key_tbl d)))"
    using insert_signing_key_tbl [OF r [unfolded rotate_signing_key_def Let_def]]
    by (simp add: sql_update_def flip: f1_def f2_def)
  have old: "\<exists>t. sk_retire_at (f2 (f1 k)) = Some t \<and> t \<le> retire_at \<and>
      (activate_at < sk_activate_at (f2 (f1 k)) \<longrightarrow> t \<le> now)"
    if "sk_removed_at (f2 (f1 k)) = None" for k
    using that le by (auto simp: f1_def f2_def open_past_def split: option.splits if_splits)
  have "sk_kid (f2 (f1 k)) \<noteq> nk_kid key" if "k \<in> set (signing_key_tbl d)" for k
    using fresh that by (auto simp: image_iff)
  then show ?thesis unfolding t using new old by auto
qed

section \<open>Witnesses\<close>

text \<open>A writer over a store that has one custody, with a session and an API key on their way.\<close>

definition demo_session_row :: session_row where
  "demo_session_row = \<lparr>sr_sid = ''s1'', sr_custody_id = ''c1'', sr_sub = ''alice'', sr_current_gen = 1,
     sr_idle_exp = 2000, sr_absolute_exp = 3000, sr_status = Alive, sr_created_at = 1000, sr_meta = None\<rparr>"

definition demo_audit :: audit_row where
  "demo_audit = \<lparr>au_at = 1000, au_action = ''admin.key.create'', au_outcome = ''success'',
     au_actor_kind = ''admin'', au_actor_id = None, au_subject = None, au_sid = None,
     au_custody_id = None, au_key_id = Some ''k1'', au_reason = None, au_client_ip_prefix = None,
     au_detail = None\<rparr>"

definition demo_commands :: "command list" where
  "demo_commands = [InsertSession demo_session_row,
     InsertGeneration ''s1'' 1 (replicate 32 5) 1000 1600,
     Admin (InsertApiKey ''k1'' ''api'' [9] None 1000) (Some demo_audit) 7]"

definition demo_writer :: writer where
  "demo_writer = (new_writer demo_db)\<lparr>w_queue := demo_commands\<rparr>"

definition fine :: "nat \<Rightarrow> bool" where
  "fine i = False"

lemma demo_db_ok: "db_ok demo_db"
  by code_simp

lemma demo_writer_ok: "db_ok (w_db demo_writer)"
  by (simp add: demo_writer_def new_writer_def demo_db_ok)

text \<open>One turn of the writer commits the three commands and acks the admin.\<close>

definition demo_committed :: writer where
  "demo_committed = writer_turn demo_crypto demo_json fine 3 demo_writer"

theorem batch_atomic_witness:
  "\<exists>sent. w_acked demo_committed = w_acked demo_writer @ sent \<and> fst ` set sent = {7} \<and>
     (w_db demo_committed \<noteq> w_db demo_writer \<longrightarrow> (\<forall>(k, msg) \<in> set sent. acked_ok msg))"
proof -
  have "(w_running demo_writer) \<and>
      (take 3 (w_queue demo_writer) \<noteq> []) \<and>
      (batch_acks (take 3 (w_queue demo_writer)) = {7})" by code_simp
  with batch_atomic [of demo_writer "take 3 (w_queue demo_writer)" 3 demo_committed demo_crypto demo_json fine]
  show ?thesis by (auto simp: demo_committed_def)
qed

theorem audit_append_only_witness:
  "\<exists>a. a \<in> set (audit_tbl (w_db demo_committed)) \<and>
     (a \<in> set (audit_tbl (w_db demo_writer)) \<or>
      (\<forall>a0 \<in> set (audit_tbl (w_db demo_writer)). a_seq a0 < a_seq a))"
proof -
  have "audit_tbl (w_db demo_committed) \<noteq> []" by code_simp
  then obtain a where a: "a \<in> set (audit_tbl (w_db demo_committed))"
    by (cases "audit_tbl (w_db demo_committed)") auto
  have "demo_committed = run (writer_step demo_crypto demo_json) [Turn fine 3] demo_writer"
    by (simp add: demo_committed_def)
  from audit_append_only [OF demo_writer_ok this a] a show ?thesis by blast
qed

text \<open>A revoke of a key that is not there leaves a failure row and nothing else.\<close>

definition demo_revoked :: writer where
  "demo_revoked = run (writer_step demo_crypto demo_json)
     [Turn fine 3, Send (Admin (RevokeApiKey ''k1'' 1100) None 8), Turn fine 1] demo_writer"

lemma demo_revoked_ok: "db_ok (w_db demo_revoked)"
  unfolding demo_revoked_def by (rule wr.inv_run [OF demo_writer_ok admitted_always])

definition demo_principal_db :: db where
  "demo_principal_db = (migrated_db 0)\<lparr>
     principal_tbl := [\<lparr>p_principal_id = ''p1'', p_tenant_id = ''default'', p_name = ''ci'', p_kind = ''ingest'',
       p_scope = [], p_indexes = [], p_audience = ''aud'', p_max_ttl_secs = 60, p_created_at = 0,
       p_created_by = None, p_last_used_at = None, p_revoked_at = Some 10\<rparr>],
     secret_tbl := [\<lparr>ps_secret_id = ''x1'', ps_principal_id = ''p1'', ps_secret_hash = [4],
       ps_created_at = 0, ps_expires_at = None, ps_revoked_at = None\<rparr>]\<rparr>"

theorem revoked_secret_stays_dead_witness:
  "find_live_principal_by_secret demo_json [4] 20 (w_db (run (writer_step demo_crypto demo_json)
     [Send (Admin (TouchPrincipal ''p1'' 15) None 9), Turn fine 1] (new_writer demo_principal_db))) = Inr None"
proof -
  have ok: "db_ok (w_db (new_writer demo_principal_db))" by code_simp
  let ?s = "\<lparr>ps_secret_id = ''x1'', ps_principal_id = ''p1'', ps_secret_hash = [4],
       ps_created_at = 0, ps_expires_at = None, ps_revoked_at = None\<rparr> :: db_secret"
  have s: "?s \<in> set (secret_tbl (w_db (new_writer demo_principal_db)))"
    by (simp add: new_writer_def demo_principal_db_def)
  obtain p where "p \<in> set (principal_tbl (w_db (new_writer demo_principal_db)))"
    "p_principal_id p = ps_principal_id ?s" "ps_revoked_at ?s \<noteq> None \<or> p_revoked_at p \<noteq> None"
    by (simp add: new_writer_def demo_principal_db_def)
  from revoked_secret_stays_dead [OF ok s this refl, where js = demo_json and now = 20 and cr = demo_crypto
      and es = "[Send (Admin (TouchPrincipal ''p1'' 15) None 9), Turn fine 1]"]
  show ?thesis by (simp only: db_secret.select_convs)
qed

definition demo_txn :: txn_row where
  "demo_txn = \<lparr>tx_txn_id = [3], tx_state = ''st'', tx_nonce = ''n'', tx_pkce_verifier = ''v'',
     tx_return_to = ''/'', tx_created_at = 1000\<rparr>"

theorem txn_single_use_witness:
  "fst (take_txn [3] (demo_db\<lparr>txn_tbl := [demo_txn]\<rparr>)) = Some demo_txn \<and>
   fst (take_txn [3] (snd (take_txn [3] (demo_db\<lparr>txn_tbl := [demo_txn]\<rparr>)))) = None"
proof -
  let ?d = "demo_db\<lparr>txn_tbl := [demo_txn]\<rparr>"
  have ok: "db_ok ?d" by code_simp
  have i: "tx_txn_id demo_txn = [3]" by (simp add: demo_txn_def)
  from txn_single_use [OF ok, of demo_txn "[]" demo_crypto demo_json no_out
      "snd (take_txn [3] ?d)" no_out] show ?thesis by (simp add: i)
qed

theorem rotation_leaves_one_open_key_witness:
  "\<exists>d'. rotate_signing_key demo_crypto \<lparr>nk_kid = ''k2'', nk_public_key = [], nk_seed = []\<rparr> 100 200 900
       demo_db = Inr d' \<and>
     (\<forall>k \<in> set (signing_key_tbl d'). sk_removed_at k = None \<longrightarrow> sk_kid k = ''k2'' \<longrightarrow> sk_retire_at k = None)"
proof -
  let ?k = "\<lparr>nk_kid = ''k2'', nk_public_key = [], nk_seed = []\<rparr> :: new_signing_key"
  have "\<not> isl (rotate_signing_key demo_crypto ?k 100 200 900 demo_db)" by code_simp
  then obtain d' where d': "rotate_signing_key demo_crypto ?k 100 200 900 demo_db = Inr d'"
    by (cases "rotate_signing_key demo_crypto ?k 100 200 900 demo_db") auto
  from rotation_leaves_one_open_key [OF demo_db_ok d'] d' show ?thesis by auto
qed

end
