(* ===== verification/Audit_Sink.thy ===== *)
theory Audit_Sink
  imports Store_Records
begin

text \<open>
  \<open>audit.rs\<close>: building audit rows, the fail-open Tier-B sink with its bounded queue and its gap
  rows, the Tier-A hand-over, and the coalescing of repeated exchanges. The depth counter the
  sink shares with the writer thread is the writer's \<open>w_depth\<close>. SHA-256 (behind the pseudonym)
  and the JSON rendering of details come from packages: they are arguments. Log lines and
  metrics are not modelled.
\<close>

section \<open>Rows\<close>

datatype actor_kind = Actor_Admin | Actor_Backend | Actor_User | Actor_System | Actor_Anonymous

fun actor_as_str :: "actor_kind \<Rightarrow> string" where
  "actor_as_str Actor_Admin = ''admin''"
| "actor_as_str Actor_Backend = ''backend''"
| "actor_as_str Actor_User = ''user''"
| "actor_as_str Actor_System = ''system''"
| "actor_as_str Actor_Anonymous = ''anonymous''"

definition actor_from_str_lossy :: "string \<Rightarrow> actor_kind" where
  "actor_from_str_lossy s =
     (if s = ''admin'' then Actor_Admin else if s = ''backend'' then Actor_Backend
      else if s = ''user'' then Actor_User else if s = ''system'' then Actor_System
      else Actor_Anonymous)"

datatype outcome = Outcome_Success | Outcome_Failure

fun outcome_as_str :: "outcome \<Rightarrow> string" where
  "outcome_as_str Outcome_Success = ''success''"
| "outcome_as_str Outcome_Failure = ''failure''"

text \<open>\<open>Event::new\<close>; the builder methods are record updates.\<close>

definition event_new :: "string \<Rightarrow> outcome \<Rightarrow> actor_kind \<Rightarrow> timestamp \<Rightarrow> audit_row" where
  "event_new action oc actor at =
     \<lparr>au_at = at, au_action = action, au_outcome = outcome_as_str oc,
      au_actor_kind = actor_as_str actor, au_actor_id = None, au_subject = None, au_sid = None,
      au_custody_id = None, au_key_id = None, au_reason = None, au_client_ip_prefix = None,
      au_detail = None\<rparr>"

section \<open>The sink\<close>

datatype subject_mode = Plain | Hashed

record audit_config =
  ac_retention_days :: nat
  ac_queue_capacity :: nat
  ac_coalesce_secs :: nat
  ac_record_rotations :: bool
  ac_subject_mode :: subject_mode

definition default_audit_config :: audit_config where
  "default_audit_config =
     \<lparr>ac_retention_days = 90, ac_queue_capacity = 8192, ac_coalesce_secs = 300,
      ac_record_rotations = False, ac_subject_mode = Plain\<rparr>"

record audit_sink =
  as_config :: audit_config
  as_pending_gap :: nat
  as_seen :: "(string \<times> string \<times> string, int) dmap"

definition sink_new :: "audit_config \<Rightarrow> audit_sink" where
  "sink_new config = \<lparr>as_config = config, as_pending_gap = 0, as_seen = []\<rparr>"

definition pseudonymise :: "(string \<Rightarrow> string) \<Rightarrow> audit_sink \<Rightarrow> audit_row \<Rightarrow> audit_row" where
  "pseudonymise pseudonym s row =
     (if ac_subject_mode (as_config s) \<noteq> Hashed then row
      else let row1 = row\<lparr>au_subject := map_option pseudonym (au_subject row)\<rparr>
           in if au_actor_kind row1 = ''user''
              then row1\<lparr>au_actor_id := map_option pseudonym (au_actor_id row1)\<rparr> else row1)"

text \<open>\<open>AuditSink::enqueue\<close>: the depth is raised before the send, whether or not it arrives.\<close>

definition sink_enqueue :: "audit_row \<Rightarrow> writer \<Rightarrow> writer" where
  "sink_enqueue row w = enqueue (Audit row) (w\<lparr>w_depth := w_depth w + 1\<rparr>)"

definition gap_row :: "(nat \<Rightarrow> string) \<Rightarrow> nat \<Rightarrow> timestamp \<Rightarrow> audit_row" where
  "gap_row render dropped at =
     (event_new ''audit.gap'' Outcome_Failure Actor_System at)
       \<lparr>au_reason := Some ''queue_full'', au_detail := Some (render dropped)\<rparr>"

text \<open>\<open>AuditSink::record\<close> (Tier B).\<close>

definition sink_record ::
  "(string \<Rightarrow> string) \<Rightarrow> (nat \<Rightarrow> string) \<Rightarrow> audit_row \<Rightarrow> audit_sink \<times> writer \<Rightarrow> audit_sink \<times> writer" where
  "sink_record pseudonym render event sw =
     (let (s, w) = sw; row = pseudonymise pseudonym s event
      in if wrap_i64 (int (ac_queue_capacity (as_config s))) \<le> w_depth w
         then (s\<lparr>as_pending_gap := as_pending_gap s + 1\<rparr>, w)
         else let dropped = as_pending_gap s;
                  w1 = (if 0 < dropped then sink_enqueue (gap_row render dropped (au_at row)) w else w)
              in (s\<lparr>as_pending_gap := 0\<rparr>, sink_enqueue row w1))"

text \<open>\<open>AuditSink::transactional\<close> (Tier A) gives the row to the caller.\<close>

definition transactional :: "(string \<Rightarrow> string) \<Rightarrow> audit_row \<Rightarrow> audit_sink \<Rightarrow> audit_row" where
  "transactional pseudonym event s = pseudonymise pseudonym s event"

definition exchange_map_max :: nat where
  "exchange_map_max = 8192"

definition should_record ::
  "string \<Rightarrow> string \<Rightarrow> string \<Rightarrow> timestamp \<Rightarrow> audit_sink \<Rightarrow> bool \<times> audit_sink" where
  "should_record action who what now s =
     (let window = wrap_i64 (int (ac_coalesce_secs (as_config s))); key = (action, who, what);
          fresh = (True, s\<lparr>as_seen := dinsert key now
                     (if exchange_map_max \<le> length (as_seen s) then [] else as_seen s)\<rparr>)
      in if window \<le> 0 then (True, s)
         else (case dget (as_seen s) key of
                 Some t \<Rightarrow> if wrap_i64 (now - t) < window then (False, s) else fresh
               | None \<Rightarrow> fresh))"

definition should_record_exchange ::
  "string \<Rightarrow> string \<Rightarrow> timestamp \<Rightarrow> audit_sink \<Rightarrow> bool \<times> audit_sink" where
  "should_record_exchange key_id i now s = should_record ''token.exchanged'' key_id i now s"

definition should_record_issuance ::
  "string \<Rightarrow> string \<Rightarrow> timestamp \<Rightarrow> audit_sink \<Rightarrow> bool \<times> audit_sink" where
  "should_record_issuance actor_id audience now s = should_record ''token.issued'' actor_id audience now s"

definition prune :: "timestamp \<Rightarrow> audit_sink \<Rightarrow> writer \<Rightarrow> writer" where
  "prune now s w =
     (let days = ac_retention_days (as_config s)
      in if days = 0 then w else enqueue (PruneAudit (wrap_i64 (now - int days * 86400))) w)"

section \<open>Runs of the sink and the writer\<close>

text \<open>
  Events offered to the sink, turns of the writer and other components' commands in any order.
  \<open>offered\<close> counts what the program tried to record.
\<close>

datatype audit_op = Offer audit_row | Take_Turn "nat \<Rightarrow> bool" nat | Other command

fun audit_step ::
  "crypto \<Rightarrow> json \<Rightarrow> (string \<Rightarrow> string) \<Rightarrow> (nat \<Rightarrow> string) \<Rightarrow> audit_op \<Rightarrow> audit_sink \<times> writer \<Rightarrow> audit_sink \<times> writer" where
  "audit_step cr js ps render (Offer row) sw = sink_record ps render row sw"
| "audit_step cr js ps render (Take_Turn io n) (s, w) = (s, writer_turn cr js io n w)"
| "audit_step cr js ps render (Other c) (s, w) = (s, enqueue c w)"

fun audit_admits :: "audit_op \<Rightarrow> audit_sink \<times> writer \<Rightarrow> bool" where
  "audit_admits (Other c) sw \<longleftrightarrow> \<not> is_audit c"
| "audit_admits _ sw \<longleftrightarrow> True"

definition queued_audits :: "writer \<Rightarrow> nat" where
  "queued_audits w = length (filter is_audit (w_queue w))"

definition depth_exact :: "nat \<Rightarrow> audit_sink \<times> writer \<Rightarrow> bool" where
  "depth_exact cap sw \<longleftrightarrow> ac_queue_capacity (as_config (fst sw)) = cap \<and>
     (w_running (snd sw) \<longrightarrow>
        w_depth (snd sw) = int (queued_audits (snd sw)) \<and> queued_audits (snd sw) \<le> cap + 1)"

lemma sink_enqueue_sel:
  "w_running w \<Longrightarrow> w_queue (sink_enqueue row w) = w_queue w @ [Audit row]"
  "w_depth (sink_enqueue row w) = w_depth w + 1"
  "w_running (sink_enqueue row w) = w_running w"
  by (simp_all add: sink_enqueue_def enqueue_def)

lemma queued_sink_enqueue:
  "w_running w \<Longrightarrow> queued_audits (sink_enqueue row w) = queued_audits w + 1"
  by (simp add: queued_audits_def sink_enqueue_sel is_audit_def)

lemma record_depth:
  assumes "depth_exact cap sw" and "cap < 2 ^ 63"
  shows "depth_exact cap (sink_record ps render row sw)"
proof -
  obtain s w where sw: "sw = (s, w)" by fastforce
  have cap: "wrap_i64 (int cap) = int cap" using assms(2) by (simp add: wrap_i64_id in_i64_def i64_min_def i64_max_def)
  from assms(1) show ?thesis
    by (auto simp: sw depth_exact_def sink_record_def Let_def cap sink_enqueue_sel queued_sink_enqueue)
qed

lemma turn_depth:
  assumes "depth_exact cap (s, w)"
  shows "depth_exact cap (s, writer_turn cr js io n w)"
proof (cases "\<not> w_running w \<or> take n (w_queue w) = []")
  case True
  with assms show ?thesis by (simp add: writer_turn_def)
next
  case False
  have "length (filter is_audit (w_queue w)) =
      length (filter is_audit (take n (w_queue w))) + length (filter is_audit (drop n (w_queue w)))"
    by (metis append_take_drop_id filter_append length_append)
  with False assms show ?thesis
    by (auto simp: depth_exact_def writer_turn_def Let_def queued_audits_def split: prod.splits)
qed

interpretation sink: invariant_machine "audit_step cr js ps render" audit_admits
    "\<lambda>sw. depth_exact cap sw \<and> cap < 2 ^ 63" for cr js ps render cap
proof
  fix e sw assume "depth_exact cap sw \<and> cap < 2 ^ 63" and "audit_admits e sw"
  then show "depth_exact cap (audit_step cr js ps render e sw) \<and> cap < 2 ^ 63"
  proof (cases e)
    case (Other c)
    obtain s w where "sw = (s, w)" by fastforce
    with Other \<open>audit_admits e sw\<close> \<open>depth_exact cap sw \<and> _\<close> show ?thesis
      by (auto simp: depth_exact_def enqueue_def queued_audits_def)
  qed (cases sw; auto intro: record_depth turn_depth)+
qed

text \<open>
  The audit queue is bounded: whatever is offered, however often batches fail and whatever
  else is queued, the writer never holds more than \<open>queue_capacity + 1\<close> audit commands (one over,
  for the gap row that precedes a row), and the shared depth counter is exact, so one failed
  batch cannot arm the bound for good.
\<close>

theorem audit_queue_bounded:
  assumes "ac_queue_capacity config < 2 ^ 63"
    and "admitted (audit_step cr js ps render) audit_admits ops (sink_new config, new_writer d)"
    and "(s, w) = run (audit_step cr js ps render) ops (sink_new config, new_writer d)"
    and "w_running w"
  shows "queued_audits w \<le> ac_queue_capacity config + 1 \<and> w_depth w = int (queued_audits w)"
proof -
  have "depth_exact (ac_queue_capacity config) (sink_new config, new_writer d)"
    by (simp add: depth_exact_def sink_new_def new_writer_def queued_audits_def)
  with assms(1,2) sink.inv_run [of "ac_queue_capacity config"]
  have "depth_exact (ac_queue_capacity config) (run (audit_step cr js ps render) ops (sink_new config, new_writer d))"
    by blast
  with assms(3,4) show ?thesis by (simp add: depth_exact_def flip: assms(3))
qed

section \<open>A record that is incomplete says so\<close>

text \<open>The audit commands the offers of a run put on the queue, and what one of them accounts for.\<close>

fun sent ::
  "crypto \<Rightarrow> json \<Rightarrow> (string \<Rightarrow> string) \<Rightarrow> (nat \<Rightarrow> string) \<Rightarrow> audit_op list \<Rightarrow> audit_sink \<times> writer \<Rightarrow> command list" where
  "sent cr js ps render [] sw = []"
| "sent cr js ps render (op # ops) sw =
     (let sw' = audit_step cr js ps render op sw
      in (case op of Offer _ \<Rightarrow> drop (length (w_queue (snd sw))) (w_queue (snd sw')) | _ \<Rightarrow> []) @
         sent cr js ps render ops sw')"

definition offers :: "audit_op list \<Rightarrow> nat" where
  "offers ops = length (filter (\<lambda>op. case op of Offer _ \<Rightarrow> True | _ \<Rightarrow> False) ops)"

definition accounts_for :: "(string \<Rightarrow> nat) \<Rightarrow> command \<Rightarrow> nat" where
  "accounts_for parse c =
     (case c of
        Audit row \<Rightarrow> if au_action row = ''audit.gap''
                     then (case au_detail row of None \<Rightarrow> 0 | Some t \<Rightarrow> parse t) else 1
      | _ \<Rightarrow> 0)"

fun plain_offer :: "audit_op \<Rightarrow> bool" where
  "plain_offer (Offer row) \<longleftrightarrow> au_action row \<noteq> ''audit.gap''"
| "plain_offer _ \<longleftrightarrow> True"

lemma pseudonymise_action [simp]: "au_action (pseudonymise ps s row) = au_action row"
  by (simp add: pseudonymise_def Let_def)

lemma record_accounts:
  assumes "w_running w" and "au_action row \<noteq> ''audit.gap''" and "\<And>d. parse (render d) = d"
    and "sink_record ps render row (s, w) = (s', w')"
  shows "sum_list (map (accounts_for parse) (drop (length (w_queue w)) (w_queue w'))) + as_pending_gap s' =
     as_pending_gap s + 1" and "w_running w'"
  using assms
  by (auto simp: sink_record_def Let_def sink_enqueue_sel accounts_for_def gap_row_def event_new_def split: if_splits)

lemma running_back: "w_running (writer_turn cr js io n w) \<Longrightarrow> w_running w"
  by (auto simp: writer_turn_def split: if_splits)

lemma step_running_back: "w_running (snd (audit_step cr js ps render op sw)) \<Longrightarrow> w_running (snd sw)"
  by (cases op; cases sw)
    (auto simp: sink_record_def Let_def sink_enqueue_sel enqueue_def dest: running_back split: if_splits)

lemma run_running_back: "w_running (snd (run (audit_step cr js ps render) ops sw)) \<Longrightarrow> w_running (snd sw)"
proof (induction ops arbitrary: sw)
  case (Cons op ops)
  from Cons.IH [of "audit_step cr js ps render op sw"] Cons.prems show ?case
    by (simp add: step_running_back)
qed simp

text \<open>
  C37. No Tier-B event is lost silently: as long as the writer lives, every event offered to the
  sink is either on its way to the store as a row, or counted in a gap row on its way to the
  store, or counted in the gap the next accepted event will report. (\<open>parse\<close> reads back the
  count that the gap row's detail renders.)
\<close>

theorem audit_accounts_for_every_event:
  assumes "\<forall>d. parse (render d) = d" and "list_all plain_offer ops"
    and "w_running (snd (run (audit_step cr js ps render) ops sw))"
  shows "sum_list (map (accounts_for parse) (sent cr js ps render ops sw)) +
     as_pending_gap (fst (run (audit_step cr js ps render) ops sw)) = as_pending_gap (fst sw) + offers ops"
  using assms(2,3)
proof (induction ops arbitrary: sw)
  case (Cons op ops)
  obtain s w where sw: "sw = (s, w)" by fastforce
  let ?sw = "audit_step cr js ps render op sw"
  have run: "w_running (snd ?sw)" using run_running_back [of cr js ps render ops ?sw] Cons.prems(2) by simp
  then have w: "w_running w" using step_running_back [of cr js ps render op sw] by (simp add: sw)
  have ih: "sum_list (map (accounts_for parse) (sent cr js ps render ops ?sw)) +
      as_pending_gap (fst (run (audit_step cr js ps render) ops ?sw)) = as_pending_gap (fst ?sw) + offers ops"
    using Cons by simp
  show ?case
  proof (cases op)
    case (Offer row)
    obtain s' w' where r: "sink_record ps render row (s, w) = (s', w')" by fastforce
    have "au_action row \<noteq> ''audit.gap''" using Offer Cons.prems(1) by simp
    from record_accounts(1) [OF w this _ r, of parse] Offer r assms(1) ih show ?thesis
      by (simp add: sw offers_def)
  qed (use ih in \<open>simp_all add: sw offers_def\<close>)
qed (simp add: offers_def)

section \<open>Coalescing\<close>

text \<open>
  A sink's history: the calls of \<open>should_record\<close> with what they answered.
\<close>

fun ask_all ::
  "(string \<times> string \<times> string \<times> timestamp) list \<Rightarrow> audit_sink \<Rightarrow>
   ((string \<times> string \<times> string \<times> timestamp) \<times> bool) list \<times> audit_sink" where
  "ask_all [] s = ([], s)"
| "ask_all ((a, who, what, now) # qs) s =
     (let (b, s1) = should_record a who what now s; (rest, s2) = ask_all qs s1
      in (((a, who, what, now), b) # rest, s2))"

definition seen_backed ::
  "((string \<times> string \<times> string \<times> timestamp) \<times> bool) list \<Rightarrow> audit_sink \<Rightarrow> bool" where
  "seen_backed hist s \<longleftrightarrow>
     (\<forall>a who what t. dget (as_seen s) (a, who, what) = Some t \<longrightarrow> ((a, who, what, t), True) \<in> set hist)"

definition answered :: "nat \<Rightarrow> ((string \<times> string \<times> string \<times> timestamp) \<times> bool) list \<Rightarrow> bool" where
  "answered window hist \<longleftrightarrow>
     (\<forall>n < length hist. \<forall>a who what now. hist ! n = ((a, who, what, now), False) \<longrightarrow>
        (\<exists>m < n. \<exists>t. hist ! m = ((a, who, what, t), True) \<and> wrap_i64 (now - t) < int window))"

lemma dget_dinsert_empty: "dget (dinsert k v []) j = (if j = k then Some v else None)"
  by simp

lemma should_record_backed:
  assumes "seen_backed hist s" and "should_record a who what now s = (b, s1)"
  shows "seen_backed (hist @ [((a, who, what, now), b)]) s1" and "as_config s1 = as_config s"
  using assms by (auto simp: should_record_def seen_backed_def Let_def split: if_splits option.splits)

lemma should_record_refused:
  assumes "seen_backed hist s" and "should_record a who what now s = (False, s1)"
    and "ac_coalesce_secs (as_config s) < 2 ^ 63"
  shows "\<exists>t. ((a, who, what, t), True) \<in> set hist \<and>
     wrap_i64 (now - t) < int (ac_coalesce_secs (as_config s))"
proof -
  have "wrap_i64 (int (ac_coalesce_secs (as_config s))) = int (ac_coalesce_secs (as_config s))"
    using assms(3) by (simp add: wrap_i64_id in_i64_def i64_min_def i64_max_def)
  with assms(1,2) show ?thesis
    by (fastforce simp: should_record_def seen_backed_def Let_def split: if_splits option.splits)
qed

lemma answered_snoc:
  assumes "answered window hist"
    and "b = False \<Longrightarrow> \<exists>t. ((a, who, what, t), True) \<in> set hist \<and> wrap_i64 (now - t) < int window"
  shows "answered window (hist @ [((a, who, what, now), b)])"
  unfolding answered_def
proof (intro allI impI)
  fix n a1 who1 what1 now1
  assume n: "n < length (hist @ [((a, who, what, now), b)])"
    and h: "(hist @ [((a, who, what, now), b)]) ! n = ((a1, who1, what1, now1), False)"
  show "\<exists>m < n. \<exists>t. (hist @ [((a, who, what, now), b)]) ! m = ((a1, who1, what1, t), True) \<and>
      wrap_i64 (now1 - t) < int window"
  proof (cases "n < length hist")
    case True
    with h have "hist ! n = ((a1, who1, what1, now1), False)" by (simp add: nth_append)
    with assms(1) True obtain m t where "m < n" "hist ! m = ((a1, who1, what1, t), True)"
      "wrap_i64 (now1 - t) < int window" unfolding answered_def by blast
    with True show ?thesis by (auto simp: nth_append intro!: exI [of _ m])
  next
    case False
    with n h have l: "n = length hist" "a1 = a" "who1 = who" "what1 = what" "now1 = now" "b = False"
      by (auto simp: nth_append)
    with assms(2) obtain t where "((a, who, what, t), True) \<in> set hist" "wrap_i64 (now - t) < int window" by blast
    moreover from this(1) obtain m where "m < length hist" "hist ! m = ((a, who, what, t), True)"
      by (auto simp: in_set_conv_nth)
    ultimately show ?thesis using l by (auto simp: nth_append intro!: exI [of _ m])
  qed
qed

lemma ask_all_answered:
  assumes "answered (ac_coalesce_secs (as_config s)) hist" and "seen_backed hist s"
    and "ac_coalesce_secs (as_config s) < 2 ^ 63"
  shows "answered (ac_coalesce_secs (as_config s)) (hist @ fst (ask_all qs s))"
  using assms
proof (induction qs arbitrary: s hist)
  case (Cons q qs)
  obtain a who what now where q: "q = (a, who, what, now)" by (cases q) auto
  obtain b s1 where r: "should_record a who what now s = (b, s1)" by fastforce
  note bk = should_record_backed [OF Cons.prems(2) r]
  have "answered (ac_coalesce_secs (as_config s)) (hist @ [((a, who, what, now), b)])"
    using should_record_refused [OF Cons.prems(2) _ Cons.prems(3)] r
    by (intro answered_snoc [OF Cons.prems(1)]) auto
  with Cons.IH [of s1 "hist @ [((a, who, what, now), b)]"] bk Cons.prems(3) r q show ?case
    by (auto simp: Let_def split: prod.splits)
qed simp

text \<open>
  Coalescing never hides a first event: in any history of a sink, an event that was left out
  of the record was preceded by one with the same action, actor and object that was recorded,
  less than the window before it.
\<close>

theorem coalesced_was_recorded:
  assumes "ac_coalesce_secs config < 2 ^ 63"
  shows "answered (ac_coalesce_secs config) (fst (ask_all qs (sink_new config)))"
  using ask_all_answered [of "sink_new config" "[]" qs] assms
  by (simp add: sink_new_def answered_def seen_backed_def)

section \<open>Evaluated\<close>

definition demo_event :: audit_row where
  "demo_event = event_new ''session.created'' Outcome_Success Actor_User 1000"

text \<open>A queue of one: the second and third event are dropped, the fourth carries the gap.\<close>

definition tiny_config :: audit_config where
  "tiny_config = default_audit_config\<lparr>ac_queue_capacity := 1\<rparr>"

definition demo_offers :: "audit_op list" where
  "demo_offers = [Offer demo_event, Offer demo_event, Offer demo_event, Take_Turn (\<lambda>_. True) 5, Offer demo_event]"

definition demo_render :: "nat \<Rightarrow> string" where
  "demo_render n = replicate n CHR ''x''"

definition demo_sink_start :: "audit_sink \<times> writer" where
  "demo_sink_start = (sink_new tiny_config, new_writer (migrated_db 0))"

definition demo_sink_run :: "audit_sink \<times> writer" where
  "demo_sink_run = run (audit_step demo_crypto demo_json id demo_render) demo_offers demo_sink_start"

lemma demo_sink_running: "w_running (snd demo_sink_run)"
  by code_simp

theorem audit_accounts_witness:
  "sum_list (map (accounts_for length) (sent demo_crypto demo_json id demo_render demo_offers demo_sink_start)) +
     as_pending_gap (fst demo_sink_run) = 4"
proof -
  have "(list_all plain_offer demo_offers) \<and>
      (as_pending_gap (fst demo_sink_start) = 0) \<and>
      (offers demo_offers = 4)" by code_simp
  with audit_accounts_for_every_event [of length demo_render demo_offers demo_crypto demo_json id demo_sink_start]
    demo_sink_running show ?thesis by (simp add: demo_sink_run_def demo_render_def)
qed

theorem coalesced_was_recorded_witness:
  "\<exists>m < 1. \<exists>t. fst (ask_all [(''token.exchanged'', ''k'', ''s'', 1000), (''token.exchanged'', ''k'', ''s'', 1010)]
       (sink_new default_audit_config)) ! m = ((''token.exchanged'', ''k'', ''s'', t), True) \<and>
     wrap_i64 (1010 - t) < 300"
proof -
  define h where "h = fst (ask_all [(''token.exchanged'', ''k'', ''s'', 1000), (''token.exchanged'', ''k'', ''s'', 1010)]
       (sink_new default_audit_config))"
  have "h ! 1 = ((''token.exchanged'', ''k'', ''s'', 1010), False)" "length h = 2" unfolding h_def by code_simp+
  moreover have "answered 300 h"
    using coalesced_was_recorded [of default_audit_config
      "[(''token.exchanged'', ''k'', ''s'', 1000), (''token.exchanged'', ''k'', ''s'', 1010)]"]
    by (simp only: h_def) (simp add: default_audit_config_def)
  ultimately show ?thesis unfolding h_def [symmetric] answered_def by (metis of_nat_numeral one_less_numeral_iff semiring_norm(76))
qed

end
