(* ===== verification/Keepalive.thy ===== *)
theory Keepalive
  imports Complex_Main Session_Safety Audit_Sink
begin

text \<open>
  \<open>keepalive.rs\<close>: the scheduler that decides when each upstream grant is renewed, and the
  worker's \<open>tick\<close> that carries the outcomes into the session map, the store and the audit
  record. The \<open>BinaryHeap\<close> of deadlines is the sorted list of its elements (equal pairs cannot
  be told apart, so its pops are determined). Arithmetic on \<open>f64\<close> is a record of the operations
  the code uses, in the order the code applies them; what a property needs of IEEE arithmetic
  is a hypothesis \<open>f64_ok\<close>. Upstream calls, the order in which they complete, panics, the clock
  and the random draws are inputs of \<open>tick\<close>.
\<close>

section \<open>Floating point\<close>

record 'f f64 =
  fl_lit :: "rat \<Rightarrow> 'f"
  fl_of_u64 :: "nat \<Rightarrow> 'f"
  fl_add :: "'f \<Rightarrow> 'f \<Rightarrow> 'f"
  fl_sub :: "'f \<Rightarrow> 'f \<Rightarrow> 'f"
  fl_mul :: "'f \<Rightarrow> 'f \<Rightarrow> 'f"
  fl_max :: "'f \<Rightarrow> 'f \<Rightarrow> 'f"
  fl_to_u64 :: "'f \<Rightarrow> nat"

text \<open>
  What IEEE arithmetic gives: a value raised to at least \<open>1.0\<close> truncates to at least one and
  to a \<open>u64\<close>; and scaling an integer that \<open>f64\<close> holds exactly by a factor in \<open>[0, 1)\<close> (\<open>unit\<close>)
  does not exceed it.
\<close>

definition f64_ok :: "'f f64 \<Rightarrow> ('f \<Rightarrow> bool) \<Rightarrow> bool" where
  "f64_ok F unit \<longleftrightarrow>
     (\<forall>x. 1 \<le> fl_to_u64 F (fl_max F x (fl_lit F 1)) \<and> fl_to_u64 F x \<le> u64_max) \<and>
     (\<forall>n u. n \<le> 2 ^ 53 \<longrightarrow> unit u \<longrightarrow> fl_to_u64 F (fl_mul F (fl_of_u64 F n) u) \<le> n)"

text \<open>Exact rationals satisfy what is assumed of \<open>f64\<close>.\<close>

definition rat_f64 :: "rat f64" where
  "rat_f64 = \<lparr>fl_lit = (\<lambda>x. x), fl_of_u64 = of_nat, fl_add = (+), fl_sub = (-), fl_mul = (*),
     fl_max = max, fl_to_u64 = (\<lambda>x. min (nat \<lfloor>x\<rfloor>) u64_max)\<rparr>"

definition unit_interval :: "rat \<Rightarrow> bool" where
  "unit_interval u \<longleftrightarrow> 0 \<le> u \<and> u < 1"

lemma rat_f64_ok: "f64_ok rat_f64 unit_interval"
proof -
  have "nat \<lfloor>of_nat n * u\<rfloor> \<le> n" if "unit_interval u" for n and u :: rat
  proof -
    have "of_nat n * u \<le> of_nat n * 1" using that by (intro mult_left_mono) (simp_all add: unit_interval_def)
    then show ?thesis by (simp add: floor_le_iff nat_le_iff)
  qed
  moreover have "1 \<le> nat \<lfloor>max x 1\<rfloor>" for x :: rat by (simp add: le_nat_iff le_floor_iff)
  ultimately show ?thesis
    by (auto simp: f64_ok_def rat_f64_def u64_max_def min_le_iff_disj)
qed

section \<open>Policy, outcomes, state\<close>

record 'f keepalive_policy =
  lead_fraction :: 'f
  jitter_fraction :: 'f
  base_backoff_secs :: nat
  max_backoff_secs :: nat
  max_concurrent :: nat
  kp_on_upstream_revoked :: revocation_policy

definition default_keepalive_policy :: "'f f64 \<Rightarrow> 'f keepalive_policy" where
  "default_keepalive_policy F =
     \<lparr>lead_fraction = fl_lit F (6 / 10), jitter_fraction = fl_lit F (1 / 10),
      base_backoff_secs = 1, max_backoff_secs = 300, max_concurrent = 8,
      kp_on_upstream_revoked = Kill\<rparr>"

datatype refresh_outcome =
    Refresh_Success nat bool
  | Refresh_Transient "nat option"
  | Refresh_Permanent

record custody_state =
  ks_status :: custody_status
  ks_access_exp :: timestamp
  ks_next_refresh :: timestamp
  ks_fail_count :: nat
  ks_refreshing :: bool

record 'f scheduler =
  sc_policy :: "'f keepalive_policy"
  sc_entries :: "(custody_id, custody_state) dmap"
  sc_due :: "(timestamp \<times> custody_id) list"

definition scheduler_new :: "'f keepalive_policy \<Rightarrow> 'f scheduler" where
  "scheduler_new pol = \<lparr>sc_policy = pol, sc_entries = [], sc_due = []\<rparr>"

section \<open>Deadlines and backoff\<close>

definition next_refresh_at ::
  "'f f64 \<Rightarrow> 'f keepalive_policy \<Rightarrow> timestamp \<Rightarrow> nat \<Rightarrow> 'f \<Rightarrow> timestamp" where
  "next_refresh_at F pol issued_at lifetime_secs unit =
     (let lead = fl_mul F (fl_of_u64 F lifetime_secs) (lead_fraction pol);
          displacement = fl_mul F (fl_mul F (fl_sub F (fl_mul F unit (fl_lit F 2)) (fl_lit F 1))
                                    (jitter_fraction pol)) lead;
          delay = fl_to_u64 F (fl_max F (fl_add F lead displacement) (fl_lit F 1))
      in plus_secs issued_at delay)"

definition exponential_backoff :: "'f keepalive_policy \<Rightarrow> nat \<Rightarrow> nat" where
  "exponential_backoff pol fails =
     min (sat_u64 (base_backoff_secs pol * 2 ^ min fails 16)) (max_backoff_secs pol)"

definition backoff_secs ::
  "'f f64 \<Rightarrow> 'f keepalive_policy \<Rightarrow> nat \<Rightarrow> nat option \<Rightarrow> 'f \<Rightarrow> nat" where
  "backoff_secs F pol fails retry_after unit =
     (case retry_after of
        Some secs \<Rightarrow> min secs (max_backoff_secs pol)
      | None \<Rightarrow> max (fl_to_u64 F (fl_mul F (fl_of_u64 F (exponential_backoff pol fails)) unit)) 1)"

section \<open>The scheduler\<close>

definition schedule ::
  "custody_id \<Rightarrow> custody_state \<Rightarrow> 'f scheduler \<Rightarrow> 'f scheduler" where
  "schedule c st s =
     s\<lparr>sc_entries := dinsert c st (sc_entries s), sc_due := insort (ks_next_refresh st, c) (sc_due s)\<rparr>"

definition sched_insert ::
  "'f f64 \<Rightarrow> custody_id \<Rightarrow> timestamp \<Rightarrow> nat \<Rightarrow> 'f \<Rightarrow> 'f scheduler \<Rightarrow> 'f scheduler" where
  "sched_insert F c issued_at lifetime_secs unit s =
     schedule c \<lparr>ks_status = Ok, ks_access_exp = plus_secs issued_at lifetime_secs,
        ks_next_refresh = next_refresh_at F (sc_policy s) issued_at lifetime_secs unit,
        ks_fail_count = 0, ks_refreshing = False\<rparr> s"

definition insert_restored ::
  "custody_id \<Rightarrow> custody_status \<Rightarrow> timestamp \<Rightarrow> timestamp \<Rightarrow> 'f scheduler \<Rightarrow> 'f scheduler" where
  "insert_restored c status access_exp next_refresh s =
     schedule c \<lparr>ks_status = status, ks_access_exp = access_exp, ks_next_refresh = next_refresh,
        ks_fail_count = 0, ks_refreshing = False\<rparr> s"

definition sched_remove :: "custody_id \<Rightarrow> 'f scheduler \<Rightarrow> 'f scheduler" where
  "sched_remove c s = s\<lparr>sc_entries := dremove c (sc_entries s)\<rparr>"

text \<open>The loop of \<open>take_due\<close>: pop while the head is due, skip what is gone, stale, in flight or dead.\<close>

definition takeable :: "timestamp \<Rightarrow> custody_state \<Rightarrow> bool" where
  "takeable now st \<longleftrightarrow> ks_next_refresh st \<le> now \<and> \<not> ks_refreshing st \<and> ks_status st \<noteq> Dead"

fun take_due_loop ::
  "timestamp \<Rightarrow> (timestamp \<times> custody_id) list \<Rightarrow> (custody_id, custody_state) dmap \<Rightarrow> custody_id list \<Rightarrow>
   (timestamp \<times> custody_id) list \<times> (custody_id, custody_state) dmap \<times> custody_id list" where
  "take_due_loop now [] entries ready = ([], entries, ready)"
| "take_due_loop now ((t, c) # due) entries ready =
     (if now < t then ((t, c) # due, entries, ready)
      else case dget entries c of
             None \<Rightarrow> take_due_loop now due entries ready
           | Some st \<Rightarrow>
               if now < ks_next_refresh st then take_due_loop now due entries ready
               else if ks_refreshing st \<or> ks_status st = Dead then take_due_loop now due entries ready
               else take_due_loop now due (dinsert c (st\<lparr>ks_refreshing := True\<rparr>) entries) (ready @ [c]))"

definition take_due :: "timestamp \<Rightarrow> 'f scheduler \<Rightarrow> custody_id list \<times> 'f scheduler" where
  "take_due now s =
     (let (due, entries, ready) = take_due_loop now (sc_due s) (sc_entries s) []
      in (ready, s\<lparr>sc_due := due, sc_entries := entries\<rparr>))"

definition next_deadline :: "'f scheduler \<Rightarrow> timestamp option" where
  "next_deadline s =
     (case map (ks_next_refresh \<circ> snd) (sc_entries s) of [] \<Rightarrow> None | t # ts \<Rightarrow> Some (fold min ts t))"

text \<open>\<open>record\<close>. The \<open>u32\<close> failure counter saturates.\<close>

definition record_outcome ::
  "'f f64 \<Rightarrow> custody_id \<Rightarrow> refresh_outcome \<Rightarrow> timestamp \<Rightarrow> 'f \<Rightarrow> 'f scheduler \<Rightarrow>
   custody_status option \<times> 'f scheduler" where
  "record_outcome F c oc now unit s =
     (case dget (sc_entries s) c of
        None \<Rightarrow> (None, s)
      | Some st0 \<Rightarrow>
          (let st = st0\<lparr>ks_refreshing := False\<rparr>; pol = sc_policy s
           in case oc of
                Refresh_Success lifetime_secs _ \<Rightarrow>
                  (Some Ok, schedule c (st\<lparr>ks_status := Ok, ks_fail_count := 0,
                     ks_access_exp := plus_secs now lifetime_secs,
                     ks_next_refresh := next_refresh_at F pol now lifetime_secs unit\<rparr>) s)
              | Refresh_Transient retry_after \<Rightarrow>
                  (let fails = min (ks_fail_count st + 1) (2 ^ 32 - 1);
                       status = (if ks_access_exp st \<le> now then Degraded else Ok)
                   in (Some status, schedule c (st\<lparr>ks_fail_count := fails, ks_status := status,
                        ks_next_refresh := plus_secs now (backoff_secs F pol (fails - 1) retry_after unit)\<rparr>) s))
              | Refresh_Permanent \<Rightarrow>
                  (Some Dead, s\<lparr>sc_entries := dinsert c (st\<lparr>ks_status := Dead, ks_next_refresh := now\<rparr>)
                     (sc_entries s)\<rparr>)))"

section \<open>The worker\<close>

text \<open>
  The session map's outbox is the worker's too: both handles feed the one channel, and its
  order is the order of the sends. \<open>kw_rows\<close> are the rows handed to the audit sink.
\<close>

record 'f keepalive_worker =
  kw_scheduler :: "'f scheduler"
  kw_sessions :: session_map
  kw_durable :: bool
  kw_audited :: bool
  kw_rows :: "audit_row list"

text \<open>
  One finished upstream call: the custody, the outcome (\<open>None\<close> when its task panicked), the
  clock and the random draw at the time it is handled, the channel of the failure write's ack.
\<close>

record 'f completion =
  cp_custody :: custody_id
  cp_outcome :: "refresh_outcome option"
  cp_now :: timestamp
  cp_unit :: 'f
  cp_ack :: ack

definition audit_emit :: "audit_row \<Rightarrow> 'f keepalive_worker \<Rightarrow> 'f keepalive_worker" where
  "audit_emit row k = (if kw_audited k then k\<lparr>kw_rows := kw_rows k @ [row]\<rparr> else k)"

definition record_transition ::
  "custody_id \<Rightarrow> custody_status \<Rightarrow> timestamp \<Rightarrow> 'f keepalive_worker \<Rightarrow> 'f keepalive_worker" where
  "record_transition c status now k =
     (let row = (\<lambda>action. (event_new action Outcome_Failure Actor_System now)\<lparr>au_custody_id := Some c\<rparr>)
      in case status of
           Degraded \<Rightarrow> audit_emit (row ''custody.degraded'') k
         | Dead \<Rightarrow> audit_emit (row ''custody.dead'') k
         | Ok \<Rightarrow> k)"

definition persist_failure ::
  "custody_id \<Rightarrow> custody_status \<Rightarrow> timestamp \<Rightarrow> ack \<Rightarrow> 'f keepalive_worker \<Rightarrow> 'f keepalive_worker" where
  "persist_failure c status now ack k =
     (if \<not> kw_durable k then k
      else case dget (sc_entries (kw_scheduler k)) c of
             None \<Rightarrow> k
           | Some st \<Rightarrow> k\<lparr>kw_sessions := (kw_sessions k)\<lparr>m_outbox := m_outbox (kw_sessions k) @
               [Custody (Custody_Failure c status (int (ks_fail_count st)) (ks_next_refresh st) now) ack]\<rparr>\<rparr>)"

definition propagate_kill ::
  "(nat \<Rightarrow> string) \<Rightarrow> custody_id \<Rightarrow> timestamp \<Rightarrow> 'f keepalive_worker \<Rightarrow> 'f keepalive_worker" where
  "propagate_kill render c now k =
     (let (killed, m) = tombstone_by_custody c now (kw_sessions k)
      in audit_emit ((event_new ''custody.revoked_upstream'' Outcome_Success Actor_System now)
           \<lparr>au_custody_id := Some c, au_detail := Some (render killed)\<rparr>) (k\<lparr>kw_sessions := m\<rparr>))"

definition is_success :: "refresh_outcome \<Rightarrow> bool" where
  "is_success oc \<longleftrightarrow> (case oc of Refresh_Success _ _ \<Rightarrow> True | _ \<Rightarrow> False)"

definition handle_completion ::
  "'f f64 \<Rightarrow> (nat \<Rightarrow> string) \<Rightarrow> 'f completion \<Rightarrow> 'f keepalive_worker \<times> nat \<Rightarrow> 'f keepalive_worker \<times> nat" where
  "handle_completion F render cp kh =
     (let (k, handled) = kh; c = cp_custody cp; now = cp_now cp
      in case cp_outcome cp of
           None \<Rightarrow> (k, handled)
         | Some oc \<Rightarrow>
             (let before = map_option ks_status (dget (sc_entries (kw_scheduler k)) c);
                  (status, s) = record_outcome F c oc now (cp_unit cp) (kw_scheduler k);
                  k1 = k\<lparr>kw_scheduler := s\<rparr>;
                  k2 = (case status of
                          None \<Rightarrow> k1
                        | Some st \<Rightarrow>
                            (let ka = k1\<lparr>kw_sessions := snd (set_custody_status c st (kw_sessions k1))\<rparr>;
                                 kb = (if before \<noteq> Some st then record_transition c st now ka else ka)
                             in if is_success oc then kb else persist_failure c st now (cp_ack cp) kb));
                  k3 = (if oc = Refresh_Permanent \<and> kp_on_upstream_revoked (sc_policy s) = Kill
                        then propagate_kill render c now k2 else k2)
              in (k3, handled + 1)))"

text \<open>\<open>chunks\<close> of a slice, and \<open>tick\<close>: one chunk in flight at a time.\<close>

function chunks :: "nat \<Rightarrow> 'a list \<Rightarrow> 'a list list" where
  "chunks n xs = (if xs = [] \<or> n = 0 then [] else take n xs # chunks n (drop n xs))"
  by pat_completeness auto
termination by (relation "measure (length \<circ> snd)") auto

declare chunks.simps [simp del]

definition tick ::
  "'f f64 \<Rightarrow> (nat \<Rightarrow> string) \<Rightarrow> (custody_id list \<Rightarrow> 'f completion list) \<Rightarrow> timestamp \<Rightarrow>
   'f keepalive_worker \<Rightarrow> nat \<times> 'f keepalive_worker" where
  "tick F render join now k =
     (let (due, s) = take_due now (kw_scheduler k); k1 = k\<lparr>kw_scheduler := s\<rparr>
      in if due = [] then (0, k1)
         else let (k2, handled) = fold (\<lambda>chunk. fold (handle_completion F render) (join chunk))
                    (chunks (max (max_concurrent (sc_policy s)) 1) due) (k1, 0)
              in (handled, k2))"

end
