(* ===== verification/Durability.thy ===== *)
theory Durability
  imports Session_Refresh Store_Records
begin

text \<open>
  Memory and disk. The commands an operation of the session map enqueues, applied to the store,
  take it from a state that mirrors the map before the operation to one that mirrors the map
  after it. \<open>mirrors\<close> is the refinement relation: for every live session its row and its
  generation rows, and at most remembered retired generations beyond those.
\<close>

section \<open>The rows of one session\<close>

definition gen_row :: "sid \<Rightarrow> generation \<Rightarrow> db_generation" where
  "gen_row i g = \<lparr>g_token_hash = gn_token_hash g, g_sid = i, g_gen_no = int (gn_gen_no g),
     g_created_at = gn_created_at g, g_active_until = gn_active_until g,
     g_superseded_at = gn_superseded_at g\<rparr>"

definition gens_of :: "sid \<Rightarrow> db \<Rightarrow> db_generation set" where
  "gens_of i d = {g \<in> set (generation_tbl d). g_sid g = i}"

definition sess :: "sid \<Rightarrow> db \<Rightarrow> db_session option" where
  "sess i d = sql_find (\<lambda>s. s_sid s = i) (session_tbl d)"

definition row_matches :: "session_entry \<Rightarrow> db_session \<Rightarrow> bool" where
  "row_matches e s \<longleftrightarrow>
     s_custody_id s = e_custody e \<and> s_sub s = e_sub e \<and> s_current_gen s = int (e_current_gen e) \<and>
     s_idle_exp s = e_idle_exp e \<and> s_absolute_exp s = e_absolute_exp e \<and> s_status s = ''alive''"

definition gens_match :: "sid \<Rightarrow> session_entry \<Rightarrow> db_generation set \<Rightarrow> bool" where
  "gens_match i e G \<longleftrightarrow> gen_row i ` set (e_gens e) \<subseteq> G \<and>
     (\<forall>r \<in> G. r \<in> gen_row i ` set (e_gens e) \<or>
        (\<exists>n. (g_token_hash r, n) \<in> set (e_retired e) \<and> g_gen_no r = int n) \<and> g_superseded_at r \<noteq> None)"

definition on_disk :: "sid \<Rightarrow> session_entry \<Rightarrow> db \<Rightarrow> bool" where
  "on_disk i e d \<longleftrightarrow> (\<exists>s. sess i d = Some s \<and> row_matches e s) \<and> gens_match i e (gens_of i d)"

text \<open>Generation numbers of a session, live and remembered, are distinct.\<close>

definition nos_distinct :: "session_entry \<Rightarrow> bool" where
  "nos_distinct e \<longleftrightarrow> distinct (map gn_gen_no (e_gens e) @ map snd (e_retired e))"

definition mirrors :: "session_map \<Rightarrow> db \<Rightarrow> bool" where
  "mirrors m d \<longleftrightarrow> db_ok d \<and>
     (\<forall>(i, e) \<in> set (m_sessions m). nos_distinct e \<and> (e_status e = Alive \<longrightarrow> on_disk i e d))"

lemma mirrors_alt:
  assumes "dmap_ok (m_sessions m)"
  shows "mirrors m d \<longleftrightarrow> db_ok d \<and>
     (\<forall>i e. dget (m_sessions m) i = Some e \<longrightarrow> nos_distinct e \<and> (e_status e = Alive \<longrightarrow> on_disk i e d))"
  using assms by (auto simp: mirrors_def dget_in_set)

section \<open>What the commands do to the rows of a session\<close>

lemma sql_find_update_other:
  assumes "\<And>s. key (f s) = key s" and "i \<noteq> j"
  shows "sql_find (\<lambda>s. key s = i) (sql_update (\<lambda>s. key s = j) f t) = sql_find (\<lambda>s. key s = i) t"
  using assms by (induction t) (auto simp: sql_find_def sql_update_def)

lemma sess_simps:
  "sess i (update_session_progress j g x d) =
     (if i = j then map_option (\<lambda>s. s\<lparr>s_current_gen := int g, s_idle_exp := x\<rparr>) (sess i d) else sess i d)"
  "sess i (update_generation_superseded h at d) = sess i d"
  "sess i (delete_generation h d) = sess i d"
  "insert_generation j n h c a d = Inr d' \<Longrightarrow> sess i d' = sess i d"
  "i \<noteq> j \<Longrightarrow> sess i (tombstone_session_row j now d) = sess i d"
  by (auto simp: sess_def update_session_progress_def sql_find_update sql_find_update_other
      tombstone_session_row_def update_generation_superseded_def delete_generation_def
      insert_generation_def split: if_splits)

lemma gens_of_simps:
  "gens_of i (update_session_progress j g x d) = gens_of i d"
  "gens_of i (tombstone_session_row j now d) = gens_of i d"
  "gens_of i (delete_generation h d) = {g \<in> gens_of i d. g_token_hash g \<noteq> h}"
  "insert_generation j n h c a d = Inr d' \<Longrightarrow> gens_of i d' = gens_of i d \<union>
     (if i = j then {\<lparr>g_token_hash = h, g_sid = j, g_gen_no = int n, g_created_at = c,
        g_active_until = a, g_superseded_at = None\<rparr>} else {})"
  by (auto simp: gens_of_def update_session_progress_def tombstone_session_row_def delete_generation_def
      insert_generation_def sql_simps split: if_splits)

definition supersede_row :: "token_hash \<Rightarrow> timestamp \<Rightarrow> db_generation \<Rightarrow> db_generation" where
  "supersede_row h at g = (if g_token_hash g = h then g\<lparr>g_superseded_at := Some at\<rparr> else g)"

lemma gens_of_superseded:
  "gens_of i (update_generation_superseded h at d) = supersede_row h at ` gens_of i d"
proof -
  have "g_sid (supersede_row h at g) = g_sid g" for g by (simp add: supersede_row_def)
  moreover have "set (generation_tbl (update_generation_superseded h at d)) =
      supersede_row h at ` set (generation_tbl d)"
    by (simp add: update_generation_superseded_def sql_update_def supersede_row_def cong: if_cong)
  ultimately show ?thesis by (auto simp: gens_of_def)
qed

section \<open>Minting and reaping\<close>

lemma gen_row_sel [simp]:
  "g_token_hash (gen_row i g) = gn_token_hash g" "g_sid (gen_row i g) = i"
  "g_gen_no (gen_row i g) = int (gn_gen_no g)" "g_superseded_at (gen_row i g) = gn_superseded_at g"
  by (simp_all add: gen_row_def)

lemma gens_match_reap:
  assumes wf: "entry_wf hash pol e" and gm: "gens_match i e G" and r: "reap_generations now pol e = (e', fx)"
  shows "gens_match i e' {r \<in> G. g_token_hash r \<notin> set (fx_purged fx)}"
proof -
  have len: "length (e_retired e) \<le> retired_memory pol" and gw: "gens_wf (e_current_gen e) (e_gens e)"
    using wf by (auto simp: entry_wf_def)
  note fr = reap_generations_frame [OF len r] and w = reap_generations_wf [OF wf r]
  have sub: "set (e_gens e') \<subseteq> set (e_gens e)"
    unfolding fr by (auto simp: kept_gens_facts dest!: in_set_dropD)
  have gone: "retired_pair g \<in> set (retired_all now pol e)" if "g \<in> set (e_gens e)" "g \<notin> set (e_gens e')" for g
  proof (cases "gen_expired pol (e_current_gen e) now g")
    case True
    with that(1) show ?thesis by (auto simp: retired_all_def)
  next
    case False
    with that(1) have "g \<in> set (kept_gens now pol e)" by (simp add: kept_gens_facts)
    moreover have "g \<notin> set (drop (surplus now pol e) (kept_gens now pol e))" using that(2) by (simp add: fr)
    ultimately have "g \<in> set (take (surplus now pol e) (kept_gens now pol e))"
      by (metis Un_iff append_take_drop_id set_append)
    then show ?thesis by (auto simp: retired_all_def)
  qed
  have keep: "x \<in> set (e_retired e')" if "x \<in> set (retired_all now pol e)" "fst x \<notin> set (fx_purged fx)" for x
  proof -
    from that(1) have "x \<in> set (take (forgotten now pol e) (retired_all now pol e)) \<or>
        x \<in> set (drop (forgotten now pol e) (retired_all now pol e))"
      by (metis Un_iff append_take_drop_id set_append)
    with that(2) show ?thesis by (auto simp: fr)
  qed
  have live: "gn_token_hash g \<notin> set (fx_purged fx)" if "g \<in> set (e_gens e')" for g
    using that w(3) by (auto simp: all_hashes_def)
  show ?thesis
    unfolding gens_match_def
  proof (intro conjI ballI)
    show "gen_row i ` set (e_gens e') \<subseteq> {r \<in> G. g_token_hash r \<notin> set (fx_purged fx)}"
      using gm sub live by (auto simp: gens_match_def)
  next
    fix x assume x: "x \<in> {r \<in> G. g_token_hash r \<notin> set (fx_purged fx)}"
    with gm consider g where "g \<in> set (e_gens e)" "x = gen_row i g"
      | n where "(g_token_hash x, n) \<in> set (e_retired e)" "g_gen_no x = int n" "g_superseded_at x \<noteq> None"
      by (auto simp: gens_match_def)
    then show "x \<in> gen_row i ` set (e_gens e') \<or>
        (\<exists>n. (g_token_hash x, n) \<in> set (e_retired e') \<and> g_gen_no x = int n) \<and> g_superseded_at x \<noteq> None"
    proof cases
      case 1
      show ?thesis
      proof (cases "g \<in> set (e_gens e')")
        case False
        have "g \<noteq> last (e_gens e)"
          using False w(1) gens_wf_kept(2) [OF gw, of now pol] gens_wf_last_in by (metis entry_wf_def fr(11))
        then have "gn_superseded_at g \<noteq> None"
          using gw gens_wf_eq_last [OF gw 1(1)] 1(1) by (auto simp: gens_wf_def)
        moreover have "retired_pair g \<in> set (e_retired e')"
          using keep [OF gone [OF 1(1) False]] x 1(2) by simp
        ultimately show ?thesis using 1(2) by auto
      qed (use 1 in auto)
    next
      case 2
      then have "(g_token_hash x, n) \<in> set (retired_all now pol e)" by (simp add: retired_all_def)
      with keep x have "(g_token_hash x, n) \<in> set (e_retired e')" by auto
      with 2 show ?thesis by auto
    qed
  qed
qed

lemma nos_distinct_reap:
  assumes "length (e_retired e) \<le> retired_memory pol" and "nos_distinct e"
    and r: "reap_generations now pol e = (e', fx)"
  shows "nos_distinct e'"
proof -
  note fr = reap_generations_frame [OF assms(1) r]
  let ?s = "surplus now pol e" and ?f = "forgotten now pol e"
  let ?K = "kept_gens now pol e" and ?R = "retired_all now pol e"
  have a: "mset (map gn_gen_no (take ?s ?K)) + mset (map gn_gen_no (drop ?s ?K)) = mset (map gn_gen_no ?K)"
    by (rule mset_map_take_drop)
  have b: "mset (map gn_gen_no (filter (gen_expired pol (e_current_gen e) now) (e_gens e))) +
      mset (map gn_gen_no ?K) = mset (map gn_gen_no (e_gens e))"
    unfolding kept_gens_def by (rule mset_map_partition)
  have c: "mset (map snd ?R) = mset (map snd (e_retired e)) +
      (mset (map gn_gen_no (filter (gen_expired pol (e_current_gen e) now) (e_gens e))) +
       mset (map gn_gen_no (take ?s ?K)))"
    by (simp add: retired_all_def comp_def)
  have "mset (map gn_gen_no (drop ?s ?K) @ map snd ?R) = mset (map gn_gen_no (e_gens e) @ map snd (e_retired e))"
    unfolding mset_append c b [symmetric] a [symmetric] by (simp only: ac_simps)
  then have "distinct (map gn_gen_no (drop ?s ?K) @ map snd ?R)"
    using assms(2) unfolding nos_distinct_def by (metis mset_eq_imp_distinct_iff)
  moreover have "set (drop ?f (map snd ?R)) \<subseteq> set (map snd ?R)" by (rule set_drop_subset)
  ultimately show ?thesis
    unfolding nos_distinct_def fr distinct_append drop_map [symmetric] by (meson distinct_drop disjoint_iff subset_iff)
qed

lemma mint_disk:
  assumes wf: "entry_wf hash pol e" and alive: "e_status e = Alive"
    and fresh: "hash fresh \<notin> set (all_hashes e)" and bound: "e_current_gen e + 1 < 2 ^ 32"
    and gm: "gens_match i e G" and nd: "nos_distinct e" and m: "mint hash fresh now pol e = (e', fx)"
  shows "gens_match i e' {r \<in> supersede_row (gn_token_hash (last (e_gens e))) now `
       (G \<union> {gen_row i (minted hash fresh now pol e)}). g_token_hash r \<notin> set (fx_purged fx)}"
    and "nos_distinct e'"
proof -
  let ?p = "pre_mint hash fresh now pol e" and ?n = "minted hash fresh now pol e"
  let ?l = "last (e_gens e)" and ?sup = "supersede_row (gn_token_hash (last (e_gens e))) now"
  obtain fx' where r: "reap_generations now pol ?p = (e', fx')" and fx: "fx_purged fx = fx_purged fx'"
    using m by (auto simp: mint_eq Let_def split: prod.splits)
  note pw = pre_mint_wf [OF wf alive fresh bound, of now]
  from wf have gw: "gens_wf (e_current_gen e) (e_gens e)" and d: "distinct (all_hashes e)"
    by (auto simp: entry_wf_def)
  then have ne: "e_gens e \<noteq> []" by (simp add: gens_wf_def)
  have hl: "hash fresh \<noteq> gn_token_hash ?l" using fresh ne by (auto simp: all_hashes_def)
  have bl: "gn_token_hash g \<noteq> gn_token_hash ?l" if "g \<in> set (butlast (e_gens e))" for g
  proof -
    have "distinct (map gn_token_hash (butlast (e_gens e) @ [?l]))" using d ne by (simp add: all_hashes_def)
    then have "gn_token_hash ?l \<notin> gn_token_hash ` set (butlast (e_gens e))" by simp
    with that show ?thesis by (metis imageI)
  qed
  have sup_last: "?sup (gen_row i ?l) = gen_row i (?l\<lparr>gn_superseded_at := Some now\<rparr>)"
    by (simp add: supersede_row_def gen_row_def)
  have sup_bl: "?sup (gen_row i g) = gen_row i g" if "g \<in> set (butlast (e_gens e))" for g
    using bl [OF that] by (simp add: supersede_row_def)
  have sup_n: "?sup (gen_row i ?n) = gen_row i ?n" using hl by (simp add: supersede_row_def)
  have gens: "set (e_gens e) = insert ?l (set (butlast (e_gens e)))"
    using arg_cong [OF append_butlast_last_id [OF ne], of set] by simp
  have "gens_match i ?p (?sup ` (G \<union> {gen_row i ?n}))"
    unfolding gens_match_def
  proof (intro conjI ballI)
    have "gen_row i g \<in> G" if "g \<in> set (e_gens e)" for g using gm that by (auto simp: gens_match_def)
    then show "gen_row i ` set (e_gens ?p) \<subseteq> ?sup ` (G \<union> {gen_row i ?n})"
      using sup_last sup_bl sup_n ne gens
      by (auto simp: set_supersede_last) (metis UnI1 image_eqI insertI1 in_set_butlastD last_in_set)+
  next
    fix x assume "x \<in> ?sup ` (G \<union> {gen_row i ?n})"
    then obtain y where y: "y \<in> G \<or> y = gen_row i ?n" "x = ?sup y" by auto
    show "x \<in> gen_row i ` set (e_gens ?p) \<or>
        (\<exists>n. (g_token_hash x, n) \<in> set (e_retired ?p) \<and> g_gen_no x = int n) \<and> g_superseded_at x \<noteq> None"
    proof (cases "y \<in> gen_row i ` set (e_gens e) \<or> y = gen_row i ?n")
      case True
      then have "x \<in> gen_row i ` set (e_gens ?p)"
        unfolding y(2) using sup_last sup_bl sup_n ne gens by (auto simp: set_supersede_last)
      then show ?thesis by simp
    next
      case False
      with y gm obtain n where n: "(g_token_hash y, n) \<in> set (e_retired e)" "g_gen_no y = int n"
        "g_superseded_at y \<noteq> None" by (auto simp: gens_match_def)
      then show ?thesis by (auto simp: y(2) supersede_row_def)
    qed
  qed
  from gens_match_reap [OF pw this r] show "gens_match i e' {r \<in> ?sup `
       (G \<union> {gen_row i ?n}). g_token_hash r \<notin> set (fx_purged fx)}" by (simp add: fx)
  have "gn_gen_no g \<le> e_current_gen e" if "g \<in> set (e_gens e)" for g by (rule gens_wf_le [OF gw that])
  moreover have "\<forall>(h, n) \<in> set (e_retired e). n < e_current_gen e" using wf by (simp add: entry_wf_def)
  ultimately have "e_current_gen e + 1 \<notin> set (map gn_gen_no (e_gens e) @ map snd (e_retired e))"
    by fastforce
  with nd have "nos_distinct ?p"
    using wrap_u32_id [OF bound] by (auto simp: nos_distinct_def minted_def)
  moreover have "length (e_retired ?p) \<le> retired_memory pol" using pw by (simp add: entry_wf_def)
  ultimately show "nos_distinct e'" using nos_distinct_reap r by blast
qed

end
