(* ===== verification/Write_Behind.thy ===== *)
theory Write_Behind
  imports Durability
begin

text \<open>
  Write-behind. Each operation of the session map enqueues commands; applied to a store that
  mirrors the map before the operation they give one that mirrors it after. The pair of a map
  and its store is a machine whose invariant is \<open>synced\<close>.
\<close>

section \<open>What an operation enqueues\<close>

definition effect_commands :: "index_effects \<Rightarrow> sid \<Rightarrow> command list" where
  "effect_commands fx i =
     (case fx_added fx of None \<Rightarrow> [] | Some g \<Rightarrow>
        [InsertGeneration i (gn_gen_no g) (gn_token_hash g) (gn_created_at g) (gn_active_until g)]) @
     (case fx_superseded fx of None \<Rightarrow> [] | Some (h, at) \<Rightarrow> [SupersedeGeneration h at]) @
     map DeleteGeneration (fx_purged fx)"

lemma fold_purge_outbox:
  "m_durable m \<Longrightarrow> m_outbox (fold purge_hash hs m) = m_outbox m @ map DeleteGeneration hs"
  by (induction hs arbitrary: m) (simp_all add: purge_hash_def persist_def)

lemma apply_effects_outbox:
  "m_durable m \<Longrightarrow> m_outbox (apply_effects fx i m) = m_outbox m @ effect_commands fx i"
  by (auto simp: apply_effects_def effect_commands_def Let_def fold_purge_outbox persist_def
      split: option.splits)

lemma apply_deletes:
  "apply_seq cr js (map DeleteGeneration hs) (d, b) = Inr (fold delete_generation hs d, b)"
  by (induction hs arbitrary: d) simp_all

lemma fold_delete_sel:
  "sess i (fold delete_generation hs d) = sess i d"
  "gens_of i (fold delete_generation hs d) = {r \<in> gens_of i d. g_token_hash r \<notin> set hs}"
  "db_ok d \<Longrightarrow> db_ok (fold delete_generation hs d)"
  by (induction hs arbitrary: d) (auto simp: sess_simps gens_of_simps delete_generation_ok)

section \<open>Sessions do not touch each other's rows\<close>

lemma on_disk_hash:
  assumes "on_disk i e d" and "r \<in> gens_of i d"
  shows "g_token_hash r \<in> set (all_hashes e)"
proof -
  from assms consider "r \<in> gen_row i ` set (e_gens e)" | n where "(g_token_hash r, n) \<in> set (e_retired e)"
    unfolding on_disk_def gens_match_def by blast
  then show ?thesis
  proof cases
    case 1
    then show ?thesis by (auto simp: all_hashes_def)
  next
    case 2
    then show ?thesis unfolding all_hashes_def by (simp add: rev_image_eqI)
  qed
qed

lemma on_disk_cong:
  "on_disk i e d \<Longrightarrow> sess i d' = sess i d \<Longrightarrow> gens_of i d' = gens_of i d \<Longrightarrow> on_disk i e d'"
  by (simp add: on_disk_def)

lemma on_disk_deletes:
  assumes "on_disk i e d" and "set (all_hashes e) \<inter> set hs = {}"
  shows "on_disk i e (fold delete_generation hs d)"
  using assms on_disk_hash [OF assms(1)]
  by (intro on_disk_cong [OF assms(1)]) (auto simp: fold_delete_sel)

lemma hashes_disjoint:
  assumes wf: "map_wf hash m" and "dget (m_sessions m) i = Some e" "dget (m_sessions m) j = Some f" "i \<noteq> j"
  shows "set (all_hashes e) \<inter> set (all_hashes f) = {}"
proof -
  have "dget (m_index m) h = Some i" if "h \<in> set (all_hashes e)" for h
    using map_wfD(5) [OF wf, of h i] that assms by (simp add: hashes_of_def)
  moreover have "dget (m_index m) h = Some j" if "h \<in> set (all_hashes f)" for h
    using map_wfD(5) [OF wf, of h j] that assms by (simp add: hashes_of_def)
  ultimately show ?thesis using assms(4) by fastforce
qed

section \<open>Rotation\<close>

lemma mint_effects:
  assumes "e_gens e \<noteq> []" and "mint hash fresh now pol e = (e', fx)"
  shows "fx_added fx = Some (minted hash fresh now pol e)"
    and "fx_superseded fx = Some (gn_token_hash (last (e_gens e)), now)"
  using assms by (auto simp: mint_eq Let_def current_def split: prod.splits)

text \<open>The store after the commands of a rotation.\<close>

definition rotated_db :: "sid \<Rightarrow> token_hash \<Rightarrow> timestamp \<Rightarrow> token_hash list \<Rightarrow> nat \<Rightarrow> timestamp \<Rightarrow> db \<Rightarrow> db" where
  "rotated_db i h now hs n x d =
     update_session_progress i n x (fold delete_generation hs (update_generation_superseded h now d))"

lemma rotated_db_sel:
  "sess j (rotated_db i h now hs n x d) =
     (if j = i then map_option (\<lambda>s. s\<lparr>s_current_gen := int n, s_idle_exp := x\<rparr>) (sess j d) else sess j d)"
  "gens_of j (rotated_db i h now hs n x d) =
     {r \<in> supersede_row h now ` gens_of j d. g_token_hash r \<notin> set hs}"
  "db_ok d \<Longrightarrow> db_ok (rotated_db i h now hs n x d)"
  by (simp_all add: rotated_db_def sess_simps gens_of_simps fold_delete_sel gens_of_superseded
      update_session_progress_ok update_generation_superseded_ok)

lemma supersede_foreign:
  assumes "\<And>r. r \<in> G \<Longrightarrow> g_token_hash r \<noteq> h"
  shows "supersede_row h at ` G = G"
proof -
  have "supersede_row h at r = r" if "r \<in> G" for r using assms [OF that] by (simp add: supersede_row_def)
  then show ?thesis by (simp cong: image_cong)
qed

lemma rotation_applies:
  assumes ok: "db_ok d" and wf: "entry_wf hash pol e" and alive: "e_status e = Alive"
    and fresh: "hash fresh \<notin> g_token_hash ` set (generation_tbl d)" "hash fresh \<notin> set (all_hashes e)"
    and bound: "e_current_gen e + 1 < 2 ^ 32"
    and disk: "on_disk i e d" and nd: "nos_distinct e" and m: "mint hash fresh now pol e = (e', fx)"
  obtains d' where "\<And>b. apply_seq cr js (effect_commands fx i @
        [UpdateSessionProgress i (e_current_gen e') (e_idle_exp (slide now pol e'))]) (d, b) = Inr (d', b)"
    "db_ok d'" "on_disk i (slide now pol e') d'" "nos_distinct (slide now pol e')"
    "\<And>j f. j \<noteq> i \<Longrightarrow> on_disk j f d \<Longrightarrow> set (all_hashes f) \<inter> set (all_hashes e) = {} \<Longrightarrow> on_disk j f d'"
proof -
  let ?n = "minted hash fresh now pol e" and ?l = "gn_token_hash (last (e_gens e))"
  let ?x = "e_idle_exp (slide now pol e')"
  have ne: "e_gens e \<noteq> []" and len: "length (e_retired e) \<le> retired_memory pol"
    using wf by (auto simp: entry_wf_def gens_wf_def)
  note fx = mint_effects [OF ne m] and fr = mint_frame [OF len m]
  from disk obtain s where s: "sess i d = Some s" "row_matches e s" and gm: "gens_match i e (gens_of i d)"
    by (auto simp: on_disk_def)
  have ex: "sql_exists (\<lambda>s. s_sid s = i) (session_tbl d)"
    using s(1) by (auto simp: sess_def sql_find_def sql_exists_iff find_Some_iff)
  define d1 where "d1 = d\<lparr>generation_tbl := generation_tbl d @ [gen_row i ?n]\<rparr>"
  have ins: "insert_generation i (gn_gen_no ?n) (gn_token_hash ?n) (gn_created_at ?n) (gn_active_until ?n) d = Inr d1"
    using fresh(1) ex by (simp add: insert_generation_def sql_simps d1_def gen_row_def minted_def)
  note ig = sess_simps(4) [OF ins] insert_generation_ok [OF ins ok]
  have gd1: "gens_of j d1 = gens_of j d \<union> (if j = i then {gen_row i ?n} else {})" for j
    by (auto simp: gens_of_def d1_def)
  define d' where "d' = rotated_db i ?l now (fx_purged fx) (e_current_gen e') ?x d1"
  have seq: "apply_seq cr js (effect_commands fx i @ [UpdateSessionProgress i (e_current_gen e') ?x]) (d, b) =
      Inr (d', b)" for b
    using ins by (simp add: effect_commands_def fx apply_seq_append apply_deletes d'_def rotated_db_def)
  have md: "gens_match i e' (gens_of i d')" "nos_distinct e'"
    using mint_disk [OF wf alive fresh(2) bound gm nd m] by (simp_all add: d'_def rotated_db_sel gd1)
  have "on_disk i (slide now pol e') d'"
    using md(1) s fr alive by (simp add: on_disk_def d'_def rotated_db_sel ig row_matches_def gens_match_def)
  moreover have "on_disk j f d'" if "j \<noteq> i" "on_disk j f d" "set (all_hashes f) \<inter> set (all_hashes e) = {}" for j f
  proof (rule on_disk_cong [OF that(2)])
    show "sess j d' = sess j d" using that(1) by (simp add: d'_def rotated_db_sel ig)
    have own: "g_token_hash r \<in> set (all_hashes f)" "g_token_hash r \<noteq> hash fresh" if "r \<in> gens_of j d" for r
    proof -
      show "g_token_hash r \<in> set (all_hashes f)" by (rule on_disk_hash [OF \<open>on_disk j f d\<close> that])
      have "g_token_hash r \<in> g_token_hash ` set (generation_tbl d)" using that by (simp add: gens_of_def)
      with fresh(1) show "g_token_hash r \<noteq> hash fresh" by metis
    qed
    have pw: "insert (hash fresh) (set (all_hashes e)) = set (all_hashes e') \<union> set (fx_purged fx)"
      using mint_wf [OF wf alive fresh(2) bound m] by auto
    have "?l \<in> set (all_hashes e)" using ne by (simp add: all_hashes_def)
    then have "g_token_hash r \<noteq> ?l" "g_token_hash r \<notin> set (fx_purged fx)" if "r \<in> gens_of j d" for r
      using own [OF that] \<open>set (all_hashes f) \<inter> _ = {}\<close> pw by auto
    then show "gens_of j d' = gens_of j d"
      using that(1) by (auto simp: d'_def rotated_db_sel gd1 supersede_foreign)
  qed
  ultimately show thesis
    using that [OF seq _ _ _] ig(2) md(2) by (simp add: d'_def rotated_db_sel nos_distinct_def)
qed

text \<open>Both ways a refresh can be granted: coalesced, which only slides the session row, or minted.\<close>

lemma on_disk_slide:
  assumes "on_disk i e d"
  shows "on_disk i (slide now pol e)
     (update_session_progress i (e_current_gen e) (e_idle_exp (slide now pol e)) d)"
  using assms by (auto simp: on_disk_def sess_simps gens_of_simps row_matches_def gens_match_def)

lemma refresh_entry_disk:
  assumes ok: "db_ok d" and wf: "entry_wf hash pol e" and alive: "e_status e = Alive"
    and fresh: "hash fresh \<notin> g_token_hash ` set (generation_tbl d)" "hash fresh \<notin> set (all_hashes e)"
    and bound: "e_current_gen e + 1 < 2 ^ 32" and disk: "on_disk i e d" and nd: "nos_distinct e"
    and r: "refresh_entry hash fresh now pol e = Some (token, rotated, e', fx)"
  shows "\<exists>d'. (\<forall>b. apply_seq cr js (effect_commands fx i @
        [UpdateSessionProgress i (e_current_gen e') (e_idle_exp e')]) (d, b) = Inr (d', b)) \<and>
     db_ok d' \<and> on_disk i e' d' \<and> nos_distinct e' \<and>
     (\<forall>j f. j \<noteq> i \<longrightarrow> on_disk j f d \<longrightarrow> set (all_hashes f) \<inter> set (all_hashes e) = {} \<longrightarrow> on_disk j f d')"
proof (cases rule: refresh_entry_cases [OF wf, of now fresh, case_names coalesce mints])
  case (coalesce t)
  then have e': "e' = slide now pol e" "fx = no_effects" using r by auto
  have frame: "on_disk j f (update_session_progress i n x d)" if "j \<noteq> i" "on_disk j f d" for j f n x
    using that by (intro on_disk_cong [OF that(2)]) (simp_all add: sess_simps gens_of_simps)
  show ?thesis
    unfolding e' using on_disk_slide [OF disk] nd update_session_progress_ok [OF ok] frame
    by (intro exI [of _ "update_session_progress i (e_current_gen e) (e_idle_exp (slide now pol e)) d"])
      (simp add: effect_commands_def no_effects_def nos_distinct_def)
next
  case (mints e1 fx1)
  then have e': "e' = slide now pol e1" "fx = fx1" using r by auto
  show ?thesis
    unfolding e'
    by (rule rotation_applies [OF ok wf alive fresh bound disk nd mints(2), of cr js]) auto
qed

section \<open>The operations, one by one\<close>

text \<open>
  \<open>follows m d m' d'\<close>: between the maps the operation enqueued commands that take the first
  store to the second, and the second mirrors the second map.
\<close>

definition follows :: "crypto \<Rightarrow> json \<Rightarrow> session_map \<Rightarrow> db \<Rightarrow> session_map \<Rightarrow> db \<Rightarrow> bool" where
  "follows cr js m d m' d' \<longleftrightarrow> m_durable m' = m_durable m \<and> mirrors m' d' \<and>
     (\<exists>cs. m_outbox m' = m_outbox m @ cs \<and> (\<forall>b. apply_seq cr js cs (d, b) = Inr (d', b)))"

lemma follows_trans:
  "follows cr js m d m1 d1 \<Longrightarrow> follows cr js m1 d1 m2 d2 \<Longrightarrow> follows cr js m d m2 d2"
  by (fastforce simp: follows_def apply_seq_append)

lemma mirrorsD:
  assumes "map_wf hash m" and "mirrors m d"
  shows "db_ok d" and "dget (m_sessions m) i = Some e \<Longrightarrow> nos_distinct e"
    and "dget (m_sessions m) i = Some e \<Longrightarrow> e_status e = Alive \<Longrightarrow> on_disk i e d"
  using assms mirrors_alt [OF map_wfD(1) [OF assms(1)]] by auto

lemma mirrorsI:
  assumes "map_wf hash m" and "db_ok d"
    and "\<And>i e. dget (m_sessions m) i = Some e \<Longrightarrow> nos_distinct e"
    and "\<And>i e. dget (m_sessions m) i = Some e \<Longrightarrow> e_status e = Alive \<Longrightarrow> on_disk i e d"
  shows "mirrors m d"
  using assms mirrors_alt [OF map_wfD(1) [OF assms(1)]] by auto

lemma nos_distinct_sel [simp]:
  "nos_distinct (kill_entry now e) = nos_distinct e" "nos_distinct (slide now pol e) = nos_distinct e"
  "nos_distinct (with_custody_status c st e) = nos_distinct e"
  by (simp_all add: nos_distinct_def kill_entry_def)

lemma on_disk_with_custody_status [simp]: "on_disk i (with_custody_status c st e) d = on_disk i e d"
proof -
  have "e_custody (with_custody_status c st e) = e_custody e" "e_sub (with_custody_status c st e) = e_sub e"
    by (simp_all add: with_custody_status_def)
  then show ?thesis by (simp add: on_disk_def row_matches_def gens_match_def)
qed

lemma on_disk_tombstone: "i \<noteq> j \<Longrightarrow> on_disk i e d \<Longrightarrow> on_disk i e (tombstone_session_row j now d)"
  by (erule on_disk_cong) (simp_all add: sess_simps gens_of_simps)

lemma tombstone_follows:
  assumes wf: "map_wf hash m" and mi: "mirrors m d" and dur: "m_durable m"
  shows "\<exists>d'. follows cr js m d (snd (tombstone_session_with_reason i now reason m)) d'"
proof (cases "\<exists>e. dget (m_sessions m) i = Some e \<and> e_status e = Alive")
  case True
  then obtain e where e: "dget (m_sessions m) i = Some e" "e_status e = Alive" by blast
  let ?m = "snd (tombstone_session_with_reason i now reason m)" and ?d = "tombstone_session_row i now d"
  note D = mirrorsD [OF wf mi]
  have "mirrors ?m ?d"
  proof (rule mirrorsI [OF tombstone_reason_wf [OF wf] tombstone_session_row_ok [OF D(1)]])
    fix j f assume f: "dget (m_sessions ?m) j = Some f"
    then show "nos_distinct f" using D(2)
      by (auto simp: tombstone_reason_lookup split: option.splits if_splits)
    show "on_disk j f ?d" if "e_status f = Alive"
      using f D(3) e that
      by (auto simp: tombstone_reason_lookup kill_entry_def split: option.splits if_splits
          intro!: on_disk_tombstone)
  qed
  moreover have "m_outbox ?m = m_outbox m @ [TombstoneSession i now]" "m_durable ?m"
    using e dur by (simp_all add: tombstone_session_with_reason_def persist_def)
  ultimately have "follows cr js m d ?m ?d" using dur by (auto simp: follows_def)
  then show ?thesis ..
next
  case False
  then have "snd (tombstone_session_with_reason i now reason m) = m"
    by (auto simp: tombstone_session_with_reason_def split: option.splits)
  with mi have "follows cr js m d (snd (tombstone_session_with_reason i now reason m)) d"
    by (auto simp: follows_def)
  then show ?thesis ..
qed

lemma tombstone_each_follows:
  assumes "map_wf hash m" and "mirrors m d" and "m_durable m"
  shows "\<exists>d'. follows cr js m d (snd (tombstone_each now is m)) d'"
  using assms
proof (induction now "is" m arbitrary: d rule: tombstone_each.induct)
  case (1 now m)
  then have "follows cr js m d (snd (tombstone_each now [] m)) d" by (auto simp: follows_def)
  then show ?case ..
next
  case (2 now i "is" m)
  obtain k m1 where m1: "tombstone_session_with_reason i now Kill_UpstreamRevoked m = (k, m1)" by fastforce
  obtain d1 where d1: "follows cr js m d m1 d1"
    using tombstone_follows [OF 2(2-4)] m1 by (metis snd_conv)
  have "map_wf hash m1" using tombstone_reason_wf [OF 2(2)] m1 by (metis snd_conv)
  moreover have "mirrors m1 d1" "m_durable m1" using d1 2(4) by (auto simp: follows_def)
  ultimately obtain d2 where "follows cr js m1 d1 (snd (tombstone_each now is m1)) d2"
    using 2(1) [OF m1 [symmetric] refl] by blast
  from follows_trans [OF d1 this] m1 show ?case by (auto split: prod.splits)
qed

lemma set_custody_follows:
  assumes wf: "map_wf hash m" and mi: "mirrors m d"
  shows "follows cr js m d (snd (set_custody_status c st m)) d"
proof -
  note D = mirrorsD [OF wf mi]
  have "mirrors (snd (set_custody_status c st m)) d"
  proof (rule mirrorsI [OF set_custody_status_wf [OF wf] D(1)])
    fix i f assume "dget (m_sessions (snd (set_custody_status c st m))) i = Some f"
    then obtain e where e: "dget (m_sessions m) i = Some e" "f = with_custody_status c st e"
      by (auto simp: set_custody_status_lookup)
    show "nos_distinct f" using D(2) [OF e(1)] by (simp add: e(2))
    show "on_disk i f d" if "e_status f = Alive" using D(3) [OF e(1)] that by (simp add: e(2))
  qed
  then show ?thesis by (simp add: follows_def set_custody_status_sel set_custody_status_def Let_def)
qed

lemma sql_find_append:
  "sql_find p (t @ t') = (case sql_find p t of None \<Rightarrow> sql_find p t' | Some r \<Rightarrow> Some r)"
  by (induction t) (simp_all add: sql_find_def)

lemma create_follows:
  assumes wf: "map_wf hash m" and mi: "mirrors m d" and dur: "m_durable m"
    and ad: "session_admits hash (Do_Create fresh i c sub now) m"
    and disk: "i \<notin> s_sid ` set (session_tbl d)" "c \<in> c_custody_id ` set (custody_tbl d)"
      "hash fresh \<notin> g_token_hash ` set (generation_tbl d)"
  shows "\<exists>d'. follows cr js m d (snd (create hash fresh i c sub now m)) d'"
proof -
  let ?m = "snd (create hash fresh i c sub now m)"
  let ?e = "new_entry (m_policy m) i c sub fresh (hash fresh) now"
  note D = mirrorsD [OF wf mi]
  define row where "row = \<lparr>sr_sid = i, sr_custody_id = c, sr_sub = sub, sr_current_gen = 1,
      sr_idle_exp = e_idle_exp ?e, sr_absolute_exp = e_absolute_exp ?e, sr_status = Alive,
      sr_created_at = now, sr_meta = None\<rparr>"
  let ?cs = "[InsertSession row, InsertGeneration i 1 (hash fresh) now (plus_secs now (gen_ttl_secs (m_policy m)))]"
  have out: "m_outbox ?m = m_outbox m @ ?cs" "m_durable ?m"
    using dur by (simp_all add: create_def Let_def persist_def row_def)
  obtain d1 where d1: "insert_session row d = Inr d1"
    using disk by (simp add: insert_session_def sql_simps row_def)
  have t1: "generation_tbl d1 = generation_tbl d"
    "\<exists>s. session_tbl d1 = session_tbl d @ [s] \<and> s_sid s = i \<and> row_matches ?e s"
    using d1 by (auto simp: insert_session_def row_def row_matches_def new_entry_def Let_def split: if_splits)
  obtain s where s: "session_tbl d1 = session_tbl d @ [s]" "s_sid s = i" "row_matches ?e s" using t1(2) by blast
  define g where "g = last (e_gens ?e)"
  have eg: "e_gens ?e = [g]" by (simp add: g_def new_entry_def Let_def)
  define d2 where "d2 = d1\<lparr>generation_tbl := generation_tbl d1 @ [gen_row i g]\<rparr>"
  have d2: "insert_generation i 1 (hash fresh) now (plus_secs now (gen_ttl_secs (m_policy m))) d1 = Inr d2"
    using disk(3) by (simp add: insert_generation_def sql_simps d2_def g_def new_entry_def Let_def t1(1) s gen_row_def)
  have seq: "apply_seq cr js ?cs (d, b) = Inr (d2, b)" for b using d1 d2 by simp
  have tbl: "session_tbl d2 = session_tbl d @ [s]" "generation_tbl d2 = generation_tbl d @ [gen_row i g]"
    by (simp_all add: d2_def s t1(1))
  have none: "gens_of i d = {}" using disk(1) D(1) by (auto simp: gens_of_def db_ok_def db_fks_ok_def)
  have sf: "sess j d2 = (if j = i then Some s else sess j d)" for j
  proof (cases "j = i")
    case True
    moreover have "\<not> sql_exists (\<lambda>s. s_sid s = i) (session_tbl d)" using disk(1) by (auto simp: sql_exists_iff)
    ultimately show ?thesis using s(2) by (simp add: sess_def tbl sql_find_append_new)
  next
    case False
    then have "sql_find (\<lambda>s. s_sid s = j) [s] = None" using s(2) by (simp add: sql_find_def)
    with False show ?thesis by (simp add: sess_def tbl sql_find_append split: option.split)
  qed
  have gf: "gens_of j d2 = gens_of j d \<union> (if j = i then {gen_row i g} else {})" for j
    by (auto simp: gens_of_def tbl)
  have new: "on_disk i ?e d2"
    using s(3) by (simp add: on_disk_def sf gf none gens_match_def eg)
  have lk: "dget (m_sessions ?m) j = (if j = i then Some ?e else dget (m_sessions m) j)" for j
    by (simp add: create_def Let_def)
  have "mirrors ?m d2"
  proof (rule mirrorsI [OF create_wf [OF wf]])
    show "db_ok d2" by (rule insert_generation_ok [OF d2 insert_session_ok [OF d1 D(1)]])
    fix j f assume f: "dget (m_sessions ?m) j = Some f"
    show "nos_distinct f"
      using f D(2) by (auto simp: lk nos_distinct_def new_entry_def Let_def split: if_splits)
    show "on_disk j f d2" if "e_status f = Alive"
    proof (cases "j = i")
      case False
      with f D(3) that have "on_disk j f d" by (simp add: lk)
      then show ?thesis by (rule on_disk_cong) (use False in \<open>simp_all add: sf gf\<close>)
    qed (use f new lk in simp)
  qed (use ad in simp_all)
  then have "follows cr js m d ?m d2" using out dur seq by (auto simp: follows_def)
  then show ?thesis ..
qed

lemma refresh_follows:
  assumes wf: "map_wf hash m" and mi: "mirrors m d" and dur: "m_durable m"
    and ad: "session_admits hash (Do_Refresh fresh h now) m"
    and disk: "hash fresh \<notin> g_token_hash ` set (generation_tbl d)"
  shows "\<exists>d'. follows cr js m d (snd (refresh hash fresh h now m)) d'"
proof (cases "refreshable (resolve h now m)")
  case False
  from refresh_denied [OF False] mi have "follows cr js m d (snd (refresh hash fresh h now m)) d"
    by (auto simp: follows_def)
  then show ?thesis ..
next
  case True
  note D = mirrorsD [OF wf mi]
  obtain i e token rotated e' fx meta where
    i: "sid_for_hash h m = Some i" "dget (m_sessions m) i = Some e" and ew: "entry_wf hash (m_policy m) e"
    and al: "e_status e = Alive"
    and re: "refresh_entry hash fresh now (m_policy m) e = Some (token, rotated, e', fx)"
    and r: "refresh hash fresh h now m = (Some (Inr \<lparr>ic_token = token, ic_meta = meta, ic_rotated = rotated\<rparr>),
        persist (UpdateSessionProgress i (e_current_gen e') (e_idle_exp e'))
          (apply_effects fx i (put_entry i e' m)))"
    by (rule refresh_granted [OF wf True, of fresh])
  let ?m = "snd (refresh hash fresh h now m)"
  let ?cs = "effect_commands fx i @ [UpdateSessionProgress i (e_current_gen e') (e_idle_exp e')]"
  have bound: "e_current_gen e + 1 < 2 ^ 32" using ad i by (simp add: entry_for_hash_def)
  have fresh: "hash fresh \<notin> set (all_hashes e)"
    using map_wfD(5) [OF wf, of "hash fresh" i] ad i by (auto simp: hashes_of_def)
  have sel: "m_outbox ?m = m_outbox m @ ?cs" "m_durable ?m" "m_sessions ?m = dinsert i e' (m_sessions m)"
    using dur by (simp_all add: r persist_def apply_effects_outbox)
  note od = D(3) [OF i(2) al] and nd = D(2) [OF i(2)]
  obtain d' where d': "\<And>b. apply_seq cr js ?cs (d, b) = Inr (d', b)" "db_ok d'" "on_disk i e' d'" "nos_distinct e'"
    "\<And>j f. j \<noteq> i \<Longrightarrow> on_disk j f d \<Longrightarrow> set (all_hashes f) \<inter> set (all_hashes e) = {} \<Longrightarrow> on_disk j f d'"
    using refresh_entry_disk [OF D(1) ew al disk fresh bound od nd re] by blast
  have "mirrors ?m d'"
  proof (rule mirrorsI [OF refresh_wf [OF wf] d'(2)])
    fix j f assume f: "dget (m_sessions ?m) j = Some f"
    show "nos_distinct f" using f D(2) d'(4) by (auto simp: sel split: if_splits)
    show "on_disk j f d'" if "e_status f = Alive"
    proof (cases "j = i")
      case False
      with f have "dget (m_sessions m) j = Some f" by (simp add: sel)
      with D(3) [OF this that] hashes_disjoint [OF wf this i(2) False] False show ?thesis by (intro d'(5))
    qed (use f d'(3) sel in simp)
  qed (use ad in \<open>auto split: option.splits\<close>)
  then have "follows cr js m d ?m d'" using sel dur d'(1) by (auto simp: follows_def)
  then show ?thesis ..
qed

text \<open>A sweep enqueues one delete per hash it forgets.\<close>

definition sweep_deletes :: "timestamp \<Rightarrow> session_policy \<Rightarrow> (sid \<times> session_entry) list \<Rightarrow> token_hash list" where
  "sweep_deletes now pol es =
     concat (map (\<lambda>(i, e). if collectible now pol e then [] else fx_purged (snd (reap_generations now pol e))) es)"

lemma sweep_reap_outbox:
  assumes "m_durable m"
  shows "m_durable (fst (sweep_reap now i e m))" "m_policy (fst (sweep_reap now i e m)) = m_policy m"
    and "m_outbox (fst (sweep_reap now i e m)) =
       m_outbox m @ map DeleteGeneration (fx_purged (snd (reap_generations now (m_policy m) e)))"
proof -
  obtain e' fx where r: "reap_generations now (m_policy m) e = (e', fx)" by fastforce
  then have "fx_added fx = None" "fx_superseded fx = None"
    by (auto simp: reap_generations_def Let_def no_effects_def split: prod.splits)
  with r assms show "m_durable (fst (sweep_reap now i e m))"
    "m_policy (fst (sweep_reap now i e m)) = m_policy m"
    "m_outbox (fst (sweep_reap now i e m)) =
       m_outbox m @ map DeleteGeneration (fx_purged (snd (reap_generations now (m_policy m) e)))"
    by (simp_all add: sweep_reap_def apply_effects_outbox effect_commands_def)
qed

lemma sweep_pass_outbox:
  assumes "m_durable m" and "sweep_pass now es (m, retired, removable) = (m', retired', removable')"
  shows "m_durable m' \<and> m_outbox m' = m_outbox m @ map DeleteGeneration (sweep_deletes now (m_policy m) es)"
  using assms
proof (induction es arbitrary: m retired removable)
  case (Cons ie es)
  obtain i e where ie: "ie = (i, e)" by fastforce
  show ?case
  proof (cases "collectible now (m_policy m) e")
    case True
    with Cons.IH [OF Cons.prems(1)] Cons.prems(2) show ?thesis by (simp add: ie sweep_deletes_def)
  next
    case False
    note sr = sweep_reap_outbox [OF Cons.prems(1), of now i e]
    from Cons.IH [OF sr(1)] Cons.prems(2) False sr(2,3) show ?thesis
      by (auto simp: ie sweep_deletes_def split: prod.splits)
  qed
qed (auto simp: sweep_deletes_def)

lemma remove_sessions_outbox:
  "remove_sessions is (m, k) = (m', k') \<Longrightarrow> m_outbox m' = m_outbox m \<and> m_durable m' = m_durable m"
  by (induction "is" "(m, k)" arbitrary: m k rule: remove_sessions.induct)
    (auto split: option.splits)

lemma sweep_outbox:
  assumes "m_durable m"
  shows "m_durable (snd (sweep now m))"
    and "m_outbox (snd (sweep now m)) =
       m_outbox m @ map DeleteGeneration (sweep_deletes now (m_policy m) (m_sessions m))"
  using sweep_pass_outbox [OF assms] remove_sessions_outbox
  by (auto simp: sweep_def split: prod.splits dest!: remove_sessions_outbox)

lemma sweep_follows:
  assumes wf: "map_wf hash m" and mi: "mirrors m d" and dur: "m_durable m"
  shows "\<exists>d'. follows cr js m d (snd (sweep now m)) d'"
proof -
  let ?pol = "m_policy m"
  define hs where "hs = sweep_deletes now ?pol (m_sessions m)"
  let ?d = "fold delete_generation hs d"
  note D = mirrorsD [OF wf mi] and sp = sweep_spec [OF wf, of now]
  have "mirrors (snd (sweep now m)) ?d"
  proof (rule mirrorsI [OF sp(1) fold_delete_sel(3) [OF D(1)]])
    fix i f assume "dget (m_sessions (snd (sweep now m))) i = Some f"
    then obtain e where e: "dget (m_sessions m) i = Some e" "\<not> collectible now ?pol e"
      and f: "f = fst (reap_generations now ?pol e)" by (auto simp: sp(3) split: option.splits if_splits)
    obtain fx where r: "reap_generations now ?pol e = (f, fx)" using f by (metis prod.collapse)
    note ew = map_wfD(4) [OF wf e(1)]
    have len: "length (e_retired e) \<le> retired_memory ?pol" using ew by (simp add: entry_wf_def)
    note rw = reap_generations_wf [OF ew r] and fr = reap_generations_frame [OF len r]
    show "nos_distinct f" by (rule nos_distinct_reap [OF len D(2) [OF e(1)] r])
    have own: "h \<in> set (fx_purged fx)" if "h \<in> set hs" "h \<in> set (all_hashes e)" for h
    proof -
      from that(1) obtain j e2 where j: "dget (m_sessions m) j = Some e2"
        "h \<in> set (fx_purged (snd (reap_generations now ?pol e2)))"
        using map_wfD(1) [OF wf] by (auto simp: hs_def sweep_deletes_def dget_in_set split: if_splits)
      then have "h \<in> set (all_hashes e2)"
        using reap_generations_wf(2) [OF map_wfD(4) [OF wf j(1)], of now] by (metis UnCI prod.collapse)
      then have "j = i" using hashes_disjoint [OF wf j(1) e(1)] that(2) by blast
      with j e(1) r show ?thesis by simp
    qed
    have all: "set (fx_purged fx) \<subseteq> set hs"
      using e r map_wfD(1) [OF wf] by (force simp: hs_def sweep_deletes_def dget_in_set)
    show "on_disk i f ?d" if "e_status f = Alive"
    proof -
      have al: "e_status e = Alive" using that by (simp add: fr)
      note od = D(3) [OF e(1) al]
      have "g_token_hash x \<notin> set hs \<longleftrightarrow> g_token_hash x \<notin> set (fx_purged fx)" if "x \<in> gens_of i d" for x
        using on_disk_hash [OF od that] own all by blast
      then have "gens_of i ?d = {x \<in> gens_of i d. g_token_hash x \<notin> set (fx_purged fx)}"
        by (auto simp: fold_delete_sel)
      with gens_match_reap [OF ew _ r, of i "gens_of i d"] od show ?thesis
        by (simp add: on_disk_def fold_delete_sel row_matches_def fr)
    qed
  qed
  then have "follows cr js m d (snd (sweep now m)) ?d"
    using sweep_outbox [OF dur, of now] dur by (auto simp: follows_def hs_def apply_deletes)
  then show ?thesis ..
qed

end
