(* ===== verification/Broker.thy ===== *)
theory Broker
  imports Write_Behind
begin

text \<open>
  The session map and the writer thread together. Operations of the map enqueue their commands,
  other components enqueue theirs, and the writer takes turns in between, each turn on any
  prefix of the queue. The invariant is what write-behind promises: the queue applies without
  an error, and the store it leads to mirrors the map.
\<close>

section \<open>The machine\<close>

record broker =
  b_map :: session_map
  b_writer :: writer

datatype broker_op = On_Session session_op | On_Store command | Writer_Turn nat

definition hand_over :: "session_map \<Rightarrow> writer \<Rightarrow> broker" where
  "hand_over m w = \<lparr>b_map = m\<lparr>m_outbox := []\<rparr>, b_writer = fold enqueue (m_outbox m) w\<rparr>"

fun broker_step ::
  "(session_token \<Rightarrow> token_hash) \<Rightarrow> crypto \<Rightarrow> json \<Rightarrow> broker_op \<Rightarrow> broker \<Rightarrow> broker" where
  "broker_step hash cr js (On_Session op) s = hand_over (session_step hash op (b_map s)) (b_writer s)"
| "broker_step hash cr js (On_Store c) s = s\<lparr>b_writer := enqueue c (b_writer s)\<rparr>"
| "broker_step hash cr js (Writer_Turn n) s =
     s\<lparr>b_writer := writer_turn cr js (\<lambda>_. False) n (b_writer s)\<rparr>"

text \<open>The store once the queue is drained.\<close>

definition pending_db :: "crypto \<Rightarrow> json \<Rightarrow> writer \<Rightarrow> db" where
  "pending_db cr js w =
     (case apply_seq cr js (w_queue w) (w_db w, no_out) of Inr (d, _) \<Rightarrow> d | Inl _ \<Rightarrow> w_db w)"

text \<open>
  Commands of other components. Only the reaper touches the session and generation tables; its
  cutoff is not past the absolute expiry of a session that is still alive in memory.
\<close>

definition reap_spares :: "timestamp \<Rightarrow> session_map \<Rightarrow> bool" where
  "reap_spares dead_before m \<longleftrightarrow>
     list_all (\<lambda>(i, e). e_status e = Alive \<longrightarrow> dead_before \<le> e_absolute_exp e) (m_sessions m)"

fun other_write :: "session_map \<Rightarrow> command \<Rightarrow> bool" where
  "other_write m (InsertTxn _) = True"
| "other_write m (DeleteExpiredTxns _) = True"
| "other_write m (Custody _ _) = True"
| "other_write m (Admin _ _ _) = True"
| "other_write m (Audit _) = True"
| "other_write m (PruneAudit _) = True"
| "other_write m (Reap dead_before _) = reap_spares dead_before m"
| "other_write m Reseal = True"
| "other_write m Ping = True"
| "other_write m _ = False"

text \<open>
  What the store adds to \<open>session_admits\<close>: a login stores its custody first (and it is still there:
  a reap in between would have removed it) and draws a fresh sid, and a drawn token has a hash no
  row holds.
\<close>

fun disk_admits :: "(session_token \<Rightarrow> token_hash) \<Rightarrow> session_op \<Rightarrow> db \<Rightarrow> bool" where
  "disk_admits hash (Do_Create fresh i c sub now) d \<longleftrightarrow>
     i \<notin> s_sid ` set (session_tbl d) \<and> c \<in> c_custody_id ` set (custody_tbl d) \<and>
     hash fresh \<notin> g_token_hash ` set (generation_tbl d)"
| "disk_admits hash (Do_Refresh fresh h now) d \<longleftrightarrow> hash fresh \<notin> g_token_hash ` set (generation_tbl d)"
| "disk_admits hash (Do_Rehydrate r) d \<longleftrightarrow> False"
| "disk_admits hash _ d \<longleftrightarrow> True"

fun broker_admits ::
  "(session_token \<Rightarrow> token_hash) \<Rightarrow> crypto \<Rightarrow> json \<Rightarrow> broker_op \<Rightarrow> broker \<Rightarrow> bool" where
  "broker_admits hash cr js (On_Session op) s \<longleftrightarrow>
     session_admits hash op (b_map s) \<and> disk_admits hash op (pending_db cr js (b_writer s))"
| "broker_admits hash cr js (On_Store c) s \<longleftrightarrow>
     other_write (b_map s) c \<and> \<not> isl (apply_command cr js c (pending_db cr js (b_writer s), no_out))"
| "broker_admits hash cr js (Writer_Turn n) s \<longleftrightarrow> True"

definition caught_up ::
  "(session_token \<Rightarrow> token_hash) \<Rightarrow> crypto \<Rightarrow> json \<Rightarrow> broker \<Rightarrow> bool" where
  "caught_up hash cr js s \<longleftrightarrow>
     map_wf hash (b_map s) \<and> m_durable (b_map s) \<and> m_outbox (b_map s) = [] \<and>
     w_running (b_writer s) \<and> Shutdown \<notin> set (w_queue (b_writer s)) \<and>
     \<not> isl (apply_seq cr js (w_queue (b_writer s)) (w_db (b_writer s), no_out)) \<and>
     mirrors (b_map s) (pending_db cr js (b_writer s))"

section \<open>Sequences of commands\<close>

lemma apply_command_indep:
  "apply_command cr js c (d, b) = Inr (d', b') \<Longrightarrow> \<exists>b2'. apply_command cr js c (d, b2) = Inr (d', b2')"
  by (cases c) (auto simp: bindE_Inr_iff)

lemma apply_seq_indep:
  "apply_seq cr js cs (d, b) = Inr (d', b') \<Longrightarrow> \<exists>b2'. apply_seq cr js cs (d, b2) = Inr (d', b2')"
proof (induction cs arbitrary: d b b2)
  case (Cons c cs)
  then obtain d1 b1 where 1: "apply_command cr js c (d, b) = Inr (d1, b1)"
    and 2: "apply_seq cr js cs (d1, b1) = Inr (d', b')" by (auto simp: bindE_Inr_iff)
  obtain b2' where "apply_command cr js c (d, b2) = Inr (d1, b2')" using apply_command_indep [OF 1] by blast
  with Cons.IH [OF 2] show ?case by simp
qed simp

lemma pending_db_eq:
  "apply_seq cr js (w_queue w) (w_db w, no_out) = Inr (d, b) \<Longrightarrow> pending_db cr js w = d"
  by (simp add: pending_db_def)

lemma apply_shutdown:
  "apply_seq cr js cs (d, b) = Inr (d', b') \<Longrightarrow> bo_shutdown b' \<longleftrightarrow> bo_shutdown b \<or> Shutdown \<in> set cs"
proof (induction cs arbitrary: d b)
  case (Cons c cs)
  then obtain d1 b1 where 1: "apply_command cr js c (d, b) = Inr (d1, b1)"
    and 2: "apply_seq cr js cs (d1, b1) = Inr (d', b')" by (auto simp: bindE_Inr_iff)
  have "bo_shutdown b1 \<longleftrightarrow> bo_shutdown b \<or> c = Shutdown" using 1 by (cases c) (auto simp: bindE_Inr_iff)
  with Cons.IH [OF 2] show ?case by auto
qed simp

text \<open>More commands at the end of the queue.\<close>

lemma enqueue_all:
  assumes "w_running w"
  shows "w_queue (fold enqueue cs w) = w_queue w @ cs" "w_db (fold enqueue cs w) = w_db w"
    "w_running (fold enqueue cs w)"
proof -
  have "w_queue (fold enqueue cs w) = w_queue w @ cs \<and> w_db (fold enqueue cs w) = w_db w \<and>
      w_running (fold enqueue cs w)"
    using assms by (induction cs arbitrary: w) (simp_all add: enqueue_def)
  then show "w_queue (fold enqueue cs w) = w_queue w @ cs" "w_db (fold enqueue cs w) = w_db w"
    "w_running (fold enqueue cs w)" by auto
qed

lemma pending_extend:
  assumes "w_running w" and q: "apply_seq cr js (w_queue w) (w_db w, no_out) = Inr (d, b)"
    and cs: "apply_seq cr js cs (d, b0) = Inr (d', b0')"
  shows "\<exists>b'. apply_seq cr js (w_queue (fold enqueue cs w)) (w_db (fold enqueue cs w), no_out) = Inr (d', b')"
    and "pending_db cr js (fold enqueue cs w) = d'"
proof -
  obtain b' where "apply_seq cr js cs (d, b) = Inr (d', b')" using apply_seq_indep [OF cs] by blast
  then show 1: "\<exists>b'. apply_seq cr js (w_queue (fold enqueue cs w)) (w_db (fold enqueue cs w), no_out) = Inr (d', b')"
    using q by (simp add: enqueue_all [OF assms(1)] apply_seq_append)
  then show "pending_db cr js (fold enqueue cs w) = d'" using pending_db_eq by blast
qed

section \<open>Each step keeps the promise\<close>

lemma other_write_frame:
  assumes "apply_command cr js c (d, b) = Inr (d', b')" and "other_write m c" and "\<forall>x y. c \<noteq> Reap x y"
  shows "session_tbl d' = session_tbl d \<and> generation_tbl d' = generation_tbl d"
proof (cases c)
  case (Admin w audit k)
  with assms obtain d1 out where "apply_admin cr js w d = Inr (d1, out)"
    and "d' = (case audit of None \<Rightarrow> d1 | Some row \<Rightarrow> insert_audit (tier_a_row w out row) d1)"
    by (auto simp: bindE_Inr_iff)
  with same_sessions_admin [OF this(1)] show ?thesis by (auto simp: insert_audit_def split: option.splits)
next
  case (Custody w k)
  with assms show ?thesis by (cases w) (auto simp: bindE_Inr_iff repo_defs split: if_splits)
next
  case Reseal
  with assms show ?thesis
    by (auto simp: reseal_all_with_def reseal_custody_with_def reseal_signing_keys_with_def reseal_providers_with_def Let_def case_prod_beta)
qed (use assms in \<open>auto simp: bindE_Inr_iff repo_defs Let_def split: if_splits\<close>)

lemma mirrors_frame:
  assumes "mirrors m d" and "db_ok d'" and "session_tbl d' = session_tbl d" "generation_tbl d' = generation_tbl d"
  shows "mirrors m d'"
proof -
  have "on_disk i e d' = on_disk i e d" for i e
    using assms(3,4) by (simp add: on_disk_def sess_def gens_of_def)
  with assms(1,2) show ?thesis by (simp add: mirrors_def)
qed

lemma find_filter_kept: "(\<And>x. x \<in> set xs \<Longrightarrow> P x \<Longrightarrow> Q x) \<Longrightarrow> find P (filter Q xs) = find P xs"
  by (induction xs) auto

text \<open>The reaper leaves every row of a session whose absolute expiry is not past its cutoff.\<close>

lemma mirrors_reaped:
  assumes "mirrors m d" and "reap_spares dead_before m"
  shows "mirrors m (reaped dead_before txn_before d)"
proof -
  let ?d = "reaped dead_before txn_before d"
  have ok: "db_ok d" using assms(1) by (simp add: mirrors_def)
  have "on_disk i e ?d" if on: "on_disk i e d" and abs: "dead_before \<le> e_absolute_exp e" for i e
  proof -
    obtain s where s: "sess i d = Some s" "row_matches e s" and g: "gens_match i e (gens_of i d)"
      using on by (auto simp: on_disk_def)
    then have s': "s \<in> set (session_tbl d)" "s_sid s = i" by (auto simp: sess_def sql_find_def find_Some_iff)
    have "\<not> doomed dead_before s" using s(2) abs by (simp add: doomed_def row_matches_def)
    moreover have inj: "inj_on s_sid (set (session_tbl d))" using ok by (simp add: db_ok_defs distinct_map)
    ultimately have live: "i \<notin> s_sid ` {s \<in> set (session_tbl d). doomed dead_before s}"
      using s' by (auto dest: inj_onD)
    then have "gens_of i ?d = gens_of i d" by (auto simp: gens_of_def reaped_def Let_def)
    moreover have "sess i ?d = Some s"
      using s(1) live unfolding sess_def sql_find_def reaped_def Let_def
      by (simp, subst find_filter_kept) auto
    ultimately show ?thesis using s(2) g by (auto simp: on_disk_def)
  qed
  with assms reaped_ok [OF ok] show ?thesis by (fastforce simp: mirrors_def reap_spares_def list_all_iff)
qed

lemma other_write_mirrors:
  assumes "apply_command cr js c (d, b) = Inr (d', b')" and "other_write m c" and "mirrors m d"
  shows "mirrors m d'"
proof (cases "\<exists>x y. c = Reap x y")
  case True
  with assms(1) obtain x y out where "c = Reap x y" "reap x y d = Inr (d', out)" by (auto simp: bindE_Inr_iff)
  with mirrors_reaped [OF assms(3)] assms(2) show ?thesis by (auto dest: reap_Inr)
next
  case False
  with other_write_frame [OF assms(1,2)] mirrors_frame [OF assms(3)] apply_command_ok [OF assms(1)] assms(3)
  show ?thesis by (auto simp: mirrors_def)
qed

lemma session_step_follows:
  assumes wf: "map_wf hash m" and mi: "mirrors m d" and dur: "m_durable m"
    and ad: "session_admits hash op m" and disk: "disk_admits hash op d"
  shows "\<exists>d'. follows cr js m d (session_step hash op m) d'"
proof (cases op)
  case (Do_Create fresh i c sub now)
  with create_follows [OF wf mi dur, of fresh i c sub now cr js] ad disk show ?thesis by simp
next
  case (Do_Refresh fresh h now)
  with refresh_follows [OF wf mi dur, of fresh h now cr js] ad disk show ?thesis by simp
next
  case (Do_Tombstone i now reason)
  with tombstone_follows [OF wf mi dur] show ?thesis by simp
next
  case (Do_Tombstone_Custody c now)
  with tombstone_each_follows [OF wf mi dur] show ?thesis by (simp add: tombstone_by_custody_def)
next
  case (Do_Set_Custody c st)
  with set_custody_follows [OF wf mi] show ?thesis by (intro exI [of _ d]) simp
next
  case (Do_Sweep now)
  with sweep_follows [OF wf mi dur] show ?thesis by simp
next
  case (Do_Rehydrate r)
  with disk show ?thesis by simp
qed

lemma caught_upD:
  assumes "caught_up hash cr js s"
  obtains d b where "apply_seq cr js (w_queue (b_writer s)) (w_db (b_writer s), no_out) = Inr (d, b)"
    "pending_db cr js (b_writer s) = d" "mirrors (b_map s) d"
proof -
  obtain d b where "apply_seq cr js (w_queue (b_writer s)) (w_db (b_writer s), no_out) = Inr (d, b)"
    using assms unfolding caught_up_def
    by (cases "apply_seq cr js (w_queue (b_writer s)) (w_db (b_writer s), no_out)") auto
  moreover from pending_db_eq [OF this] have "pending_db cr js (b_writer s) = d" .
  moreover from this assms have "mirrors (b_map s) d" unfolding caught_up_def by blast
  ultimately show thesis by (rule that)
qed

lemma session_caught_up:
  assumes cu: "caught_up hash cr js s" and ad: "broker_admits hash cr js (On_Session op) s"
  shows "caught_up hash cr js (broker_step hash cr js (On_Session op) s)"
proof -
  let ?m = "session_step hash op (b_map s)" and ?w = "b_writer s"
  from cu have c: "map_wf hash (b_map s)" "m_durable (b_map s)" "m_outbox (b_map s) = []" "w_running ?w"
    "Shutdown \<notin> set (w_queue ?w)" by (simp_all add: caught_up_def)
  obtain d b where q: "apply_seq cr js (w_queue ?w) (w_db ?w, no_out) = Inr (d, b)" "pending_db cr js ?w = d"
    "mirrors (b_map s) d" by (rule caught_upD [OF cu])
  obtain d' where f: "follows cr js (b_map s) d ?m d'"
    using session_step_follows [OF c(1) q(3) c(2), of op cr js] ad q(2) by auto
  then have cs: "apply_seq cr js (m_outbox ?m) (d, no_out) = Inr (d', no_out)" and m': "mirrors ?m d'" "m_durable ?m"
    using c(2,3) by (auto simp: follows_def)
  have sh: "Shutdown \<notin> set (m_outbox ?m)" using apply_shutdown [OF cs] by (simp add: no_out_def)
  have wf: "map_wf hash ?m" using session_step_wf [OF c(1)] ad by simp
  have "map_wf hash (?m\<lparr>m_outbox := []\<rparr>)" using wf map_wf_cong [of "?m\<lparr>m_outbox := []\<rparr>" ?m hash] by simp
  with pending_extend [OF c(4) q(1) cs] m' sh c enqueue_all [OF c(4), of "m_outbox ?m"] show ?thesis
    by (auto simp: caught_up_def hand_over_def mirrors_def)
qed

lemma store_caught_up:
  assumes cu: "caught_up hash cr js s" and ad: "broker_admits hash cr js (On_Store c) s"
  shows "caught_up hash cr js (broker_step hash cr js (On_Store c) s)"
proof -
  let ?w = "b_writer s"
  from cu have c: "map_wf hash (b_map s)" "m_durable (b_map s)" "m_outbox (b_map s) = []" "w_running ?w"
    "Shutdown \<notin> set (w_queue ?w)" by (simp_all add: caught_up_def)
  obtain d b where q: "apply_seq cr js (w_queue ?w) (w_db ?w, no_out) = Inr (d, b)" "pending_db cr js ?w = d"
    "mirrors (b_map s) d" by (rule caught_upD [OF cu])
  from ad q(2) obtain d' b' where ap: "apply_command cr js c (d, no_out) = Inr (d', b')"
    by (cases "apply_command cr js c (d, no_out)") auto
  then have "apply_seq cr js [c] (d, no_out) = Inr (d', b')" by simp
  note pe = pending_extend [OF c(4) q(1) this]
  have "mirrors (b_map s) d'" using other_write_mirrors [OF ap _ q(3)] ad by simp
  moreover have "c \<noteq> Shutdown" using ad by auto
  ultimately show ?thesis
    using pe c enqueue_all [OF c(4), of "[c]"] by (auto simp: caught_up_def)
qed

lemma turn_caught_up:
  assumes cu: "caught_up hash cr js s"
  shows "caught_up hash cr js (broker_step hash cr js (Writer_Turn n) s)"
proof -
  let ?w = "b_writer s"
  let ?t = "take n (w_queue ?w)" and ?r = "drop n (w_queue ?w)"
  from cu have c: "map_wf hash (b_map s)" "m_durable (b_map s)" "m_outbox (b_map s) = []" "w_running ?w"
    "Shutdown \<notin> set (w_queue ?w)" by (simp_all add: caught_up_def)
  obtain d b where q: "apply_seq cr js (w_queue ?w) (w_db ?w, no_out) = Inr (d, b)" "pending_db cr js ?w = d"
    "mirrors (b_map s) d" by (rule caught_upD [OF cu])
  have "apply_seq cr js (?t @ ?r) (w_db ?w, no_out) = Inr (d, b)" using q(1) by simp
  then obtain d1 b1 where 1: "apply_seq cr js ?t (w_db ?w, no_out) = Inr (d1, b1)"
    and 2: "apply_seq cr js ?r (d1, b1) = Inr (d, b)"
    unfolding apply_seq_append by (auto simp: bindE_Inr_iff)
  have sh: "\<not> bo_shutdown b1"
    using apply_shutdown [OF 1] c(5) in_set_takeD [of Shutdown n] by (auto simp: no_out_def)
  obtain b2 where 3: "apply_seq cr js ?r (d1, no_out) = Inr (d, b2)" using apply_seq_indep [OF 2] by blast
  let ?w' = "writer_turn cr js (\<lambda>_. False) n ?w"
  show ?thesis
  proof (cases "?t = []")
    case True
    with cu show ?thesis by (simp add: writer_turn_def)
  next
    case False
    with c(4) apply_batch_fine [OF 1, of "\<lambda>_. False"] sh
    have w': "w_db ?w' = d1" "w_queue ?w' = ?r" "w_running ?w'"
      by (simp_all add: writer_turn_def Let_def)
    with 3 have "pending_db cr js ?w' = d" by (intro pending_db_eq) simp
    with w' 3 q(3) c show ?thesis
      by (auto simp: caught_up_def dest: in_set_dropD)
  qed
qed

interpretation bk: invariant_machine "broker_step hash cr js" "broker_admits hash cr js" "caught_up hash cr js"
  for hash cr js
proof
  fix e s assume "caught_up hash cr js s" "broker_admits hash cr js e s"
  then show "caught_up hash cr js (broker_step hash cr js e s)"
    by (cases e) (simp_all only: session_caught_up store_caught_up turn_caught_up)
qed

text \<open>
  The guard on the reaper is what \<open>run_reaper\<close> provides: it sweeps the map before it enqueues the
  command, and a sweep forgets a session once it has been expired for the grace period, so with
  \<open>reap_after_secs\<close> at least the grace period no session in memory is past the cutoff.
\<close>

lemma reaper_round_spares:
  assumes "map_wf hash m" and "sane_time now" and "\<forall>(i, e) \<in> set (m_sessions m). sane_time (e_idle_exp e)"
    and "grace_secs (m_policy m) \<le> r"
  shows "reap_spares (now - int r) (snd (sweep now m))"
  unfolding reap_spares_def list_all_iff
proof clarify
  fix i e' assume "(i, e') \<in> set (m_sessions (snd (sweep now m)))" and alive: "e_status e' = Alive"
  then have "dget (m_sessions (snd (sweep now m))) i = Some e'"
    using map_wfD(1) [OF sweep_spec(1) [OF assms(1)]] by (simp add: dget_in_set)
  then obtain e where e: "dget (m_sessions m) i = Some e" "\<not> collectible now (m_policy m) e"
    "e' = fst (reap_generations now (m_policy m) e)"
    unfolding sweep_spec(3) [OF assms(1)] by (auto split: option.splits if_splits)
  have wf: "entry_wf hash (m_policy m) e" by (rule map_wfD(4) [OF assms(1) e(1)])
  have "length (e_retired e) \<le> retired_memory (m_policy m)" using wf by (simp add: entry_wf_def)
  from reap_generations_frame [OF this prod.collapse [symmetric], of now]
  have same: "e_status e = Alive" "e_absolute_exp e' = e_absolute_exp e" using alive e(3) by simp_all
  have sane: "sane_time (e_idle_exp e)" using assms(3) e(1) map_wfD(1) [OF assms(1)] by (auto simp: dget_in_set)
  show "now - int r \<le> e_absolute_exp e'"
  proof (rule ccontr)
    assume "\<not> now - int r \<le> e_absolute_exp e'"
    then have "session_expiry e now (m_policy m) = Some Absolute" "grace_secs (m_policy m) \<le> since now (e_idle_exp e)"
      using same wf assms(4) since_exact [OF assms(2) sane] by (auto simp: session_expiry_def entry_wf_def)
    with e(2) show False by (simp add: collectible_def)
  qed
qed

section \<open>The promise of write-behind\<close>

definition booted :: "session_policy \<Rightarrow> db \<Rightarrow> broker" where
  "booted pol d = \<lparr>b_map = with_durability pol, b_writer = new_writer d\<rparr>"

lemma booted_caught_up:
  assumes "db_ok d"
  shows "caught_up hash cr js (booted pol d)"
proof -
  have "m_sessions (with_durability pol) = []" "m_durable (with_durability pol)" "m_outbox (with_durability pol) = []"
    by (simp_all add: with_durability_def new_map_def)
  with assms map_wf_new(2) show ?thesis
    by (simp add: caught_up_def booted_def new_writer_def pending_db_def mirrors_def)
qed

text \<open>
  C5. Memory and disk agree once the writer has caught up: after any run of session operations,
  of other components' writes (custody, admin, audit, transactions, the reaper, a reseal) and of
  writer turns on any prefixes of the queue, what is still queued applies without an error, and as
  soon as the queue is empty the committed store holds every live session: its row with the current
  generation and both expiries, and exactly its generations, up to remembered retired ones. The
  runs are those the guard \<open>broker_admits\<close> lets through: drawn sids and tokens are fresh, the custody
  of a new session is still in the store, another component's write is one the store accepts, the
  reaper's cutoff spares the sessions alive in memory (\<open>reaper_round_spares\<close>), and no turn meets an
  I/O error: a batch that fails is dropped, and what it carried is not written again. The map starts
  empty; what a restart loads is the subject of \<open>restart_keeps_tokens\<close>.
\<close>

theorem store_catches_up:
  assumes "db_ok d" and "admitted (broker_step hash cr js) (broker_admits hash cr js) ops (booted pol d)"
    and s: "s = run (broker_step hash cr js) ops (booted pol d)"
  shows "\<not> isl (apply_seq cr js (w_queue (b_writer s)) (w_db (b_writer s), no_out)) \<and>
     (w_queue (b_writer s) = [] \<longrightarrow> mirrors (b_map s) (w_db (b_writer s)))"
proof -
  have "caught_up hash cr js s"
    unfolding s by (rule bk.inv_run [OF booted_caught_up [OF assms(1)] assms(2)])
  then show ?thesis by (auto simp: caught_up_def pending_db_def)
qed

text \<open>A login (custody first), the writer keeping up, then a rotation, a round of the reaper and a reseal.\<close>

definition wide_hash :: "session_token \<Rightarrow> token_hash" where
  "wide_hash t = take 32 (bytes_of t @ replicate 32 0)"

definition demo_ops :: "broker_op list" where
  "demo_ops = [On_Store (Custody (Custody_Insert demo_custody) 1), Writer_Turn 1,
     On_Session (Do_Create ''tok1'' ''s1'' ''c1'' ''alice'' 1000), Writer_Turn 1,
     On_Session (Do_Refresh ''tok2'' (wide_hash ''tok1'') 1040), On_Session (Do_Sweep 1050),
     On_Store (Reap (-2600) 450), On_Store Reseal, Writer_Turn 9]"

definition demo_broker :: broker where
  "demo_broker = run (broker_step wide_hash demo_crypto demo_json) demo_ops (booted default_policy (migrated_db 0))"

lemma demo_admitted:
  "admitted (broker_step wide_hash demo_crypto demo_json) (broker_admits wide_hash demo_crypto demo_json)
     demo_ops (booted default_policy (migrated_db 0))"
  by code_simp

lemma demo_drained: "w_queue (b_writer demo_broker) = []"
  by code_simp

theorem store_catches_up_witness: "mirrors (b_map demo_broker) (w_db (b_writer demo_broker))"
  using store_catches_up [OF db_ok_migrated demo_admitted demo_broker_def] demo_drained by simp

end
