(* ===== verification/Restart.thy ===== *)
theory Restart
  imports Broker
begin

text \<open>
  A restart. \<open>rehydrate_sessions\<close> (main.rs) loads the live sessions from the store and restores
  them into an empty map. When the store mirrors the map of the old process, a token that could
  be used before can be used after, with the same resolution.
\<close>

section \<open>rehydrate\_sessions\<close>

definition restored_generation :: "generation_row \<Rightarrow> generation" where
  "restored_generation g =
     \<lparr>gn_gen_no = gr_gen_no g, gn_token_hash = gr_token_hash g, gn_created_at = gr_created_at g,
      gn_active_until = gr_active_until g, gn_superseded_at = gr_superseded_at g\<rparr>"

definition restored_of :: "rehydrated_session \<Rightarrow> restored_session" where
  "restored_of r =
     \<lparr>rs_sid = sr_sid (rh_session r), rs_custody = sr_custody_id (rh_session r),
      rs_sub = sr_sub (rh_session r), rs_current_gen = sr_current_gen (rh_session r),
      rs_idle_exp = sr_idle_exp (rh_session r), rs_absolute_exp = sr_absolute_exp (rh_session r),
      rs_gens = map restored_generation (rh_generations r)\<rparr>"

fun restore_each :: "rehydrated_session list \<Rightarrow> nat \<times> session_map \<Rightarrow> nat \<times> session_map" where
  "restore_each [] acc = acc"
| "restore_each (r # rs) (restored, m) =
     (case rehydrate_session (restored_of r) m of
        (ok, m') \<Rightarrow> restore_each rs (if ok then restored + 1 else restored, m'))"

definition rehydrate_sessions :: "db \<Rightarrow> session_map \<Rightarrow> nat \<times> session_map" where
  "rehydrate_sessions d m =
     (case rehydrate d of Inl e \<Rightarrow> (0, m) | Inr rows \<Rightarrow> restore_each rows (0, m))"

section \<open>Grouping the rows\<close>

text \<open>
  The loop of \<open>rehydrate\<close> relies on the query's order: rows of one session are consecutive, so
  no session is opened twice. For rows in order of the sid, it gives one entry per sid, with
  the generations of that sid in the order of the rows.
\<close>

definition rows_of :: "sid \<Rightarrow> (session_row \<times> generation_row) list \<Rightarrow> generation_row list" where
  "rows_of i rows = map snd (filter (\<lambda>x. sr_sid (fst x) = i) rows)"

definition grouped :: "(session_row \<times> generation_row) list \<Rightarrow> rehydrated_session list \<Rightarrow> bool" where
  "grouped rows out \<longleftrightarrow>
     distinct (map rh_sid out) \<and>
     rh_sid ` set out = (\<lambda>x. sr_sid (fst x)) ` set rows \<and>
     (rows \<noteq> [] \<longrightarrow> out \<noteq> [] \<and> rh_sid (last out) = sr_sid (fst (last rows))) \<and>
     (\<forall>r \<in> set out. rh_generations r = rows_of (rh_sid r) rows \<and> rh_session r \<in> fst ` set rows)"

lemma rows_of_append [simp]:
  "rows_of i (rows @ [y]) = rows_of i rows @ (if sr_sid (fst y) = i then [snd y] else [])"
  by (simp add: rows_of_def)

lemma grouped_push_same:
  assumes g: "grouped rows (os @ [l])" and l: "rh_sid l = sr_sid (fst y)"
  shows "grouped (rows @ [y]) (os @ [l\<lparr>rh_generations := rh_generations l @ [snd y]\<rparr>])"
proof -
  let ?l = "l\<lparr>rh_generations := rh_generations l @ [snd y]\<rparr>"
  from g have d: "distinct (map rh_sid (os @ [l]))"
    and s: "rh_sid ` set (os @ [l]) = (\<lambda>x. sr_sid (fst x)) ` set rows"
    and e: "\<forall>r \<in> set (os @ [l]). rh_generations r = rows_of (rh_sid r) rows \<and> rh_session r \<in> fst ` set rows"
    by (simp_all add: grouped_def)
  have other: "rh_sid r \<noteq> sr_sid (fst y)" if "r \<in> set os" for r
    using d that l by (metis distinct_append distinct_map_append1 imageI)
  show ?thesis
    unfolding grouped_def
  proof (intro conjI impI ballI)
    show "distinct (map rh_sid (os @ [?l]))" using d by simp
    show "rh_sid ` set (os @ [?l]) = (\<lambda>x. sr_sid (fst x)) ` set (rows @ [y])" using s l by auto
    show "rh_sid (last (os @ [?l])) = sr_sid (fst (last (rows @ [y])))" using l by simp
    fix r assume r: "r \<in> set (os @ [?l])"
    show "rh_generations r = rows_of (rh_sid r) (rows @ [y])"
    proof (cases "r = ?l")
      case True
      then show ?thesis using e l by simp
    next
      case False
      with r have "r \<in> set os" by simp
      with e other [OF this] show ?thesis by auto
    qed
    have "rh_session l \<in> fst ` set rows" using e by simp
    then show "rh_session r \<in> fst ` set (rows @ [y])" using r e by (cases "r = ?l") simp_all
  qed simp
qed

lemma grouped_push_new:
  assumes g: "grouped rows out" and new: "\<forall>x \<in> set rows. sr_sid (fst x) \<noteq> sr_sid (fst y)"
  shows "grouped (rows @ [y]) (out @ [\<lparr>rh_session = fst y, rh_generations = [snd y]\<rparr>])"
proof -
  have none: "rows_of (sr_sid (fst y)) rows = []" using new by (simp add: rows_of_def filter_empty_conv)
  have s: "rh_sid ` set out = (\<lambda>x. sr_sid (fst x)) ` set rows" using g by (simp add: grouped_def)
  then have other: "sr_sid (fst y) \<notin> rh_sid ` set out" using new by auto
  then have "rh_sid r \<noteq> sr_sid (fst y)" if "r \<in> set out" for r using that by (metis imageI)
  with g none other show ?thesis by (simp add: grouped_def) blast
qed

lemma grouped_push:
  assumes g: "grouped rows out" and le: "\<forall>x \<in> set rows. sr_sid (fst x) \<le> sr_sid (fst y)"
    and so: "sorted (map (\<lambda>x. sr_sid (fst x)) rows)"
  shows "grouped (rows @ [y]) (push_row y out)"
proof (cases "out \<noteq> [] \<and> rh_sid (last out) = sr_sid (fst y)")
  case True
  then have "grouped rows (butlast out @ [last out])" using g by simp
  from grouped_push_same [OF this] True show ?thesis by (simp add: push_row_def)
next
  case False
  have "sr_sid (fst x) \<noteq> sr_sid (fst y)" if x: "x \<in> set rows" for x
  proof -
    from x have ne: "rows \<noteq> []" by auto
    then have "sr_sid (fst x) \<le> sr_sid (fst (last rows))"
      using so x by (cases rows rule: rev_cases) (auto simp: sorted_append)
    moreover have "sr_sid (fst (last rows)) \<noteq> sr_sid (fst y)" using g False ne by (auto simp: grouped_def)
    moreover have "sr_sid (fst (last rows)) \<le> sr_sid (fst y)" using le ne by simp
    ultimately show ?thesis by auto
  qed
  with grouped_push_new [OF g] False show ?thesis by (auto simp: push_row_def)
qed

lemma grouped_fold:
  "sorted (map (\<lambda>x. sr_sid (fst x)) rows) \<Longrightarrow> grouped rows (fold push_row rows [])"
proof (induction rows rule: rev_induct)
  case Nil
  show ?case by (simp add: grouped_def)
next
  case (snoc y rows)
  then show ?case by (auto simp: sorted_append intro!: grouped_push)
qed

section \<open>What rehydrate returns\<close>

definition hashes_wide :: "db \<Rightarrow> bool" where
  "hashes_wide d \<longleftrightarrow> (\<forall>g \<in> set (generation_tbl d). length (g_token_hash g) = 32)"

definition session_read :: "db_session \<Rightarrow> session_row" where
  "session_read s = \<lparr>sr_sid = s_sid s, sr_custody_id = s_custody_id s, sr_sub = s_sub s,
     sr_current_gen = nat (s_current_gen s mod 2 ^ 32), sr_idle_exp = s_idle_exp s,
     sr_absolute_exp = s_absolute_exp s, sr_status = Alive, sr_created_at = s_created_at s,
     sr_meta = s_meta s\<rparr>"

definition generation_read :: "db_generation \<Rightarrow> generation_row" where
  "generation_read g = \<lparr>gr_token_hash = g_token_hash g, gr_sid = g_sid g,
     gr_gen_no = nat (g_gen_no g mod 2 ^ 32), gr_created_at = g_created_at g,
     gr_active_until = g_active_until g, gr_superseded_at = g_superseded_at g\<rparr>"

lemma set_rehydrate_rows:
  "set (rehydrate_rows d) = {(s, g). s \<in> set (session_tbl d) \<and> s_status s = ''alive'' \<and>
     g \<in> set (generation_tbl d) \<and> g_sid g = s_sid s}"
  by (auto simp: rehydrate_rows_def)

lemma rehydrate_total:
  assumes "hashes_wide d"
  shows "rehydrate d = Inr (fold push_row
     (map (\<lambda>(s, g). (session_read s, generation_read g)) (rehydrate_rows d)) [])"
proof -
  have "mapE (\<lambda>(s, g). bindE (generation_row_of g) (\<lambda>gr. bindE (session_row_of s) (\<lambda>sr. Inr (sr, gr))))
      (rehydrate_rows d) = Inr (map (\<lambda>(s, g). (session_read s, generation_read g)) (rehydrate_rows d))"
  proof (rule mapE_total)
    fix x assume "x \<in> set (rehydrate_rows d)"
    then obtain s g where x: "x = (s, g)" "s_status s = ''alive''" "g \<in> set (generation_tbl d)"
      by (auto simp: set_rehydrate_rows)
    then have "length (g_token_hash g) = 32" using assms by (simp add: hashes_wide_def)
    with x(2) show "(case x of (s, g) \<Rightarrow> bindE (generation_row_of g) (\<lambda>gr. bindE (session_row_of s)
        (\<lambda>sr. Inr (sr, gr)))) = Inr (case x of (s, g) \<Rightarrow> (session_read s, generation_read g))"
      by (simp add: x(1) generation_row_of_def session_row_of_def hash_bytes_from_blob_def
          session_status_from_str_def session_read_def generation_read_def)
  qed
  then show ?thesis by (simp add: rehydrate_def)
qed

lemma sorted_map_fst: "sorted xs \<Longrightarrow> sorted (map fst xs)"
  for xs :: "(string \<times> int) list"
  by (induction xs) (auto simp: less_eq_prod_def)

lemma rehydrate_grouped:
  assumes "hashes_wide d"
  obtains out where "rehydrate d = Inr out"
    "grouped (map (\<lambda>(s, g). (session_read s, generation_read g)) (rehydrate_rows d)) out"
proof -
  have "sorted (map (\<lambda>(s, g). (s_sid s, g_gen_no g)) (rehydrate_rows d))"
    unfolding rehydrate_rows_def by (rule sorted_sort_key)
  then have "sorted (map fst (map (\<lambda>(s, g). (s_sid s, g_gen_no g)) (rehydrate_rows d)))"
    by (rule sorted_map_fst)
  then have "sorted (map (\<lambda>x. sr_sid (fst x))
      (map (\<lambda>(s, g). (session_read s, generation_read g)) (rehydrate_rows d)))"
    by (simp add: comp_def split_def session_read_def)
  from grouped_fold [OF this] rehydrate_total [OF assms] show thesis by (rule that [rotated])
qed

text \<open>The entry of one session: its row and all its generations, whatever else is stored.\<close>

lemma rehydrated_entry:
  assumes ok: "db_ok d" and g: "grouped (map (\<lambda>(s, g). (session_read s, generation_read g)) (rehydrate_rows d)) out"
    and s: "s \<in> set (session_tbl d)" "s_status s = ''alive''" "s_sid s = i" and ne: "gens_of i d \<noteq> {}"
  obtains r where "r \<in> set out" "rh_session r = session_read s"
    "set (rh_generations r) = generation_read ` gens_of i d"
    "\<And>r'. r' \<in> set out \<Longrightarrow> rh_sid r' = i \<Longrightarrow> r' = r"
proof -
  let ?rows = "map (\<lambda>(s, g). (session_read s, generation_read g)) (rehydrate_rows d)"
  have uniq: "s' = s" if "s' \<in> set (session_tbl d)" "s_sid s' = i" for s'
    using ok that s by (auto simp: db_ok_def db_keys_ok_def distinct_map inj_on_def)
  obtain gn where gn: "gn \<in> gens_of i d" using ne by auto
  then have "(s, gn) \<in> set (rehydrate_rows d)" using s by (simp add: set_rehydrate_rows gens_of_def)
  then have "i \<in> (\<lambda>x. sr_sid (fst x)) ` set ?rows" using s(3) by (force simp: session_read_def)
  then have "i \<in> rh_sid ` set out" using g by (simp add: grouped_def)
  then obtain r where r: "r \<in> set out" "rh_sid r = i" by auto
  from g r(1) have gr: "rh_generations r = rows_of i ?rows" and sr: "rh_session r \<in> fst ` set ?rows"
    using r(2) by (auto simp: grouped_def)
  have "rh_session r = session_read s"
  proof -
    from sr obtain s' g' where "(s', g') \<in> set (rehydrate_rows d)" "rh_session r = session_read s'" by auto
    moreover from this r(2) have "s_sid s' = i" by (simp add: session_read_def)
    moreover from calculation(1,3) have "s' = s" using uniq [of s'] by (simp add: set_rehydrate_rows)
    ultimately show ?thesis by simp
  qed
  moreover have "set (rh_generations r) = generation_read ` gens_of i d"
  proof -
    have "set (rows_of i ?rows) = {generation_read g' | s' g'. (s', g') \<in> set (rehydrate_rows d) \<and> s_sid s' = i}"
      by (force simp: rows_of_def session_read_def)
    also have "\<dots> = generation_read ` gens_of i d" using s by (auto simp: set_rehydrate_rows gens_of_def)
    finally show ?thesis by (simp add: gr)
  qed
  moreover have "r' = r" if "r' \<in> set out" "rh_sid r' = i" for r'
    using g r that by (auto simp: grouped_def distinct_map inj_on_def)
  ultimately show thesis using that [OF r(1)] by blast
qed

section \<open>What the restored map holds\<close>

lemma restore_each_spec:
  assumes "restore_each rs (k, m) = (k', m')" and "\<forall>r \<in> set rs. rh_generations r \<noteq> []"
    and "distinct (map rh_sid rs)"
  shows "m_policy m' = m_policy m"
    and "dget (m_sessions m') i = (case List.find (\<lambda>r. rh_sid r = i) rs of
           None \<Rightarrow> dget (m_sessions m) i | Some r \<Rightarrow> Some (restored_entry (restored_of r)))"
    and "dget (m_index m') h = (case List.find (\<lambda>r. h \<in> gr_token_hash ` set (rh_generations r)) (rev rs) of
           None \<Rightarrow> dget (m_index m) h | Some r \<Rightarrow> Some (rh_sid r))"
proof -
  have "m_policy m' = m_policy m \<and>
    dget (m_sessions m') i = (case List.find (\<lambda>r. rh_sid r = i) rs of
           None \<Rightarrow> dget (m_sessions m) i | Some r \<Rightarrow> Some (restored_entry (restored_of r))) \<and>
    dget (m_index m') h = (case List.find (\<lambda>r. h \<in> gr_token_hash ` set (rh_generations r)) (rev rs) of
           None \<Rightarrow> dget (m_index m) h | Some r \<Rightarrow> Some (rh_sid r))"
    using assms
  proof (induction rs arbitrary: k m)
    case (Cons r rs)
    let ?m = "snd (rehydrate_session (restored_of r) m)"
    have ne: "rs_gens (restored_of r) \<noteq> []" using Cons.prems(2) by (simp add: restored_of_def)
    note sel = rehydrate_session_sel [OF ne, of m]
    have hs: "gn_token_hash ` set (rs_gens (restored_of r)) = gr_token_hash ` set (rh_generations r)"
      by (simp add: restored_of_def restored_generation_def image_image)
    have sid: "rs_sid (restored_of r) = rh_sid r" by (simp add: restored_of_def)
    obtain k1 where "restore_each rs (k1, ?m) = (k', m')" using Cons.prems(1) by (auto split: prod.splits)
    from Cons.IH [OF this] Cons.prems(2,3)
    have ih: "m_policy m' = m_policy ?m"
      "dget (m_sessions m') i = (case List.find (\<lambda>r. rh_sid r = i) rs of
           None \<Rightarrow> dget (m_sessions ?m) i | Some r \<Rightarrow> Some (restored_entry (restored_of r)))"
      "dget (m_index m') h = (case List.find (\<lambda>r. h \<in> gr_token_hash ` set (rh_generations r)) (rev rs) of
           None \<Rightarrow> dget (m_index ?m) h | Some r \<Rightarrow> Some (rh_sid r))" by auto
    have "List.find (\<lambda>r. rh_sid r = i) rs = None" if "rh_sid r = i"
      using Cons.prems(3) that by (simp add: find_None_iff) (metis imageI)
    moreover have "List.find p (rev rs @ [r]) = (case List.find p (rev rs) of None \<Rightarrow> if p r then Some r else None
        | Some x \<Rightarrow> Some x)" for p using sql_find_append [of p "rev rs" "[r]"]
      by (simp add: sql_find_def split: option.split)
    ultimately show ?case
      unfolding ih sel hs sid by (auto split: option.split)
  qed simp
  then show "m_policy m' = m_policy m"
    and "dget (m_sessions m') i = (case List.find (\<lambda>r. rh_sid r = i) rs of
           None \<Rightarrow> dget (m_sessions m) i | Some r \<Rightarrow> Some (restored_entry (restored_of r)))"
    and "dget (m_index m') h = (case List.find (\<lambda>r. h \<in> gr_token_hash ` set (rh_generations r)) (rev rs) of
           None \<Rightarrow> dget (m_index m) h | Some r \<Rightarrow> Some (rh_sid r))" by auto
qed

lemma find_unique:
  assumes "x \<in> set xs" and "p x" and "\<And>y. y \<in> set xs \<Longrightarrow> p y \<Longrightarrow> y = x"
  shows "List.find p xs = Some x"
proof (cases "List.find p xs")
  case None
  with assms(1,2) show ?thesis by (auto simp: find_None_iff)
next
  case (Some y)
  then have "y \<in> set xs" "p y" by (auto simp: find_Some_iff)
  with Some assms(3) show ?thesis by simp
qed

text \<open>A generation that is on disk comes back as it was.\<close>

lemma generation_back:
  "gn_gen_no g < 2 ^ 32 \<Longrightarrow> restored_generation (generation_read (gen_row i g)) = g"
  by (simp add: restored_generation_def generation_read_def gen_row_def)

text \<open>
  The restored entry of a session on disk: same keys and expiries, every generation of the old
  entry, and nothing but stored generations.
\<close>

lemma restored_agrees:
  assumes ew: "entry_wf hash pol e" and od: "on_disk i e d" and s: "sess i d = Some s"
    and r: "rh_session r = session_read s" "set (rh_generations r) = generation_read ` gens_of i d"
  shows "e_sid (restored_entry (restored_of r)) = i"
    and "e_current_gen (restored_entry (restored_of r)) = e_current_gen e"
    and "session_expiry e now pol = None \<Longrightarrow> session_expiry (restored_entry (restored_of r)) now pol = None"
    and "set (e_gens e) \<subseteq> set (e_gens (restored_entry (restored_of r)))"
    and "gn_token_hash ` set (e_gens (restored_entry (restored_of r))) = g_token_hash ` gens_of i d"
proof -
  let ?e = "restored_entry (restored_of r)"
  have sid: "s_sid s = i" using s by (auto simp: sess_def dest: sql_find_Some_iff)
  have rm: "row_matches e s" using od s by (simp add: on_disk_def)
  have cur: "e_current_gen e < 2 ^ 32" and gw: "gens_wf (e_current_gen e) (e_gens e)"
    using ew by (simp_all add: entry_wf_def)
  show "e_sid ?e = i" by (simp add: restored_entry_def restored_of_def r session_read_def sid)
  show "e_current_gen ?e = e_current_gen e"
    using rm cur by (simp add: restored_entry_def restored_of_def r session_read_def row_matches_def)
  show "session_expiry ?e now pol = None" if "session_expiry e now pol = None"
    using rm that
    by (auto simp: restored_entry_def restored_of_def r session_read_def row_matches_def session_expiry_def
        split: if_splits)
  have gens: "set (e_gens ?e) = restored_generation ` generation_read ` gens_of i d"
    by (simp add: restored_entry_def restored_of_def r)
  show "set (e_gens e) \<subseteq> set (e_gens ?e)"
  proof
    fix g assume g: "g \<in> set (e_gens e)"
    then have "gen_row i g \<in> gens_of i d" using od by (auto simp: on_disk_def gens_match_def)
    moreover have "gn_gen_no g < 2 ^ 32" using gens_wf_le [OF gw g] cur by simp
    ultimately show "g \<in> set (e_gens ?e)" unfolding gens by (metis generation_back imageI)
  qed
  show "gn_token_hash ` set (e_gens ?e) = g_token_hash ` gens_of i d"
    unfolding gens image_image by (simp add: restored_generation_def generation_read_def)
qed

lemma classify_restored:
  assumes ew: "entry_wf hash pol e" and sid: "e_sid e' = e_sid e" and cur: "e_current_gen e' = e_current_gen e"
    and exp: "session_expiry e now pol = None \<Longrightarrow> session_expiry e' now pol = None"
    and sub: "set (e_gens e) \<subseteq> set (e_gens e')"
    and inj: "inj_on gn_token_hash (set (e_gens e'))"
    and ok: "refreshable (classify e h now pol)"
  shows "classify e' h now pol = classify e h now pol"
proof -
  from ok have n: "session_expiry e now pol = None"
    by (auto simp: classify_def refreshable_def split: option.splits)
  with ok obtain g where g: "List.find (\<lambda>g. gn_token_hash g = h) (e_gens e) = Some g"
    by (auto simp: classify_def refreshable_def split: option.splits)
  then have "g \<in> set (e_gens e')" "gn_token_hash g = h" using sub by (auto simp: find_Some_iff)
  then have "List.find (\<lambda>g. gn_token_hash g = h) (e_gens e') = Some g"
    using inj by (intro find_unique) (auto simp: inj_on_def)
  with g n exp [OF n] sid cur show ?thesis by (simp add: classify_def Let_def)
qed

lemma grouped_distinct: "grouped rows out \<Longrightarrow> distinct (map rh_sid out)"
  by (simp add: grouped_def)

lemma grouped_nonempty:
  assumes "grouped rows out"
  shows "\<forall>r \<in> set out. rh_generations r \<noteq> []"
proof
  fix r assume r: "r \<in> set out"
  then have "rh_sid r \<in> (\<lambda>x. sr_sid (fst x)) ` set rows" using assms by (metis grouped_def imageI)
  then have "rows_of (rh_sid r) rows \<noteq> []" by (force simp: rows_of_def filter_empty_conv)
  then show "rh_generations r \<noteq> []" using assms r by (simp add: grouped_def)
qed

text \<open>A hash is a primary key, so only one restored session can hold it.\<close>

lemma grouped_owner:
  assumes ok: "db_ok d" and g: "grouped (map (\<lambda>(s, g). (session_read s, generation_read g)) (rehydrate_rows d)) out"
    and r: "r \<in> set out" "gr_token_hash x \<in> gr_token_hash ` set (rh_generations r)"
    and x: "x = generation_read gx" "gx \<in> set (generation_tbl d)"
  shows "rh_sid r = g_sid gx"
proof -
  let ?rows = "map (\<lambda>(s, g). (session_read s, generation_read g)) (rehydrate_rows d)"
  have "rh_generations r = rows_of (rh_sid r) ?rows" using g r(1) by (simp add: grouped_def)
  then have gs: "set (rh_generations r) = snd ` {y \<in> set ?rows. sr_sid (fst y) = rh_sid r}"
    by (simp only: rows_of_def set_map set_filter)
  obtain y where y: "y \<in> set ?rows" "sr_sid (fst y) = rh_sid r" "gr_token_hash (snd y) = gr_token_hash x"
    using r(2) unfolding gs image_image by fastforce
  from y(1) obtain s' g' where "y = (session_read s', generation_read g')" "(s', g') \<in> set (rehydrate_rows d)"
    by auto
  then have "g_token_hash g' = g_token_hash gx" "g' \<in> set (generation_tbl d)" "g_sid g' = rh_sid r"
    using y(2,3) by (auto simp: x(1) generation_read_def session_read_def set_rehydrate_rows)
  moreover have "distinct (map g_token_hash (generation_tbl d))" using ok by (simp add: db_ok_def db_keys_ok_def)
  ultimately have "g' = gx" using distinct_key_eq x(2) by metis
  with \<open>g_sid g' = rh_sid r\<close> show ?thesis by simp
qed

lemma restored_distinct:
  assumes ok: "db_ok d" and r: "set (rh_generations r) = generation_read ` gens_of i d"
  shows "inj_on gn_token_hash (set (e_gens (restored_entry (restored_of r))))"
proof -
  have "inj_on g_token_hash (gens_of i d)"
    using ok by (auto simp: db_ok_def db_keys_ok_def distinct_map gens_of_def inj_on_def)
  moreover have "gn_token_hash (restored_generation (generation_read g)) = g_token_hash g" for g
    by (simp add: restored_generation_def generation_read_def)
  ultimately show ?thesis
    by (auto simp: restored_entry_def restored_of_def r inj_on_def)
qed

lemma restart_resolves:
  assumes wf: "map_wf hash m" and mi: "mirrors m d" and wide: "hashes_wide d"
    and ok: "refreshable (resolve h now m)"
  shows "resolve h now (snd (rehydrate_sessions d (with_durability (m_policy m)))) = resolve h now m"
proof -
  let ?pol = "m_policy m" and ?m0 = "with_durability (m_policy m)"
  have dbok: "db_ok d" by (rule mirrorsD(1) [OF wf mi])
  from ok obtain i where i: "sid_for_hash h m = Some i"
    by (auto simp: resolve_def entry_for_hash_def refreshable_def split: option.splits)
  from wf i obtain e where e: "dget (m_sessions m) i = Some e" "h \<in> set (all_hashes e)" "e_sid e = i"
    "entry_wf hash ?pol e" by (rule map_wf_sid_for)
  have c: "refreshable (classify e h now ?pol)" using ok i e(1) by (simp add: resolve_def entry_for_hash_def)
  have al: "e_status e = Alive" using classify_refreshable_alive [OF c] by simp
  note od = mirrorsD(3) [OF wf mi e(1) al]
  obtain s where s: "sess i d = Some s" "row_matches e s" using od by (auto simp: on_disk_def)
  then have st: "s \<in> set (session_tbl d)" "s_sid s = i" "s_status s = ''alive''"
    by (auto simp: sess_def row_matches_def dest: sql_find_Some_iff)
  have hd: "h \<in> gn_token_hash ` set (e_gens e)"
    using c by (auto simp: classify_def refreshable_def find_Some_iff split: option.splits)
  have gd: "gn_token_hash ` set (e_gens e) \<subseteq> g_token_hash ` gens_of i d"
  proof -
    have "gn_token_hash ` set (e_gens e) = g_token_hash ` gen_row i ` set (e_gens e)" by (simp add: image_image)
    also have "\<dots> \<subseteq> g_token_hash ` gens_of i d" using od by (intro image_mono) (simp add: on_disk_def gens_match_def)
    finally show ?thesis .
  qed
  obtain out where out: "rehydrate d = Inr out"
    "grouped (map (\<lambda>(s, g). (session_read s, generation_read g)) (rehydrate_rows d)) out"
    by (rule rehydrate_grouped [OF wide])
  have "gens_of i d \<noteq> {}" using hd gd by auto
  from rehydrated_entry [OF dbok out(2) st(1,3,2) this]
  obtain r where r: "r \<in> set out" "rh_session r = session_read s" "set (rh_generations r) = generation_read ` gens_of i d"
    and ru: "\<And>r'. r' \<in> set out \<Longrightarrow> rh_sid r' = i \<Longrightarrow> r' = r" by blast
  have rs: "rh_sid r = i" by (simp add: r(2) session_read_def st(2))
  obtain k m' where m': "restore_each out (0, ?m0) = (k, m')" by fastforce
  then have rm: "snd (rehydrate_sessions d ?m0) = m'" by (simp add: rehydrate_sessions_def out(1))
  note sp = restore_each_spec [OF m' grouped_nonempty [OF out(2)] grouped_distinct [OF out(2)]]
  let ?e = "restored_entry (restored_of r)"
  note ag = restored_agrees [OF e(4) od s(1) r(2,3)]
  have me: "dget (m_sessions m') i = Some ?e"
    using find_unique [OF r(1), of "\<lambda>r. rh_sid r = i"] rs ru by (simp add: sp(2))
  have mh: "dget (m_index m') h = Some i"
  proof -
    have "List.find (\<lambda>r. h \<in> gr_token_hash ` set (rh_generations r)) (rev out) = Some r"
    proof (rule find_unique)
      show "r \<in> set (rev out)" using r(1) by simp
      show "h \<in> gr_token_hash ` set (rh_generations r)"
        using hd gd by (auto simp: r(3) image_image generation_read_def)
      fix r' assume r': "r' \<in> set (rev out)" "h \<in> gr_token_hash ` set (rh_generations r')"
      from hd gd obtain gx where gx: "gx \<in> gens_of i d" "h = g_token_hash gx" by blast
      then have "rh_sid r' = g_sid gx"
        using r' by (intro grouped_owner [OF dbok out(2), of r' "generation_read gx"])
          (simp_all add: generation_read_def gens_of_def)
      then have "rh_sid r' = i" using gx(1) by (simp add: gens_of_def)
      with r'(1) show "r' = r" by (intro ru) simp_all
    qed
    then show ?thesis by (simp add: sp(3) rs)
  qed
  have inj: "inj_on gn_token_hash (set (e_gens ?e))"
    by (rule restored_distinct [OF dbok r(3)])
  have "classify ?e h now ?pol = classify e h now ?pol"
    using ag e(3) by (intro classify_restored [OF e(4) _ _ _ _ inj c]) simp_all
  then show ?thesis
    unfolding rm using i e(1) me mh sp(1)
    by (simp add: resolve_def entry_for_hash_def sid_for_hash_def) (simp add: with_durability_def new_map_def)
qed

text \<open>
  C6. A restart loses no session: take any run of the broker from a fresh boot whose queue the
  writer has drained. After \<open>rehydrate_sessions\<close> on the store it left, every token the old
  process would have honoured, for a request or for a refresh, resolves to the same generation
  of the same session at every time.
\<close>

theorem restart_keeps_tokens:
  assumes "db_ok d" and "admitted (broker_step hash cr js) (broker_admits hash cr js) ops (booted pol d)"
    and s: "s = run (broker_step hash cr js) ops (booted pol d)"
    and drained: "w_queue (b_writer s) = []" and wide: "hashes_wide (w_db (b_writer s))"
    and ok: "refreshable (resolve h now (b_map s))"
  shows "resolve h now (snd (rehydrate_sessions (w_db (b_writer s)) (with_durability (m_policy (b_map s))))) =
     resolve h now (b_map s)"
proof -
  have cu: "caught_up hash cr js s"
    unfolding s by (rule bk.inv_run [OF booted_caught_up [OF assms(1)] assms(2)])
  then have "map_wf hash (b_map s)" "mirrors (b_map s) (w_db (b_writer s))"
    using drained by (simp_all add: caught_up_def pending_db_def)
  from restart_resolves [OF this wide ok] show ?thesis .
qed

theorem restart_keeps_tokens_witness:
  "resolve (wide_hash ''tok1'') 1060 (snd (rehydrate_sessions (w_db (b_writer demo_broker))
     (with_durability (m_policy (b_map demo_broker))))) = Active ''s1'' 1 False"
proof -
  have "(resolve (wide_hash ''tok1'') 1060 (b_map demo_broker) = Active ''s1'' 1 False) \<and>
      (hashes_wide (w_db (b_writer demo_broker)))" by code_simp
  with restart_keeps_tokens [OF db_ok_migrated demo_admitted demo_broker_def demo_drained, of "wide_hash ''tok1''" 1060]
  show ?thesis by (simp add: refreshable_def)
qed

end
