(* ===== verification/Boot.thy ===== *)
theory Boot
  imports Keepalive Restart
begin

text \<open>
  The parts of \<open>main.rs\<close> that connect the components: restoring the keepalive schedule at boot,
  the keepalive runner's two arms, and the reaper. Process set-up, signal handling, servers and
  sleeps are not modelled.
\<close>

section \<open>restore\_keepalive\_schedule\<close>

definition stampede_spread_secs :: nat where
  "stampede_spread_secs = 30"

text \<open>The loop body: overdue rows are spread over the window by their position.\<close>

definition spread_refresh :: "timestamp \<Rightarrow> nat \<Rightarrow> nat \<Rightarrow> timestamp \<Rightarrow> timestamp" where
  "spread_refresh now n_rows idx next_refresh =
     (if next_refresh \<le> now
      then plus_secs now ((idx * stampede_spread_secs) div max n_rows 1) else next_refresh)"

fun restore_rows ::
  "timestamp \<Rightarrow> nat \<Rightarrow> nat \<Rightarrow> custody_schedule list \<Rightarrow> 'f scheduler \<Rightarrow> 'f scheduler" where
  "restore_rows now n_rows idx [] s = s"
| "restore_rows now n_rows idx (r # rs) s =
     restore_rows now n_rows (idx + 1) rs
       (insert_restored (cs_custody_id r) (cs_status r) (cs_access_exp r)
          (spread_refresh now n_rows idx (cs_next_refresh r)) s)"

definition restore_keepalive_schedule ::
  "timestamp \<Rightarrow> db \<Rightarrow> 'f keepalive_worker \<Rightarrow> nat \<times> 'f keepalive_worker" where
  "restore_keepalive_schedule now d k =
     (case live_custody_schedules d of
        Inl e \<Rightarrow> (0, k)
      | Inr rows \<Rightarrow>
          (length rows, k\<lparr>kw_scheduler := restore_rows now (length rows) 0 rows (kw_scheduler k)\<rparr>))"

section \<open>run\_keepalive and run\_reaper\<close>

record schedule_request =
  sq_custody :: custody_id
  sq_issued_at :: timestamp
  sq_lifetime_secs :: nat

text \<open>The two arms of the runner's \<open>select!\<close>.\<close>

datatype 'f runner_event =
    Incoming schedule_request 'f
  | Idle_Tick timestamp "custody_id list \<Rightarrow> 'f completion list"

fun run_keepalive ::
  "'f f64 \<Rightarrow> (nat \<Rightarrow> string) \<Rightarrow> 'f runner_event \<Rightarrow> 'f keepalive_worker \<Rightarrow> 'f keepalive_worker" where
  "run_keepalive F render (Incoming rq unit) k =
     k\<lparr>kw_scheduler := sched_insert F (sq_custody rq) (sq_issued_at rq) (sq_lifetime_secs rq) unit (kw_scheduler k)\<rparr>"
| "run_keepalive F render (Idle_Tick now join) k = snd (tick F render join now k)"

text \<open>One round of the reaper: the sweep, then the store command behind what the sweep enqueued.\<close>

definition txn_ttl_secs :: nat where
  "txn_ttl_secs = 600"

definition run_reaper :: "nat \<Rightarrow> timestamp \<Rightarrow> session_map \<Rightarrow> session_map" where
  "run_reaper reap_after_secs now m =
     (if reap_after_secs = 0 then m
      else let m1 = snd (sweep now m)
           in m1\<lparr>m_outbox := m_outbox m1 @
                [Reap (wrap_i64 (now - wrap_i64 (int reap_after_secs)))
                      (wrap_i64 (now - wrap_i64 (int txn_ttl_secs)))]\<rparr>)"

end
