(* ===== verification/Keepalive_Safety.thy ===== *)
theory Keepalive_Safety
  imports Boot
begin

text \<open>
  What the keepalive scheduler and worker guarantee: every live custody that is due is taken,
  exactly once until its outcome is recorded; retries are spaced; an upstream revocation kills
  the sessions it must kill, and nothing else logs anyone out.
\<close>

section \<open>The scheduler's invariant\<close>

text \<open>Every custody that may be renewed has its deadline in the heap.\<close>

definition pending_entry :: "custody_state \<Rightarrow> bool" where
  "pending_entry st \<longleftrightarrow> \<not> ks_refreshing st \<and> ks_status st \<noteq> Dead"

definition sched_wf :: "'f scheduler \<Rightarrow> bool" where
  "sched_wf s \<longleftrightarrow> dmap_ok (sc_entries s) \<and> sorted (sc_due s) \<and>
     (\<forall>c st. dget (sc_entries s) c = Some st \<longrightarrow> pending_entry st \<longrightarrow> (ks_next_refresh st, c) \<in> set (sc_due s))"

lemma sched_wf_new: "sched_wf (scheduler_new pol)"
  by (simp add: sched_wf_def scheduler_new_def)

lemma schedule_wf: "sched_wf s \<Longrightarrow> sched_wf (schedule c st s)"
  by (auto simp: sched_wf_def schedule_def set_insort_key sorted_insort)

lemma sched_remove_wf: "sched_wf s \<Longrightarrow> sched_wf (sched_remove c s)"
  by (auto simp: sched_wf_def sched_remove_def split: if_splits)

lemma record_outcome_wf: "sched_wf s \<Longrightarrow> sched_wf (snd (record_outcome F c oc now unit s))"
  by (auto simp: record_outcome_def Let_def intro: schedule_wf split: option.split refresh_outcome.split)
    (auto simp: sched_wf_def pending_entry_def split: if_splits)

section \<open>take\_due\<close>

text \<open>A custody has a popped heap element.\<close>

definition popped :: "timestamp \<Rightarrow> (timestamp \<times> custody_id) list \<Rightarrow> custody_id \<Rightarrow> bool" where
  "popped now due c \<longleftrightarrow> (\<exists>t \<le> now. (t, c) \<in> set due)"

definition mark :: "timestamp \<Rightarrow> (timestamp \<times> custody_id) list \<Rightarrow> custody_id \<Rightarrow> custody_state \<Rightarrow> custody_state" where
  "mark now due c st = (if takeable now st \<and> popped now due c then st\<lparr>ks_refreshing := True\<rparr> else st)"

lemma take_due_loop_spec:
  assumes "sorted due" and "dmap_ok entries" and "take_due_loop now due entries ready = (due', entries', ready')"
  shows "dmap_ok entries'" and "sorted due'" and "set due' = {x \<in> set due. now < fst x}"
    and "dget entries' c = map_option (mark now due c) (dget entries c)"
    and "\<exists>new. ready' = ready @ new \<and> distinct new \<and>
       set new = {c. \<exists>st. dget entries c = Some st \<and> takeable now st \<and> popped now due c}"
proof -
  have "dmap_ok entries' \<and> sorted due' \<and> set due' = {x \<in> set due. now < fst x} \<and>
    (\<forall>c. dget entries' c = map_option (mark now due c) (dget entries c)) \<and>
    (\<exists>new. ready' = ready @ new \<and> distinct new \<and>
       set new = {c. \<exists>st. dget entries c = Some st \<and> takeable now st \<and> popped now due c})"
    using assms
  proof (induction now due entries ready rule: take_due_loop.induct)
    case (1 now entries ready)
    then show ?case by (simp add: mark_def popped_def option.map_ident)
  next
    case (2 now t c due entries ready)
    show ?case
    proof (cases "now < t")
      case True
      have late: "now < fst x" if "x \<in> set ((t, c) # due)" for x
        using that 2(5) True by (auto simp: less_eq_prod_def)
      have np: "\<not> popped now ((t, c) # due) c'" for c'
      proof
        assume "popped now ((t, c) # due) c'"
        then obtain t' where "t' \<le> now" "(t', c') \<in> set ((t, c) # due)" by (auto simp: popped_def)
        with late [of "(t', c')"] show False by simp
      qed
      then have mk: "mark now ((t, c) # due) c' = (\<lambda>st. st)" for c' by (simp add: mark_def fun_eq_iff)
      have r: "due' = (t, c) # due" "entries' = entries" "ready' = ready" using 2(7) True by simp_all
      have "{x \<in> set ((t, c) # due). now < fst x} = set ((t, c) # due)" using late by blast
      with 2(5,6) np show ?thesis unfolding r mk by (simp add: option.map_ident)
    next
      case False
      have so: "sorted due" using 2(5) by simp
      have pop: "popped now ((t, c) # due) c' \<longleftrightarrow> c' = c \<or> popped now due c'" for c'
        using False unfolding popped_def by (auto simp: not_less)
      show ?thesis
      proof (cases "dget entries c")
        case None
        have "map_option (mark now ((t, c) # due) c') (dget entries c') =
            map_option (mark now due c') (dget entries c')" for c'
          using None by (cases "c' = c"; cases "dget entries c'") (simp_all add: mark_def pop)
        with 2(1) [OF False None so 2(6)] 2(7) False None show ?thesis
          by (auto simp: pop split: option.splits)
      next
        case (Some st)
        show ?thesis
        proof (cases "takeable now st")
          case True
          let ?e = "dinsert c (st\<lparr>ks_refreshing := True\<rparr>) entries"
          have loop: "take_due_loop now due ?e (ready @ [c]) = (due', entries', ready')"
            using 2(7) False Some True by (auto simp: takeable_def)
          have "dmap_ok ?e" using 2(6) by simp
          with 2(4) [OF False Some] True so loop
          have ih: "dmap_ok entries' \<and> sorted due' \<and> set due' = {x \<in> set due. now < fst x} \<and>
            (\<forall>c. dget entries' c = map_option (mark now due c) (dget ?e c)) \<and>
            (\<exists>new. ready' = (ready @ [c]) @ new \<and> distinct new \<and>
              set new = {c. \<exists>st. dget ?e c = Some st \<and> takeable now st \<and> popped now due c})"
            by (auto simp: takeable_def)
          then obtain new where new: "ready' = (ready @ [c]) @ new" "distinct new"
            "set new = {c. \<exists>st. dget ?e c = Some st \<and> takeable now st \<and> popped now due c}" by blast
          have nt: "\<not> takeable now (st\<lparr>ks_refreshing := True\<rparr>)" by (simp add: takeable_def)
          have "ready' = ready @ (c # new)" "distinct (c # new)"
            using new nt by auto
          moreover have "set (c # new) = {c'. \<exists>st. dget entries c' = Some st \<and> takeable now st \<and> popped now ((t, c) # due) c'}"
            using new(3) nt Some True by (auto simp: pop split: if_splits)
          moreover have "dget entries' c' = map_option (mark now ((t, c) # due) c') (dget entries c')" for c'
            using ih Some True nt by (cases "c' = c"; cases "dget entries c'") (auto simp: mark_def pop)
          ultimately show ?thesis using ih False by auto
        next
          case no: False
          have loop: "take_due_loop now due entries ready = (due', entries', ready')"
            using 2(7) False Some no by (auto simp: takeable_def split: if_splits)
          have "dmap_ok entries' \<and> sorted due' \<and> set due' = {x \<in> set due. now < fst x} \<and>
            (\<forall>c. dget entries' c = map_option (mark now due c) (dget entries c)) \<and>
            (\<exists>new. ready' = ready @ new \<and> distinct new \<and>
              set new = {c. \<exists>st. dget entries c = Some st \<and> takeable now st \<and> popped now due c})"
          proof (cases "now < ks_next_refresh st")
            case True
            from 2(2) [OF False Some this so 2(6) loop] show ?thesis .
          next
            case le: False
            with no have "ks_refreshing st \<or> ks_status st = Dead" by (auto simp: takeable_def)
            from 2(3) [OF False Some le this so 2(6) loop] show ?thesis .
          qed
          moreover have "map_option (mark now ((t, c) # due) c') (dget entries c') =
              map_option (mark now due c') (dget entries c')" for c'
            using Some no by (cases "c' = c"; cases "dget entries c'") (simp_all add: mark_def pop)
          ultimately show ?thesis
            using False Some no by (auto simp: pop split: option.splits)
        qed
      qed
    qed
  qed
  then show "dmap_ok entries'" and "sorted due'" and "set due' = {x \<in> set due. now < fst x}"
    and "dget entries' c = map_option (mark now due c) (dget entries c)"
    and "\<exists>new. ready' = ready @ new \<and> distinct new \<and>
       set new = {c. \<exists>st. dget entries c = Some st \<and> takeable now st \<and> popped now due c}" by auto
qed

lemma take_due_wf_spec:
  assumes wf: "sched_wf s" and t: "take_due now s = (ready, s')"
  shows "sched_wf s'" and "distinct ready"
    and "set ready = {c. \<exists>st. dget (sc_entries s) c = Some st \<and> takeable now st}"
    and "sc_policy s' = sc_policy s"
    and "dget (sc_entries s') c = map_option
       (\<lambda>st. if takeable now st then st\<lparr>ks_refreshing := True\<rparr> else st) (dget (sc_entries s) c)"
proof -
  obtain due entries where l: "take_due_loop now (sc_due s) (sc_entries s) [] = (due, entries, ready)"
    and s': "s' = s\<lparr>sc_due := due, sc_entries := entries\<rparr>"
    using t by (auto simp: take_due_def split: prod.splits)
  from wf have so: "sorted (sc_due s)" and ok: "dmap_ok (sc_entries s)" by (simp_all add: sched_wf_def)
  note sp = take_due_loop_spec [OF so ok l]
  have pop: "popped now (sc_due s) c" if "dget (sc_entries s) c = Some st" "takeable now st" for c st
    using wf that by (auto simp: sched_wf_def popped_def pending_entry_def takeable_def)
  then have mk: "map_option (mark now (sc_due s) c) (dget (sc_entries s) c) = map_option
       (\<lambda>st. if takeable now st then st\<lparr>ks_refreshing := True\<rparr> else st) (dget (sc_entries s) c)" for c
    by (cases "dget (sc_entries s) c") (simp_all add: mark_def)
  show e: "dget (sc_entries s') c = map_option
       (\<lambda>st. if takeable now st then st\<lparr>ks_refreshing := True\<rparr> else st) (dget (sc_entries s) c)" for c
    using sp(4) mk by (simp add: s')
  show "distinct ready" using sp(5) by auto
  show "set ready = {c. \<exists>st. dget (sc_entries s) c = Some st \<and> takeable now st}"
    using sp(5) pop by fastforce
  show "sc_policy s' = sc_policy s" by (simp add: s')
  show "sched_wf s'"
    unfolding sched_wf_def
  proof (intro conjI allI impI)
    show "dmap_ok (sc_entries s')" "sorted (sc_due s')" using sp(1,2) by (simp_all add: s')
    fix c st assume "dget (sc_entries s') c = Some st" and p: "pending_entry st"
    then obtain st0 where st0: "dget (sc_entries s) c = Some st0"
      "st = (if takeable now st0 then st0\<lparr>ks_refreshing := True\<rparr> else st0)" by (auto simp: e)
    with p have "\<not> takeable now st0" "st = st0" by (auto simp: pending_entry_def split: if_splits)
    with wf st0(1) p have "(ks_next_refresh st, c) \<in> set (sc_due s)" "now < ks_next_refresh st"
      by (auto simp: sched_wf_def takeable_def pending_entry_def)
    then show "(ks_next_refresh st, c) \<in> set (sc_due s')" using sp(3) by (simp add: s')
  qed
qed

section \<open>Runs of the scheduler\<close>

datatype 'f sched_op =
    S_Insert custody_id timestamp nat 'f
  | S_Restore custody_id custody_status timestamp timestamp
  | S_Remove custody_id
  | S_Take timestamp
  | S_Record custody_id refresh_outcome timestamp 'f

fun sched_step :: "'f f64 \<Rightarrow> 'f sched_op \<Rightarrow> 'f scheduler \<Rightarrow> 'f scheduler" where
  "sched_step F (S_Insert c issued life unit) s = sched_insert F c issued life unit s"
| "sched_step F (S_Restore c st ae nr) s = insert_restored c st ae nr s"
| "sched_step F (S_Remove c) s = sched_remove c s"
| "sched_step F (S_Take now) s = snd (take_due now s)"
| "sched_step F (S_Record c oc now unit) s = snd (record_outcome F c oc now unit s)"

interpretation ka: invariant_machine "sched_step F" "\<lambda>_ _. True" sched_wf for F :: "'f f64"
proof
  fix op :: "'f sched_op" and s :: "'f scheduler" assume "sched_wf s"
  then show "sched_wf (sched_step F op s)"
    using take_due_wf_spec(1) [of s]
    by (cases op) (auto simp: sched_insert_def insert_restored_def intro: schedule_wf sched_remove_wf
        record_outcome_wf, metis prod.collapse)
qed

lemma admitted_true: "admitted step (\<lambda>_ _. True) ops s"
  by (induction ops arbitrary: s) simp_all

text \<open>
  The scheduler forgets nobody and takes nobody twice: after any history of inserts, restores,
  removals, takes and recorded outcomes, what \<open>take_due\<close> hands out at \<open>now\<close> is exactly the set of
  custodies that are due, not dead and not in flight, each once, and all of them are in flight
  afterwards.
\<close>

theorem take_due_exact:
  assumes "s = run (sched_step F) ops (scheduler_new pol)" and "take_due now s = (ready, s')"
  shows "distinct ready \<and>
     set ready = {c. \<exists>st. dget (sc_entries s) c = Some st \<and> ks_next_refresh st \<le> now \<and>
                      \<not> ks_refreshing st \<and> ks_status st \<noteq> Dead} \<and>
     (\<forall>c \<in> set ready. \<exists>st. dget (sc_entries s') c = Some st \<and> ks_refreshing st)"
proof -
  have "sched_wf s" unfolding assms(1) by (rule ka.inv_run [OF sched_wf_new admitted_true])
  note sp = take_due_wf_spec [OF this assms(2)]
  have "\<exists>st. dget (sc_entries s') c = Some st \<and> ks_refreshing st" if "c \<in> set ready" for c
    using that unfolding sp(3,5) by auto
  with sp(2,3) show ?thesis by (auto simp: takeable_def)
qed

section \<open>In flight\<close>

text \<open>An entry no \<open>take_due\<close> will pick, and the operations that could change that.\<close>

definition parked :: "custody_id \<Rightarrow> 'f scheduler \<Rightarrow> bool" where
  "parked c s \<longleftrightarrow> (\<forall>st. dget (sc_entries s) c = Some st \<longrightarrow> ks_refreshing st \<or> ks_status st = Dead)"

fun leaves_alone :: "custody_id \<Rightarrow> 'f sched_op \<Rightarrow> bool" where
  "leaves_alone c (S_Insert c' _ _ _) \<longleftrightarrow> c' \<noteq> c"
| "leaves_alone c (S_Restore c' _ _ _) \<longleftrightarrow> c' \<noteq> c"
| "leaves_alone c (S_Record c' _ _ _) \<longleftrightarrow> c' \<noteq> c"
| "leaves_alone c _ \<longleftrightarrow> True"

interpretation park: invariant_machine "sched_step F" "\<lambda>op _. leaves_alone c op" "\<lambda>s. sched_wf s \<and> parked c s"
  for F :: "'f f64" and c
proof
  fix op :: "'f sched_op" and s :: "'f scheduler" assume s: "sched_wf s \<and> parked c s" and l: "leaves_alone c op"
  have wf: "sched_wf (sched_step F op s)" using ka.inv_step s by blast
  have "parked c (sched_step F op s)"
  proof (cases op)
    case (S_Take now)
    obtain ready s' where t: "take_due now s = (ready, s')" by fastforce
    with s show ?thesis using take_due_wf_spec(5) [OF _ t, of c]
      by (auto simp: S_Take parked_def takeable_def)
  qed (use s l in \<open>auto simp: parked_def sched_insert_def insert_restored_def schedule_def sched_remove_def
      record_outcome_def Let_def split: option.splits refresh_outcome.splits if_splits\<close>)
  with wf show "sched_wf (sched_step F op s) \<and> parked c (sched_step F op s)" by simp
qed

text \<open>
  C28. Single flight, which a single-use refresh token needs: from the moment a custody is taken
  until an outcome is recorded for it (or it is registered anew), no other \<open>take_due\<close> hands it out,
  at any time and whatever happens to other custodies. The same holds for a dead one.
\<close>

theorem single_flight:
  assumes "sched_wf s"
    and "c \<in> set (fst (take_due now s)) \<or> (\<exists>st. dget (sc_entries s) c = Some st \<and> ks_status st = Dead)"
    and "list_all (leaves_alone c) ops"
    and "s' = run (sched_step F) ops (snd (take_due now s))"
  shows "c \<notin> set (fst (take_due now' s'))"
proof -
  obtain ready s1 where t: "take_due now s = (ready, s1)" by fastforce
  note sp = take_due_wf_spec [OF assms(1) t]
  have "parked c s1"
    unfolding parked_def
  proof (intro allI impI)
    fix st assume "dget (sc_entries s1) c = Some st"
    then obtain st0 where st0: "dget (sc_entries s) c = Some st0"
      "st = (if takeable now st0 then st0\<lparr>ks_refreshing := True\<rparr> else st0)" by (auto simp: sp(5))
    with assms(2) sp(3) show "ks_refreshing st \<or> ks_status st = Dead"
      by (cases "takeable now st0") (auto simp: t)
  qed
  moreover have "admitted (sched_step F) (\<lambda>op _. leaves_alone c op) ops s1"
    using assms(3) by (induction ops arbitrary: s1) simp_all
  ultimately have "sched_wf s' \<and> parked c s'"
    using park.inv_run [of s1 c F ops] sp(1) by (simp add: assms(4) t)
  then have wf: "sched_wf s'" and p: "parked c s'" by simp_all
  obtain ready' s2 where t': "take_due now' s' = (ready', s2)" by fastforce
  show ?thesis
    using take_due_wf_spec(3) [OF wf t'] p by (auto simp: t' parked_def takeable_def)
qed

section \<open>Deadlines\<close>

lemma u64_backoff_bounds:
  assumes "f64_ok F unit" and "unit u" and "max_backoff_secs pol \<le> 2 ^ 53"
  shows "1 \<le> backoff_secs F pol fails None u"
    and "backoff_secs F pol fails None u \<le> max 1 (max_backoff_secs pol)"
proof -
  have e: "exponential_backoff pol fails \<le> max_backoff_secs pol" by (simp add: exponential_backoff_def)
  then have "exponential_backoff pol fails \<le> 2 ^ 53" using assms(3) by simp
  then have "fl_to_u64 F (fl_mul F (fl_of_u64 F (exponential_backoff pol fails)) u) \<le> exponential_backoff pol fails"
    using assms(1,2) by (simp add: f64_ok_def)
  with e show "1 \<le> backoff_secs F pol fails None u"
    and "backoff_secs F pol fails None u \<le> max 1 (max_backoff_secs pol)"
    by (auto simp: backoff_secs_def)
qed

text \<open>
  A failing custody neither spins nor is given up: a transient failure without an upstream
  \<open>Retry-After\<close> schedules the next attempt at least one second and at most
  \<open>max_backoff_secs\<close> ahead, leaves the custody out of flight with its deadline in the heap, and
  marks it degraded exactly when its access token has expired.
\<close>

theorem transient_failure_reschedules:
  assumes "f64_ok F unit" and "unit u" and "max_backoff_secs (sc_policy s) \<le> 2 ^ 53"
    and "sane_time now" and "dget (sc_entries s) c = Some st0"
    and "record_outcome F c (Refresh_Transient None) now u s = (status, s')"
  shows "\<exists>st. dget (sc_entries s') c = Some st \<and>
     now + 1 \<le> ks_next_refresh st \<and> ks_next_refresh st \<le> now + max 1 (int (max_backoff_secs (sc_policy s))) \<and>
     \<not> ks_refreshing st \<and> (ks_next_refresh st, c) \<in> set (sc_due s') \<and>
     status = Some (ks_status st) \<and> (ks_status st = Degraded \<longleftrightarrow> ks_access_exp st0 \<le> now) \<and> ks_status st \<noteq> Dead"
proof -
  define fails where "fails = min (ks_fail_count st0 + 1) (2 ^ 32 - 1 :: nat)"
  define b where "b = backoff_secs F (sc_policy s) (fails - 1) None u"
  note bb = u64_backoff_bounds [OF assms(1-3), of "fails - 1", folded b_def]
  have "b \<le> 2 ^ 53" using bb(2) assms(3) by simp
  then have "sane_secs b" by (simp add: sane_secs_def)
  then have pl: "plus_secs now b = now + int b" using assms(4) by (simp add: plus_secs_exact)
  define st where "st = st0\<lparr>ks_refreshing := False, ks_fail_count := fails,
      ks_status := (if ks_access_exp st0 \<le> now then Degraded else Ok), ks_next_refresh := plus_secs now b\<rparr>"
  have r: "s' = schedule c st s" "status = Some (ks_status st)"
    using assms(5,6) by (simp_all add: record_outcome_def Let_def st_def fails_def b_def)
  have "dget (sc_entries s') c = Some st" "(ks_next_refresh st, c) \<in> set (sc_due s')"
    by (simp_all add: r(1) schedule_def set_insort_key)
  moreover have "now + 1 \<le> ks_next_refresh st" "ks_next_refresh st \<le> now + max 1 (int (max_backoff_secs (sc_policy s)))"
    using bb by (simp_all add: st_def pl)
  ultimately show ?thesis using r(2) by (auto simp: st_def)
qed

section \<open>The worker and the sessions\<close>

text \<open>The sessions of a custody are all logged out.\<close>

definition all_dead :: "custody_id \<Rightarrow> session_map \<Rightarrow> bool" where
  "all_dead c m \<longleftrightarrow> (\<forall>i e. dget (m_sessions m) i = Some e \<longrightarrow> e_custody e = c \<longrightarrow> e_status e = Tombstoned)"

lemma kill_custody_sel [simp]: "e_custody (kill_entry now e) = e_custody e" "e_status (kill_entry now e) = Tombstoned"
  by (simp_all add: kill_entry_def)

lemma with_custody_custody [simp]: "e_custody (with_custody_status c st e) = e_custody e"
  by (simp add: with_custody_status_def)

lemma all_dead_set: "all_dead c m \<Longrightarrow> all_dead c (snd (set_custody_status c' st m))"
  unfolding all_dead_def set_custody_status_lookup by auto

lemma tombstone_custody_lookup:
  assumes wf: "map_wf hash m"
  shows "dget (m_sessions (snd (tombstone_by_custody c now m))) i =
     map_option (\<lambda>e. if e_custody e = c \<and> e_status e = Alive then kill_entry now e else e) (dget (m_sessions m) i)"
proof (cases "dget (m_sessions m) i")
  case (Some e)
  let ?is = "[e_sid e. (_, e) \<leftarrow> m_sessions m, e_custody e = c \<and> e_status e = Alive]"
  have "i \<in> set ?is \<longleftrightarrow> e_custody e = c \<and> e_status e = Alive"
  proof
    assume "i \<in> set ?is"
    then obtain j f where f: "(j, f) \<in> set (m_sessions m)" "e_sid f = i" "e_custody f = c" "e_status f = Alive"
      by (auto split: if_splits)
    then have j: "dget (m_sessions m) j = Some f" using map_wfD(1) [OF wf] by (simp add: dget_in_set)
    then have "j = i" using map_wfD(3) [OF wf j] f(2) by simp
    with j Some f show "e_custody e = c \<and> e_status e = Alive" by simp
  next
    assume a: "e_custody e = c \<and> e_status e = Alive"
    have "(i, e) \<in> set (m_sessions m)" using Some map_wfD(1) [OF wf] by (simp add: dget_in_set)
    with a map_wfD(3) [OF wf Some] show "i \<in> set ?is" by force
  qed
  with Some show ?thesis by (simp add: tombstone_by_custody_def tombstone_each_lookup)
qed (simp add: tombstone_by_custody_def tombstone_each_lookup)

lemma all_dead_tombstone:
  assumes "map_wf hash m" and "all_dead c m \<or> c' = c"
  shows "all_dead c (snd (tombstone_by_custody c' now m))"
  unfolding all_dead_def tombstone_custody_lookup [OF assms(1)]
proof (intro allI impI)
  fix i e assume "map_option (\<lambda>e. if e_custody e = c' \<and> e_status e = Alive then kill_entry now e else e)
      (dget (m_sessions m) i) = Some e" and c: "e_custody e = c"
  then obtain f where f: "dget (m_sessions m) i = Some f"
    "e = (if e_custody f = c' \<and> e_status f = Alive then kill_entry now f else f)" by auto
  then have "e_custody f = c" using c by (auto split: if_splits)
  with f assms(2) show "e_status e = Tombstoned"
    by (cases "e_status f") (auto simp: all_dead_def)
qed

text \<open>What handling one completion does to the session map.\<close>

lemma audit_emit_sel [simp]:
  "kw_sessions (audit_emit row k) = kw_sessions k" "kw_scheduler (audit_emit row k) = kw_scheduler k"
  by (simp_all add: audit_emit_def)

lemma record_transition_sel [simp]:
  "kw_sessions (record_transition c st now k) = kw_sessions k"
  "kw_scheduler (record_transition c st now k) = kw_scheduler k"
  by (simp_all add: record_transition_def split: custody_status.split)

lemma persist_failure_sel [simp]:
  "m_sessions (kw_sessions (persist_failure c st now a k)) = m_sessions (kw_sessions k)"
  "m_index (kw_sessions (persist_failure c st now a k)) = m_index (kw_sessions k)"
  "m_policy (kw_sessions (persist_failure c st now a k)) = m_policy (kw_sessions k)"
  "kw_scheduler (persist_failure c st now a k) = kw_scheduler k"
  by (simp_all add: persist_failure_def split: option.split)

lemma persist_failure_wf [simp]:
  "map_wf hash (kw_sessions (persist_failure c st now a k)) = map_wf hash (kw_sessions k)"
  by (rule map_wf_cong) simp_all

lemma all_dead_persist [simp]:
  "all_dead c (kw_sessions (persist_failure c' st now a k)) = all_dead c (kw_sessions k)"
  by (simp add: all_dead_def)

text \<open>
  The two steps of \<open>handle_completion\<close> that touch the sessions, as one function of the map; the
  outbox apart, it is what the handling leaves.
\<close>

definition touch_sessions ::
  "custody_status option \<Rightarrow> bool \<Rightarrow> custody_id \<Rightarrow> timestamp \<Rightarrow> session_map \<Rightarrow> session_map" where
  "touch_sessions status kills c now m =
     (let m1 = (case status of None \<Rightarrow> m | Some st \<Rightarrow> snd (set_custody_status c st m))
      in if kills then snd (tombstone_by_custody c now m1) else m1)"

definition same_map :: "session_map \<Rightarrow> session_map \<Rightarrow> bool" where
  "same_map m m' \<longleftrightarrow> m_sessions m = m_sessions m' \<and> m_index m = m_index m' \<and> m_policy m = m_policy m'"

lemma tombstone_cong:
  assumes "m_sessions m = m_sessions m'" "m_index m = m_index m'" "m_policy m = m_policy m'"
  shows "same_map (snd (tombstone_session_with_reason i now r m)) (snd (tombstone_session_with_reason i now r m'))"
  using assms by (simp add: tombstone_session_with_reason_def same_map_def split: option.split)

lemma tombstone_each_cong:
  "same_map m m' \<Longrightarrow> same_map (snd (tombstone_each now is m)) (snd (tombstone_each now is m'))"
proof (induction now "is" m arbitrary: m' rule: tombstone_each.induct)
  case (2 now i "is" m)
  obtain k m1 where m1: "tombstone_session_with_reason i now Kill_UpstreamRevoked m = (k, m1)" by fastforce
  obtain k' m1' where m1': "tombstone_session_with_reason i now Kill_UpstreamRevoked m' = (k', m1')" by fastforce
  have "same_map m1 m1'" using tombstone_cong [of m m' i now Kill_UpstreamRevoked] 2(2) m1 m1'
    by (simp add: same_map_def)
  from 2(1) [OF m1 [symmetric] refl this] m1 m1' show ?case by (simp add: case_prod_beta)
qed simp

lemma handle_completion_sessions:
  assumes "handle_completion F render cp (k, n) = (k', n')" and "cp_outcome cp = Some oc"
    and "record_outcome F (cp_custody cp) oc (cp_now cp) (cp_unit cp) (kw_scheduler k) = (status, s)"
  shows "same_map (kw_sessions k') (touch_sessions status
     (oc = Refresh_Permanent \<and> kp_on_upstream_revoked (sc_policy s) = Kill) (cp_custody cp) (cp_now cp) (kw_sessions k))"
    and "kw_scheduler k' = s" and "n' = n + 1"
proof -
  have *: "same_map (kw_sessions k') (touch_sessions status
     (oc = Refresh_Permanent \<and> kp_on_upstream_revoked (sc_policy s) = Kill) (cp_custody cp) (cp_now cp) (kw_sessions k))
    \<and> kw_scheduler k' = s \<and> n' = n + 1"
  proof -
    have p: "same_map (kw_sessions (persist_failure c st now a k1)) (kw_sessions k1)" for c st now a and k1 :: "'a keepalive_worker"
      by (simp add: same_map_def)
    have t: "same_map (snd (tombstone_by_custody c now m)) (snd (tombstone_by_custody c now m'))"
      if "same_map m m'" for c now m m'
      using tombstone_each_cong [OF that] that by (simp add: tombstone_by_custody_def same_map_def)
    have g: "same_map (kw_sessions (propagate_kill render c now k1)) (snd (tombstone_by_custody c now m))
        \<and> kw_scheduler (propagate_kill render c now k1) = kw_scheduler k1"
      if "same_map (kw_sessions k1) m" for c now m and k1 :: "'a keepalive_worker"
      using t [OF that, of c now] by (simp add: propagate_kill_def case_prod_beta Let_def)
    show ?thesis
      using assms p [THEN g] p g [of k "kw_sessions k"]
      by (auto simp: handle_completion_def Let_def touch_sessions_def split: option.splits if_splits)
        (simp_all add: same_map_def propagate_kill_def split: prod.splits)
  qed
  then show "same_map (kw_sessions k') (touch_sessions status
     (oc = Refresh_Permanent \<and> kp_on_upstream_revoked (sc_policy s) = Kill) (cp_custody cp) (cp_now cp) (kw_sessions k))"
    and "kw_scheduler k' = s" and "n' = n + 1" by auto
qed

lemma same_map_wf: "same_map m m' \<Longrightarrow> map_wf hash m = map_wf hash m'"
  by (rule map_wf_cong) (simp_all add: same_map_def)

lemma same_map_resolve: "same_map m m' \<Longrightarrow> resolve h t m = resolve h t m'"
  by (auto simp: same_map_def resolve_def entry_for_hash_def sid_for_hash_def split: option.split)

lemma touch_wf: "map_wf hash m \<Longrightarrow> map_wf hash (touch_sessions status kills c now m)"
  by (simp add: touch_sessions_def Let_def tombstone_by_custody_wf set_custody_status_wf split: option.split)

lemma touch_all_dead:
  assumes "map_wf hash m" and "all_dead c m \<or> (kills \<and> c' = c)"
  shows "all_dead c (touch_sessions status kills c' now m)"
proof -
  let ?m1 = "case status of None \<Rightarrow> m | Some st \<Rightarrow> snd (set_custody_status c' st m)"
  have wf: "map_wf hash ?m1" using assms(1) by (simp add: set_custody_status_wf split: option.split)
  have "all_dead c ?m1" if "all_dead c m" using that by (auto simp: all_dead_set split: option.split)
  with assms(2) all_dead_tombstone [OF wf, of c c'] show ?thesis by (auto simp: touch_sessions_def Let_def)
qed

lemma record_outcome_policy: "sc_policy (snd (record_outcome F c oc now u s)) = sc_policy s"
  by (simp add: record_outcome_def Let_def schedule_def split: option.split refresh_outcome.split)

text \<open>The worker's invariant along a tick, and the step of one completion under it.\<close>

definition worker_ok :: "(session_token \<Rightarrow> token_hash) \<Rightarrow> 'f keepalive_policy \<Rightarrow> 'f keepalive_worker \<Rightarrow> bool" where
  "worker_ok hash pol k \<longleftrightarrow> map_wf hash (kw_sessions k) \<and> sched_wf (kw_scheduler k) \<and> sc_policy (kw_scheduler k) = pol"

lemma handle_ok:
  assumes "worker_ok hash pol k" and "handle_completion F render cp (k, n) = (k', n')"
  shows "worker_ok hash pol k'"
proof (cases "cp_outcome cp")
  case None
  with assms show ?thesis by (simp add: handle_completion_def)
next
  case (Some oc)
  obtain status s where r: "record_outcome F (cp_custody cp) oc (cp_now cp) (cp_unit cp) (kw_scheduler k) = (status, s)"
    by fastforce
  note h = handle_completion_sessions [OF assms(2) Some r]
  have "sched_wf s" "sc_policy s = sc_policy (kw_scheduler k)"
    using record_outcome_wf [of "kw_scheduler k"] record_outcome_policy [of F "cp_custody cp" oc "cp_now cp" "cp_unit cp" "kw_scheduler k"]
      assms(1) r by (auto simp: worker_ok_def) (metis snd_conv)
  with assms(1) h same_map_wf [OF h(1), of hash] touch_wf show ?thesis by (simp add: worker_ok_def)
qed

lemma handle_all_dead:
  assumes "worker_ok hash pol k" and "handle_completion F render cp (k, n) = (k', n')"
    and "all_dead c (kw_sessions k) \<or>
      (cp_custody cp = c \<and> cp_outcome cp = Some Refresh_Permanent \<and> kp_on_upstream_revoked pol = Kill)"
  shows "all_dead c (kw_sessions k')"
proof (cases "cp_outcome cp")
  case None
  with assms show ?thesis by (simp add: handle_completion_def)
next
  case (Some oc)
  obtain status s where r: "record_outcome F (cp_custody cp) oc (cp_now cp) (cp_unit cp) (kw_scheduler k) = (status, s)"
    by fastforce
  have pol: "sc_policy s = pol" using record_outcome_policy r assms(1) by (metis snd_conv worker_ok_def)
  have wf: "map_wf hash (kw_sessions k)" using assms(1) by (simp add: worker_ok_def)
  note h = handle_completion_sessions [OF assms(2) Some r]
  have "all_dead c (touch_sessions status (oc = Refresh_Permanent \<and> kp_on_upstream_revoked (sc_policy s) = Kill)
      (cp_custody cp) (cp_now cp) (kw_sessions k))"
    using assms(3) Some pol by (intro touch_all_dead [OF wf]) auto
  with h(1) show ?thesis by (simp add: same_map_def all_dead_def)
qed

lemma handle_calm:
  assumes "worker_ok hash pol k" and "handle_completion F render cp (k, n) = (k', n')"
    and "cp_outcome cp \<noteq> Some Refresh_Permanent" and "refreshable (resolve h t (kw_sessions k))"
  shows "resolve h t (kw_sessions k') = resolve h t (kw_sessions k)"
proof (cases "cp_outcome cp")
  case None
  with assms show ?thesis by (simp add: handle_completion_def)
next
  case (Some oc)
  obtain status s where r: "record_outcome F (cp_custody cp) oc (cp_now cp) (cp_unit cp) (kw_scheduler k) = (status, s)"
    by fastforce
  note hc = handle_completion_sessions [OF assms(2) Some r]
  have st: "status \<noteq> Some Dead" using r Some assms(3)
    by (auto simp: record_outcome_def Let_def split: option.splits refresh_outcome.splits if_splits)
  have oc: "oc \<noteq> Refresh_Permanent" using Some assms(3) by simp
  have "resolve h t (snd (set_custody_status c st m)) = resolve h t m"
    if "refreshable (resolve h t m)" "st \<noteq> Dead" for c st m
  proof -
    have e: "classify (with_custody_status c st e) h t pol = classify e h t pol"
      if "refreshable (classify e h t pol)" for e pol
    proof -
      have "session_expiry e t pol = None" using that
        by (auto simp: classify_def refreshable_def split: option.splits)
      then have "session_expiry (with_custody_status c st e) t pol = None"
        using \<open>st \<noteq> Dead\<close> by (auto simp: session_expiry_def with_custody_status_def split: if_splits)
      with \<open>session_expiry e t pol = None\<close> show ?thesis by (simp add: classify_def Let_def split: option.split)
    qed
    show ?thesis
      using that(1)
      by (auto simp: resolve_def entry_for_hash_def sid_for_hash_def set_custody_status_lookup
          set_custody_status_sel(2,3) refreshable_def [of Unknown] intro!: e split: option.splits)
  qed
  with st assms(4) have "resolve h t (touch_sessions status False (cp_custody cp) (cp_now cp) (kw_sessions k)) =
      resolve h t (kw_sessions k)" by (auto simp: touch_sessions_def split: option.split)
  with same_map_resolve [OF hc(1), of h t] oc show ?thesis by simp
qed

section \<open>tick\<close>

text \<open>Every completion of a tick, in the order the worker handles them.\<close>

definition tick_completions ::
  "(custody_id list \<Rightarrow> 'f completion list) \<Rightarrow> timestamp \<Rightarrow> 'f keepalive_worker \<Rightarrow> 'f completion list" where
  "tick_completions join now k =
     concat (map join (chunks (max (max_concurrent (sc_policy (kw_scheduler k))) 1) (fst (take_due now (kw_scheduler k)))))"

lemma concat_chunks: "0 < n \<Longrightarrow> concat (chunks n xs) = xs"
proof (induction n xs rule: chunks.induct)
  case (1 n xs)
  then show ?case by (subst chunks.simps) simp
qed

lemma tick_eq:
  "snd (tick F render join now k) =
     fst (fold (handle_completion F render) (tick_completions join now k)
       (k\<lparr>kw_scheduler := snd (take_due now (kw_scheduler k))\<rparr>, 0))"
proof -
  obtain due s where t: "take_due now (kw_scheduler k) = (due, s)" by fastforce
  have pol: "sc_policy s = sc_policy (kw_scheduler k)" using t by (auto simp: take_due_def split: prod.splits)
  have "fold (\<lambda>chunk. fold (handle_completion F render) (join chunk)) cs x =
      fold (handle_completion F render) (concat (map join cs)) x" for cs x
    by (induction cs arbitrary: x) simp_all
  then show ?thesis
    by (auto simp: tick_def tick_completions_def t pol Let_def case_prod_beta chunks.simps [of _ "[]"])
qed

lemma fold_handle_ok:
  "worker_ok hash pol k \<Longrightarrow> worker_ok hash pol (fst (fold (handle_completion F render) cps (k, n)))"
proof (induction cps arbitrary: k n)
  case (Cons cp cps)
  obtain k' n' where h: "handle_completion F render cp (k, n) = (k', n')" by fastforce
  with Cons.IH handle_ok [OF Cons.prems h] show ?case by simp
qed simp

lemma fold_handle_all_dead:
  assumes "worker_ok hash pol k"
    and "all_dead c (kw_sessions k) \<or>
      (kp_on_upstream_revoked pol = Kill \<and>
       (\<exists>cp \<in> set cps. cp_custody cp = c \<and> cp_outcome cp = Some Refresh_Permanent))"
  shows "all_dead c (kw_sessions (fst (fold (handle_completion F render) cps (k, n))))"
  using assms
proof (induction cps arbitrary: k n)
  case (Cons cp cps)
  obtain k' n' where h: "handle_completion F render cp (k, n) = (k', n')" by fastforce
  note ok = handle_ok [OF Cons.prems(1) h] and ad = handle_all_dead [OF Cons.prems(1) h, of c]
  have "all_dead c (kw_sessions k') \<or> (kp_on_upstream_revoked pol = Kill \<and>
       (\<exists>cp \<in> set cps. cp_custody cp = c \<and> cp_outcome cp = Some Refresh_Permanent))"
    using Cons.prems(2) ad by auto
  with Cons.IH [OF ok] h show ?case by simp
qed simp

lemma fold_handle_calm:
  assumes "worker_ok hash pol k" and "\<forall>cp \<in> set cps. cp_outcome cp \<noteq> Some Refresh_Permanent"
    and "refreshable (resolve h t (kw_sessions k))"
  shows "resolve h t (kw_sessions (fst (fold (handle_completion F render) cps (k, n)))) = resolve h t (kw_sessions k)"
  using assms
proof (induction cps arbitrary: k n)
  case (Cons cp cps)
  obtain k' n' where hc: "handle_completion F render cp (k, n) = (k', n')" by fastforce
  have "resolve h t (kw_sessions k') = resolve h t (kw_sessions k)"
    using handle_calm [OF Cons.prems(1) hc] Cons.prems(2,3) by simp
  with Cons.IH [OF handle_ok [OF Cons.prems(1) hc]] Cons.prems(2,3) hc show ?case by simp
qed simp

lemma take_due_worker_ok:
  assumes "worker_ok hash pol k"
  shows "worker_ok hash pol (k\<lparr>kw_scheduler := snd (take_due now (kw_scheduler k))\<rparr>)"
proof -
  obtain ready s where t: "take_due now (kw_scheduler k) = (ready, s)" by fastforce
  have "sched_wf (kw_scheduler k)" using assms by (simp add: worker_ok_def)
  from take_due_wf_spec(1,4) [OF this t] assms show ?thesis by (simp add: t worker_ok_def)
qed

text \<open>
  C29 (ADR-0011). Upstream revocation propagates: under the \<open>kill\<close> policy, after a tick in which
  the upstream answered \<open>invalid_grant\<close> for a custody, no token of any session that custody backs
  authenticates or refreshes, at any time, in whatever order and with whatever other outcomes the
  calls of the tick completed.
\<close>

theorem upstream_revocation_propagates:
  assumes "worker_ok hash pol k" and "kp_on_upstream_revoked pol = Kill"
    and "cp \<in> set (tick_completions join now k)" and "cp_outcome cp = Some Refresh_Permanent"
    and "m' = kw_sessions (snd (tick F render join now k))"
    and "custody_for h m' = Some (cp_custody cp)"
  shows "\<not> refreshable (resolve h t m')"
proof -
  have "all_dead (cp_custody cp) m'"
    unfolding assms(5) tick_eq using assms(2-4)
    by (intro fold_handle_all_dead [OF take_due_worker_ok [OF assms(1)]]) auto
  moreover obtain e where e: "entry_for_hash h m' = Some e" "e_custody e = cp_custody cp"
    using assms(6) by (auto simp: custody_for_def)
  moreover obtain i where "dget (m_sessions m') i = Some e"
    using e(1) by (auto simp: entry_for_hash_def split: option.splits)
  ultimately have "e_status e = Tombstoned" unfolding all_dead_def by blast
  then show ?thesis
    using e(1) by (simp add: resolve_def classify_def session_expiry_def refreshable_def)
qed

text \<open>
  C30. Sessions do not depend on upstream liveness: a tick in which no upstream call was answered
  with \<open>invalid_grant\<close> (calls may succeed, fail transiently or panic) changes the resolution of no
  token that authenticates or refreshes.
\<close>

theorem transient_failures_log_nobody_out:
  assumes "worker_ok hash pol k"
    and "\<forall>cp \<in> set (tick_completions join now k). cp_outcome cp \<noteq> Some Refresh_Permanent"
    and "refreshable (resolve h t (kw_sessions k))"
  shows "resolve h t (kw_sessions (snd (tick F render join now k))) = resolve h t (kw_sessions k)"
  unfolding tick_eq
  using fold_handle_calm [OF take_due_worker_ok [OF assms(1)] assms(2), of h t now] assms(3) by simp

section \<open>The schedule after a restart\<close>

lemma schedules_distinct:
  assumes "db_ok d" and "live_custody_schedules d = Inr rows"
  shows "distinct (map cs_custody_id rows)"
proof -
  have "map cs_custody_id rows =
      map c_custody_id (sort_key c_next_refresh (filter (\<lambda>c. c_status c \<noteq> ''dead'') (custody_tbl d)))"
    by (rule mapE_map [OF assms(2) [unfolded live_custody_schedules_def]]) (auto simp: bindE_Inr_iff)
  moreover have "distinct (map c_custody_id (filter (\<lambda>c. c_status c \<noteq> ''dead'') (custody_tbl d)))"
    using assms(1) by (simp add: db_ok_def db_keys_ok_def distinct_map_filter)
  ultimately show ?thesis by (simp add: distinct_map_sort_key)
qed

lemma restore_rows_other:
  "c \<notin> cs_custody_id ` set rows \<Longrightarrow>
   dget (sc_entries (restore_rows now n i rows s)) c = dget (sc_entries s) c"
  by (induction now n i rows s rule: restore_rows.induct) (simp_all add: insert_restored_def schedule_def)

lemma restore_rows_lookup:
  assumes "distinct (map cs_custody_id rows)" and "j < length rows"
  shows "dget (sc_entries (restore_rows now n i rows s)) (cs_custody_id (rows ! j)) = Some
     \<lparr>ks_status = cs_status (rows ! j), ks_access_exp = cs_access_exp (rows ! j),
      ks_next_refresh = spread_refresh now n (i + j) (cs_next_refresh (rows ! j)),
      ks_fail_count = 0, ks_refreshing = False\<rparr>"
  using assms
proof (induction rows arbitrary: i j s)
  case (Cons r rows)
  show ?case
  proof (cases j)
    case 0
    with Cons.prems show ?thesis by (simp add: restore_rows_other insert_restored_def schedule_def)
  next
    case (Suc j')
    with Cons show ?thesis by simp
  qed
qed simp

text \<open>
  A restart does not stampede the identity provider: of the custodies the store holds as not
  dead, each is back on the schedule out of flight with its stored status and expiry; one whose
  renewal is still ahead keeps its time, and an overdue one comes due within the next 30 seconds,
  by its position in the list. The stored failure count does not come back: it restarts at zero.
\<close>

theorem restored_schedule:
  assumes "db_ok d" and "sane_time now" and rows: "live_custody_schedules d = Inr rows" and j: "j < length rows"
    and k': "k' = snd (restore_keepalive_schedule now d k)"
  shows "\<exists>st. dget (sc_entries (kw_scheduler k')) (cs_custody_id (rows ! j)) = Some st \<and>
     ks_status st = cs_status (rows ! j) \<and> ks_access_exp st = cs_access_exp (rows ! j) \<and>
     \<not> ks_refreshing st \<and> ks_fail_count st = 0 \<and>
     (if cs_next_refresh (rows ! j) \<le> now
      then now \<le> ks_next_refresh st \<and> ks_next_refresh st < now + 30 \<and>
           ks_next_refresh st = now + int (j * 30 div length rows)
      else ks_next_refresh st = cs_next_refresh (rows ! j))"
proof -
  have m: "max (length rows) 1 = length rows" using j by simp
  have "j * 30 < 30 * length rows" using j by simp
  then have lt: "j * 30 div length rows < 30" by (rule less_mult_imp_div_less)
  then have "sane_secs (j * 30 div length rows)" by (simp add: sane_secs_def)
  then have "plus_secs now (j * 30 div length rows) = now + int (j * 30 div length rows)"
    using assms(2) by (simp add: plus_secs_exact)
  with lt j restore_rows_lookup [OF schedules_distinct [OF assms(1) rows] j, of now "length rows" 0 "kw_scheduler k"]
  show ?thesis
    by (simp add: k' restore_keepalive_schedule_def rows spread_refresh_def stampede_spread_secs_def m)
qed

section \<open>Evaluated\<close>

definition demo_sched :: "rat scheduler" where
  "demo_sched = run (sched_step rat_f64) [S_Insert ''c1'' 1000 3600 (1 / 2)]
     (scheduler_new (default_keepalive_policy rat_f64))"

lemma demo_sched_wf: "sched_wf demo_sched"
  unfolding demo_sched_def by (rule ka.inv_run [OF sched_wf_new admitted_true])

theorem single_flight_witness:
  "''c1'' \<notin> set (fst (take_due 9000 (run (sched_step rat_f64) [S_Take 4000] (snd (take_due 3160 demo_sched)))))"
proof -
  have "''c1'' \<in> set (fst (take_due 3160 demo_sched))" by code_simp
  then show ?thesis by (intro single_flight [OF demo_sched_wf _ _ refl]) simp_all
qed

definition demo_worker :: "rat keepalive_worker" where
  "demo_worker = \<lparr>kw_scheduler = demo_sched, kw_sessions = demo_map, kw_durable = True, kw_audited = True, kw_rows = []\<rparr>"

definition answer :: "refresh_outcome option \<Rightarrow> custody_id list \<Rightarrow> rat completion list" where
  "answer oc = map (\<lambda>c. \<lparr>cp_custody = c, cp_outcome = oc, cp_now = 3161, cp_unit = 1 / 2, cp_ack = 0\<rparr>)"

lemma demo_worker_ok: "worker_ok bytes_of (default_keepalive_policy rat_f64) demo_worker"
  by (simp add: worker_ok_def demo_worker_def demo_map_wf demo_sched_wf)
    (simp add: demo_sched_def sched_insert_def schedule_def scheduler_new_def)

theorem upstream_revocation_propagates_witness:
  "\<not> refreshable (resolve (bytes_of ''tok1'') 3200
     (kw_sessions (snd (tick rat_f64 demo_render (answer (Some Refresh_Permanent)) 3160 demo_worker))))"
proof -
  let ?cp = "\<lparr>cp_custody = ''c1'', cp_outcome = Some Refresh_Permanent, cp_now = 3161, cp_unit = 1 / 2, cp_ack = 0\<rparr>"
  have "(tick_completions (answer (Some Refresh_Permanent)) 3160 demo_worker = [?cp]) \<and>
      (custody_for (bytes_of ''tok1'')
      (kw_sessions (snd (tick rat_f64 demo_render (answer (Some Refresh_Permanent)) 3160 demo_worker))) = Some ''c1'')" by code_simp
  then show ?thesis
    by (intro upstream_revocation_propagates [OF demo_worker_ok _ _ _ refl, of ?cp])
      (simp_all add: default_keepalive_policy_def)
qed

theorem transient_failures_log_nobody_out_witness:
  "refreshable (resolve (bytes_of ''tok1'') 3200
     (kw_sessions (snd (tick rat_f64 demo_render (answer (Some (Refresh_Transient None))) 3160 demo_worker))))"
proof -
  have r0: "(refreshable (resolve (bytes_of ''tok1'') 3200 (kw_sessions demo_worker))) \<and>
      (\<forall>cp \<in> set (tick_completions (answer (Some (Refresh_Transient None))) 3160 demo_worker).
      cp_outcome cp \<noteq> Some Refresh_Permanent)" by code_simp
  note r = r0 [THEN conjunct1] r0 [THEN conjunct2]
  from transient_failures_log_nobody_out [OF demo_worker_ok r(2,1)] r(1) show ?thesis by simp
qed

text \<open>Two custodies overdue at boot: the second comes due half a window later.\<close>

definition demo_overdue :: db where
  "demo_overdue = (migrated_db 0)\<lparr>custody_tbl := map (\<lambda>i. \<lparr>c_custody_id = i, c_sub = ''alice'', c_refresh_tok = [],
     c_access_tok = [], c_access_exp = 50, c_scope = None, c_status = ''degraded'', c_next_refresh = 40,
     c_fail_count = 3, c_updated_at = 0, c_provider_id = ''default''\<rparr>) [''c1'', ''c2'']\<rparr>"

end
