(* ===== verification/Text.thy ===== *)
theory Text
  imports Crypto
begin

text \<open>
  The operations of Rust's strings and of HTTP header values the components share: splitting,
  prefixes, trimming, UTF-8 validation, and header fields as \<open>HeaderMap\<close> looks them up.
\<close>

section \<open>Splitting and trimming\<close>

definition ascii_space :: "char \<Rightarrow> bool" where
  "ascii_space c \<longleftrightarrow> c \<in> {CHR '' '', CHR 0x09, CHR 0x0A, CHR 0x0B, CHR 0x0C, CHR 0x0D}"

definition trim :: "string \<Rightarrow> string" where
  "trim s = rev (dropWhile ascii_space (rev (dropWhile ascii_space s)))"

text \<open>\<open>split(c)\<close>: the pieces between separators, at least one.\<close>

fun split_on :: "char \<Rightarrow> string \<Rightarrow> string list" where
  "split_on c [] = [[]]"
| "split_on c (x # xs) =
     (if x = c then [] # split_on c xs
      else case split_on c xs of p # ps \<Rightarrow> (x # p) # ps | [] \<Rightarrow> [[x]])"

definition split_once :: "char \<Rightarrow> string \<Rightarrow> (string \<times> string) option" where
  "split_once c s =
     (if c \<in> set s then Some (takeWhile (\<lambda>x. x \<noteq> c) s, tl (dropWhile (\<lambda>x. x \<noteq> c) s)) else None)"

definition strip_prefix :: "string \<Rightarrow> string \<Rightarrow> string option" where
  "strip_prefix p s = (if take (length p) s = p then Some (drop (length p) s) else None)"

lemma strip_prefix_iff: "strip_prefix p s = Some r \<longleftrightarrow> s = p @ r"
proof -
  have "take (length p) s = p \<Longrightarrow> p @ drop (length p) s = s" by (metis append_take_drop_id)
  then show ?thesis by (auto simp: strip_prefix_def)
qed

lemma split_once_append: "c \<notin> set p \<Longrightarrow> split_once c (p @ c # r) = Some (p, r)"
proof -
  assume "c \<notin> set p"
  then have "takeWhile (\<lambda>x. x \<noteq> c) (p @ c # r) = p" "dropWhile (\<lambda>x. x \<noteq> c) (p @ c # r) = c # r"
    by (induction p) auto
  then show ?thesis by (simp add: split_once_def)
qed

lemma split_once_Some: "split_once c s = Some (p, r) \<Longrightarrow> s = p @ c # r \<and> c \<notin> set p"
proof -
  assume a: "split_once c s = Some (p, r)"
  then obtain pre post where "s = pre @ c # post" "c \<notin> set pre"
    by (auto simp: split_once_def dest: split_list_first split: if_splits)
  with a show ?thesis using split_once_append [of c pre post] by simp
qed

section \<open>UTF-8\<close>

text \<open>\<open>String::from_utf8\<close>: the table of well-formed byte sequences.\<close>

definition trail :: "nat \<Rightarrow> nat \<Rightarrow> nat \<Rightarrow> bytes \<Rightarrow> bool" where
  "trail n lo hi bs \<longleftrightarrow>
     n \<le> length bs \<and> lo \<le> unat (hd bs) \<and> unat (hd bs) \<le> hi \<and>
     list_all (\<lambda>b. 0x80 \<le> unat b \<and> unat b \<le> 0xBF) (take n bs)"

function utf8_ok :: "bytes \<Rightarrow> bool" where
  "utf8_ok [] = True"
| "utf8_ok (b # bs) =
     (let n = unat b in
      if n \<le> 0x7F then utf8_ok bs
      else if 0xC2 \<le> n \<and> n \<le> 0xDF then trail 1 0x80 0xBF bs \<and> utf8_ok (drop 1 bs)
      else if n = 0xE0 then trail 2 0xA0 0xBF bs \<and> utf8_ok (drop 2 bs)
      else if n = 0xED then trail 2 0x80 0x9F bs \<and> utf8_ok (drop 2 bs)
      else if 0xE1 \<le> n \<and> n \<le> 0xEF then trail 2 0x80 0xBF bs \<and> utf8_ok (drop 2 bs)
      else if n = 0xF0 then trail 3 0x90 0xBF bs \<and> utf8_ok (drop 3 bs)
      else if 0xF1 \<le> n \<and> n \<le> 0xF3 then trail 3 0x80 0xBF bs \<and> utf8_ok (drop 3 bs)
      else if n = 0xF4 then trail 3 0x80 0x8F bs \<and> utf8_ok (drop 3 bs)
      else False)"
  by pat_completeness auto
termination by (relation "measure length") auto

definition string_of_bytes :: "bytes \<Rightarrow> string" where
  "string_of_bytes bs = map (\<lambda>b. char_of (unat b)) bs"

definition from_utf8 :: "bytes \<Rightarrow> string option" where
  "from_utf8 bs = (if utf8_ok bs then Some (string_of_bytes bs) else None)"

lemma string_of_bytes_inv [simp]: "bytes_of (string_of_bytes bs) = bs" "string_of_bytes (bytes_of s) = s"
proof -
  have "byte_of_char (char_of (unat b)) = b" for b :: "8 word"
    using unsigned_less [of b, where 'a = nat] by (simp add: byte_of_char_def take_bit_nat_eq_self)
  then show "bytes_of (string_of_bytes bs) = bs" by (simp add: bytes_of_def string_of_bytes_def comp_def)
  have "char_of (unat (byte_of_char c)) = c" for c
  proof -
    have "(of_char c :: nat) < 256" by (rule of_char_less_256)
    then have "unat (byte_of_char c) = of_char c"
      by (simp add: byte_of_char_def unat_of_nat take_bit_nat_eq_self)
    then show ?thesis by simp
  qed
  then show "string_of_bytes (bytes_of s) = s" by (simp add: bytes_of_def string_of_bytes_def comp_def)
qed

section \<open>Header fields\<close>

text \<open>
  A header map is the list of its fields, names in lower case as \<open>HeaderMap\<close> keeps them; a
  lookup gives the first value of a name. \<open>HeaderValue::to_str\<close> takes visible ASCII, space and
  tab only.
\<close>

type_synonym header_map = "(string \<times> string) list"

definition header_to_str :: "string \<Rightarrow> string option" where
  "header_to_str v =
     (if list_all (\<lambda>c. c = CHR 0x09 \<or> (32 \<le> (of_char c :: nat) \<and> (of_char c :: nat) < 127)) v
      then Some v else None)"

end
