(* ===== verification/Rate_Limit.thy ===== *)
theory Rate_Limit
  imports Text
begin

text \<open>
  \<open>ratelimit.rs\<close>: the keyed token bucket and the choice of the key. Instants and durations are
  nanoseconds of the monotonic clock. The \<open>u64\<close> arithmetic is written out: the casts from \<open>u128\<close>
  truncate, the products saturate, and a quota of burst zero underflows.
\<close>

section \<open>The limiter\<close>

record quota =
  q_burst :: nat
  q_per :: nat

definition quota_new :: "nat \<Rightarrow> nat \<Rightarrow> quota" where
  "quota_new burst per_secs = \<lparr>q_burst = burst, q_per = per_secs * 1000000000\<rparr>"

datatype decision = Allow | Deny nat

fun is_allowed :: "decision \<Rightarrow> bool" where
  "is_allowed Allow = True"
| "is_allowed (Deny _) = False"

record bucket =
  bk_tokens :: nat
  bk_last :: nat

definition scale :: nat where
  "scale = 1000000"

record limiter =
  li_quota :: quota
  li_buckets :: "(string, bucket) dmap"
  li_capacity :: nat
  li_poisoned :: bool

definition limiter_new :: "quota \<Rightarrow> nat \<Rightarrow> limiter" where
  "limiter_new q capacity =
     \<lparr>li_quota = q, li_buckets = [], li_capacity = max capacity 1, li_poisoned = False\<rparr>"

definition tracked :: "limiter \<Rightarrow> nat" where
  "tracked l = (if li_poisoned l then 0 else length (li_buckets l))"

definition capacity_tokens :: "quota \<Rightarrow> nat" where
  "capacity_tokens q = q_burst q * scale"

definition per_nanos :: "quota \<Rightarrow> nat" where
  "per_nanos q = max (q_per q) 1 mod 2 ^ 64"

definition refill :: "quota \<Rightarrow> nat \<Rightarrow> bucket \<Rightarrow> nat" where
  "refill q now b = sat_u64 ((now - bk_last b) mod 2 ^ 64 * capacity_tokens q) div per_nanos q"

definition topped :: "quota \<Rightarrow> nat \<Rightarrow> bucket \<Rightarrow> nat" where
  "topped q now b = (bk_tokens b + refill q now b) mod 2 ^ 64"

text \<open>\<open>check_at\<close> on a key that is tracked, and on a new one.\<close>

definition spend :: "quota \<Rightarrow> nat \<Rightarrow> bucket \<Rightarrow> decision \<times> bucket" where
  "spend q now b =
     (let tokens = min (topped q now b) (capacity_tokens q)
      in if scale \<le> tokens then (Allow, \<lparr>bk_tokens = tokens - scale, bk_last = now\<rparr>)
         else let wait = sat_u64 ((scale - tokens) * per_nanos q) div max (capacity_tokens q) 1
              in (Deny (max wait 1), \<lparr>bk_tokens = tokens, bk_last = now\<rparr>))"

definition spending :: "quota \<Rightarrow> nat \<Rightarrow> bucket \<Rightarrow> bool" where
  "spending q now b \<longleftrightarrow> topped q now b < capacity_tokens q"

definition check_at :: "string \<Rightarrow> nat \<Rightarrow> limiter \<Rightarrow> decision \<times> limiter" where
  "check_at key now l =
     (if li_poisoned l then (Allow, l)
      else let q = li_quota l in
        (case dget (li_buckets l) key of
           Some b \<Rightarrow>
             (let (d, b') = spend q now b in (d, l\<lparr>li_buckets := dinsert key b' (li_buckets l)\<rparr>))
         | None \<Rightarrow>
             (let kept = (if li_capacity l \<le> length (li_buckets l)
                          then filter (\<lambda>(_, b). spending q now b) (li_buckets l) else li_buckets l)
              in if li_capacity l \<le> length kept
                 then (Deny (q_per q), l\<lparr>li_buckets := kept\<rparr>)
                 else (Allow, l\<lparr>li_buckets := dinsert key
                        \<lparr>bk_tokens = nat ((int (capacity_tokens q) - int scale) mod 2 ^ 64), bk_last = now\<rparr>
                        kept\<rparr>))))"

section \<open>The key\<close>

datatype client_source = Peer | Header string

text \<open>\<open>rsplit(',').next()\<close>: what follows the last comma, or everything.\<close>

definition last_entry :: "string \<Rightarrow> string" where
  "last_entry s = rev (takeWhile (\<lambda>c. c \<noteq> CHR '','') (rev s))"

definition client_key :: "client_source \<Rightarrow> string option \<Rightarrow> header_map \<Rightarrow> string option" where
  "client_key src peer headers =
     (case src of
        Peer \<Rightarrow> peer
      | Header name \<Rightarrow>
          (case Option.bind (map_of headers name) header_to_str of
             None \<Rightarrow> None
           | Some raw \<Rightarrow> (let v = trim (last_entry raw) in if v = [] then None else Some v)))"

section \<open>Arithmetic in range\<close>

text \<open>A quota as \<open>Quota::new\<close> makes it, of at least one request over at least one second.\<close>

definition quota_ok :: "quota \<Rightarrow> bool" where
  "quota_ok q \<longleftrightarrow> 1 \<le> q_burst q \<and> q_burst q < 2 ^ 32 \<and> 1000000000 \<le> q_per q \<and> q_per q < 2 ^ 64"

definition bucket_ok :: "quota \<Rightarrow> bucket \<Rightarrow> bool" where
  "bucket_ok q b \<longleftrightarrow> bk_tokens b \<le> capacity_tokens q"

lemma per_nanos_ok: "quota_ok q \<Longrightarrow> per_nanos q = q_per q"
  by (simp add: quota_ok_def per_nanos_def max_def)

lemma capacity_ok: "quota_ok q \<Longrightarrow> scale \<le> capacity_tokens q" "quota_ok q \<Longrightarrow> capacity_tokens q < 2 ^ 53"
  by (simp_all add: quota_ok_def capacity_tokens_def scale_def)

lemma refill_le:
  assumes "quota_ok q"
  shows "refill q now b * q_per q \<le> (now - bk_last b) * capacity_tokens q" and "refill q now b < 2 ^ 35"
proof -
  have 1: "refill q now b * q_per q \<le> sat_u64 ((now - bk_last b) mod 2 ^ 64 * capacity_tokens q)"
    using assms by (simp add: refill_def per_nanos_ok)
  also have "\<dots> \<le> (now - bk_last b) mod 2 ^ 64 * capacity_tokens q" by (simp add: sat_u64_def)
  also have "\<dots> \<le> (now - bk_last b) * capacity_tokens q" by (intro mult_le_mono1 mod_less_eq_dividend)
  finally show "refill q now b * q_per q \<le> (now - bk_last b) * capacity_tokens q" .
  have "refill q now b * 1000000000 \<le> refill q now b * q_per q" using assms by (simp add: quota_ok_def)
  also have "\<dots> \<le> 2 ^ 64" using 1 by (simp add: sat_u64_def u64_max_def)
  finally show "refill q now b < 2 ^ 35" by simp
qed

lemma topped_ok: "quota_ok q \<Longrightarrow> bucket_ok q b \<Longrightarrow> topped q now b = bk_tokens b + refill q now b"
  using refill_le(2) [of q now b] capacity_ok(2) [of q] by (simp add: topped_def bucket_ok_def)

section \<open>The budget of a key\<close>

text \<open>
  What a key may still spend at an instant, times the window: a full bucket when it is not
  tracked, otherwise its tokens and what has refilled since.
\<close>

definition credit :: "string \<Rightarrow> nat \<Rightarrow> limiter \<Rightarrow> nat" where
  "credit key now l =
     (let q = li_quota l; full = capacity_tokens q * q_per q
      in case dget (li_buckets l) key of
           None \<Rightarrow> full
         | Some b \<Rightarrow> min full (bk_tokens b * q_per q + (now - bk_last b) * capacity_tokens q))"

definition limiter_wf :: "limiter \<Rightarrow> bool" where
  "limiter_wf l \<longleftrightarrow> quota_ok (li_quota l) \<and> dmap_ok (li_buckets l) \<and> \<not> li_poisoned l \<and>
     1 \<le> li_capacity l \<and> length (li_buckets l) \<le> li_capacity l \<and>
     (\<forall>key b. dget (li_buckets l) key = Some b \<longrightarrow> bucket_ok (li_quota l) b)"

lemma credit_grows: "t \<le> u \<Longrightarrow> credit key u l \<le> credit key t l + (u - t) * capacity_tokens (li_quota l)"
proof (cases "dget (li_buckets l) key")
  case (Some b)
  assume "t \<le> u"
  then have "u - bk_last b \<le> (t - bk_last b) + (u - t)" by simp
  then have "(u - bk_last b) * capacity_tokens (li_quota l) \<le>
      (t - bk_last b) * capacity_tokens (li_quota l) + (u - t) * capacity_tokens (li_quota l)"
    by (metis add_mult_distrib mult_le_mono1)
  with Some show ?thesis by (simp add: credit_def Let_def)
qed (simp add: credit_def Let_def)

lemma credit_full: "credit key now l \<le> capacity_tokens (li_quota l) * q_per (li_quota l)"
  by (simp add: credit_def Let_def split: option.split)

lemma spend_credit:
  assumes q: "quota_ok q" and b: "bucket_ok q b" and s: "spend q now b = (d, b')"
  shows "bk_tokens b' * q_per q + (if is_allowed d then scale * q_per q else 0) \<le>
     min (capacity_tokens q * q_per q) (bk_tokens b * q_per q + (now - bk_last b) * capacity_tokens q)"
    and "bk_last b' = now" and "bucket_ok q b'"
proof -
  let ?t = "min (bk_tokens b + refill q now b) (capacity_tokens q)"
  have "?t * q_per q \<le> capacity_tokens q * q_per q" by (intro mult_le_mono1) simp
  moreover have "?t * q_per q \<le> (bk_tokens b + refill q now b) * q_per q" by (intro mult_le_mono1) simp
  moreover have "(bk_tokens b + refill q now b) * q_per q \<le> bk_tokens b * q_per q + (now - bk_last b) * capacity_tokens q"
    using refill_le(1) [OF q, of now b] by (simp add: add_mult_distrib)
  moreover have "bk_tokens b' * q_per q + (if is_allowed d then scale * q_per q else 0) = ?t * q_per q"
    using s by (auto simp: spend_def Let_def diff_mult_distrib topped_ok [OF q b] split: if_splits)
  ultimately show "bk_tokens b' * q_per q + (if is_allowed d then scale * q_per q else 0) \<le>
     min (capacity_tokens q * q_per q) (bk_tokens b * q_per q + (now - bk_last b) * capacity_tokens q)" by linarith
  show "bk_last b' = now" "bucket_ok q b'" using s by (auto simp: spend_def Let_def bucket_ok_def split: if_splits)
qed

section \<open>One check\<close>

lemma length_dinsert:
  "length (dinsert k v m) = (if dget m k = None then length m + 1 else length m)"
  by (induction m) (auto simp: dinsert_def dget_def)

lemma check_known:
  assumes "limiter_wf l" and "dget (li_buckets l) key = Some b" and "spend (li_quota l) now b = (d, b')"
  shows "check_at key now l = (d, l\<lparr>li_buckets := dinsert key b' (li_buckets l)\<rparr>)"
  using assms by (simp add: check_at_def limiter_wf_def)

definition kept_buckets :: "nat \<Rightarrow> limiter \<Rightarrow> (string, bucket) dmap" where
  "kept_buckets now l = (if li_capacity l \<le> length (li_buckets l)
     then filter (\<lambda>(_, b). spending (li_quota l) now b) (li_buckets l) else li_buckets l)"

definition fresh_bucket :: "quota \<Rightarrow> nat \<Rightarrow> bucket" where
  "fresh_bucket q now = \<lparr>bk_tokens = capacity_tokens q - scale, bk_last = now\<rparr>"

lemma check_new:
  assumes "limiter_wf l" and "dget (li_buckets l) key = None"
  shows "check_at key now l =
     (if li_capacity l \<le> length (kept_buckets now l)
      then (Deny (q_per (li_quota l)), l\<lparr>li_buckets := kept_buckets now l\<rparr>)
      else (Allow, l\<lparr>li_buckets := dinsert key (fresh_bucket (li_quota l) now) (kept_buckets now l)\<rparr>))"
proof -
  have q: "quota_ok (li_quota l)" using assms(1) by (simp add: limiter_wf_def)
  have "nat ((int (capacity_tokens (li_quota l)) - int scale) mod 2 ^ 64) = capacity_tokens (li_quota l) - scale"
    using capacity_ok [OF q] by (simp add: nat_mod_distrib of_nat_diff [symmetric] del: of_nat_diff)
  with assms show ?thesis
    by (simp add: check_at_def limiter_wf_def kept_buckets_def fresh_bucket_def Let_def)
qed

lemma kept_lookup:
  assumes "dmap_ok (li_buckets l)"
  shows "dget (kept_buckets now l) key = (case dget (li_buckets l) key of None \<Rightarrow> None
     | Some b \<Rightarrow> if li_capacity l \<le> length (li_buckets l) \<and> \<not> spending (li_quota l) now b then None else Some b)"
    and "dmap_ok (kept_buckets now l)" and "length (kept_buckets now l) \<le> length (li_buckets l)"
  using assms by (auto simp: kept_buckets_def dget_filter dmap_ok_filter split: option.split)

lemma check_wf:
  assumes wf: "limiter_wf l" and c: "check_at key now l = (d, l')"
  shows "limiter_wf l'" and "li_quota l' = li_quota l" and "li_capacity l' = li_capacity l"
proof -
  have ok: "dmap_ok (li_buckets l)" and q: "quota_ok (li_quota l)" using wf by (simp_all add: limiter_wf_def)
  note kl = kept_lookup [OF ok, of now]
  have "limiter_wf l' \<and> li_quota l' = li_quota l \<and> li_capacity l' = li_capacity l"
  proof (cases "dget (li_buckets l) key")
    case None
    have "bucket_ok (li_quota l) (fresh_bucket (li_quota l) now)" by (simp add: bucket_ok_def fresh_bucket_def)
    with c check_new [OF wf None, of now] wf kl None show ?thesis
      by (auto simp: limiter_wf_def length_dinsert split: if_splits option.splits)
  next
    case (Some b)
    obtain d' b' where s: "spend (li_quota l) now b = (d', b')" by fastforce
    have "bucket_ok (li_quota l) b" using wf Some by (simp add: limiter_wf_def)
    from spend_credit(3) [OF q this s] c check_known [OF wf Some s] wf Some show ?thesis
      by (auto simp: limiter_wf_def length_dinsert split: if_splits)
  qed
  then show "limiter_wf l'" and "li_quota l' = li_quota l" and "li_capacity l' = li_capacity l" by auto
qed

lemma credit_evicted:
  assumes wf: "limiter_wf l" and b: "dget (li_buckets l) key = Some b" and n: "\<not> spending (li_quota l) now b"
  shows "credit key now l = capacity_tokens (li_quota l) * q_per (li_quota l)"
proof -
  let ?q = "li_quota l"
  have q: "quota_ok ?q" "bucket_ok ?q b" using wf b by (simp_all add: limiter_wf_def)
  have "capacity_tokens ?q * q_per ?q \<le> (bk_tokens b + refill ?q now b) * q_per ?q"
    using n by (intro mult_le_mono1) (simp add: spending_def topped_ok [OF q])
  also have "\<dots> \<le> bk_tokens b * q_per ?q + (now - bk_last b) * capacity_tokens ?q"
    using refill_le(1) [OF q(1), of now b] by (simp add: add_mult_distrib)
  finally show ?thesis using b by (simp add: credit_def Let_def)
qed

lemma check_credit:
  assumes wf: "limiter_wf l" and c: "check_at key' now l = (d, l')"
  shows "credit key now l' + (if key' = key \<and> is_allowed d then scale * q_per (li_quota l) else 0) \<le> credit key now l"
proof -
  let ?q = "li_quota l" and ?full = "capacity_tokens (li_quota l) * q_per (li_quota l)"
  have ok: "dmap_ok (li_buckets l)" and q: "quota_ok ?q" using wf by (simp_all add: limiter_wf_def)
  show ?thesis
  proof (cases "dget (li_buckets l) key'")
    case (Some b)
    obtain d' b' where s: "spend ?q now b = (d', b')" by fastforce
    have bo: "bucket_ok ?q b" using wf Some by (simp add: limiter_wf_def)
    have l': "d' = d" "l' = l\<lparr>li_buckets := dinsert key' b' (li_buckets l)\<rparr>"
      using c check_known [OF wf Some s] by simp_all
    show ?thesis
      using spend_credit [OF q bo s] Some by (auto simp: l' credit_def Let_def split: option.split)
  next
    case None
    have keep: "credit key now (l\<lparr>li_buckets := kept_buckets now l\<rparr>) = credit key now l"
    proof (cases "dget (li_buckets l) key")
      case (Some b)
      show ?thesis
      proof (cases "li_capacity l \<le> length (li_buckets l) \<and> \<not> spending ?q now b")
        case True
        with credit_evicted [OF wf Some] kept_lookup(1) [OF ok, of now key] Some show ?thesis
          by (simp add: credit_def Let_def)
      next
        case False
        with kept_lookup(1) [OF ok, of now key] Some show ?thesis by (simp add: credit_def Let_def)
      qed
    qed (use kept_lookup(1) [OF ok, of now key] in \<open>simp add: credit_def Let_def\<close>)
    have full: "credit key now l = ?full" if "key' = key" using None that by (simp add: credit_def Let_def)
    have fr: "(capacity_tokens ?q - scale) * q_per ?q + scale * q_per ?q = ?full"
      using capacity_ok(1) [OF q] by (simp add: diff_mult_distrib)
    have ins: "credit key now (l\<lparr>li_buckets := dinsert key' (fresh_bucket ?q now) m\<rparr>) =
        (if key' = key then (capacity_tokens ?q - scale) * q_per ?q else credit key now (l\<lparr>li_buckets := m\<rparr>))" for m
      by (auto simp: credit_def Let_def fresh_bucket_def min_def)
    show ?thesis
    proof (cases "li_capacity l \<le> length (kept_buckets now l)")
      case True
      then have "l' = l\<lparr>li_buckets := kept_buckets now l\<rparr>" "\<not> is_allowed d"
        using c check_new [OF wf None, of now] by auto
      with keep show ?thesis by simp
    next
      case False
      then have "l' = l\<lparr>li_buckets := dinsert key' (fresh_bucket ?q now) (kept_buckets now l)\<rparr>"
        using c check_new [OF wf None, of now] by auto
      with keep full fr ins show ?thesis by simp
    qed
  qed
qed

section \<open>Runs\<close>

text \<open>A sequence of checks at times that do not go back, and how often a key was let through.\<close>

fun check_all :: "(string \<times> nat) list \<Rightarrow> limiter \<Rightarrow> decision list \<times> limiter" where
  "check_all [] l = ([], l)"
| "check_all ((key, now) # cs) l =
     (let (d, l1) = check_at key now l; (ds, l2) = check_all cs l1 in (d # ds, l2))"

definition allowed :: "string \<Rightarrow> (string \<times> nat) list \<Rightarrow> decision list \<Rightarrow> nat" where
  "allowed key cs ds = length (filter (\<lambda>((k, _), d). k = key \<and> is_allowed d) (zip cs ds))"

lemma check_all_wf:
  assumes "limiter_wf l"
  shows "limiter_wf (snd (check_all cs l)) \<and> li_quota (snd (check_all cs l)) = li_quota l \<and>
     li_capacity (snd (check_all cs l)) = li_capacity l"
  using assms
proof (induction cs arbitrary: l)
  case (Cons x cs)
  obtain key now where x: "x = (key, now)" by fastforce
  obtain d l1 where c: "check_at key now l = (d, l1)" by fastforce
  from Cons.IH [OF check_wf(1) [OF Cons.prems c]] check_wf(2,3) [OF Cons.prems c] show ?case
    by (simp add: x c case_prod_beta)
qed simp

lemma allowed_bound:
  assumes "limiter_wf l" and "sorted (t0 # map snd cs)" and "\<forall>x \<in> set cs. snd x \<le> t1" and "t0 \<le> t1"
  shows "allowed key cs (fst (check_all cs l)) * scale * q_per (li_quota l) \<le>
     credit key t0 l + (t1 - t0) * capacity_tokens (li_quota l)"
  using assms
proof (induction cs arbitrary: l t0)
  case (Cons x cs)
  obtain key' now where x: "x = (key', now)" by fastforce
  obtain d l1 where c: "check_at key' now l = (d, l1)" by fastforce
  let ?q = "li_quota l"
  note cw = check_wf [OF Cons.prems(1) c]
  have t: "t0 \<le> now" "now \<le> t1" "sorted (now # map snd cs)" "\<forall>x \<in> set cs. snd x \<le> t1"
    using Cons.prems(2,3) by (auto simp: x)
  from Cons.IH [OF cw(1) t(3,4,2)] have ih: "allowed key cs (fst (check_all cs l1)) * scale * q_per ?q \<le>
      credit key now l1 + (t1 - now) * capacity_tokens ?q" by (simp add: cw(2))
  have al: "allowed key (x # cs) (fst (check_all (x # cs) l)) =
      (if key' = key \<and> is_allowed d then 1 else 0) + allowed key cs (fst (check_all cs l1))"
    by (simp add: x c allowed_def case_prod_beta)
  have "credit key now l \<le> credit key t0 l + (now - t0) * capacity_tokens ?q" by (rule credit_grows [OF t(1)])
  moreover have "credit key now l1 + (if key' = key \<and> is_allowed d then scale * q_per ?q else 0) \<le> credit key now l"
    by (rule check_credit [OF Cons.prems(1) c])
  moreover have "(now - t0) * capacity_tokens ?q + (t1 - now) * capacity_tokens ?q = (t1 - t0) * capacity_tokens ?q"
    using t(1,2) by (simp flip: add_mult_distrib)
  moreover have "allowed key (x # cs) (fst (check_all (x # cs) l)) * scale * q_per ?q =
      (if key' = key \<and> is_allowed d then scale * q_per ?q else 0) +
      allowed key cs (fst (check_all cs l1)) * scale * q_per ?q"
    by (simp add: al add_mult_distrib)
  ultimately show ?case using ih by linarith
qed (simp add: allowed_def)

lemma limiter_new_wf: "quota_ok q \<Longrightarrow> limiter_wf (limiter_new q cap)"
  by (simp add: limiter_wf_def limiter_new_def)

text \<open>
  C39. The budget holds against any traffic: whatever keys are checked at whatever times, and
  however often the table is purged to make room, a key is let through in an interval at most
  \<open>burst\<close> times plus \<open>burst\<close> per elapsed window, and the table never holds more than
  \<open>capacity\<close> keys.
\<close>

theorem rate_limit_holds:
  assumes q: "quota_ok q" and "sorted (t0 # map snd cs)" and "\<forall>x \<in> set cs. snd x \<le> t1" and "t0 \<le> t1"
  shows "allowed key cs (fst (check_all cs (limiter_new q cap))) * q_per q \<le>
       q_burst q * q_per q + (t1 - t0) * q_burst q
     \<and> tracked (snd (check_all cs (limiter_new q cap))) \<le> max cap 1"
proof
  note wf = limiter_new_wf [OF q, of cap]
  have "allowed key cs (fst (check_all cs (limiter_new q cap))) * scale * q_per q \<le>
      capacity_tokens q * q_per q + (t1 - t0) * capacity_tokens q"
    using allowed_bound [OF wf assms(2-4), of key] credit_full [of key t0 "limiter_new q cap"]
    by (simp add: limiter_new_def)
  then have "scale * (allowed key cs (fst (check_all cs (limiter_new q cap))) * q_per q) \<le>
      scale * (q_burst q * q_per q + (t1 - t0) * q_burst q)"
    by (simp add: capacity_tokens_def algebra_simps)
  then show "allowed key cs (fst (check_all cs (limiter_new q cap))) * q_per q \<le>
       q_burst q * q_per q + (t1 - t0) * q_burst q" by (simp add: scale_def)
  have "limiter_wf (snd (check_all cs (limiter_new q cap)))"
    "li_capacity (snd (check_all cs (limiter_new q cap))) = max cap 1"
    using check_all_wf [OF wf, of cs] by (simp_all add: limiter_new_def)
  then show "tracked (snd (check_all cs (limiter_new q cap))) \<le> max cap 1"
    by (simp add: limiter_wf_def tracked_def)
qed

section \<open>Retry-After\<close>

text \<open>
  The wait a tracked key is told is honest: when the products of the quota fit in a \<open>u64\<close>,
  any check of that key after the wait, made before others touch the table, is allowed.
\<close>

theorem retry_after_is_enough:
  assumes wf: "limiter_wf l" and fits: "capacity_tokens (li_quota l) * q_per (li_quota l) \<le> u64_max"
    and b: "dget (li_buckets l) key = Some b" and d: "check_at key now l = (Deny w, l')"
    and later: "now + w < now'" "now' - now < 2 ^ 64"
  shows "fst (check_at key now' l') = Allow"
proof -
  let ?q = "li_quota l" and ?t = "min (topped (li_quota l) now b) (capacity_tokens (li_quota l))"
  let ?c = "capacity_tokens (li_quota l)" and ?p = "q_per (li_quota l)"
  have q: "quota_ok ?q" using wf by (simp add: limiter_wf_def)
  obtain d' b' where s: "spend ?q now b = (d', b')" by fastforce
  have l': "d' = Deny w" "l' = l\<lparr>li_buckets := dinsert key b' (li_buckets l)\<rparr>"
    using d check_known [OF wf b s] by simp_all
  have lt: "?t < scale" and b': "b' = \<lparr>bk_tokens = ?t, bk_last = now\<rparr>"
    and w: "w = max (sat_u64 ((scale - ?t) * ?p) div max ?c 1) 1"
    using s l'(1) by (auto simp: spend_def Let_def per_nanos_ok [OF q] split: if_splits)
  have "(scale - ?t) * ?p \<le> ?c * ?p" using capacity_ok(1) [OF q] by (intro mult_le_mono1) simp
  then have le: "(scale - ?t) * ?p \<le> u64_max" using fits by (rule order_trans)
  then have sat: "sat_u64 ((scale - ?t) * ?p) = (scale - ?t) * ?p" unfolding sat_u64_def by (rule min.absorb2)
  have c: "0 < ?c" using capacity_ok(1) [OF q] by (simp add: scale_def)
  have "max ?c 1 = ?c" using c by simp
  then have "(scale - ?t) * ?p div ?c \<le> w" unfolding w sat by simp
  then have "(scale - ?t) * ?p div ?c < now' - now" using later(1) by linarith
  then have enough: "(scale - ?t) * ?p < (now' - now) * ?c" using c by (simp add: div_less_iff_less_mult)
  let ?r = "refill ?q now' b'"
  have "scale - ?t \<le> ?r"
  proof -
    have p: "0 < ?p" using q by (simp add: quota_ok_def)
    have "(scale - ?t) * ?p \<le> sat_u64 ((now' - now) * ?c)"
      using enough le unfolding sat_u64_def by (intro min.boundedI) simp_all
    then have "(scale - ?t) * ?p div ?p \<le> sat_u64 ((now' - now) * ?c) div ?p" by (rule div_le_mono)
    then show ?thesis using p later(2) by (simp add: refill_def b' per_nanos_ok [OF q])
  qed
  moreover have "bucket_ok ?q b'" by (simp add: bucket_ok_def b')
  ultimately have "scale \<le> min (topped ?q now' b') ?c"
    using topped_ok [OF q, of b' now'] capacity_ok(1) [OF q] by (simp add: b')
  then have "fst (spend ?q now' b') = Allow" by (simp add: spend_def)
  moreover have "limiter_wf l'" by (rule check_wf(1) [OF wf d])
  moreover have "dget (li_buckets l') key = Some b'" "li_quota l' = ?q" by (simp_all add: l')
  ultimately show ?thesis
    using check_known [of l' key b' now'] by (metis fst_conv prod.collapse)
qed

section \<open>Evaluated\<close>

text \<open>Two requests a minute.\<close>

definition login_quota :: quota where
  "login_quota = quota_new 2 60"

definition demo_checks :: "(string \<times> nat) list" where
  "demo_checks = [(''a'', 0), (''a'', 1), (''b'', 2), (''a'', 3)]"

theorem rate_limit_holds_witness:
  "allowed ''a'' demo_checks (fst (check_all demo_checks (limiter_new login_quota 10))) * 60000000000 \<le>
     120000000006"
  using rate_limit_holds [of login_quota 0 demo_checks 3 "''a''" 10]
  by (simp add: demo_checks_def login_quota_def quota_new_def quota_ok_def)

definition demo_limiter :: limiter where
  "demo_limiter = snd (check_all demo_checks (limiter_new login_quota 10))"

text \<open>
  A quota whose products do not fit is starved by the saturation: of a thousand requests an
  hour, a client that has spent its burst gets five back after a silent hour.
\<close>

lemma saturated_refill:
  "refill (quota_new 1000 3600) 3600000000000 \<lparr>bk_tokens = 0, bk_last = 0\<rparr> = 5124095 \<and>
   capacity_tokens (quota_new 1000 3600) = 1000 * scale"
  by code_simp

end
