(* ===== verification/Http.thy ===== *)
theory Http
  imports Session_Safety Rate_Limit Audit_Sink
begin

text \<open>
  The parts of the HTTP surface the handlers share: the error taxonomy (\<open>http/error.rs\<close>),
  configuration and cookies (\<open>http/mod.rs\<close>), and the request guards (\<open>http/guards.rs\<close>): the
  same-origin check, cookie extraction, \<open>return_to\<close> and the rate limit. A response is its
  status, its \<open>Location\<close>, its \<open>Set-Cookie\<close> fields and its body; JSON text is not spelled out.
\<close>

section \<open>Errors\<close>

datatype error_code =
    InvalidSession | SessionStale | SessionExpired | LoginRequired | UpstreamRevoked_Error
  | CsrfRejected | OauthError_Code | BadRequest | RateLimited | NotGranted | BadAudience
  | LaneDisabled | Unavailable | NoProviders | ProviderRequired | UnknownProvider
  | ProviderDisabled_Code | ProviderUnavailable_Code

fun error_status :: "error_code \<Rightarrow> nat" where
  "error_status InvalidSession = 401"
| "error_status SessionStale = 401"
| "error_status SessionExpired = 401"
| "error_status LoginRequired = 401"
| "error_status CsrfRejected = 403"
| "error_status NotGranted = 403"
| "error_status ProviderDisabled_Code = 403"
| "error_status UpstreamRevoked_Error = 409"
| "error_status OauthError_Code = 400"
| "error_status BadRequest = 400"
| "error_status BadAudience = 400"
| "error_status ProviderRequired = 400"
| "error_status UnknownProvider = 404"
| "error_status LaneDisabled = 501"
| "error_status Unavailable = 503"
| "error_status NoProviders = 503"
| "error_status ProviderUnavailable_Code = 503"
| "error_status RateLimited = 429"

record api_error =
  ae_error :: error_code
  ae_detail :: string
  ae_login_url :: "string option"

definition api_error_new :: "error_code \<Rightarrow> string \<Rightarrow> api_error" where
  "api_error_new code detail = \<lparr>ae_error = code, ae_detail = detail, ae_login_url = None\<rparr>"

definition with_login_url :: "string \<Rightarrow> api_error \<Rightarrow> api_error" where
  "with_login_url url e = e\<lparr>ae_login_url := Some url\<rparr>"

datatype body =
    Error_Body api_error
  | Meta_Body session_meta
  | Logged_Out_Body
  | Rate_Limited_Body nat
  | Text_Body string
  | Empty_Body

record response =
  rp_status :: nat
  rp_location :: "string option"
  rp_cookies :: "string list"
  rp_body :: body

definition error_response :: "api_error \<Rightarrow> response" where
  "error_response e =
     \<lparr>rp_status = error_status (ae_error e), rp_location = None, rp_cookies = [], rp_body = Error_Body e\<rparr>"

section \<open>Configuration\<close>

record http_config =
  hc_origin :: string
  hc_secure :: bool
  hc_login_path :: string
  hc_max_age_secs :: nat

datatype http_config_error = BadBaseUrl string | InsecureOffLoopback string

definition loopback_host :: "string \<Rightarrow> bool" where
  "loopback_host host \<longleftrightarrow> host \<in> {''localhost'', ''127.0.0.1'', ''[::1]'', ''::1''}"

definition http_config_new :: "string \<Rightarrow> session_policy \<Rightarrow> http_config_error + http_config" where
  "http_config_new base_url pol =
     (case (case strip_prefix ''https://'' base_url of
              Some r \<Rightarrow> Some (r, True)
            | None \<Rightarrow> map_option (\<lambda>r. (r, False)) (strip_prefix ''http://'' base_url)) of
        None \<Rightarrow> Inl (BadBaseUrl base_url)
      | Some (rest, secure) \<Rightarrow>
          (let authority = hd (split_on (CHR ''/'') rest)
           in if authority = [] then Inl (BadBaseUrl base_url)
              else let host = hd (split_on (CHR '':'') authority)
                   in if \<not> secure \<and> \<not> loopback_host host then Inl (InsecureOffLoopback base_url)
                      else Inr \<lparr>hc_origin = (if secure then ''https'' else ''http'') @ ''://'' @ authority,
                                hc_secure = secure, hc_login_path = ''/auth/login'',
                                hc_max_age_secs = idle_ttl_secs pol\<rparr>))"

definition session_cookie_name :: "http_config \<Rightarrow> string" where
  "session_cookie_name cfg = (if hc_secure cfg then ''__Host-broker_session'' else ''broker_session'')"

definition meta_cookie_name :: string where
  "meta_cookie_name = ''broker_meta''"

definition hex_digit :: "nat \<Rightarrow> char" where
  "hex_digit n = ''0123456789ABCDEF'' ! n"

definition unreserved :: "char \<Rightarrow> bool" where
  "unreserved c \<longleftrightarrow>
     (let n = (of_char c :: nat) in 65 \<le> n \<and> n \<le> 90 \<or> 97 \<le> n \<and> n \<le> 122 \<or> 48 \<le> n \<and> n \<le> 57) \<or>
     c \<in> set ''-_.~/''"

definition urlencode :: "string \<Rightarrow> string" where
  "urlencode v = concat (map (\<lambda>c. if unreserved c then [c]
     else [CHR ''%'', hex_digit (of_char c div 16), hex_digit (of_char c mod 16)]) v)"

definition login_url :: "http_config \<Rightarrow> string option \<Rightarrow> string" where
  "login_url cfg return_to =
     (case return_to of
        Some path \<Rightarrow> hc_origin cfg @ hc_login_path cfg @ ''?return_to='' @ urlencode path
      | None \<Rightarrow> hc_origin cfg @ hc_login_path cfg)"

definition interactive_refresh_url :: "http_config \<Rightarrow> string option \<Rightarrow> string" where
  "interactive_refresh_url cfg return_to =
     (case return_to of
        Some path \<Rightarrow> hc_origin cfg @ ''/session/refresh?interactive=1&return_to='' @ urlencode path
      | None \<Rightarrow> hc_origin cfg @ ''/session/refresh?interactive=1'')"

text \<open>Decimal digits of an integer, as \<open>format!\<close> writes them.\<close>

fun show_nat :: "nat \<Rightarrow> string" where
  "show_nat n = (if n < 10 then [char_of (48 + n)] else show_nat (n div 10) @ [char_of (48 + n mod 10)])"

declare show_nat.simps [simp del]

definition show_int :: "int \<Rightarrow> string" where
  "show_int i = (if i < 0 then ''-'' @ show_nat (nat (- i)) else show_nat (nat i))"

definition cookie_attributes :: "http_config \<Rightarrow> bool \<Rightarrow> int \<Rightarrow> string" where
  "cookie_attributes cfg http_only max_age =
     ''; Path=/; SameSite=Lax; Max-Age='' @ show_int max_age @
     (if hc_secure cfg then ''; Secure'' else []) @ (if http_only then ''; HttpOnly'' else [])"

text \<open>\<open>enc\<close> is \<open>encode_meta\<close>: the base64url of the meta's JSON.\<close>

definition issue_cookies :: "(session_meta \<Rightarrow> string) \<Rightarrow> http_config \<Rightarrow> issued_cookies \<Rightarrow> string list" where
  "issue_cookies enc cfg issued =
     (let max_age = wrap_i64 (int (hc_max_age_secs cfg))
      in [session_cookie_name cfg @ ''='' @ ic_token issued @ cookie_attributes cfg True max_age,
          meta_cookie_name @ ''='' @ enc (ic_meta issued) @ cookie_attributes cfg False max_age])"

definition clear_cookies :: "http_config \<Rightarrow> string list" where
  "clear_cookies cfg =
     [session_cookie_name cfg @ ''='' @ cookie_attributes cfg True 0,
      meta_cookie_name @ ''='' @ cookie_attributes cfg False 0]"

section \<open>Guards\<close>

definition header_str :: "header_map \<Rightarrow> string \<Rightarrow> string option" where
  "header_str headers name = Option.bind (map_of headers name) header_to_str"

definition quoted :: "string \<Rightarrow> string" where
  "quoted s = [CHR 0x27] @ s @ [CHR 0x27]"

definition require_same_origin :: "header_map \<Rightarrow> string \<Rightarrow> bool \<Rightarrow> api_error + unit" where
  "require_same_origin headers expected_origin direct =
     (case header_str headers ''sec-fetch-site'' of
        Some site \<Rightarrow>
          (if site = ''same-origin'' then Inr ()
           else if site = ''none'' \<and> direct then Inr ()
           else Inl (api_error_new CsrfRejected (''cross-origin request rejected (sec-fetch-site: '' @ site @ '')'')))
      | None \<Rightarrow>
          (case header_str headers ''origin'' of
             Some origin \<Rightarrow>
               (if origin = expected_origin then Inr ()
                else Inl (api_error_new CsrfRejected (''origin '' @ quoted origin @ '' is not '' @ quoted expected_origin)))
           | None \<Rightarrow> Inl (api_error_new CsrfRejected ''request carries neither Sec-Fetch-Site nor Origin'')))"

definition is_navigation :: "header_map \<Rightarrow> bool" where
  "is_navigation headers \<longleftrightarrow> header_str headers ''sec-fetch-mode'' = Some ''navigate''"

definition cookie :: "header_map \<Rightarrow> string \<Rightarrow> string option" where
  "cookie headers name =
     (let raws = List.map_filter header_to_str (map snd (filter (\<lambda>f. fst f = ''cookie'') headers));
          pairs = List.map_filter (split_once (CHR ''='')) (concat (map (split_on (CHR '';'')) raws))
      in map_option (trim \<circ> snd) (find (\<lambda>p. trim (fst p) = name) pairs))"

definition safe_return_to :: "string option \<Rightarrow> string option" where
  "safe_return_to candidate =
     (case candidate of
        None \<Rightarrow> None
      | Some value \<Rightarrow>
          (case value of
             [] \<Rightarrow> None
           | c # cs \<Rightarrow>
               (if c \<noteq> CHR ''/'' then None
                else if cs \<noteq> [] \<and> (hd cs = CHR ''/'' \<or> hd cs = CHR 0x5C) then None
                else if CHR 0x0D \<in> set value \<or> CHR 0x0A \<in> set value then None
                else Some value)))"

text \<open>
  The value of a \<open>Location\<close> header: \<open>HeaderValue\<close> takes no control characters but TAB, and a text it
  does not take is replaced by the root path.
\<close>

definition header_value :: "string \<Rightarrow> string option" where
  "header_value v = (if list_all (\<lambda>c. c = CHR 0x09 \<or> 32 \<le> (of_char c :: nat) \<and> (of_char c :: nat) \<noteq> 127) v then Some v else None)"

definition location_value :: "string \<Rightarrow> string" where
  "location_value l = (case header_value l of Some v \<Rightarrow> v | None \<Rightarrow> ''/'')"

text \<open>\<open>RateLimit::check\<close>: \<open>instant\<close> is the monotonic clock of the limiter.\<close>

definition rate_limit_check ::
  "client_source \<Rightarrow> string option \<Rightarrow> header_map \<Rightarrow> string \<Rightarrow> nat \<Rightarrow> limiter \<Rightarrow> response option \<times> limiter" where
  "rate_limit_check src peer headers bucket instant l =
     (case client_key src peer headers of
        None \<Rightarrow> (None, l)
      | Some key \<Rightarrow>
          (case check_at (bucket @ '':'' @ key) instant l of
             (Allow, l') \<Rightarrow> (None, l')
           | (Deny retry_after, l') \<Rightarrow>
               (let secs = max (retry_after div 1000000000) 1
                in (Some \<lparr>rp_status = 429, rp_location = None, rp_cookies = [], rp_body = Rate_Limited_Body secs\<rparr>, l'))))"

end
