(* ===== verification/Http_Session.thy ===== *)
theory Http_Session
  imports Http
begin

text \<open>
  \<open>http/session.rs\<close>: \<open>GET /session\<close>, both forms of \<open>/session/refresh\<close> and \<open>POST /logout\<close>. A
  handler maps the request's headers and query to a response and the new state; \<open>now\<close> is its
  reading of the clock, \<open>fresh\<close> the token drawn if it rotates. The state holds the rows handed to
  the audit sink. Metrics and the handler-time header are left out.
\<close>

section \<open>State\<close>

record app =
  ap_sessions :: session_map
  ap_config :: http_config
  ap_audited :: bool
  ap_rows :: "audit_row list"

definition app_audit :: "audit_row \<Rightarrow> app \<Rightarrow> app" where
  "app_audit row s = (if ap_audited s then s\<lparr>ap_rows := ap_rows s @ [row]\<rparr> else s)"

record refresh_query =
  rq_interactive :: "string option"
  rq_return_to :: "string option"

definition interactive :: "refresh_query \<Rightarrow> bool" where
  "interactive q \<longleftrightarrow> rq_interactive q \<in> {Some ''1'', Some ''true'', Some ''yes''}"

definition presented ::
  "(session_token \<Rightarrow> token_hash) \<Rightarrow> header_map \<Rightarrow> http_config \<Rightarrow> token_hash option" where
  "presented hash headers cfg = map_option hash (cookie headers (session_cookie_name cfg))"

section \<open>Refusals\<close>

definition unauthenticated :: "http_config \<Rightarrow> string option \<Rightarrow> api_error" where
  "unauthenticated cfg return_to =
     with_login_url (login_url cfg return_to) (api_error_new InvalidSession ''no session cookie presented'')"

definition past_grace :: "nat \<Rightarrow> string" where
  "past_grace gen_no = ''generation '' @ show_nat gen_no @ '' is past its grace window''"

fun reason_text :: "expired_reason \<Rightarrow> string" where
  "reason_text Idle = ''Idle''"
| "reason_text Absolute = ''Absolute''"
| "reason_text LoggedOut = ''LoggedOut''"
| "reason_text UpstreamRevoked = ''UpstreamRevoked''"

definition expired_error :: "expired_reason \<Rightarrow> http_config \<Rightarrow> api_error" where
  "expired_error reason cfg =
     with_login_url (login_url cfg None)
       (api_error_new (if reason = UpstreamRevoked then UpstreamRevoked_Error else SessionExpired)
          (''session expired ('' @ reason_text reason @ '')''))"

fun map_denial :: "refresh_denied \<Rightarrow> http_config \<Rightarrow> string option \<Rightarrow> api_error" where
  "map_denial Denied_Unknown cfg return_to = unauthenticated cfg return_to"
| "map_denial (Denied_Retired _ gen_no) cfg return_to =
     with_login_url (login_url cfg return_to) (api_error_new InvalidSession (past_grace gen_no))"
| "map_denial (Denied_Expired _ reason) cfg return_to = expired_error reason cfg"

fun denial :: "resolution \<Rightarrow> http_config \<Rightarrow> string option \<Rightarrow> api_error" where
  "denial (HardExpired _ reason) cfg return_to = expired_error reason cfg"
| "denial (Retired _ gen_no) cfg return_to =
     with_login_url (login_url cfg return_to) (api_error_new InvalidSession (past_grace gen_no))"
| "denial _ cfg return_to = unauthenticated cfg return_to"

section \<open>Handlers\<close>

definition ok_response :: "body \<Rightarrow> response" where
  "ok_response b = \<lparr>rp_status = 200, rp_location = None, rp_cookies = [], rp_body = b\<rparr>"

definition get_session ::
  "(session_token \<Rightarrow> token_hash) \<Rightarrow> header_map \<Rightarrow> timestamp \<Rightarrow> app \<Rightarrow> response" where
  "get_session hash headers now s =
     (case presented hash headers (ap_config s) of
        None \<Rightarrow> error_response (unauthenticated (ap_config s) None)
      | Some h \<Rightarrow>
          (let r = resolve h now (ap_sessions s)
           in case r of
                Active _ _ _ \<Rightarrow>
                  (case meta_for h (ap_sessions s) of
                     Some meta \<Rightarrow> ok_response (Meta_Body meta)
                   | None \<Rightarrow> error_response (unauthenticated (ap_config s) None))
              | StaleRefreshable _ _ \<Rightarrow>
                  (case meta_for h (ap_sessions s) of
                     Some meta \<Rightarrow> ok_response (Meta_Body meta)
                   | None \<Rightarrow> error_response (unauthenticated (ap_config s) None))
              | _ \<Rightarrow> error_response (denial r (ap_config s) None)))"

text \<open>The anomaly rows of \<open>refresh\<close>, from what the token resolved to before it.\<close>

definition note_anomaly :: "(nat \<Rightarrow> string) \<Rightarrow> timestamp \<Rightarrow> resolution \<Rightarrow> app \<Rightarrow> app" where
  "note_anomaly render now before s =
     (case before of
        Active i gen_no False \<Rightarrow>
          app_audit ((event_new ''session.anomaly'' Outcome_Success Actor_User now)
            \<lparr>au_sid := Some i, au_reason := Some ''superseded_generation'', au_detail := Some (render gen_no)\<rparr>) s
      | Retired i gen_no \<Rightarrow>
          app_audit ((event_new ''session.anomaly'' Outcome_Failure Actor_User now)
            \<lparr>au_sid := Some i, au_reason := Some ''retired_generation'', au_detail := Some (render gen_no)\<rparr>) s
      | _ \<Rightarrow> s)"

text \<open>The shared \<open>refresh\<close>; \<open>None\<close> is a panic of the session map's refresh.\<close>

definition refresh_request ::
  "(session_token \<Rightarrow> token_hash) \<Rightarrow> (nat \<Rightarrow> string) \<Rightarrow> session_token \<Rightarrow> header_map \<Rightarrow> string option \<Rightarrow> timestamp \<Rightarrow>
   app \<Rightarrow> (api_error + issued_cookies) option \<times> app" where
  "refresh_request hash render fresh headers return_to now s =
     (case presented hash headers (ap_config s) of
        None \<Rightarrow> (Some (Inl (unauthenticated (ap_config s) return_to)), s)
      | Some h \<Rightarrow>
          (let s1 = note_anomaly render now (resolve h now (ap_sessions s)) s;
               (r, m) = refresh hash fresh h now (ap_sessions s1)
           in (map_option (\<lambda>x. case x of Inl denied \<Rightarrow> Inl (map_denial denied (ap_config s) return_to)
                                        | Inr issued \<Rightarrow> Inr issued) r,
               s1\<lparr>ap_sessions := m\<rparr>)))"

definition issued_response :: "(session_meta \<Rightarrow> string) \<Rightarrow> http_config \<Rightarrow> issued_cookies \<Rightarrow> response" where
  "issued_response enc cfg issued =
     \<lparr>rp_status = 200, rp_location = None, rp_cookies = issue_cookies enc cfg issued,
      rp_body = Meta_Body (ic_meta issued)\<rparr>"

definition post_refresh ::
  "(session_token \<Rightarrow> token_hash) \<Rightarrow> (nat \<Rightarrow> string) \<Rightarrow> (session_meta \<Rightarrow> string) \<Rightarrow> session_token \<Rightarrow> header_map \<Rightarrow>
   refresh_query \<Rightarrow> timestamp \<Rightarrow> app \<Rightarrow> response option \<times> app" where
  "post_refresh hash render enc fresh headers q now s =
     (case require_same_origin headers (hc_origin (ap_config s)) False of
        Inl e \<Rightarrow> (Some (error_response e), s)
      | Inr _ \<Rightarrow>
          (let return_to = safe_return_to (rq_return_to q);
               (r, s') = refresh_request hash render fresh headers return_to now s
           in (map_option (\<lambda>x. case x of Inr issued \<Rightarrow> issued_response enc (ap_config s) issued
                                        | Inl e \<Rightarrow> error_response e) r, s')))"

definition get_refresh ::
  "(session_token \<Rightarrow> token_hash) \<Rightarrow> (nat \<Rightarrow> string) \<Rightarrow> (session_meta \<Rightarrow> string) \<Rightarrow> session_token \<Rightarrow> header_map \<Rightarrow>
   refresh_query \<Rightarrow> timestamp \<Rightarrow> app \<Rightarrow> response option \<times> app" where
  "get_refresh hash render enc fresh headers q now s =
     (if \<not> is_navigation headers
      then (Some (error_response (api_error_new BadRequest
              ''the GET form of refresh is for top-level navigation; use POST'')), s)
      else case require_same_origin headers (hc_origin (ap_config s)) True of
        Inl e \<Rightarrow> (Some (error_response e), s)
      | Inr _ \<Rightarrow>
          (let return_to = safe_return_to (rq_return_to q);
               destination = (case return_to of Some p \<Rightarrow> p | None \<Rightarrow> ''/'');
               (r, s') = refresh_request hash render fresh headers return_to now s
           in (map_option (\<lambda>x. case x of
                   Inr issued \<Rightarrow> (issued_response enc (ap_config s) issued)
                     \<lparr>rp_status := 303, rp_location := Some (location_value destination)\<rparr>
                 | Inl e \<Rightarrow>
                     (if interactive q
                      then \<lparr>rp_status = 303, rp_location = Some (login_url (ap_config s) return_to),
                            rp_cookies = clear_cookies (ap_config s), rp_body = Empty_Body\<rparr>
                      else error_response e)) r, s')))"

definition post_logout ::
  "(session_token \<Rightarrow> token_hash) \<Rightarrow> header_map \<Rightarrow> timestamp \<Rightarrow> app \<Rightarrow> response \<times> app" where
  "post_logout hash headers now s =
     (case require_same_origin headers (hc_origin (ap_config s)) False of
        Inl e \<Rightarrow> (error_response e, s)
      | Inr _ \<Rightarrow>
          (let s' =
             (case presented hash headers (ap_config s) of
                None \<Rightarrow> s
              | Some h \<Rightarrow>
                  (case sid_for_hash h (ap_sessions s) of
                     None \<Rightarrow> s
                   | Some i \<Rightarrow>
                       (let sub = map_option sm_sub (meta_for h (ap_sessions s));
                            (killed, m) = tombstone_session i now (ap_sessions s);
                            s1 = s\<lparr>ap_sessions := m\<rparr>
                        in if killed
                           then app_audit ((event_new ''session.logged_out'' Outcome_Success Actor_User now)
                                  \<lparr>au_sid := Some i, au_subject := sub\<rparr>) s1
                           else s1)))
           in ((ok_response Logged_Out_Body)\<lparr>rp_cookies := clear_cookies (ap_config s)\<rparr>, s')))"

section \<open>The cross-site boundary\<close>

text \<open>What a request from another site looks like: it says so, or it cannot say it is ours.\<close>

definition foreign :: "header_map \<Rightarrow> string \<Rightarrow> bool" where
  "foreign headers origin \<longleftrightarrow>
     (case header_str headers ''sec-fetch-site'' of
        Some site \<Rightarrow> site \<noteq> ''same-origin'' \<and> site \<noteq> ''none''
      | None \<Rightarrow> header_str headers ''origin'' \<noteq> Some origin)"

lemma foreign_refused:
  "foreign headers origin \<Longrightarrow> \<exists>e. require_same_origin headers origin direct = Inl e \<and> ae_error e = CsrfRejected"
  by (auto simp: foreign_def require_same_origin_def api_error_new_def split: option.splits)

text \<open>
  C25 (INV-2). A request from another site changes nothing: whatever cookie it carries, both forms
  of refresh and the logout refuse it, rotate nothing, end nothing, record nothing and set no
  cookie.
\<close>

theorem cross_site_changes_nothing:
  assumes "foreign headers (hc_origin (ap_config s))"
  shows "(\<exists>r. post_refresh hash render enc fresh headers q now s = (Some r, s) \<and> rp_status r = 403 \<and> rp_cookies r = []) \<and>
     (\<exists>r. get_refresh hash render enc fresh headers q now s = (Some r, s) \<and> rp_status r \<in> {400, 403} \<and> rp_cookies r = []) \<and>
     (\<exists>r. post_logout hash headers now s = (r, s) \<and> rp_status r = 403 \<and> rp_cookies r = [])"
proof -
  obtain e where "require_same_origin headers (hc_origin (ap_config s)) False = Inl e" "ae_error e = CsrfRejected"
    using foreign_refused [OF assms] by blast
  moreover obtain e' where "require_same_origin headers (hc_origin (ap_config s)) True = Inl e'" "ae_error e' = CsrfRejected"
    using foreign_refused [OF assms] by blast
  ultimately show ?thesis
    by (auto simp: post_refresh_def get_refresh_def post_logout_def error_response_def api_error_new_def)
qed

section \<open>Logout\<close>

lemma app_audit_sel [simp]: "ap_sessions (app_audit row s) = ap_sessions s" "ap_config (app_audit row s) = ap_config s"
  by (simp_all add: app_audit_def)

lemma post_logout_sessions:
  assumes "require_same_origin headers (hc_origin (ap_config s)) False = Inr ()"
    and "presented hash headers (ap_config s) = Some h" and "sid_for_hash h (ap_sessions s) = Some i"
  shows "ap_sessions (snd (post_logout hash headers now s)) =
     snd (tombstone_session_with_reason i now Kill_LoggedOut (ap_sessions s))"
  using assms by (simp add: post_logout_def Let_def case_prod_beta tombstone_session_def)

text \<open>
  INV-7. A logout ends the session behind the cookie, valid or not: it answers 200 and expires
  both cookies, and from then on, over any further run of operations, no token the session had in
  the index authenticates or refreshes. Asking again is harmless: same answer, nothing recorded.
\<close>

theorem logout_is_final:
  assumes wf: "map_wf hash (ap_sessions s)"
    and so: "require_same_origin headers (hc_origin (ap_config s)) False = Inr ()"
    and p: "presented hash headers (ap_config s) = Some h" and i: "sid_for_hash h (ap_sessions s) = Some i"
    and e: "dget (m_sessions (ap_sessions s)) i = Some e" and h': "h' \<in> set (all_hashes e)"
    and out: "post_logout hash headers now s = (r, s')"
    and adm: "admitted (session_step hash) (admits_for hash i (\<lambda>op. h' \<notin> op_mints hash op)) ops (ap_sessions s')"
  shows "rp_status r = 200 \<and> rp_cookies r = clear_cookies (ap_config s) \<and>
     \<not> refreshable (resolve h' t (run (session_step hash) ops (ap_sessions s'))) \<and>
     post_logout hash headers now' s' = (r, s')"
proof -
  have m: "ap_sessions s' = snd (tombstone_session_with_reason i now Kill_LoggedOut (ap_sessions s))"
    using post_logout_sessions [OF so p i, of now] out by simp
  have cfg: "ap_config s' = ap_config s"
    using out so p i by (auto simp: post_logout_def Let_def case_prod_beta split: if_splits)
  have "\<not> refreshable (resolve h' t (run (session_step hash) ops (ap_sessions s')))"
    unfolding m by (rule killed_not_refreshable [OF wf e h' adm [unfolded m]])
  moreover have r: "r = (ok_response Logged_Out_Body)\<lparr>rp_cookies := clear_cookies (ap_config s)\<rparr>"
    using out so by (simp add: post_logout_def Let_def)
  moreover have "post_logout hash headers now' s' = (r, s')"
  proof -
    obtain e' where "dget (m_sessions (ap_sessions s')) i = Some e'" "e_status e' \<noteq> Alive"
      using e by (auto simp: m tombstone_reason_lookup kill_entry_def)
    then have k: "tombstone_session_with_reason i now' Kill_LoggedOut (ap_sessions s') = (False, ap_sessions s')"
      by (simp add: tombstone_session_with_reason_def)
    have "sid_for_hash h (ap_sessions s') = Some i"
      using i e by (simp add: m tombstone_session_with_reason_def persist_def announce_def sid_for_hash_def)
    with k so p show ?thesis
      by (simp add: post_logout_def Let_def case_prod_beta tombstone_session_def cfg r)
  qed
  ultimately show ?thesis by (simp add: ok_response_def)
qed

section \<open>Evaluated\<close>

definition demo_headers :: header_map where
  "demo_headers = [(''sec-fetch-site'', ''same-origin''), (''cookie'', ''a=1; broker_session=tok1'')]"

definition demo_config :: http_config where
  "demo_config = (case http_config_new ''http://localhost:8080/'' default_policy of Inr c \<Rightarrow> c
     | Inl _ \<Rightarrow> \<lparr>hc_origin = [], hc_secure = True, hc_login_path = [], hc_max_age_secs = 0\<rparr>)"

definition demo_app :: app where
  "demo_app = \<lparr>ap_sessions = demo_map, ap_config = demo_config, ap_audited = True, ap_rows = []\<rparr>"

theorem cross_site_changes_nothing_witness:
  "snd (post_logout bytes_of [(''sec-fetch-site'', ''cross-site''), (''cookie'', ''broker_session=tok1'')] 1040 demo_app) = demo_app"
proof -
  have "foreign [(''sec-fetch-site'', ''cross-site''), (''cookie'', ''broker_session=tok1'')] (hc_origin (ap_config demo_app))"
    by code_simp
  then obtain r where "post_logout bytes_of [(''sec-fetch-site'', ''cross-site''), (''cookie'', ''broker_session=tok1'')] 1040 demo_app
      = (r, demo_app)"
    using cross_site_changes_nothing [where hash = bytes_of and now = 1040] by blast
  then show ?thesis by simp
qed

end
