(* ===== verification/Desktop.thy ===== *)
theory Desktop
  imports Http
begin

text \<open>
  The memory of sign-ins in flight: \<open>http/desktop.rs\<close>'s attempts (which login made which session,
  and how an attempt ended) and the words for a failure from \<open>http/auth.rs\<close>. SHA-256 with
  base64url is an argument.
\<close>

section \<open>Text\<close>

text \<open>\<open>chars().take(n)\<close> on UTF-8: continuation bytes belong to the character before them.\<close>

fun take_chars :: "nat \<Rightarrow> string \<Rightarrow> string" where
  "take_chars n [] = []"
| "take_chars n (c # cs) =
     (if 0x80 \<le> (of_char c :: nat) \<and> (of_char c :: nat) < 0xC0 then c # take_chars n cs
      else if n = 0 then [] else c # take_chars (n - 1) cs)"

fun contains :: "string \<Rightarrow> string \<Rightarrow> bool" where
  "contains needle [] \<longleftrightarrow> needle = []"
| "contains needle (c # cs) \<longleftrightarrow> take (length needle) (c # cs) = needle \<or> contains needle cs"

definition hints_by_detail :: "(string \<times> string) list" where
  "hints_by_detail =
     [(''AADSTS7000215'', ''Entra rejected the client secret. Save the secret'' @ [CHR 0x27] @ ''s Value, not its Secret ID, in Admin > Authentication.''),
      (''AADSTS7000222'', ''The client secret has expired. Create a new one in Entra and save its Value in Admin > Authentication.''),
      (''AADSTS700025'', ''Entra treats this app as a public client. Register the redirect URI under the Web platform, remove it from Mobile and desktop or Single-page application, and set Allow public client flows to No.''),
      (''AADSTS50011'', ''The redirect URI is not registered on the app. Copy it from Admin > Authentication into the provider exactly.''),
      (''AADSTS65001'', ''The app needs consent. Ask a tenant administrator to grant it.''),
      (''AADSTS700016'', ''The client ID was not found in this tenant. Check the client ID and tenant ID.''),
      (''access_denied'', ''Access was declined at the provider. Sign in again and accept, or ask an administrator for access.''),
      (''invalid_client'', ''The provider rejected the client credentials. Check the client ID and secret in Admin > Authentication.''),
      (''redirect_uri'', ''The redirect URI does not match. Copy it from Admin > Authentication into the provider exactly.'')]"

definition failure_hint :: "string \<Rightarrow> string \<Rightarrow> string" where
  "failure_hint code detail =
     (case find (\<lambda>(needle, _). contains needle detail) hints_by_detail of
        Some (_, hint) \<Rightarrow> hint
      | None \<Rightarrow>
          (if code \<in> {''no_txn_cookie'', ''unknown_txn''}
           then ''This sign-in attempt was not found. Start again from the sign-in link, in one browser and on one host name (localhost and 127.0.0.1 hold separate cookies).''
           else if code = ''not_granted''
           then ''This person signed in but holds no grant here. An administrator can grant a role in Admin > Authentication.''
           else if code = ''txn_expired'' then ''This sign-in attempt took too long. Start again.''
           else if code \<in> {''state_mismatch'', ''iss_mismatch''}
           then ''This response does not belong to the sign-in that was started. Start again; if it repeats, tell an administrator.''
           else if code = ''invalid_id_token''
           then ''The provider'' @ [CHR 0x27] @ ''s identity token failed verification. Check the issuer and client ID, and the machine'' @ [CHR 0x27] @ ''s clock.''
           else if code \<in> {''provider_disabled'', ''provider_gone''}
           then ''This provider is no longer available. Ask an administrator.''
           else ''Start again; if it repeats, give an administrator this message.''))"

definition escape_html :: "string \<Rightarrow> string" where
  "escape_html text = concat (map (\<lambda>c.
     if c = CHR ''&'' then ''&amp;'' else if c = CHR ''<'' then ''&lt;''
     else if c = CHR ''>'' then ''&gt;'' else if c = CHR 0x22 then ''&quot;''
     else if c = CHR 0x27 then ''&#39;'' else [c]) text)"

section \<open>Attempts\<close>

definition attempt_ttl_secs :: int where
  "attempt_ttl_secs = 300"

definition attempts_held :: nat where
  "attempts_held = 64"

datatype desktop_outcome =
    Complete string nat string "string list"
  | Failed string string string

record held =
  hd_logins :: "(string, string \<times> timestamp) dmap"
  hd_outcomes :: "(string, desktop_outcome \<times> timestamp) dmap"

definition no_held :: held where
  "no_held = \<lparr>hd_logins = [], hd_outcomes = []\<rparr>"

text \<open>The oldest entry; on a tie the first in iteration order.\<close>

definition oldest :: "(string, 'v \<times> timestamp) dmap \<Rightarrow> string option" where
  "oldest m = map_option fst (find (\<lambda>x. \<forall>y \<in> set m. snd (snd x) \<le> snd (snd y)) m)"

lemma dremove_shorter: "k \<in> fst ` set m \<Longrightarrow> length (dremove k m) < length m"
  by (auto simp: dremove_def AList.delete_eq intro!: length_filter_less)

lemma oldest_in: "oldest m = Some k \<Longrightarrow> k \<in> fst ` set m"
proof -
  assume "oldest m = Some k"
  then obtain x where "find (\<lambda>x. \<forall>y \<in> set m. snd (snd x) \<le> snd (snd y)) m = Some x" "fst x = k"
    by (auto simp: oldest_def)
  then have "x \<in> set m" by (auto simp: find_Some_iff)
  with \<open>fst x = k\<close> show ?thesis by blast
qed

function evict :: "(string, 'v \<times> timestamp) dmap \<Rightarrow> (string, 'v \<times> timestamp) dmap" where
  "evict m =
     (if attempts_held \<le> length m
      then case oldest m of None \<Rightarrow> m | Some k \<Rightarrow> evict (dremove k m)
      else m)"
  by pat_completeness auto

termination
  by (relation "measure length") (auto intro: dremove_shorter oldest_in)

declare evict.simps [simp del]

definition trim_held :: "timestamp \<Rightarrow> (string, 'v \<times> timestamp) dmap \<Rightarrow> (string, 'v \<times> timestamp) dmap" where
  "trim_held now m = evict (filter (\<lambda>x. now < snd (snd x) + attempt_ttl_secs) m)"

definition is_attempt :: "string \<Rightarrow> bool" where
  "is_attempt v \<longleftrightarrow> length v = 43 \<and> list_all (\<lambda>c.
     (let n = (of_char c :: nat) in 65 \<le> n \<and> n \<le> 90 \<or> 97 \<le> n \<and> n \<le> 122 \<or> 48 \<le> n \<and> n \<le> 57) \<or>
     c = CHR ''-'' \<or> c = CHR ''_'') v"

definition attempt_of :: "string option \<Rightarrow> string option" where
  "attempt_of return_to =
     Option.bind return_to (\<lambda>r. Option.bind (strip_prefix ''/auth/desktop?attempt='' r)
       (\<lambda>attempt. if is_attempt attempt then Some attempt else None))"

definition note_login :: "string \<Rightarrow> string \<Rightarrow> timestamp \<Rightarrow> held \<Rightarrow> held" where
  "note_login attempt i now hs = hs\<lparr>hd_logins := dinsert attempt (i, now) (trim_held now (hd_logins hs))\<rparr>"

definition finish :: "string \<Rightarrow> desktop_outcome \<Rightarrow> timestamp \<Rightarrow> held \<Rightarrow> bool \<times> held" where
  "finish attempt oc now hs =
     (let outcomes = trim_held now (hd_outcomes hs)
      in if dget outcomes attempt \<noteq> None then (False, hs\<lparr>hd_outcomes := outcomes\<rparr>)
         else (True, hs\<lparr>hd_outcomes := dinsert attempt (oc, now) outcomes,
                        hd_logins := dremove attempt (hd_logins hs)\<rparr>))"

definition note_failure :: "string \<Rightarrow> string \<Rightarrow> string \<Rightarrow> timestamp \<Rightarrow> held \<Rightarrow> held" where
  "note_failure attempt code detail now hs =
     snd (finish attempt (Failed code (take_chars 800 detail) (failure_hint code detail)) now hs)"

definition verifier_matches :: "(string \<Rightarrow> string) \<Rightarrow> string \<Rightarrow> string \<Rightarrow> bool" where
  "verifier_matches sha256_base64 attempt verifier \<longleftrightarrow> is_attempt attempt \<and> sha256_base64 verifier = attempt"

definition redeem :: "string \<Rightarrow> timestamp \<Rightarrow> held \<Rightarrow> desktop_outcome option \<times> held" where
  "redeem attempt now hs =
     (case dget (hd_outcomes hs) attempt of
        None \<Rightarrow> (None, hs)
      | Some (oc, t) \<Rightarrow>
          (if now < t + attempt_ttl_secs then Some oc else None,
           hs\<lparr>hd_outcomes := dremove attempt (hd_outcomes hs)\<rparr>))"

end
