(* ===== verification/Writer_Handle.thy ===== *)
theory Writer_Handle
  imports Store_Safety
begin

text \<open>
  \<open>WriterHandle\<close> of \<open>store/writer.rs\<close>: the calls the rest of the broker makes. A write-through
  call puts its command on the channel and blocks on the ack; what the other senders and the
  writer thread do meanwhile is the list of events \<open>es\<close>. Its result is \<open>None\<close> while it blocks.
  The interface locale says what a caller may conclude from the answer.
\<close>

section \<open>Blocking calls\<close>

datatype write_failure = Writer_Gone | Not_Acked | Batch_Failed repo_error

text \<open>
  \<open>ack_rx.recv()\<close>: the first message, or a closed channel. A thread that has stopped has dropped
  its receiver and with it every command still queued.
\<close>

definition await_ack :: "ack \<Rightarrow> writer \<Rightarrow> ack_msg option" where
  "await_ack k w =
     (case map_of (w_acked w) k of
        Some msg \<Rightarrow> Some msg
      | None \<Rightarrow> if w_running w then None else Some Dropped)"

definition blocking ::
  "crypto \<Rightarrow> json \<Rightarrow> command \<Rightarrow> ack \<Rightarrow> writer_event list \<Rightarrow> writer \<Rightarrow>
   (write_failure + ack_msg) option \<times> writer" where
  "blocking cr js cmd k es w =
     (if \<not> w_running w then (Some (Inl Writer_Gone), w)
      else let w' = run (writer_step cr js) es (enqueue cmd w)
           in (map_option Inr (await_ack k w'), w'))"

fun custody_reply :: "write_failure + ack_msg \<Rightarrow> write_failure + unit" where
  "custody_reply (Inl e) = Inl e"
| "custody_reply (Inr (Custody_Sent (Inr _))) = Inr ()"
| "custody_reply (Inr (Custody_Sent (Inl e))) = Inl (Batch_Failed e)"
| "custody_reply (Inr _) = Inl Not_Acked"

definition write_custody ::
  "crypto \<Rightarrow> json \<Rightarrow> custody_write \<Rightarrow> ack \<Rightarrow> writer_event list \<Rightarrow> writer \<Rightarrow>
   (write_failure + unit) option \<times> writer" where
  "write_custody cr js write k es w =
     (let (r, w') = blocking cr js (Custody write k) k es w in (map_option custody_reply r, w'))"

fun admin_reply :: "write_failure + ack_msg \<Rightarrow> write_failure + bool" where
  "admin_reply (Inl e) = Inl e"
| "admin_reply (Inr (Admin_Sent (Inr applied))) = Inr applied"
| "admin_reply (Inr (Admin_Sent (Inl e))) = Inl (Batch_Failed e)"
| "admin_reply (Inr _) = Inl Not_Acked"

definition write_admin_audited ::
  "crypto \<Rightarrow> json \<Rightarrow> admin_write \<Rightarrow> audit_row option \<Rightarrow> ack \<Rightarrow> writer_event list \<Rightarrow> writer \<Rightarrow>
   (write_failure + bool) option \<times> writer" where
  "write_admin_audited cr js write audit k es w =
     (let (r, w') = blocking cr js (Admin write audit k) k es w in (map_option admin_reply r, w'))"

definition write_admin ::
  "crypto \<Rightarrow> json \<Rightarrow> admin_write \<Rightarrow> ack \<Rightarrow> writer_event list \<Rightarrow> writer \<Rightarrow>
   (write_failure + bool) option \<times> writer" where
  "write_admin cr js write k es w = write_admin_audited cr js write None k es w"

section \<open>Calls that do not block\<close>

definition is_alive :: "writer \<Rightarrow> bool \<times> writer" where
  "is_alive w = (w_running w, enqueue Ping w)"

definition send_or_gone :: "command \<Rightarrow> writer \<Rightarrow> (write_failure + unit) \<times> writer" where
  "send_or_gone c w = (if w_running w then Inr () else Inl Writer_Gone, enqueue c w)"

definition enqueue_touch :: "string \<Rightarrow> timestamp \<Rightarrow> ack \<Rightarrow> writer \<Rightarrow> (write_failure + unit) \<times> writer" where
  "enqueue_touch key_id now k = send_or_gone (Admin (TouchApiKey key_id now) None k)"

definition enqueue_principal_touch ::
  "string \<Rightarrow> timestamp \<Rightarrow> ack \<Rightarrow> writer \<Rightarrow> (write_failure + unit) \<times> writer" where
  "enqueue_principal_touch principal_id now k =
     send_or_gone (Admin (TouchPrincipal principal_id now) None k)"

definition enqueue_custody_failure ::
  "custody_id \<Rightarrow> custody_status \<Rightarrow> int \<Rightarrow> timestamp \<Rightarrow> timestamp \<Rightarrow> ack \<Rightarrow> writer \<Rightarrow> writer" where
  "enqueue_custody_failure c status fail_count next_refresh now k =
     enqueue (Custody (Custody_Failure c status fail_count next_refresh now) k)"

section \<open>What a batch answers\<close>

text \<open>The acks a command adds, and the success message each kind of command is answered with.\<close>

lemma apply_command_out:
  assumes "apply_command cr js c (d, b) = Inr (d', b')"
  shows "\<exists>x y. bo_acks b' = bo_acks b @ x \<and> bo_admin_acks b' = bo_admin_acks b @ y \<and>
     set x \<union> fst ` set y = set (command_acks c)"
  using assms by (cases c) (auto simp: bindE_Inr_iff)

lemma apply_seq_out:
  assumes "apply_seq cr js cs (d, b) = Inr (d', b')"
  shows "\<exists>x y. bo_acks b' = bo_acks b @ x \<and> bo_admin_acks b' = bo_admin_acks b @ y \<and>
     set x \<union> fst ` set y = batch_acks cs"
  using assms
proof (induction cs arbitrary: d b)
  case (Cons c cs)
  then obtain d1 b1 where 1: "apply_command cr js c (d, b) = Inr (d1, b1)"
    and 2: "apply_seq cr js cs (d1, b1) = Inr (d', b')" by (auto simp: bindE_Inr_iff)
  obtain x y where xy: "bo_acks b1 = bo_acks b @ x" "bo_admin_acks b1 = bo_admin_acks b @ y"
    "set x \<union> fst ` set y = set (command_acks c)" using apply_command_out [OF 1] by blast
  obtain x' y' where "bo_acks b' = bo_acks b1 @ x'" "bo_admin_acks b' = bo_admin_acks b1 @ y'"
    "set x' \<union> fst ` set y' = batch_acks cs" using Cons.IH [OF 2] by blast
  with xy show ?case
    by (intro exI [of _ "x @ x'"] exI [of _ "y @ y'"]) (auto simp: batch_acks_def image_Un)
qed (simp add: batch_acks_def)

definition good_reply :: "crypto \<Rightarrow> json \<Rightarrow> command \<Rightarrow> db \<Rightarrow> ack_msg \<Rightarrow> bool" where
  "good_reply cr js cmd d msg \<longleftrightarrow>
     (case cmd of
        Custody _ _ \<Rightarrow> msg = Custody_Sent (Inr ())
      | Admin write _ _ \<Rightarrow> (\<exists>d' applied. apply_admin cr js write d = Inr (d', applied) \<and> msg = Admin_Sent (Inr applied))
      | _ \<Rightarrow> False)"

lemma batch_reply:
  assumes "apply_seq cr js (pre @ cmd # post) (d, no_out) = Inr (d', b')" and "command_acks cmd = [k]"
    and "k \<notin> batch_acks (pre @ post)"
  obtains d0 b0 d1 b1 msg where "apply_seq cr js pre (d, no_out) = Inr (d0, b0)"
    "apply_command cr js cmd (d0, b0) = Inr (d1, b1)" "apply_seq cr js post (d1, b1) = Inr (d', b')"
    "map_of (settle (Inr d') b') k = Some msg" "good_reply cr js cmd d0 msg"
proof -
  obtain d0 b0 d1 b1 where 1: "apply_seq cr js pre (d, no_out) = Inr (d0, b0)"
    and 2: "apply_command cr js cmd (d0, b0) = Inr (d1, b1)"
    and 3: "apply_seq cr js post (d1, b1) = Inr (d', b')"
    using assms(1) by (auto simp: apply_seq_append bindE_Inr_iff)
  have k: "k \<notin> batch_acks pre" "k \<notin> batch_acks post" using assms(3) by (auto simp: batch_acks_def)
  obtain x y where x: "bo_acks b0 = x" "bo_admin_acks b0 = y" "set x \<union> fst ` set y = batch_acks pre"
    using apply_seq_out [OF 1] by (auto simp: no_out_def)
  obtain x' y' where x': "bo_acks b' = bo_acks b1 @ x'" "bo_admin_acks b' = bo_admin_acks b1 @ y'"
    "set x' \<union> fst ` set y' = batch_acks post" using apply_seq_out [OF 3] by blast
  have none: "map_of y k = None" "map_of y' k = None" "k \<notin> set x" "k \<notin> set x'"
    using x(3) x'(3) k by (auto simp: map_of_eq_None_iff)
  have cust: "map_of (map (\<lambda>k. (k, m)) ks) k = (if k \<in> set ks then Some m else None)" for m :: ack_msg and ks
    by (induction ks) auto
  have adm: "map_of (map (\<lambda>(k, outcome). (k, Admin_Sent (Inr outcome))) ys) k = map_option (\<lambda>ok. Admin_Sent (Inr ok)) (map_of ys k)"
    for ys by (induction ys) auto
  show thesis
  proof (cases cmd)
    case (Custody w k')
    then have "map_of (settle (Inr d') b') k = Some (Custody_Sent (Inr ()))"
      using 2 x x' assms(2) by (auto simp: settle_def bindE_Inr_iff map_add_def cust)
    with Custody show thesis by (intro that [OF 1 2 3]) (auto simp: good_reply_def)
  next
    case (Admin w a k')
    then obtain d2 ok where "apply_admin cr js w d0 = Inr (d2, ok)" "bo_acks b1 = x" "bo_admin_acks b1 = y @ [(k, ok)]"
      using 2 x assms(2) by (auto simp: bindE_Inr_iff)
    moreover from this have "map_of (settle (Inr d') b') k = Some (Admin_Sent (Inr ok))"
      using none x' by (simp add: settle_def map_add_def cust adm)
    ultimately show thesis using Admin by (intro that [OF 1 2 3]) (auto simp: good_reply_def)
  qed (use assms(2) in auto)
qed

section \<open>The interface\<close>

text \<open>A command on the channel whose ack nobody else uses, and events that do not use it either.\<close>

definition waiting :: "command \<Rightarrow> ack \<Rightarrow> (command \<Rightarrow> bool) \<Rightarrow> writer \<Rightarrow> bool" where
  "waiting cmd k keeps w \<longleftrightarrow>
     w_running w \<and> k \<notin> fst ` set (w_acked w) \<and>
     (\<exists>pre post. w_queue w = pre @ cmd # post \<and> list_all keeps (pre @ post) \<and> k \<notin> batch_acks (pre @ post))"

lemma waitingI:
  assumes "w_queue w = pre @ cmd # post" and "w_running w" and "k \<notin> fst ` set (w_acked w)"
    and "list_all keeps (pre @ post)" and "k \<notin> batch_acks (pre @ post)"
  shows "waiting cmd k keeps w"
  using assms unfolding waiting_def by blast

fun bystander :: "ack \<Rightarrow> (command \<Rightarrow> bool) \<Rightarrow> writer_event \<Rightarrow> bool" where
  "bystander k keeps (Send c) \<longleftrightarrow> keeps c \<and> k \<notin> set (command_acks c)"
| "bystander k keeps (Turn _ _) \<longleftrightarrow> True"

text \<open>What holds once the answer is there: the rest of the queue is others' business.\<close>

definition at_rest :: "ack \<Rightarrow> (command \<Rightarrow> bool) \<Rightarrow> writer \<Rightarrow> bool" where
  "at_rest k keeps w \<longleftrightarrow> list_all keeps (w_queue w) \<and> k \<notin> batch_acks (w_queue w)"

text \<open>
  A part \<open>obs\<close> of the store that the commands of others leave as it is (\<open>keeps\<close>), and a command
  \<open>cmd\<close> a caller waits for. The contract of the write-through call is \<open>fate\<close>: either the command is
  still queued and the part is as before; or a success message stands for its own effect, applied
  once, on the part as it was; or the caller was refused and the part is as before.
\<close>

locale write_through =
  fixes cr :: crypto and js :: json and obs :: "db \<Rightarrow> 'o" and keeps :: "command \<Rightarrow> bool"
    and cmd :: command and k :: ack
  assumes frame: "db_ok d \<Longrightarrow> keeps c \<Longrightarrow> apply_command cr js c (d, b) = Inr (d', b') \<Longrightarrow> obs d' = obs d"
    and one_ack: "command_acks cmd = [k]"
begin

definition done_ok :: "'o \<Rightarrow> writer \<Rightarrow> bool" where
  "done_ok before w \<longleftrightarrow>
     (\<exists>msg d0 b d1 b'. map_of (w_acked w) k = Some msg \<and> good_reply cr js cmd d0 msg \<and> db_ok d0 \<and>
        obs d0 = before \<and> apply_command cr js cmd (d0, b) = Inr (d1, b') \<and> obs (w_db w) = obs d1)"

definition refused :: "'o \<Rightarrow> writer \<Rightarrow> bool" where
  "refused before w \<longleftrightarrow>
     obs (w_db w) = before \<and>
     (case map_of (w_acked w) k of Some msg \<Rightarrow> \<not> acked_ok msg | None \<Rightarrow> \<not> w_running w)"

definition fate :: "'o \<Rightarrow> writer \<Rightarrow> bool" where
  "fate before w \<longleftrightarrow>
     db_ok (w_db w) \<and>
     (waiting cmd k keeps w \<and> obs (w_db w) = before \<or> at_rest k keeps w \<and> done_ok before w
      \<or> at_rest k keeps w \<and> refused before w \<or> \<not> w_running w \<and> refused before w)"

lemma fate_enqueue [simp]:
  "done_ok before (enqueue c w) = done_ok before w" "refused before (enqueue c w) = refused before w"
  by (auto simp: done_ok_def refused_def enqueue_def split: option.split)

lemma frame_seq:
  "db_ok d \<Longrightarrow> list_all keeps cs \<Longrightarrow> apply_seq cr js cs (d, b) = Inr (d', b') \<Longrightarrow> obs d' = obs d"
proof (induction cs arbitrary: d b)
  case (Cons c cs)
  then obtain d1 b1 where 1: "apply_command cr js c (d, b) = Inr (d1, b1)"
    and 2: "apply_seq cr js cs (d1, b1) = Inr (d', b')" by (auto simp: bindE_Inr_iff)
  have "obs d1 = obs d" using frame [OF Cons.prems(1) _ 1] Cons.prems(2) by simp
  with Cons.IH [OF apply_command_ok [OF 1 Cons.prems(1)] _ 2] Cons.prems(2) show ?case by simp
qed simp


lemma bystanders_turn:
  assumes "db_ok (w_db w)" and "w_running w" and "batch = take n (w_queue w)" and "batch \<noteq> []"
    and "list_all keeps batch" and "k \<notin> batch_acks batch" and w': "w' = writer_turn cr js io n w"
  shows "obs (w_db w') = obs (w_db w)" and "map_of (w_acked w') k = map_of (w_acked w) k"
proof -
  have "obs (w_db w') = obs (w_db w) \<and> map_of (w_acked w') k = map_of (w_acked w) k"
  proof (cases rule: turn_cases [OF assms(2-4) w', case_names commit rollback])
    case (commit d b)
    moreover from commit(4) assms(6) have "k \<notin> fst ` set (settle (Inr d) b @ dropped_acks batch b)"
      by (simp add: image_Un settle_facts(1) dropped_facts(1))
    then have "map_of (settle (Inr d) b @ dropped_acks batch b) k = None" by (rule map_of_eq_None_iff [THEN iffD2])
    ultimately show ?thesis using frame_seq [OF assms(1,5) commit(1)] by (auto simp: map_add_def split: option.splits)
  next
    case (rollback e b)
    moreover from rollback(3) assms(6) have "k \<notin> fst ` set (settle (Inl e) b @ dropped_acks batch b)"
      by (auto simp: image_Un settle_facts(1) dropped_facts(1))
    then have "map_of (settle (Inl e) b @ dropped_acks batch b) k = None" by (rule map_of_eq_None_iff [THEN iffD2])
    ultimately show ?thesis by (auto simp: map_add_def split: option.splits)
  qed
  then show "obs (w_db w') = obs (w_db w)" and "map_of (w_acked w') k = map_of (w_acked w) k" by simp_all
qed

lemma own_turn:
  assumes "db_ok (w_db w)" and "w_running w" and "batch = take n (w_queue w)"
    and b: "batch = pre @ cmd # post" and "list_all keeps (pre @ post)" and "k \<notin> batch_acks (pre @ post)"
    and new: "k \<notin> fst ` set (w_acked w)" and w': "w' = writer_turn cr js io n w"
  shows "done_ok (obs (w_db w)) w' \<or> refused (obs (w_db w)) w'"
proof (cases rule: turn_cases [OF assms(2,3) _ w', case_names nonempty commit rollback])
  case nonempty
  then show ?case using b by simp
next
  case (commit d b)
  obtain d0 b0 d1 b1 msg where r: "apply_seq cr js pre (w_db w, no_out) = Inr (d0, b0)"
    "apply_command cr js cmd (d0, b0) = Inr (d1, b1)" "apply_seq cr js post (d1, b1) = Inr (d, b)"
    "map_of (settle (Inr d) b) k = Some msg" "good_reply cr js cmd d0 msg"
    using batch_reply [OF commit(1) [unfolded assms(4)] one_ack assms(6)] .
  have d0: "db_ok d0" using apply_seq_ok [OF r(1)] assms(1) by simp
  have "obs d0 = obs (w_db w)" using frame_seq [OF assms(1) _ r(1)] assms(5) by simp
  moreover have "obs d = obs d1" using frame_seq [OF apply_command_ok [OF r(2) d0] _ r(3)] assms(5) by simp
  moreover have "map_of (w_acked w') k = Some msg"
    using new r(4) commit(3) by (simp add: map_add_def map_of_eq_None_iff [THEN iffD2] split: option.split)
  ultimately show ?thesis using r(2,5) d0 commit(2) unfolding done_ok_def by metis
next
  case (rollback e b)
  let ?s = "settle (Inl e) b @ dropped_acks batch b"
  have "k \<in> batch_acks batch" using one_ack by (simp add: assms(4) batch_acks_def)
  then have "k \<in> fst ` set ?s" using rollback(3) by (auto simp: image_Un settle_facts(1) dropped_facts(1))
  then obtain msg where msg: "map_of ?s k = Some msg" by (metis map_of_eq_None_iff option.exhaust)
  then have "\<not> acked_ok msg"
    using settle_facts(3) [of "Inl e" _ b] dropped_facts(2) [of _ batch b] by (force dest: map_of_SomeD)
  moreover have "map_of (w_acked w') k = Some msg"
    using new msg rollback(2) by (simp add: map_add_def map_of_eq_None_iff [THEN iffD2] split: option.split)
  ultimately show ?thesis using rollback(1) by (simp add: refused_def)
qed


lemma turn_rest:
  "w_running w \<Longrightarrow> w_queue (writer_turn cr js io n w) = drop n (w_queue w)"
  "w_running (writer_turn cr js io n w) \<Longrightarrow> w_running w"
  by (auto simp: writer_turn_def Let_def case_prod_beta split: if_splits)

lemma fate_turn:
  assumes "fate before w" and "w_running w" and "take n (w_queue w) \<noteq> []"
  shows "fate before (writer_turn cr js io n w)"
proof -
  define w' where "w' = writer_turn cr js io n w"
  have db: "db_ok (w_db w)" using assms(1) by (simp add: fate_def)
  have db': "db_ok (w_db w')" using wr.inv_step [of w "Turn io n" cr js] db by (simp add: w'_def always_def)
  have q: "w_queue w' = drop n (w_queue w)" using turn_rest(1) [OF assms(2)] by (simp add: w'_def)
  note bt = bystanders_turn [OF db assms(2) refl assms(3) _ _ w'_def]
  consider (wait) pre post where "w_queue w = pre @ cmd # post" "list_all keeps (pre @ post)"
      "k \<notin> batch_acks (pre @ post)" "k \<notin> fst ` set (w_acked w)" "obs (w_db w) = before"
    | (rest) "at_rest k keeps w" "done_ok before w \<or> refused before w"
    using assms(1,2) unfolding fate_def waiting_def refused_def by blast
  then have "fate before w'"
  proof cases
    case wait
    show ?thesis
    proof (cases "n \<le> length pre")
      case True
      then have b: "list_all keeps (take n (w_queue w))" "k \<notin> batch_acks (take n (w_queue w))"
        using wait(1-3) by (auto simp: batch_acks_def list_all_iff dest: in_set_takeD)
      have none: "map_of (w_acked w') k = None" using bt(2) [OF b] wait(4) by (simp add: map_of_eq_None_iff)
      have "w_queue w' = drop n pre @ cmd # post" using True wait(1) by (simp add: q)
      moreover have "list_all keeps (drop n pre @ post)" "k \<notin> batch_acks (drop n pre @ post)"
        using wait(2,3) by (auto simp: batch_acks_def list_all_iff dest: in_set_dropD)
      ultimately have "w_running w' \<Longrightarrow> waiting cmd k keeps w'"
        using none unfolding waiting_def map_of_eq_None_iff by blast
      then show ?thesis using db' none bt(1) [OF b] wait(5) by (auto simp: fate_def refused_def)
    next
      case False
      define m where "m = n - Suc (length pre)"
      have t: "take n (w_queue w) = pre @ cmd # take m post" and d: "w_queue w' = drop m post"
        using False wait(1) by (simp_all add: q m_def take_Cons' drop_Cons')
      have "list_all keeps (pre @ take m post)" "k \<notin> batch_acks (pre @ take m post)"
        using wait(2,3) by (auto simp: batch_acks_def list_all_iff dest: in_set_takeD)
      from own_turn [OF db assms(2) refl t this wait(4) w'_def] have "done_ok before w' \<or> refused before w'"
        by (simp add: wait(5))
      moreover have "at_rest k keeps w'"
        using wait(2,3) by (auto simp: at_rest_def d batch_acks_def list_all_iff dest: in_set_dropD)
      ultimately show ?thesis using db' by (auto simp: fate_def)
    qed
  next
    case rest
    then have b: "list_all keeps (take n (w_queue w))" "k \<notin> batch_acks (take n (w_queue w))"
      by (auto simp: at_rest_def batch_acks_def list_all_iff dest: in_set_takeD)
    have "at_rest k keeps w'"
      using rest(1) by (auto simp: at_rest_def q batch_acks_def list_all_iff dest: in_set_dropD)
    moreover have "done_ok before w' \<or> refused before w'"
      using rest(2) bt [OF b] assms(2) by (auto simp: done_ok_def refused_def split: option.splits)
    ultimately show ?thesis using db' by (auto simp: fate_def)
  qed
  then show ?thesis by (simp add: w'_def)
qed


end

sublocale write_through \<subseteq> fate: invariant_machine "writer_step cr js" "\<lambda>e _. bystander k keeps e" "fate before"
  for before
proof
  fix w e assume f: "fate before w" and ok: "bystander k keeps e"
  show "fate before (writer_step cr js e w)"
  proof (cases e)
    case (Turn io n)
    show ?thesis
    proof (cases "w_running w \<and> take n (w_queue w) \<noteq> []")
      case True
      with f Turn show ?thesis by (simp add: fate_turn)
    next
      case False
      with f Turn show ?thesis by (auto simp: writer_turn_def)
    qed
  next
    case (Send c)
    show ?thesis
    proof (cases "waiting cmd k keeps w")
      case True
      then obtain pre post where "w_queue w = pre @ cmd # post" "list_all keeps (pre @ post)"
        "k \<notin> batch_acks (pre @ post)" by (auto simp: waiting_def)
      with True Send ok have "waiting cmd k keeps (enqueue c w)"
        by (intro waitingI [of _ pre _ "post @ [c]"]) (auto simp: waiting_def enqueue_def batch_acks_def)
      moreover have "obs (w_db w) = before \<or> done_ok before w \<or> refused before w" "db_ok (w_db w)"
        using f by (auto simp: fate_def)
      moreover have "map_of (w_acked w) k = None" "w_running w"
        using True by (auto simp: waiting_def map_of_eq_None_iff)
      ultimately show ?thesis
        by (auto simp: fate_def done_ok_def refused_def Send) (simp_all add: enqueue_def)
    next
      case False
      have "at_rest k keeps w \<Longrightarrow> at_rest k keeps (enqueue c w)" "w_db (enqueue c w) = w_db w"
        "w_running (enqueue c w) = w_running w"
        using Send ok by (auto simp: at_rest_def enqueue_def batch_acks_def)
      with False f Send show ?thesis by (auto simp: fate_def)
    qed
  qed
qed

context write_through
begin

lemma bystanders_admitted: "list_all (bystander k keeps) es \<Longrightarrow> admitted step (\<lambda>e _. bystander k keeps e) es s"
  by (induction es arbitrary: s) simp_all

text \<open>
  The whole call. A success stands for the effect of the command on the part as it was before
  the call; any error leaves the part as it was; so does a call that still blocks.
\<close>

theorem blocking_fate:
  assumes "db_ok (w_db w)" and "k \<notin> fst ` set (w_acked w)" and "list_all keeps (w_queue w)"
    and "k \<notin> batch_acks (w_queue w)" and "list_all (bystander k keeps) es"
    and "blocking cr js cmd k es w = (r, w')"
  shows "db_ok (w_db w') \<and>
     ((\<exists>msg d0 b d1 b'. r = Some (Inr msg) \<and> good_reply cr js cmd d0 msg \<and> db_ok d0 \<and> obs d0 = obs (w_db w) \<and>
         apply_command cr js cmd (d0, b) = Inr (d1, b') \<and> obs (w_db w') = obs d1)
      \<or> (\<forall>msg. r = Some (Inr msg) \<longrightarrow> \<not> acked_ok msg) \<and> obs (w_db w') = obs (w_db w))"
proof (cases "w_running w")
  case True
  have "waiting cmd k keeps (enqueue cmd w)"
    using assms(2-4) True by (intro waitingI [of _ "w_queue w" _ "[]"]) (auto simp: enqueue_def)
  then have "fate (obs (w_db w)) (enqueue cmd w)" using assms(1) True by (simp add: fate_def enqueue_def)
  from fate.inv_run [OF this bystanders_admitted [OF assms(5)]]
  have f: "fate (obs (w_db w)) w'" and r: "r = map_option Inr (await_ack k w')"
    using assms(6) True by (auto simp: blocking_def Let_def)
  from f consider (wait) "waiting cmd k keeps w'" "obs (w_db w') = obs (w_db w)"
    | (ok) "done_ok (obs (w_db w)) w'" | (no) "refused (obs (w_db w)) w'" unfolding fate_def by blast
  then show ?thesis
  proof cases
    case wait
    then have "map_of (w_acked w') k = None" "w_running w'" by (auto simp: waiting_def map_of_eq_None_iff)
    with wait(2) f r show ?thesis by (simp add: fate_def await_ack_def)
  next
    case ok
    then obtain msg where "map_of (w_acked w') k = Some msg" "\<exists>d0 b d1 b'. good_reply cr js cmd d0 msg \<and> db_ok d0 \<and>
        obs d0 = obs (w_db w) \<and> apply_command cr js cmd (d0, b) = Inr (d1, b') \<and> obs (w_db w') = obs d1"
      unfolding done_ok_def by blast
    with f r show ?thesis by (simp add: fate_def await_ack_def)
  next
    case no
    with f r show ?thesis
      by (auto simp: refused_def fate_def await_ack_def acked_ok_def split: option.splits if_splits)
  qed
next
  case False
  with assms have "r = Some (Inl Writer_Gone)" "w' = w" by (simp_all add: blocking_def)
  with assms(1) show ?thesis by simp
qed

end

section \<open>A success was committed\<close>

text \<open>
  Whatever else is queued or sent meanwhile: an ack that says success was sent by a turn whose batch
  contained the command and was committed. Only the ack channel has to be the caller's own, which a
  fresh channel per call is.
\<close>

definition private_ack :: "ack \<Rightarrow> writer_event list \<Rightarrow> writer \<Rightarrow> bool" where
  "private_ack k es w \<longleftrightarrow>
     k \<notin> fst ` set (w_acked w) \<and> k \<notin> batch_acks (w_queue w) \<and> list_all (bystander k (\<lambda>_. True)) es"

definition committed :: "crypto \<Rightarrow> json \<Rightarrow> command \<Rightarrow> writer_event list \<Rightarrow> writer \<Rightarrow> bool" where
  "committed cr js cmd es w \<longleftrightarrow>
     (\<exists>es1 io n es2 w1 b. es = es1 @ Turn io n # es2 \<and> w1 = run (writer_step cr js) es1 w \<and>
        cmd \<in> set (take n (w_queue w1)) \<and>
        apply_seq cr js (take n (w_queue w1)) (w_db w1, no_out) = Inr (w_db (writer_turn cr js io n w1), b))"

lemma committed_later: "committed cr js cmd es (writer_step cr js e w) \<Longrightarrow> committed cr js cmd (e # es) w"
  unfolding committed_def by (metis append_Cons run.simps(2))

lemma acked_stays: "map_of (w_acked w) k = Some msg \<Longrightarrow> map_of (w_acked (run (writer_step cr js) es w)) k = Some msg"
proof (induction es arbitrary: w)
  case (Cons e es)
  have "map_of (w_acked (writer_step cr js e w)) k = Some msg"
    using Cons.prems
    by (cases e) (auto simp: enqueue_def writer_turn_def Let_def case_prod_beta map_add_def split: option.splits)
  with Cons.IH show ?case by simp
qed simp

lemma acked_committed:
  assumes "k \<notin> fst ` set (w_acked w)" and "\<forall>c \<in> set (w_queue w). k \<in> set (command_acks c) \<longrightarrow> c = cmd"
    and "list_all (bystander k (\<lambda>_. True)) es"
    and "map_of (w_acked (run (writer_step cr js) es w)) k = Some msg" and "acked_ok msg"
  shows "committed cr js cmd es w"
  using assms(1-4)
proof (induction es arbitrary: w)
  case Nil
  then show ?case by (simp add: map_of_eq_None_iff [THEN iffD2])
next
  case (Cons e es)
  let ?w = "writer_step cr js e w"
  show ?case
  proof (cases "k \<in> fst ` set (w_acked ?w)")
    case False
    moreover have "\<forall>c \<in> set (w_queue ?w). k \<in> set (command_acks c) \<longrightarrow> c = cmd"
      using Cons.prems(2,3) by (cases e) (auto simp: enqueue_def writer_turn_def Let_def case_prod_beta dest: in_set_dropD split: if_splits)
    ultimately show ?thesis using Cons.IH [of ?w] Cons.prems(3,4) by (intro committed_later) simp
  next
    case True
    then obtain m where m: "map_of (w_acked ?w) k = Some m" by (metis map_of_eq_None_iff option.exhaust)
    with acked_stays [OF this] Cons.prems(4) assms(5) have ok: "acked_ok m" by simp
    have none: "map_of (w_acked w) k = None" using Cons.prems(1) by (simp add: map_of_eq_None_iff)
    obtain io n where e: "e = Turn io n" "w_running w" "take n (w_queue w) \<noteq> []"
      using m none by (cases e) (auto simp: enqueue_def writer_turn_def Let_def split: if_splits)
    show ?thesis
    proof (cases rule: turn_cases [OF e(2) refl e(3) refl, of cr js io, case_names commit rollback])
      case (commit d b)
      have "map_of (settle (Inr d) b @ dropped_acks (take n (w_queue w)) b) k = Some m"
        using m none commit(3) e(1) by (simp add: map_add_def split: option.splits)
      then have "k \<in> fst ` set (settle (Inr d) b @ dropped_acks (take n (w_queue w)) b)"
        by (force dest: map_of_SomeD)
      then have "k \<in> batch_acks (take n (w_queue w))"
        using commit(4) by (auto simp: image_Un settle_facts(1) dropped_facts(1))
      then have "cmd \<in> set (take n (w_queue w))"
        using Cons.prems(2) by (auto simp: batch_acks_def dest: in_set_takeD)
      with commit(1,2) e(1) show ?thesis
        unfolding committed_def
        by (intro exI [of _ "[]"] exI [of _ io] exI [of _ n] exI [of _ es] exI [of _ w] exI [of _ b]) simp
    next
      case (rollback err b)
      let ?s = "settle (Inl err) b @ dropped_acks (take n (w_queue w)) b"
      have "map_of ?s k = Some m" using m none rollback(2) e(1) by (simp add: map_add_def split: option.splits)
      then have "(k, m) \<in> set ?s" by (rule map_of_SomeD)
      then show ?thesis using ok settle_facts(3) [of "Inl err" "(k, m)" b] dropped_facts(2) [of "(k, m)"] by auto
    qed
  qed
qed

lemma success_committed:
  assumes "blocking cr js cmd k es w = (Some (Inr msg), w')" and "acked_ok msg" and "command_acks cmd = [k]" and "private_ack k es w"
  shows "committed cr js cmd es (enqueue cmd w)"
proof -
  have run: "w_running w" "await_ack k w' = Some msg" "w' = run (writer_step cr js) es (enqueue cmd w)"
    using assms(1) by (auto simp: blocking_def Let_def split: if_splits)
  have "map_of (w_acked w') k = Some msg"
    using run(2) assms(2) by (auto simp: await_ack_def acked_ok_def split: option.splits if_splits)
  then show ?thesis
    using acked_committed [of k "enqueue cmd w" cmd es cr js msg] assms(2-4) run(1,3)
    by (auto simp: private_ack_def enqueue_def batch_acks_def)
qed

end
