(* ===== verification/Oauth.thy ===== *)
theory Oauth
  imports Clock Text
begin

text \<open>
  \<open>oauth.rs\<close>: the login transaction store, starting and completing a login, and the
  refresh-token grant. Discovery, the authorisation URL, the token endpoint and the
  verification of an ID token belong to the \<open>openidconnect\<close> crate and to the provider; they
  are the fields of \<open>idp\<close>, one value per call made to them.
\<close>

section \<open>Names, errors\<close>

definition login_ttl_secs :: nat where
  "login_ttl_secs = 600"

definition jwks_refetch_min_interval_secs :: nat where
  "jwks_refetch_min_interval_secs = 300"

definition default_provider :: string where
  "default_provider = ''default''"

definition person_subject :: "string \<Rightarrow> string \<Rightarrow> string" where
  "person_subject provider_id upstream_sub =
     (if provider_id = default_provider then upstream_sub else provider_id @ ''|'' @ upstream_sub)"

datatype oauth_error =
    Not_Configured
  | Invalid_Url string
  | Discovery string
  | Unknown_Txn
  | Txn_Expired
  | State_Mismatch
  | Provider_Error string
  | Exchange_Failed string
  | Missing_Id_Token
  | Invalid_Id_Token string
  | Issuer_Mismatch
  | Provider_Disabled
  | Provider_Gone
  | Provider_Unavailable string
  | Subject_Collision

fun oauth_code :: "oauth_error \<Rightarrow> string" where
  "oauth_code Not_Configured = ''not_configured''"
| "oauth_code (Invalid_Url _) = ''invalid_url''"
| "oauth_code (Discovery _) = ''discovery_failed''"
| "oauth_code Unknown_Txn = ''unknown_txn''"
| "oauth_code Txn_Expired = ''txn_expired''"
| "oauth_code State_Mismatch = ''state_mismatch''"
| "oauth_code (Provider_Error _) = ''provider_error''"
| "oauth_code (Exchange_Failed _) = ''exchange_failed''"
| "oauth_code Missing_Id_Token = ''missing_id_token''"
| "oauth_code (Invalid_Id_Token _) = ''invalid_id_token''"
| "oauth_code Issuer_Mismatch = ''iss_mismatch''"
| "oauth_code Provider_Disabled = ''provider_disabled''"
| "oauth_code Provider_Gone = ''provider_gone''"
| "oauth_code (Provider_Unavailable _) = ''provider_unavailable''"
| "oauth_code Subject_Collision = ''subject_collision''"

record upstream_tokens =
  ut_access_token :: string
  ut_refresh_token :: "string option"
  ut_expires_at :: timestamp
  ut_scope :: "string option"
  ut_sub :: string
  ut_provider_id :: string

section \<open>The transaction store\<close>

record txn_record =
  tr_provider_id :: string
  tr_state :: string
  tr_nonce :: string
  tr_pkce_verifier :: string
  tr_return_to :: "string option"
  tr_created_at :: timestamp

type_synonym txn_store = "(string, txn_record) dmap"

definition txn_insert :: "string \<Rightarrow> txn_record \<Rightarrow> txn_store \<Rightarrow> txn_store" where
  "txn_insert fresh record txns = dinsert fresh record txns"

definition txn_take :: "string \<Rightarrow> txn_store \<Rightarrow> txn_record option \<times> txn_store" where
  "txn_take i txns = (dget txns i, dremove i txns)"

definition provider_of :: "string \<Rightarrow> txn_store \<Rightarrow> string option" where
  "provider_of i txns = map_option tr_provider_id (dget txns i)"

definition return_to_of :: "string \<Rightarrow> txn_store \<Rightarrow> string option" where
  "return_to_of i txns = Option.bind (dget txns i) tr_return_to"

definition discard :: "string \<Rightarrow> txn_store \<Rightarrow> txn_store" where
  "discard i txns = snd (txn_take i txns)"

section \<open>The client\<close>

text \<open>
  \<open>oc_keys\<close> is the provider's key set the client holds. \<open>'k\<close> is a key, which only the library
  looks into.
\<close>

record 'k oidc_client =
  oc_keys :: "'k list"
  oc_last_key_refetch :: "timestamp option"
  oc_scopes :: "string list"
  oc_provider_id :: string
  oc_issuer :: string

datatype auth_type = Request_Body | Basic_Auth

definition choose_auth_type :: "string \<Rightarrow> string list option \<Rightarrow> auth_type" where
  "choose_auth_type issuer supported =
     (if take (length ''https://login.microsoftonline.com/'') issuer = ''https://login.microsoftonline.com/''
      then Request_Body
      else case supported of
             Some methods \<Rightarrow> if ''client_secret_basic'' \<notin> set methods then Request_Body else Basic_Auth
           | None \<Rightarrow> Basic_Auth)"

text \<open>
  A token response as the code reads it, the three ways ID-token verification can go, and the
  way a request to the token endpoint can fail.
\<close>

record token_response =
  tp_access_token :: string
  tp_refresh_token :: "string option"
  tp_expires_in :: "nat option"
  tp_scopes :: "string list option"
  tp_id_token :: "string option"

datatype claims_error = No_Matching_Key | Bad_Claims string

datatype request_error = Server_Response string string | Request_Failed string

text \<open>
  The provider and the library: the code exchange (code, PKCE verifier), the fetch of the key
  set, the verification of an ID token under a key set and a nonce, giving its subject, and the
  refresh-token exchange.
\<close>

record 'k idp =
  idp_exchange :: "string \<Rightarrow> string \<Rightarrow> string + token_response"
  idp_fetch_keys :: "string + 'k list"
  idp_claims :: "'k list \<Rightarrow> string \<Rightarrow> string \<Rightarrow> claims_error + string"
  idp_refresh :: "string \<Rightarrow> request_error + token_response"

definition refetch_keys :: "'k idp \<Rightarrow> timestamp \<Rightarrow> 'k oidc_client \<Rightarrow> 'k oidc_client" where
  "refetch_keys I now c =
     (if (case oc_last_key_refetch c of
            Some prev \<Rightarrow> since now prev < jwks_refetch_min_interval_secs | None \<Rightarrow> False)
      then c
      else let c1 = c\<lparr>oc_last_key_refetch := Some now\<rparr>
           in case idp_fetch_keys I of
                Inr jwks \<Rightarrow> if jwks \<noteq> [] then c1\<lparr>oc_keys := jwks\<rparr> else c1
              | Inl _ \<Rightarrow> c1)"

text \<open>The values the library draws for a login, and the txn id of \<open>random_id\<close>.\<close>

record login_draws =
  ld_txn :: string
  ld_state :: string
  ld_nonce :: string
  ld_verifier :: string

definition begin_login ::
  "login_draws \<Rightarrow> string option \<Rightarrow> timestamp \<Rightarrow> 'k oidc_client \<Rightarrow> txn_store \<Rightarrow> string \<times> txn_store" where
  "begin_login dr return_to now c txns =
     (ld_txn dr, txn_insert (ld_txn dr)
        \<lparr>tr_provider_id = oc_provider_id c, tr_state = ld_state dr, tr_nonce = ld_nonce dr,
         tr_pkce_verifier = ld_verifier dr, tr_return_to = return_to, tr_created_at = now\<rparr> txns)"

definition joined_scope :: "string list \<Rightarrow> string" where
  "joined_scope scopes = concat (case scopes of [] \<Rightarrow> [] | s # ss \<Rightarrow> s # map (\<lambda>t. '' '' @ t) ss)"

text \<open>\<open>complete_login\<close> once the transaction's checks have passed: exchange, verify, translate.\<close>

definition redeem_code ::
  "'k idp \<Rightarrow> string \<Rightarrow> timestamp \<Rightarrow> txn_record \<Rightarrow> 'k oidc_client \<Rightarrow>
   (oauth_error + upstream_tokens) \<times> 'k oidc_client" where
  "redeem_code I code now record c =
     (case idp_exchange I code (tr_pkce_verifier record) of
        Inl e \<Rightarrow> (Inl (Exchange_Failed e), c)
      | Inr tr \<Rightarrow>
          (case tp_id_token tr of
             None \<Rightarrow> (Inl Missing_Id_Token, c)
           | Some id_token \<Rightarrow>
               (let key_unknown = (idp_claims I (oc_keys c) id_token (tr_nonce record) = Inl No_Matching_Key);
                    c1 = (if key_unknown then refetch_keys I now c else c)
                in (case idp_claims I (oc_keys c1) id_token (tr_nonce record) of
                      Inl No_Matching_Key \<Rightarrow> Inl (Invalid_Id_Token ''no matching key'')
                    | Inl (Bad_Claims e) \<Rightarrow> Inl (Invalid_Id_Token e)
                    | Inr subject \<Rightarrow>
                        Inr \<lparr>ut_access_token = tp_access_token tr, ut_refresh_token = tp_refresh_token tr,
                          ut_expires_at = plus_secs now (case tp_expires_in tr of Some n \<Rightarrow> n | None \<Rightarrow> 300),
                          ut_scope = map_option joined_scope (tp_scopes tr),
                          ut_sub = person_subject (oc_provider_id c1) subject,
                          ut_provider_id = oc_provider_id c1\<rparr>, c1))))"

definition complete_login ::
  "'k idp \<Rightarrow> string \<Rightarrow> string \<Rightarrow> string \<Rightarrow> timestamp \<Rightarrow> 'k oidc_client \<Rightarrow> txn_store \<Rightarrow>
   (oauth_error + upstream_tokens \<times> string option) \<times> 'k oidc_client \<times> txn_store" where
  "complete_login I txn_id presented_state code now c txns =
     (let (taken, txns') = txn_take txn_id txns
      in case taken of
           None \<Rightarrow> (Inl Unknown_Txn, c, txns')
         | Some record \<Rightarrow>
             (if tr_provider_id record \<noteq> oc_provider_id c then (Inl Unknown_Txn, c, txns')
              else if login_ttl_secs \<le> since now (tr_created_at record) then (Inl Txn_Expired, c, txns')
              else if tr_state record \<noteq> presented_state then (Inl State_Mismatch, c, txns')
              else let (r, c') = redeem_code I code now record c
                   in (bindE r (\<lambda>tokens. Inr (tokens, tr_return_to record)), c', txns')))"

section \<open>The refresh grant\<close>

record refreshed_grant =
  rg_access_token :: string
  rg_rotated_refresh_token :: "string option"
  rg_expires_at :: timestamp
  rg_lifetime_secs :: nat

datatype refresh_grant_error = Grant_Transient string | Grant_Permanent string

fun classify_refresh_error :: "request_error \<Rightarrow> refresh_grant_error" where
  "classify_refresh_error (Server_Response code said) =
     (if code = ''invalid_grant'' then Grant_Permanent said else Grant_Transient said)"
| "classify_refresh_error (Request_Failed said) = Grant_Transient said"

definition refresh_grant ::
  "'k idp \<Rightarrow> string \<Rightarrow> timestamp \<Rightarrow> refresh_grant_error + refreshed_grant" where
  "refresh_grant I refresh_token now =
     (case idp_refresh I refresh_token of
        Inl e \<Rightarrow> Inl (classify_refresh_error e)
      | Inr tr \<Rightarrow>
          (let lifetime_secs = (case tp_expires_in tr of Some n \<Rightarrow> n | None \<Rightarrow> 300)
           in Inr \<lparr>rg_access_token = tp_access_token tr, rg_rotated_refresh_token = tp_refresh_token tr,
                   rg_expires_at = plus_secs now lifetime_secs, rg_lifetime_secs = lifetime_secs\<rparr>))"

end
