(* ===== verification/Providers.thy ===== *)
theory Providers
  imports Oauth Repo_Admin "HOL-Library.List_Lexorder" "HOL-Library.Char_ord"
begin

text \<open>
  \<open>providers.rs\<close>: the checks on an issuer's discovery document and the registry of identity
  providers with its lazily connected clients. URL parsing and the HTTP requests are the
  fields of \<open>net\<close>; a connected client is what the library builds from a provider's metadata.
\<close>

section \<open>Discovery\<close>

datatype url_host = Domain string | Ipv4 "nat list" | Ipv6 "nat list"

record url =
  url_scheme :: string
  url_host :: "url_host option"
  url_username :: string
  url_password :: "string option"
  url_query :: "string option"
  url_fragment :: "string option"

datatype discovery_failure = Failure string string

record discovery_document =
  dd_issuer :: "string option"
  dd_authorization_endpoint :: "string option"
  dd_token_endpoint :: "string option"
  dd_jwks_uri :: "string option"
  dd_userinfo_endpoint :: "string option"
  dd_end_session_endpoint :: "string option"

record discovered_endpoints =
  de_issuer :: string
  de_authorization_endpoint :: string
  de_token_endpoint :: string
  de_jwks_uri :: string
  de_userinfo_endpoint :: "string option"
  de_end_session_endpoint :: "string option"
  de_jwks_keys :: nat

text \<open>
  \<open>net_fetch\<close> is \<open>fetch_json\<close> on a discovery document and on a key set (its number of keys),
  with the failure words the caller chose for it.
\<close>

record net =
  net_parse :: "string \<Rightarrow> string + url"
  net_document :: "string \<Rightarrow> discovery_failure + discovery_document"
  net_jwks :: "string \<Rightarrow> discovery_failure + nat"

definition eq_ignore_ascii_case :: "string \<Rightarrow> string \<Rightarrow> bool" where
  "eq_ignore_ascii_case s t \<longleftrightarrow>
     (let lower = map (\<lambda>c. if 65 \<le> (of_char c :: nat) \<and> (of_char c :: nat) \<le> 90 then char_of ((of_char c :: nat) + 32) else c)
      in lower s = lower t)"

definition is_loopback :: "url \<Rightarrow> bool" where
  "is_loopback u \<longleftrightarrow>
     (case url_host u of
        Some (Domain domain) \<Rightarrow> eq_ignore_ascii_case domain ''localhost''
      | Some (Ipv4 ip) \<Rightarrow> take 1 ip = [127]
      | Some (Ipv6 ip) \<Rightarrow> ip = [0, 0, 0, 0, 0, 0, 0, 1]
      | None \<Rightarrow> False)"

definition check_transport :: "string \<Rightarrow> url \<Rightarrow> discovery_failure + unit" where
  "check_transport raw u =
     (if url_scheme u = ''https'' \<or> (url_scheme u = ''http'' \<and> is_loopback u) then Inr ()
      else Inl (Failure ''issuer_not_https'' (raw @ '' must be https, or http on loopback'')))"

definition check_issuer_url :: "net \<Rightarrow> string \<Rightarrow> discovery_failure + unit" where
  "check_issuer_url N issuer =
     (case net_parse N issuer of
        Inl e \<Rightarrow> Inl (Failure ''invalid_url'' e)
      | Inr u \<Rightarrow>
          (if url_host u = None then Inl (Failure ''invalid_url'' ''an issuer needs a host'')
           else if url_username u \<noteq> [] \<or> url_password u \<noteq> None
           then Inl (Failure ''invalid_url'' ''an issuer carries no credentials'')
           else if url_query u \<noteq> None \<or> url_fragment u \<noteq> None
           then Inl (Failure ''invalid_url'' ''an issuer has no query or fragment (OIDC Discovery 1.0)'')
           else check_transport issuer u))"

definition required_endpoint :: "net \<Rightarrow> string option \<Rightarrow> string \<Rightarrow> discovery_failure + string" where
  "required_endpoint N value name =
     (case value of
        None \<Rightarrow> Inl (Failure ''missing_endpoint'' (''no '' @ name))
      | Some v \<Rightarrow>
          (case net_parse N v of
             Inl e \<Rightarrow> Inl (Failure ''missing_endpoint'' (name @ '' is not a URL: '' @ e))
           | Inr u \<Rightarrow> (case check_transport v u of
                          Inl _ \<Rightarrow> Inl (Failure ''insecure_endpoint'' (name @ '' is '' @ v))
                        | Inr _ \<Rightarrow> Inr v)))"

definition trim_end_slashes :: "string \<Rightarrow> string" where
  "trim_end_slashes s = rev (dropWhile (\<lambda>c. c = CHR ''/'') (rev s))"

definition probe_issuer :: "net \<Rightarrow> string \<Rightarrow> discovery_failure + discovered_endpoints" where
  "probe_issuer N issuer =
     bindE (check_issuer_url N issuer) (\<lambda>_.
     bindE (net_document N (trim_end_slashes issuer @ ''/.well-known/openid-configuration'')) (\<lambda>doc.
     case dd_issuer doc of
       None \<Rightarrow> Inl (Failure ''missing_endpoint'' ''the document has no issuer'')
     | Some found \<Rightarrow>
         (if found \<noteq> issuer
          then Inl (Failure ''issuer_mismatch'' (''configured '' @ issuer @ '', the document says '' @ found))
          else
            bindE (required_endpoint N (dd_authorization_endpoint doc) ''authorization_endpoint'') (\<lambda>authz.
            bindE (required_endpoint N (dd_token_endpoint doc) ''token_endpoint'') (\<lambda>tok.
            bindE (required_endpoint N (dd_jwks_uri doc) ''jwks_uri'') (\<lambda>jwks_uri.
            bindE (net_jwks N jwks_uri) (\<lambda>keys.
              if keys = 0 then Inl (Failure ''jwks_invalid'' ''the key set is empty'')
              else Inr \<lparr>de_issuer = found, de_authorization_endpoint = authz, de_token_endpoint = tok,
                     de_jwks_uri = jwks_uri, de_userinfo_endpoint = dd_userinfo_endpoint doc,
                     de_end_session_endpoint = dd_end_session_endpoint doc, de_jwks_keys = keys\<rparr>)))))))"

section \<open>The registry\<close>

record provider_settings =
  pv_id :: string
  pv_preset :: string
  pv_display_name :: string
  pv_issuer_url :: string
  pv_client_id :: string
  pv_client_secret :: "string option"
  pv_scopes :: "string list"
  pv_enabled :: bool
  pv_deleted :: bool
  pv_read_only :: bool
  pv_created_at :: "timestamp option"
  pv_updated_at :: "timestamp option"

record 'k entry =
  en_settings :: provider_settings
  en_client :: "'k oidc_client option"

datatype login_refusal =
    Refuse_No_Providers
  | Refuse_Required
  | Refuse_Unknown
  | Refuse_Disabled
  | Refuse_Unavailable discovery_failure

datatype 'k refresh_client =
    Client_Ready "'k oidc_client"
  | Client_Gone
  | Client_Unavailable string

record 'k registry =
  rg_redirect_uri :: string
  rg_txns :: txn_store
  rg_entries :: "(string, 'k entry) dmap"

definition empty_registry :: "string \<Rightarrow> 'k registry" where
  "empty_registry redirect_uri = \<lparr>rg_redirect_uri = redirect_uri, rg_txns = [], rg_entries = []\<rparr>"

definition install :: "provider_settings \<Rightarrow> 'k oidc_client option \<Rightarrow> 'k registry \<Rightarrow> 'k registry" where
  "install settings client r =
     r\<lparr>rg_entries := dinsert (pv_id settings) \<lparr>en_settings = settings, en_client = client\<rparr> (rg_entries r)\<rparr>"

text \<open>The entries in the order of the \<open>BTreeMap\<close>.\<close>

definition entry_list :: "'k registry \<Rightarrow> 'k entry list" where
  "entry_list r = map snd (sort_key fst (rg_entries r))"

definition list_providers :: "'k registry \<Rightarrow> provider_settings list" where
  "list_providers r = map en_settings (filter (\<lambda>e. \<not> pv_deleted (en_settings e)) (entry_list r))"

definition settings_of :: "string \<Rightarrow> 'k registry \<Rightarrow> provider_settings option" where
  "settings_of i r = map_option en_settings (dget (rg_entries r) i)"

definition connected_client :: "string \<Rightarrow> 'k registry \<Rightarrow> 'k oidc_client option" where
  "connected_client i r = Option.bind (dget (rg_entries r) i) en_client"

definition can_login :: "'k entry \<Rightarrow> bool" where
  "can_login e \<longleftrightarrow> pv_enabled (en_settings e) \<and> \<not> pv_deleted (en_settings e)"

definition enabled_providers :: "'k registry \<Rightarrow> (string \<times> string) list" where
  "enabled_providers r =
     map (\<lambda>e. (pv_id (en_settings e), pv_display_name (en_settings e))) (filter can_login (entry_list r))"

text \<open>
  \<open>OidcClient::build\<close>: \<open>build\<close> is the library's part of it, from the issuer, client id, secret,
  redirect URI and scopes to the key set; the broker's part keeps the scopes but \<open>openid\<close>.
\<close>

type_synonym 'k builder = "string \<Rightarrow> string \<Rightarrow> string \<Rightarrow> string \<Rightarrow> string list \<Rightarrow> oauth_error + 'k list"

definition build_client ::
  "'k builder \<Rightarrow> string \<Rightarrow> string \<Rightarrow> string \<Rightarrow> string \<Rightarrow> string list \<Rightarrow> string \<Rightarrow> oauth_error + 'k oidc_client" where
  "build_client build issuer client_id secret redirect_uri scopes provider_id =
     bindE (build issuer client_id secret redirect_uri scopes) (\<lambda>keys.
       Inr \<lparr>oc_keys = keys, oc_last_key_refetch = None, oc_scopes = filter (\<lambda>s. s \<noteq> ''openid'') scopes,
            oc_provider_id = provider_id, oc_issuer = issuer\<rparr>)"

definition connect ::
  "net \<Rightarrow> 'k builder \<Rightarrow> provider_settings \<Rightarrow> 'k registry \<Rightarrow> discovery_failure + 'k oidc_client" where
  "connect N build s r =
     (case pv_client_secret s of
        None \<Rightarrow> Inl (Failure ''secret_unavailable'' ''the stored client secret could not be opened; set it again'')
      | Some secret \<Rightarrow>
          bindE (probe_issuer N (pv_issuer_url s)) (\<lambda>_.
            case build_client build (pv_issuer_url s) (pv_client_id s) secret (rg_redirect_uri r) (pv_scopes s) (pv_id s) of
              Inl e \<Rightarrow> Inl (Failure ''client_build_failed'' (oauth_code e))
            | Inr c \<Rightarrow> Inr c))"

definition put_client :: "string \<Rightarrow> 'k oidc_client \<Rightarrow> 'k registry \<Rightarrow> 'k registry" where
  "put_client i c r =
     (case dget (rg_entries r) i of
        None \<Rightarrow> r
      | Some e \<Rightarrow> r\<lparr>rg_entries := dinsert i (e\<lparr>en_client := Some c\<rparr>) (rg_entries r)\<rparr>)"

text \<open>\<open>get_or_try_init\<close>: an error leaves the cell empty, so the next caller tries again.\<close>

definition client_of ::
  "net \<Rightarrow> 'k builder \<Rightarrow> string \<Rightarrow> 'k entry \<Rightarrow> 'k registry \<Rightarrow> (discovery_failure + 'k oidc_client) \<times> 'k registry" where
  "client_of N build i e r =
     (case en_client e of
        Some c \<Rightarrow> (Inr c, r)
      | None \<Rightarrow> (case connect N build (en_settings e) r of
                   Inl f \<Rightarrow> (Inl f, r)
                 | Inr c \<Rightarrow> (Inr c, put_client i c r)))"

definition mapL :: "('a \<Rightarrow> 'b) \<Rightarrow> 'a + 'c \<Rightarrow> 'b + 'c" where
  "mapL f x = (case x of Inl e \<Rightarrow> Inl (f e) | Inr y \<Rightarrow> Inr y)"

definition failure_text :: "discovery_failure \<Rightarrow> string" where
  "failure_text f = (case f of Failure word detail \<Rightarrow> word @ '': '' @ detail)"

definition client_for_login ::
  "net \<Rightarrow> 'k builder \<Rightarrow> string option \<Rightarrow> 'k registry \<Rightarrow> (login_refusal + 'k oidc_client) \<times> 'k registry" where
  "client_for_login N build requested r =
     (let go = (\<lambda>i e. let (c, r') = client_of N build i e r in (mapL Refuse_Unavailable c, r'))
      in case requested of
           Some i \<Rightarrow>
             (case dget (rg_entries r) i of
                None \<Rightarrow> (Inl Refuse_Unknown, r)
              | Some e \<Rightarrow> if pv_deleted (en_settings e) then (Inl Refuse_Unknown, r)
                          else if \<not> pv_enabled (en_settings e) then (Inl Refuse_Disabled, r)
                          else go i e)
         | None \<Rightarrow>
             (case filter can_login (entry_list r) of
                [] \<Rightarrow> (Inl Refuse_No_Providers, r)
              | [e] \<Rightarrow> go (pv_id (en_settings e)) e
              | _ \<Rightarrow> (Inl Refuse_Required, r)))"

definition client_for_callback ::
  "net \<Rightarrow> 'k builder \<Rightarrow> string \<Rightarrow> 'k registry \<Rightarrow> (oauth_error + 'k oidc_client) \<times> 'k registry" where
  "client_for_callback N build i r =
     (case dget (rg_entries r) i of
        None \<Rightarrow> (Inl Provider_Gone, r)
      | Some e \<Rightarrow>
          (if pv_deleted (en_settings e) then (Inl Provider_Gone, r)
           else if \<not> pv_enabled (en_settings e) then (Inl Provider_Disabled, r)
           else let (c, r') = client_of N build i e r
                in (mapL (\<lambda>f. Provider_Unavailable (failure_text f)) c, r')))"

definition client_for_refresh ::
  "net \<Rightarrow> 'k builder \<Rightarrow> string \<Rightarrow> 'k registry \<Rightarrow> 'k refresh_client \<times> 'k registry" where
  "client_for_refresh N build i r =
     (case dget (rg_entries r) i of
        None \<Rightarrow> (if i = default_provider then Client_Unavailable ''the config-file provider is not configured''
                 else Client_Gone, r)
      | Some e \<Rightarrow>
          (if pv_deleted (en_settings e) then (Client_Gone, r)
           else let (c, r') = client_of N build i e r
                in (case c of Inr client \<Rightarrow> Client_Ready client
                            | Inl f \<Rightarrow> Client_Unavailable (failure_text f), r')))"

definition subject_collides :: "string \<Rightarrow> 'k registry \<Rightarrow> bool" where
  "subject_collides sub r \<longleftrightarrow>
     (case split_once (CHR ''|'') sub of
        None \<Rightarrow> False
      | Some (prefix, _) \<Rightarrow> prefix \<noteq> default_provider \<and> dget (rg_entries r) prefix \<noteq> None)"

section \<open>Boot\<close>

text \<open>The rows of the store, secrets opened; \<open>From<ProviderRow>\<close>; and the registry at boot.\<close>

record provider_row =
  pw_id :: string
  pw_preset :: string
  pw_display_name :: string
  pw_issuer_url :: string
  pw_client_id :: string
  pw_client_secret :: "string option"
  pw_scopes :: "string list"
  pw_enabled :: bool
  pw_created_at :: timestamp
  pw_updated_at :: timestamp
  pw_deleted_at :: "timestamp option"

definition provider_row_of :: "crypto \<Rightarrow> json \<Rightarrow> db_provider \<Rightarrow> repo_error + provider_row" where
  "provider_row_of cr js p =
     (let secret = (if ip_deleted_at p \<noteq> None then None
                    else case copen cr (ip_client_secret_sealed p) (provider_secret_context (ip_id p)) of
                           Inr plain \<Rightarrow> from_utf8 plain
                         | Inl _ \<Rightarrow> None)
      in bindE (json_list js (ip_scopes p)) (\<lambda>scopes.
           Inr \<lparr>pw_id = ip_id p, pw_preset = ip_preset p, pw_display_name = ip_display_name p,
                pw_issuer_url = ip_issuer_url p, pw_client_id = ip_client_id p,
                pw_client_secret = secret, pw_scopes = scopes, pw_enabled = ip_enabled p,
                pw_created_at = ip_created_at p, pw_updated_at = ip_updated_at p,
                pw_deleted_at = ip_deleted_at p\<rparr>))"

definition list_provider_rows :: "crypto \<Rightarrow> json \<Rightarrow> db \<Rightarrow> repo_error + provider_row list" where
  "list_provider_rows cr js d = mapE (provider_row_of cr js) (sort_key ip_id (provider_tbl d))"

definition settings_of_row :: "provider_row \<Rightarrow> provider_settings" where
  "settings_of_row w =
     \<lparr>pv_id = pw_id w, pv_preset = pw_preset w, pv_display_name = pw_display_name w,
      pv_issuer_url = pw_issuer_url w, pv_client_id = pw_client_id w,
      pv_client_secret = pw_client_secret w, pv_scopes = pw_scopes w, pv_enabled = pw_enabled w,
      pv_deleted = (pw_deleted_at w \<noteq> None), pv_read_only = False,
      pv_created_at = Some (pw_created_at w), pv_updated_at = Some (pw_updated_at w)\<rparr>"

record oidc_config =
  of_issuer_url :: "string option"
  of_client_id :: "string option"
  of_client_secret :: "string option"
  of_scopes :: "string list"

definition boot_registry ::
  "'k builder \<Rightarrow> oidc_config \<Rightarrow> provider_row list \<Rightarrow> string \<Rightarrow> oauth_error + 'k registry" where
  "boot_registry build config rows redirect_uri =
     (let r = fold (\<lambda>row. install (settings_of_row row) None) rows (empty_registry redirect_uri)
      in case of_issuer_url config of
           None \<Rightarrow> Inr r
         | Some issuer \<Rightarrow>
             (case of_client_id config of
                None \<Rightarrow> Inl Not_Configured
              | Some client_id \<Rightarrow>
                  (case of_client_secret config of
                     None \<Rightarrow> Inl Not_Configured
                   | Some secret \<Rightarrow>
                       bindE (build_client build issuer client_id secret redirect_uri (of_scopes config) default_provider)
                         (\<lambda>client. Inr (install
                            \<lparr>pv_id = default_provider, pv_preset = ''config'', pv_display_name = ''Default'',
                             pv_issuer_url = issuer, pv_client_id = client_id, pv_client_secret = Some secret,
                             pv_scopes = of_scopes config, pv_enabled = True, pv_deleted = False,
                             pv_read_only = True, pv_created_at = None, pv_updated_at = None\<rparr> (Some client) r)))))"

section \<open>Invariant\<close>

text \<open>
  An entry sits under its own id, and its client, when it has one, was built for that provider
  and that issuer.
\<close>

definition client_fits :: "provider_settings \<Rightarrow> 'k oidc_client \<Rightarrow> bool" where
  "client_fits s c \<longleftrightarrow> oc_provider_id c = pv_id s \<and> oc_issuer c = pv_issuer_url s"

definition registry_wf :: "'k registry \<Rightarrow> bool" where
  "registry_wf r \<longleftrightarrow>
     dmap_ok (rg_entries r) \<and>
     (\<forall>i e. dget (rg_entries r) i = Some e \<longrightarrow>
        pv_id (en_settings e) = i \<and> (\<forall>c. en_client e = Some c \<longrightarrow> client_fits (en_settings e) c))"

lemma registry_wf_empty [simp]: "registry_wf (empty_registry uri)"
  by (simp add: registry_wf_def empty_registry_def)

lemma registry_wf_install:
  "registry_wf r \<Longrightarrow> (\<And>c. client = Some c \<Longrightarrow> client_fits s c) \<Longrightarrow> registry_wf (install s client r)"
  by (auto simp: registry_wf_def install_def split: if_splits)

lemma registry_wf_put_client:
  "registry_wf r \<Longrightarrow> (\<And>s. settings_of i r = Some s \<Longrightarrow> client_fits s c) \<Longrightarrow> registry_wf (put_client i c r)"
  by (auto simp: registry_wf_def put_client_def settings_of_def split: option.splits if_splits)

lemma build_client_fits:
  assumes "build_client build issuer cid sec uri scopes pid = Inr c"
  shows "oc_provider_id c = pid" "oc_issuer c = issuer"
  using assms by (auto simp: build_client_def bindE_Inr_iff)

lemma connect_fits: "connect N build s r = Inr c \<Longrightarrow> client_fits s c"
  by (auto simp: connect_def bindE_Inr_iff client_fits_def build_client_fits split: option.splits sum.splits)

lemma put_client_frame [simp]:
  "rg_txns (put_client i c r) = rg_txns r" "settings_of j (put_client i c r) = settings_of j r"
  by (auto simp: put_client_def settings_of_def split: option.splits)

text \<open>\<open>client_of\<close> gives a client of its own entry and changes nothing but that entry's cell.\<close>

lemma client_of_facts:
  assumes wf: "registry_wf r" and e: "dget (rg_entries r) i = Some e" and c: "client_of N build i e r = (x, r')"
  shows "registry_wf r'" "rg_txns r' = rg_txns r" "settings_of j r' = settings_of j r"
    "\<And>cl. x = Inr cl \<Longrightarrow> client_fits (en_settings e) cl \<and> connected_client i r' = Some cl"
proof -
  have "registry_wf r' \<and> rg_txns r' = rg_txns r \<and> settings_of j r' = settings_of j r \<and>
      (\<forall>cl. x = Inr cl \<longrightarrow> client_fits (en_settings e) cl \<and> connected_client i r' = Some cl)"
  proof (cases "en_client e")
    case (Some cl)
    with wf e c show ?thesis by (auto simp: client_of_def registry_wf_def connected_client_def)
  next
    case None
    show ?thesis
    proof (cases "connect N build (en_settings e) r")
      case (Inl f)
      with None c wf show ?thesis by (auto simp: client_of_def)
    next
      case (Inr cl)
      then have f: "client_fits (en_settings e) cl" by (rule connect_fits)
      then have "registry_wf (put_client i cl r)"
        by (intro registry_wf_put_client [OF wf]) (use e in \<open>auto simp: settings_of_def\<close>)
      moreover have "connected_client i (put_client i cl r) = Some cl"
        by (simp add: connected_client_def put_client_def e)
      ultimately show ?thesis using f c None Inr by (auto simp: client_of_def)
    qed
  qed
  then show "registry_wf r'" "rg_txns r' = rg_txns r" "settings_of j r' = settings_of j r"
    "\<And>cl. x = Inr cl \<Longrightarrow> client_fits (en_settings e) cl \<and> connected_client i r' = Some cl" by auto
qed

end
