(* ===== verification/Custody.thy ===== *)
theory Custody
  imports Boot Writer_Handle Providers Sealing
begin

text \<open>
  \<open>custody.rs\<close>: taking a fresh grant into custody (\<open>CustodySink\<close>) and renewing one
  (\<open>OidcUpstream\<close>, the \<open>Upstream\<close> the keepalive worker drives). Both write through before
  they tell anybody. The lemmas show that a success is on disk, tokens and all, and that any
  other answer left the stored grant as it was.
\<close>

section \<open>Taking custody\<close>

record new_grant =
  gr_sub :: string
  gr_refresh_token :: string
  gr_access_token :: string
  gr_access_exp :: timestamp
  gr_scope :: "string option"
  gr_provider_id :: string

text \<open>The channel to the keepalive worker: what was sent, and whether the worker still receives.\<close>

record schedule_channel =
  ch_open :: bool
  ch_sent :: "schedule_request list"

definition send_request :: "schedule_request \<Rightarrow> schedule_channel \<Rightarrow> schedule_channel" where
  "send_request rq ch = (if ch_open ch then ch\<lparr>ch_sent := ch_sent ch @ [rq]\<rparr> else ch)"

definition grant_lifetime :: "timestamp \<Rightarrow> timestamp \<Rightarrow> nat" where
  "grant_lifetime access_exp now = nat (max (sat_i64 (access_exp - now)) 1)"

definition grant_row :: "'f f64 \<Rightarrow> custody_id \<Rightarrow> new_grant \<Rightarrow> timestamp \<Rightarrow> custody_row" where
  "grant_row F c g now =
     \<lparr>cr_custody_id = c, cr_sub = gr_sub g, cr_refresh_tok = bytes_of (gr_refresh_token g),
      cr_access_tok = bytes_of (gr_access_token g), cr_access_exp = gr_access_exp g,
      cr_scope = gr_scope g, cr_status = Ok,
      cr_next_refresh = plus_secs now (fl_to_u64 F (fl_mul F
          (fl_of_u64 F (grant_lifetime (gr_access_exp g) now)) (lead_fraction (default_keepalive_policy F)))),
      cr_fail_count = 0, cr_updated_at = now, cr_provider_id = gr_provider_id g\<rparr>"

text \<open>\<open>take_custody\<close>: \<open>k\<close> is the ack channel of the write, \<open>es\<close> what happens while it blocks.\<close>

definition take_custody ::
  "'f f64 \<Rightarrow> crypto \<Rightarrow> json \<Rightarrow> custody_id \<Rightarrow> new_grant \<Rightarrow> timestamp \<Rightarrow> ack \<Rightarrow> writer_event list \<Rightarrow>
   writer \<Rightarrow> schedule_channel \<Rightarrow> (write_failure + unit) option \<times> writer \<times> schedule_channel" where
  "take_custody F cr js c g now k es w ch =
     (let (r, w') = write_custody cr js (Custody_Insert (grant_row F c g now)) k es w
      in case r of
           Some (Inr _) \<Rightarrow> (r, w', send_request \<lparr>sq_custody = c, sq_issued_at = now,
                sq_lifetime_secs = grant_lifetime (gr_access_exp g) now\<rparr> ch)
         | _ \<Rightarrow> (r, w', ch))"

section \<open>Renewing\<close>

text \<open>
  \<open>OidcUpstream::refresh\<close>. \<open>read_fails\<close> is an I/O error of the reader; \<open>now\<close> the clock after the
  provider's client is there; the provider answers through \<open>I\<close>. The result is \<open>None\<close> while the
  durable write blocks.
\<close>

definition store_renewal ::
  "crypto \<Rightarrow> json \<Rightarrow> custody_id \<Rightarrow> string \<Rightarrow> refreshed_grant \<Rightarrow> timestamp \<Rightarrow> ack \<Rightarrow> writer_event list \<Rightarrow>
   writer \<Rightarrow> refresh_outcome option \<times> writer" where
  "store_renewal cr js c refresh_token grant now k es w =
     (let rotated_refresh = (rg_rotated_refresh_token grant \<noteq> None);
          refresh_to_store = (case rg_rotated_refresh_token grant of Some t \<Rightarrow> t | None \<Rightarrow> refresh_token);
          (r, w') = write_custody cr js (Custody_Success c (bytes_of refresh_to_store)
             (bytes_of (rg_access_token grant)) (rg_expires_at grant) (rg_expires_at grant) now) k es w
      in (case r of
            None \<Rightarrow> None
          | Some (Inl _) \<Rightarrow> Some (Refresh_Transient None)
          | Some (Inr _) \<Rightarrow> Some (Refresh_Success (rg_lifetime_secs grant) rotated_refresh), w'))"

definition upstream_refresh ::
  "crypto \<Rightarrow> json \<Rightarrow> net \<Rightarrow> 'k builder \<Rightarrow> 'k idp \<Rightarrow> bool \<Rightarrow> timestamp \<Rightarrow> ack \<Rightarrow> writer_event list \<Rightarrow>
   custody_id \<Rightarrow> 'k registry \<Rightarrow> writer \<Rightarrow> refresh_outcome option \<times> 'k registry \<times> writer" where
  "upstream_refresh cr js N build I read_fails now k es c reg w =
     (case (if read_fails then Inl (Sqlite Io_Failure) else load_custody cr c (w_db w)) of
        Inl _ \<Rightarrow> (Some (Refresh_Transient None), reg, w)
      | Inr None \<Rightarrow> (Some Refresh_Permanent, reg, w)
      | Inr (Some row) \<Rightarrow>
          (case from_utf8 (cr_refresh_tok row) of
             None \<Rightarrow> (Some Refresh_Permanent, reg, w)
           | Some refresh_token \<Rightarrow>
               (let (client, reg') = client_for_refresh N build (cr_provider_id row) reg
                in case client of
                     Client_Gone \<Rightarrow> (Some Refresh_Permanent, reg', w)
                   | Client_Unavailable _ \<Rightarrow> (Some (Refresh_Transient None), reg', w)
                   | Client_Ready _ \<Rightarrow>
                       (case refresh_grant I refresh_token now of
                          Inl (Grant_Transient _) \<Rightarrow> (Some (Refresh_Transient None), reg', w)
                        | Inl (Grant_Permanent _) \<Rightarrow> (Some Refresh_Permanent, reg', w)
                        | Inr grant \<Rightarrow>
                            (let (r, w') = store_renewal cr js c refresh_token grant now k es w
                             in (r, reg', w'))))))"

section \<open>What others leave alone\<close>

text \<open>
  Commands that do not touch the stored grant \<open>c\<close>. The reaper deletes a grant that no session rests
  on, whatever its age, so it is harmless only when there is one: \<open>Some (i, x)\<close> names a session that is
  alive in the store and whose absolute expiry is not before \<open>x\<close>. A grant just taken has none yet.
\<close>

fun spares :: "custody_id \<Rightarrow> (sid \<times> timestamp) option \<Rightarrow> command \<Rightarrow> bool" where
  "spares c a (Custody (Custody_Insert row) _) \<longleftrightarrow> cr_custody_id row \<noteq> c"
| "spares c a (Custody (Custody_Success c' _ _ _ _ _) _) \<longleftrightarrow> c' \<noteq> c"
| "spares c a (Custody (Custody_Failure c' _ _ _ _) _) \<longleftrightarrow> c' \<noteq> c"
| "spares c a (Reap dead_before _) \<longleftrightarrow> (case a of None \<Rightarrow> False | Some (i, x) \<Rightarrow> dead_before \<le> x)"
| "spares c a (InsertSession row) \<longleftrightarrow> (case a of None \<Rightarrow> True | Some (i, x) \<Rightarrow> sr_sid row \<noteq> i)"
| "spares c a (TombstoneSession j _) \<longleftrightarrow> (case a of None \<Rightarrow> True | Some (i, x) \<Rightarrow> j \<noteq> i)"
| "spares c a _ \<longleftrightarrow> True"

definition anchored :: "custody_id \<Rightarrow> (sid \<times> timestamp) option \<Rightarrow> db \<Rightarrow> bool" where
  "anchored c a d \<longleftrightarrow>
     (case a of
        None \<Rightarrow> True
      | Some (i, x) \<Rightarrow> \<exists>s \<in> set (session_tbl d).
          s_sid s = i \<and> s_custody_id s = c \<and> s_status s = ''alive'' \<and> x \<le> s_absolute_exp s)"

definition grant_view :: "crypto \<Rightarrow> custody_id \<Rightarrow> (sid \<times> timestamp) option \<Rightarrow> db \<Rightarrow> (repo_error + custody_row option) option" where
  "grant_view cr c a d = (if anchored c a d then Some (load_custody cr c d) else None)"

lemma admin_custody_tbl:
  assumes "apply_admin cr js w d = Inr (d', b)"
  shows "custody_tbl d' = custody_tbl d"
proof -
  have et: "custody_tbl d1 = custody_tbl d" if "ensure_tenant t now d = (d1, e)" for t now d1 e
    using that by (auto simp: ensure_tenant_def insert_tenant_def Let_def split: if_splits)
  show ?thesis
    using assms
    by (cases w) (auto simp: bindE_Inr_iff repo_defs Let_def dest: et split: if_splits option.splits prod.splits)
qed

lemma load_custody_cong:
  "sql_find (\<lambda>r. c_custody_id r = c) (custody_tbl d') = sql_find (\<lambda>r. c_custody_id r = c) (custody_tbl d) \<Longrightarrow>
   load_custody cr c d' = load_custody cr c d"
  by (simp add: load_custody_def)

lemma apply_custody_other:
  assumes "apply_custody cr w d = Inr d'" and "spares c a (Custody w k)"
  shows "sql_find (\<lambda>r. c_custody_id r = c) (custody_tbl d') = sql_find (\<lambda>r. c_custody_id r = c) (custody_tbl d)"
proof (cases w)
  case (Custody_Insert row)
  with assms show ?thesis
    by (auto simp: insert_custody_def sql_find_append split: if_splits option.splits) (simp add: sql_find_def)
next
  case (Custody_Success c' rt at ae nr now)
  with assms show ?thesis by (auto simp: update_custody_success_def intro!: sql_find_update_other)
next
  case (Custody_Failure c' st n nr now)
  with assms show ?thesis by (auto simp: update_custody_failure_def intro!: sql_find_update_other)
qed

lemma custody_frame:
  assumes "crypto_ok cr" and "spares c a cmd" and "\<forall>x y. cmd \<noteq> Reap x y" and "apply_command cr js cmd (d, b) = Inr (d', b')"
  shows "load_custody cr c d' = load_custody cr c d"
proof (cases cmd)
  case (Custody w k)
  with assms obtain d1 where "apply_custody cr w d = Inr d1" "d' = d1" by (auto simp: bindE_Inr_iff)
  with apply_custody_other [of cr w d d1 c a k] assms(2) Custody show ?thesis by (auto intro: load_custody_cong)
next
  case (Admin w audit k)
  with assms(4) obtain d1 out where "apply_admin cr js w d = Inr (d1, out)"
    and "d' = (case audit of None \<Rightarrow> d1 | Some row \<Rightarrow> insert_audit (tier_a_row w out row) d1)"
    by (auto simp: bindE_Inr_iff)
  with admin_custody_tbl [OF this(1)] have "custody_tbl d' = custody_tbl d"
    by (auto simp: insert_audit_def split: option.splits)
  then show ?thesis by (simp add: load_custody_def)
next
  case Reseal
  with assms show ?thesis by (auto simp: load_custody_reseal)
qed (use assms in \<open>auto simp: bindE_Inr_iff repo_defs Let_def intro!: load_custody_cong split: if_splits\<close>)

lemma anchored_cong:
  assumes "map (\<lambda>s. (s_sid s, s_custody_id s, s_status s, s_absolute_exp s)) (session_tbl d') =
     map (\<lambda>s. (s_sid s, s_custody_id s, s_status s, s_absolute_exp s)) (session_tbl d)"
  shows "anchored c a d' = anchored c a d"
proof -
  have "anchored c a d \<longleftrightarrow> (case a of None \<Rightarrow> True | Some (i, x) \<Rightarrow>
      \<exists>p \<in> set (map (\<lambda>s. (s_sid s, s_custody_id s, s_status s, s_absolute_exp s)) (session_tbl d)).
        fst p = i \<and> fst (snd p) = c \<and> fst (snd (snd p)) = ''alive'' \<and> x \<le> snd (snd (snd p)))" for d
    by (simp add: anchored_def split: option.split)
  then show ?thesis by (simp only: assms)
qed

lemma anchored_same: "session_tbl d' = session_tbl d \<Longrightarrow> anchored c a d' = anchored c a d"
  by (rule anchored_cong) simp

lemma anchored_frame:
  assumes "spares c a cmd" and "\<forall>x y. cmd \<noteq> Reap x y" and "apply_command cr js cmd (d, b) = Inr (d', b')"
  shows "anchored c a d' = anchored c a d"
proof (cases cmd)
  case (Custody w k)
  with assms(3) have "session_tbl d' = session_tbl d" by (cases w) (auto simp: bindE_Inr_iff repo_defs split: if_splits)
  then show ?thesis by (rule anchored_same)
next
  case (Admin w audit k)
  with assms(3) obtain d1 out where "apply_admin cr js w d = Inr (d1, out)"
    and "d' = (case audit of None \<Rightarrow> d1 | Some row \<Rightarrow> insert_audit (tier_a_row w out row) d1)"
    by (auto simp: bindE_Inr_iff)
  with same_sessions_admin [OF this(1)] have "session_tbl d' = session_tbl d"
    by (auto simp: insert_audit_def split: option.splits)
  then show ?thesis by (rule anchored_same)
next
  case (InsertSession row)
  with assms(1,3) show ?thesis
    by (auto simp: anchored_def bindE_Inr_iff insert_session_def split: option.splits if_splits)
next
  case (UpdateSessionProgress j n t)
  with assms(3) show ?thesis
    by (intro anchored_cong) (auto simp: update_session_progress_def sql_update_def)
next
  case (TombstoneSession j t)
  with assms(1,3) show ?thesis
    by (auto simp: anchored_def tombstone_session_row_def sql_update_def split: option.splits if_splits)
qed (use assms in \<open>auto simp: bindE_Inr_iff repo_defs Let_def case_prod_beta intro!: anchored_same split: if_splits\<close>)

text \<open>The reaper leaves the session that is alive past its cutoff, and with it the grant.\<close>

lemma reaped_grant:
  assumes "db_ok d" and "dead_before \<le> x"
  shows "grant_view cr c (Some (i, x)) (reaped dead_before t d) = grant_view cr c (Some (i, x)) d"
proof (cases "anchored c (Some (i, x)) d")
  case True
  then obtain s where s: "s \<in> set (session_tbl d)" "s_sid s = i" "s_custody_id s = c" "s_status s = ''alive''" "x \<le> s_absolute_exp s"
    by (auto simp: anchored_def)
  then have "\<not> doomed dead_before s" using assms(2) by (simp add: doomed_def)
  then have kept: "s \<in> set (session_tbl (reaped dead_before t d))" using s(1) by (simp add: reaped_session_iff [OF assms(1)])
  then have used: "c \<in> s_custody_id ` set (session_tbl (reaped dead_before t d))" using s(3) by blast
  have tbl: "custody_tbl (reaped dead_before t d) =
      filter (\<lambda>r. c_custody_id r \<in> s_custody_id ` set (session_tbl (reaped dead_before t d))) (custody_tbl d)"
    by (simp add: reaped_def Let_def)
  have "sql_find (\<lambda>r. c_custody_id r = c) (custody_tbl (reaped dead_before t d)) = sql_find (\<lambda>r. c_custody_id r = c) (custody_tbl d)"
    unfolding sql_find_def by (subst tbl, rule find_filter_kept) (simp only: used)
  then have "load_custody cr c (reaped dead_before t d) = load_custody cr c d" by (rule load_custody_cong)
  moreover have "anchored c (Some (i, x)) (reaped dead_before t d)" using kept s by (auto simp: anchored_def)
  ultimately show ?thesis using True by (simp add: grant_view_def)
next
  case False
  moreover have "\<not> anchored c (Some (i, x)) (reaped dead_before t d)"
    using False by (auto simp: anchored_def reaped_session_iff [OF assms(1)])
  ultimately show ?thesis by (simp add: grant_view_def)
qed

lemma grant_frame:
  assumes "db_ok d" and "crypto_ok cr" and "spares c a cmd" and "apply_command cr js cmd (d, b) = Inr (d', b')"
  shows "grant_view cr c a d' = grant_view cr c a d"
proof (cases "\<exists>x y. cmd = Reap x y")
  case True
  with assms(3,4) obtain dead t i x out where "cmd = Reap dead t" "reap dead t d = Inr (d', out)" "a = Some (i, x)" "dead \<le> x"
    by (auto simp: bindE_Inr_iff split: option.splits)
  with reaped_grant [OF assms(1)] show ?thesis by (auto dest: reap_Inr)
next
  case False
  with custody_frame [OF assms(2,3) _ assms(4)] anchored_frame [OF assms(3) _ assms(4)] show ?thesis by (simp add: grant_view_def)
qed

section \<open>The write-through contract for a grant\<close>

interpretation cust: write_through cr js "grant_view cr c a" "\<lambda>cmd. crypto_ok cr \<and> spares c a cmd" "Custody cw k" k
  for cr js c a cw k
  by unfold_locales (auto simp: grant_frame)

text \<open>Nobody else uses the ack channel, and what is queued or sent meanwhile spares the grant.\<close>

definition undisturbed :: "custody_id \<Rightarrow> (sid \<times> timestamp) option \<Rightarrow> ack \<Rightarrow> writer_event list \<Rightarrow> writer \<Rightarrow> bool" where
  "undisturbed c a k es w \<longleftrightarrow>
     db_ok (w_db w) \<and> k \<notin> fst ` set (w_acked w) \<and> k \<notin> batch_acks (w_queue w) \<and> anchored c a (w_db w) \<and>
     list_all (spares c a) (w_queue w) \<and> list_all (bystander k (spares c a)) es"

lemma bystander_and: "P \<Longrightarrow> bystander k keeps e \<Longrightarrow> bystander k (\<lambda>c. P \<and> keeps c) e"
  by (cases e) auto

lemma custody_acked: "custody_reply x = Inr () \<Longrightarrow> x = Inr (Custody_Sent (Inr ()))"
  by (cases x rule: custody_reply.cases) auto

lemma write_custody_fate:
  assumes "crypto_ok cr" and "undisturbed c a k es w" and "write_custody cr js write k es w = (r, w')"
  obtains (ok) d0 d1 where "r = Some (Inr ())" "load_custody cr c d0 = load_custody cr c (w_db w)"
      "apply_custody cr write d0 = Inr d1" "load_custody cr c (w_db w') = load_custody cr c d1"
  | (no) "r \<noteq> Some (Inr ())" "load_custody cr c (w_db w') = load_custody cr c (w_db w)"
proof -
  obtain r0 where b: "blocking cr js (Custody write k) k es w = (r0, w')" and r: "r = map_option custody_reply r0"
    using assms(3) by (auto simp: write_custody_def split: prod.splits)
  have q: "list_all (\<lambda>cmd. crypto_ok cr \<and> spares c a cmd) (w_queue w)"
    "list_all (bystander k (\<lambda>cmd. crypto_ok cr \<and> spares c a cmd)) es"
    using assms(1,2) by (auto simp: undisturbed_def list_all_iff intro: bystander_and)
  have v: "grant_view cr c a (w_db w) = Some (load_custody cr c (w_db w))"
    using assms(2) by (simp add: undisturbed_def grant_view_def)
  have seen: "load_custody cr c d = l" if "grant_view cr c a d = Some l" for d l
    using that by (simp add: grant_view_def split: if_splits)
  from cust.blocking_fate [OF _ _ q(1) _ q(2) b] assms(2)
  consider (1) msg d0 b d1 b' where "r0 = Some (Inr msg)" "good_reply cr js (Custody write k) d0 msg"
      "grant_view cr c a d0 = grant_view cr c a (w_db w)"
      "apply_command cr js (Custody write k) (d0, b) = Inr (d1, b')"
      "grant_view cr c a (w_db w') = grant_view cr c a d1"
    | (2) "\<forall>msg. r0 = Some (Inr msg) \<longrightarrow> \<not> acked_ok msg" "grant_view cr c a (w_db w') = grant_view cr c a (w_db w)"
    unfolding undisturbed_def by metis
  then show thesis
  proof cases
    case 1
    then have "r = Some (Inr ())" and ap: "apply_custody cr write d0 = Inr d1"
      by (auto simp: good_reply_def r bindE_Inr_iff)
    moreover have "session_tbl d1 = session_tbl d0" using ap by (cases "write") (auto simp: bindE_Inr_iff repo_defs split: if_splits)
    then have "grant_view cr c a d1 = Some (load_custody cr c d1)"
      using 1(3) v by (auto simp: grant_view_def dest: anchored_same split: if_splits)
    ultimately show thesis using 1(3,5) v by (intro ok [of d0 d1]) (auto dest: seen)
  next
    case 2
    then have "r \<noteq> Some (Inr ())" by (auto simp: r acked_ok_def dest!: custody_acked)
    with 2(2) v show thesis by (intro no) (auto dest: seen)
  qed
qed

text \<open>Whatever happens meanwhile, a success stands for a committed batch with the write in it.\<close>

lemma write_custody_committed:
  assumes "write_custody cr js write k es w = (Some (Inr ()), w')" and "private_ack k es w"
  shows "committed cr js (Custody write k) es (enqueue (Custody write k) w)"
proof -
  obtain x where "blocking cr js (Custody write k) k es w = (Some x, w')" "custody_reply x = Inr ()"
    using assms(1) by (auto simp: write_custody_def split: prod.splits)
  with success_committed [of cr js "Custody write k" k es w _ w'] assms(2) show ?thesis
    by (auto simp: acked_ok_def dest!: custody_acked)
qed

lemma take_custody_committed:
  assumes "take_custody F cr js c g now k es w ch = (r, w', ch')" and "r = Some (Inr ())" and "private_ack k es w"
  shows "committed cr js (Custody (Custody_Insert (grant_row F c g now)) k) es
     (enqueue (Custody (Custody_Insert (grant_row F c g now)) k) w)"
  using assms write_custody_committed [of cr js "Custody_Insert (grant_row F c g now)" k es w w']
  by (auto simp: take_custody_def Let_def split: prod.splits option.splits sum.splits)

lemma take_custody_fate:
  assumes "crypto_ok cr" and "undisturbed c None k es w" and "take_custody F cr js c g now k es w ch = (r, w', ch')"
  shows "r = Some (Inr ()) \<and> load_custody cr c (w_db w') = Inr (Some (grant_row F c g now)) \<and>
       ch' = send_request \<lparr>sq_custody = c, sq_issued_at = now, sq_lifetime_secs = grant_lifetime (gr_access_exp g) now\<rparr> ch
     \<or> r \<noteq> Some (Inr ()) \<and> load_custody cr c (w_db w') = load_custody cr c (w_db w) \<and> ch' = ch"
proof -
  have id: "cr_custody_id (grant_row F c g now) = c" by (simp add: grant_row_def)
  have t: "write_custody cr js (Custody_Insert (grant_row F c g now)) k es w = (r, w')"
    and ch': "ch' = (case r of Some (Inr _) \<Rightarrow> send_request \<lparr>sq_custody = c, sq_issued_at = now,
                sq_lifetime_secs = grant_lifetime (gr_access_exp g) now\<rparr> ch | _ \<Rightarrow> ch)"
    using assms(3) by (auto simp: take_custody_def Let_def split: prod.splits option.splits sum.splits)
  from assms(1,2) t show ?thesis
  proof (cases rule: write_custody_fate)
    case (ok d0 d1)
    then show ?thesis using load_after_insert [OF assms(1), of "grant_row F c g now" d0 d1] ch' by (simp add: id)
  next
    case no
    then show ?thesis using ch' by (auto split: option.splits sum.splits)
  qed
qed

text \<open>
  Custody before session: the call that takes a grant returns success exactly when the row,
  with both tokens readable, is committed, and only then is the renewal scheduled. On any
  failure (a dead writer, a failed batch, a closed channel) the store holds no trace of it and
  nothing was scheduled, so the login can be refused.
\<close>

theorem taken_custody_is_durable:
  assumes "crypto_ok cr" and "undisturbed c None k es w" and "take_custody F cr js c g now k es w ch = (r, w', ch')"
  shows "r = Some (Inr ()) \<and> load_custody cr c (w_db w') = Inr (Some (grant_row F c g now)) \<and>
       ch' = send_request \<lparr>sq_custody = c, sq_issued_at = now, sq_lifetime_secs = grant_lifetime (gr_access_exp g) now\<rparr> ch
     \<or> r \<noteq> Some (Inr ()) \<and> load_custody cr c (w_db w') = load_custody cr c (w_db w) \<and> ch' = ch"
  using assms by (rule take_custody_fate)

text \<open>The update a renewal stores, and what became of a call to \<open>refresh\<close>.\<close>

definition renewal :: "custody_id \<Rightarrow> custody_row \<Rightarrow> refreshed_grant \<Rightarrow> timestamp \<Rightarrow> custody_write" where
  "renewal c row grant now = Custody_Success c
     (case rg_rotated_refresh_token grant of Some t \<Rightarrow> bytes_of t | None \<Rightarrow> cr_refresh_tok row)
     (bytes_of (rg_access_token grant)) (rg_expires_at grant) (rg_expires_at grant) now"

definition renewed_row :: "custody_row \<Rightarrow> refreshed_grant \<Rightarrow> timestamp \<Rightarrow> custody_row" where
  "renewed_row row grant now = row
     \<lparr>cr_refresh_tok := (case rg_rotated_refresh_token grant of Some t \<Rightarrow> bytes_of t | None \<Rightarrow> cr_refresh_tok row),
      cr_access_tok := bytes_of (rg_access_token grant), cr_access_exp := rg_expires_at grant,
      cr_next_refresh := rg_expires_at grant, cr_status := Ok, cr_fail_count := 0, cr_updated_at := now\<rparr>"

lemma upstream_refresh_cases:
  assumes "upstream_refresh cr js N build I read_fails now k es c reg w = (r, reg', w')"
  obtains (stored) row grant rw where "load_custody cr c (w_db w) = Inr (Some row)"
      "refresh_grant I (string_of_bytes (cr_refresh_tok row)) now = Inr grant"
      "write_custody cr js (renewal c row grant now) k es w = (rw, w')"
      "r = map_option (\<lambda>x. case x of Inl _ \<Rightarrow> Refresh_Transient None
         | Inr _ \<Rightarrow> Refresh_Success (rg_lifetime_secs grant) (rg_rotated_refresh_token grant \<noteq> None)) rw"
  | (none) "\<forall>lifetime rotated. r \<noteq> Some (Refresh_Success lifetime rotated)" "w' = w"
proof (cases "\<exists>row tok client grant. \<not> read_fails \<and> load_custody cr c (w_db w) = Inr (Some row) \<and>
      from_utf8 (cr_refresh_tok row) = Some tok \<and> fst (client_for_refresh N build (cr_provider_id row) reg) = Client_Ready client \<and>
      refresh_grant I tok now = Inr grant")
  case True
  then obtain row tok client grant where l: "\<not> read_fails" "load_custody cr c (w_db w) = Inr (Some row)"
    "from_utf8 (cr_refresh_tok row) = Some tok" "fst (client_for_refresh N build (cr_provider_id row) reg) = Client_Ready client"
    "refresh_grant I tok now = Inr grant" by blast
  have tok: "tok = string_of_bytes (cr_refresh_tok row)" "bytes_of tok = cr_refresh_tok row"
    using l(3) by (auto simp: from_utf8_def split: if_splits)
  have st: "store_renewal cr js c tok grant now k es w = (r, w')"
    using assms l by (auto simp: upstream_refresh_def split: prod.splits)
  obtain rw where wc: "write_custody cr js (renewal c row grant now) k es w = (rw, w')"
    and r: "r = map_option (\<lambda>x. case x of Inl _ \<Rightarrow> Refresh_Transient None
         | Inr _ \<Rightarrow> Refresh_Success (rg_lifetime_secs grant) (rg_rotated_refresh_token grant \<noteq> None)) rw"
    using st by (cases "rg_rotated_refresh_token grant")
      (auto simp: store_renewal_def renewal_def tok(2) Let_def split: prod.splits option.splits sum.splits)
  from stored [OF l(2) _ wc r] l(5) tok(1) show thesis by simp
next
  case False
  with assms show thesis
    by (intro none) (auto simp: upstream_refresh_def Let_def split: if_splits sum.splits option.splits prod.splits
        refresh_client.splits refresh_grant_error.splits)
qed

text \<open>
  C23. A renewed grant is committed before anybody is told: when \<open>refresh\<close> reports success, a
  transaction that held the update of the grant with the tokens the provider issued (the old
  refresh token when it rotates none) has been committed, whatever other commands and I/O errors
  came in between. If those commands spare the grant, the store then reads back exactly that grant,
  status clean, and on every other outcome the grant it held before. Commands that spare it are all
  but those on the same grant and, unless a session alive in the store rests on the grant, the
  reaper: it deletes a grant without a session whatever its age, the update then changes no row,
  and the success stands (\<open>reaper_race\<close>).
\<close>

theorem renewed_grant_is_durable:
  assumes "crypto_ok cr" and "private_ack k es w"
    and u: "upstream_refresh cr js N build I read_fails now k es c reg w = (r, reg', w')"
  shows "(\<exists>row grant. r = Some (Refresh_Success (rg_lifetime_secs grant) (rg_rotated_refresh_token grant \<noteq> None)) \<and>
       load_custody cr c (w_db w) = Inr (Some row) \<and>
       refresh_grant I (string_of_bytes (cr_refresh_tok row)) now = Inr grant \<and>
       committed cr js (Custody (renewal c row grant now) k) es (enqueue (Custody (renewal c row grant now) k) w) \<and>
       (undisturbed c a k es w \<longrightarrow> load_custody cr c (w_db w') = Inr (Some (renewed_row row grant now))))
     \<or> (\<forall>lifetime rotated. r \<noteq> Some (Refresh_Success lifetime rotated)) \<and>
       (undisturbed c a k es w \<longrightarrow> load_custody cr c (w_db w') = load_custody cr c (w_db w))"
  using u
proof (cases rule: upstream_refresh_cases)
  case (stored row grant rw)
  have fate: "(rw = Some (Inr ()) \<longrightarrow> load_custody cr c (w_db w') = Inr (Some (renewed_row row grant now))) \<and>
      (rw \<noteq> Some (Inr ()) \<longrightarrow> load_custody cr c (w_db w') = load_custody cr c (w_db w))" if "undisturbed c a k es w"
    using assms(1) that stored(3)
  proof (cases rule: write_custody_fate)
    case (ok d0 d1)
    then show ?thesis
      using load_after_success [OF assms(1), of c d0 row] stored(1) by (auto simp: renewal_def renewed_row_def)
  qed simp
  show ?thesis
  proof (cases "rw = Some (Inr ())")
    case True
    then have "committed cr js (Custody (renewal c row grant now) k) es (enqueue (Custody (renewal c row grant now) k) w)"
      using write_custody_committed [OF _ assms(2)] stored(3) by simp
    with True fate stored(1,2,4) show ?thesis by (intro disjI1 exI [of _ row] exI [of _ grant]) simp
  next
    case False
    then show ?thesis using fate stored(4) by (auto split: option.splits sum.splits)
  qed
qed simp

text \<open>
  C24. Nobody is logged out over an error that may pass: \<open>refresh\<close> calls a grant dead only when its
  row is gone, its stored token is not text, its provider was deleted, or the provider itself
  answered \<open>invalid_grant\<close>. An unreadable store, an unreachable or unconfigured provider, any other
  provider answer and a failed write are all to be retried.
\<close>

theorem permanent_only_when_final:
  assumes "upstream_refresh cr js N build I read_fails now k es c reg w = (Some Refresh_Permanent, reg', w')"
  shows "\<not> read_fails \<and> (load_custody cr c (w_db w) = Inr None \<or>
     (\<exists>row. load_custody cr c (w_db w) = Inr (Some row) \<and>
        (\<not> utf8_ok (cr_refresh_tok row)
         \<or> settings_of (cr_provider_id row) reg = None \<and> cr_provider_id row \<noteq> ''default''
         \<or> (\<exists>s. settings_of (cr_provider_id row) reg = Some s \<and> pv_deleted s)
         \<or> (\<exists>said. idp_refresh I (string_of_bytes (cr_refresh_tok row)) = Inl (Server_Response ''invalid_grant'' said)))))"
proof (cases "read_fails \<or> (\<nexists>row. load_custody cr c (w_db w) = Inr (Some row))")
  case True
  with assms show ?thesis
    by (auto simp: upstream_refresh_def split: if_splits sum.splits option.splits)
next
  case False
  then obtain row where row: "\<not> read_fails" "load_custody cr c (w_db w) = Inr (Some row)" by blast
  show ?thesis
  proof (cases "utf8_ok (cr_refresh_tok row)")
    case True
    then have tok: "from_utf8 (cr_refresh_tok row) = Some (string_of_bytes (cr_refresh_tok row))"
      by (simp add: from_utf8_def)
    show ?thesis
    proof (cases "fst (client_for_refresh N build (cr_provider_id row) reg)")
      case (Client_Ready cl)
      with assms row tok show ?thesis
        by (auto simp: upstream_refresh_def store_renewal_def refresh_grant_def Let_def case_prod_beta
            elim!: classify_refresh_error.elims split: sum.splits option.splits refresh_grant_error.splits if_splits)
    next
      case Client_Gone
      then show ?thesis using row
        by (auto simp: client_for_refresh_def settings_of_def default_provider_def case_prod_beta
            split: option.splits if_splits sum.splits)
    next
      case (Client_Unavailable e)
      with assms row tok show ?thesis by (auto simp: upstream_refresh_def case_prod_beta)
    qed
  qed (use row in auto)
qed

section \<open>Evaluated\<close>

definition demo_grant :: new_grant where
  "demo_grant = \<lparr>gr_sub = ''alice'', gr_refresh_token = ''rt0'', gr_access_token = ''at0'',
     gr_access_exp = 4600, gr_scope = None, gr_provider_id = ''default''\<rparr>"

definition demo_channel :: schedule_channel where
  "demo_channel = \<lparr>ch_open = True, ch_sent = []\<rparr>"

text \<open>The writer takes the insert in its next turn, and answers.\<close>

definition demo_turn :: "writer_event list" where
  "demo_turn = [Turn (\<lambda>_. False) 1]"

definition demo_taken :: "(write_failure + unit) option \<times> writer \<times> schedule_channel" where
  "demo_taken = take_custody rat_f64 demo_crypto demo_json ''c1'' demo_grant 1000 7 demo_turn
     (new_writer (migrated_db 0)) demo_channel"

lemma undisturbed_idle:
  assumes "db_ok d"
  shows "undisturbed c None k demo_turn ((new_writer d)\<lparr>w_acked := []\<rparr>)"
  using assms by (simp add: undisturbed_def anchored_def new_writer_def demo_turn_def batch_acks_def)

text \<open>The provider rotates the refresh token; then it revokes the grant.\<close>

definition demo_idp :: "unit idp" where
  "demo_idp = \<lparr>idp_exchange = (\<lambda>code verifier. Inr \<lparr>tp_access_token = ''at0'', tp_refresh_token = Some ''rt0'',
       tp_expires_in = Some 3600, tp_scopes = None, tp_id_token = Some ''idt''\<rparr>),
     idp_fetch_keys = Inr [()],
     idp_claims = (\<lambda>keys id_token nonce. if keys = [] then Inl No_Matching_Key else Inr ''alice''),
     idp_refresh = (\<lambda>rt. if rt = ''rt0'' then Inr \<lparr>tp_access_token = ''at1'', tp_refresh_token = Some ''rt1'',
       tp_expires_in = Some 3600, tp_scopes = None, tp_id_token = None\<rparr>
       else Inl (Server_Response ''invalid_grant'' ''revoked''))\<rparr>"

definition demo_net :: net where
  "demo_net = \<lparr>net_parse = (\<lambda>s. Inr \<lparr>url_scheme = ''https'', url_host = Some (Domain ''idp''), url_username = [],
       url_password = None, url_query = None, url_fragment = None\<rparr>),
     net_document = (\<lambda>u. Inr \<lparr>dd_issuer = Some ''https://idp'', dd_authorization_endpoint = Some ''https://idp/authorize'',
       dd_token_endpoint = Some ''https://idp/token'', dd_jwks_uri = Some ''https://idp/jwks'',
       dd_userinfo_endpoint = None, dd_end_session_endpoint = None\<rparr>),
     net_jwks = (\<lambda>u. Inr 1)\<rparr>"

definition demo_build :: "unit builder" where
  "demo_build = (\<lambda>issuer client_id secret redirect_uri scopes. Inr [()])"

definition demo_registry :: "unit registry" where
  "demo_registry =
     (case boot_registry demo_build \<lparr>of_issuer_url = Some ''https://idp'', of_client_id = Some ''app'',
        of_client_secret = Some ''secret'', of_scopes = [''openid'']\<rparr> [] ''https://app/auth/callback'' of
        Inr r \<Rightarrow> r | Inl _ \<Rightarrow> empty_registry [])"

definition demo_held :: db where
  "demo_held = (case insert_custody demo_crypto (grant_row rat_f64 ''c1'' demo_grant 1000) (migrated_db 0) of
     Inr d \<Rightarrow> d | Inl _ \<Rightarrow> migrated_db 0)"

text \<open>A session rests on the grant, and the reaper comes by while the renewal waits.\<close>

definition demo_rested :: db where
  "demo_rested = (case insert_session \<lparr>sr_sid = ''s1'', sr_custody_id = ''c1'', sr_sub = ''alice'', sr_current_gen = 0,
      sr_idle_exp = 9000, sr_absolute_exp = 9000, sr_status = Alive, sr_created_at = 1000, sr_meta = None\<rparr> demo_held of
     Inr d \<Rightarrow> d | Inl _ \<Rightarrow> demo_held)"

definition demo_reaped_turn :: "writer_event list" where
  "demo_reaped_turn = [Send (Reap 100 100), Turn (\<lambda>_. False) 2]"

definition demo_renewed :: "refresh_outcome option \<times> unit registry \<times> writer" where
  "demo_renewed = upstream_refresh demo_crypto demo_json demo_net demo_build demo_idp False 3160 7 demo_reaped_turn ''c1''
     demo_registry (new_writer demo_rested)"

theorem renewed_grant_is_durable_witness:
  "\<exists>reg' w' row. demo_renewed = (Some (Refresh_Success 3600 True), reg', w') \<and>
     load_custody demo_crypto ''c1'' (w_db w') = Inr (Some row) \<and> cr_refresh_tok row = bytes_of ''rt1''"
proof -
  obtain r reg' w' where t: "demo_renewed = (r, reg', w')" by (cases demo_renewed) auto
  have "fst demo_renewed = Some (Refresh_Success 3600 True)" by code_simp
  then have r: "r = Some (Refresh_Success 3600 True)" by (simp add: t)
  have held: "load_custody demo_crypto ''c1'' demo_rested = Inr (Some (grant_row rat_f64 ''c1'' demo_grant 1000))"
    "db_ok demo_rested" by code_simp+
  have "list_ex (\<lambda>s. s_sid s = ''s1'' \<and> s_custody_id s = ''c1'' \<and> s_status s = ''alive'' \<and> 9000 \<le> s_absolute_exp s) (session_tbl demo_rested)"
    by code_simp
  then have u: "undisturbed ''c1'' (Some (''s1'', 9000)) 7 demo_reaped_turn (new_writer demo_rested)"
    using held(2) by (simp add: undisturbed_def anchored_def new_writer_def demo_reaped_turn_def batch_acks_def list_ex_iff)
  have p: "private_ack 7 demo_reaped_turn (new_writer demo_rested)"
    by (simp add: private_ack_def new_writer_def demo_reaped_turn_def batch_acks_def)
  from renewed_grant_is_durable [OF demo_crypto_ok p t [unfolded demo_renewed_def], of "Some (''s1'', 9000)"] u
  obtain row grant where g: "load_custody demo_crypto ''c1'' demo_rested = Inr (Some row)"
    "refresh_grant demo_idp (string_of_bytes (cr_refresh_tok row)) 3160 = Inr grant"
    "load_custody demo_crypto ''c1'' (w_db w') = Inr (Some (renewed_row row grant 3160))"
    unfolding r by (auto simp: new_writer_def)
  have "row = grant_row rat_f64 ''c1'' demo_grant 1000" using g(1) held(1) by simp
  then have "string_of_bytes (cr_refresh_tok row) = ''rt0''" by (simp add: grant_row_def demo_grant_def)
  then have "rg_rotated_refresh_token grant = Some ''rt1''" using g(2) by (auto simp: refresh_grant_def demo_idp_def Let_def)
  then have "cr_refresh_tok (renewed_row row grant 3160) = bytes_of ''rt1''" by (simp add: renewed_row_def)
  with g(3) t r show ?thesis by blast
qed

text \<open>
  Without a session the same reap takes the grant: it is acknowledged as stored or renewed and is gone.
  The first is a login between its custody and its session.
\<close>

lemma reaper_race:
  "(case take_custody rat_f64 demo_crypto demo_json ''c1'' demo_grant 1000 7 demo_reaped_turn (new_writer (migrated_db 0)) demo_channel of
      (r, w, ch) \<Rightarrow> r = Some (Inr ()) \<and> load_custody demo_crypto ''c1'' (w_db w) = Inr None) \<and>
   (case upstream_refresh demo_crypto demo_json demo_net demo_build demo_idp False 3160 7 (demo_reaped_turn @ demo_turn) ''c1''
        demo_registry (new_writer demo_held) of
      (r, reg, w) \<Rightarrow> r = Some (Refresh_Success 3600 True) \<and> load_custody demo_crypto ''c1'' (w_db w) = Inr None)"
  by code_simp

theorem permanent_only_when_final_witness:
  "\<exists>reg' w'. upstream_refresh demo_crypto demo_json demo_net demo_build demo_idp False 3160 7 demo_turn ''c9''
     demo_registry (new_writer demo_held) = (Some Refresh_Permanent, reg', w') \<and>
     load_custody demo_crypto ''c9'' demo_held = Inr None"
proof -
  let ?u = "upstream_refresh demo_crypto demo_json demo_net demo_build demo_idp False 3160 7 demo_turn ''c9''
     demo_registry (new_writer demo_held)"
  obtain r reg' w' where t: "?u = (r, reg', w')" by (cases ?u) auto
  have "fst ?u = Some Refresh_Permanent" by code_simp
  with t have r: "r = Some Refresh_Permanent" by simp
  have "\<nexists>row. load_custody demo_crypto ''c9'' demo_held = Inr (Some row)"
  proof -
    have "load_custody demo_crypto ''c9'' demo_held = Inr None" by code_simp
    then show ?thesis by simp
  qed
  with permanent_only_when_final [OF t [unfolded r]] t r show ?thesis by (auto simp: new_writer_def)
qed

end
