(* ===== verification/Login.thy ===== *)
theory Login
  imports Http_Session Desktop Custody
begin

text \<open>
  \<open>http/auth.rs\<close>: \<open>/auth/providers\<close>, \<open>/auth/login\<close> and \<open>/auth/callback\<close>, over the provider registry,
  the transaction store, the custody sink and the session map. The random ids of a request, its
  clock readings and what the store's writer does while it blocks are arguments.
\<close>

section \<open>State\<close>

record 'k login_state =
  ls_app :: app
  ls_registry :: "'k registry"
  ls_custody :: bool
  ls_writer :: writer
  ls_channel :: schedule_channel
  ls_limit :: "(client_source \<times> limiter) option"
  ls_failures :: "(string \<times> string \<times> string) list"
  ls_held :: held

definition audit_login :: "audit_row \<Rightarrow> 'k login_state \<Rightarrow> 'k login_state" where
  "audit_login row s = s\<lparr>ls_app := app_audit row (ls_app s)\<rparr>"

definition login_config :: "'k login_state \<Rightarrow> http_config" where
  "login_config s = ap_config (ls_app s)"

section \<open>Cookies and redirects\<close>

definition txn_cookie_name :: "http_config \<Rightarrow> string" where
  "txn_cookie_name cfg =
     (if take 7 (session_cookie_name cfg) = ''__Host-'' then ''__Host-broker_txn'' else ''broker_txn'')"

definition txn_cookie :: "http_config \<Rightarrow> string \<Rightarrow> int \<Rightarrow> string" where
  "txn_cookie cfg value max_age =
     (let name = txn_cookie_name cfg
      in name @ ''='' @ value @ ''; Path=/; SameSite=Lax; Max-Age='' @ show_int max_age @
         (if take 7 name = ''__Host-'' then ''; Secure'' else []) @ ''; HttpOnly'')"

definition expire_txn_cookie :: "http_config \<Rightarrow> string" where
  "expire_txn_cookie cfg = txn_cookie cfg [] 0"

definition redirect :: "string \<Rightarrow> response" where
  "redirect location = \<lparr>rp_status = 303, rp_location = Some (location_value location), rp_cookies = [], rp_body = Empty_Body\<rparr>"

definition append_cookie :: "string \<Rightarrow> response \<Rightarrow> response" where
  "append_cookie c r = r\<lparr>rp_cookies := rp_cookies r @ [c]\<rparr>"

definition failures_held :: nat where
  "failures_held = 64"

definition error_redirect ::
  "string \<Rightarrow> string \<Rightarrow> string \<Rightarrow> 'k login_state \<Rightarrow> response \<times> 'k login_state" where
  "error_redirect reference code detail s =
     (let kept = (if failures_held \<le> length (ls_failures s) then tl (ls_failures s) else ls_failures s)
      in (redirect (hc_origin (login_config s) @ ''/error?error=oauth_error&ref='' @ reference),
          s\<lparr>ls_failures := kept @ [(reference, code, take_chars 800 detail)]\<rparr>))"

definition note_desktop_failure :: "string option \<Rightarrow> string \<Rightarrow> string \<Rightarrow> timestamp \<Rightarrow> 'k login_state \<Rightarrow> 'k login_state" where
  "note_desktop_failure return_to code detail now s =
     (case attempt_of return_to of
        None \<Rightarrow> s
      | Some attempt \<Rightarrow> s\<lparr>ls_held := note_failure attempt code detail now (ls_held s)\<rparr>)"

definition record_login_failure :: "string \<Rightarrow> timestamp \<Rightarrow> 'k login_state \<Rightarrow> 'k login_state" where
  "record_login_failure reason now s =
     audit_login ((event_new ''login.failed'' Outcome_Failure Actor_Anonymous now)\<lparr>au_reason := Some reason\<rparr>) s"

section \<open>Starting a login\<close>

record login_query =
  lq_return_to :: "string option"
  lq_provider :: "string option"

fun refusal_words :: "login_refusal \<Rightarrow> error_code \<times> string \<times> string" where
  "refusal_words Refuse_No_Providers =
     (NoProviders, ''no_providers'', ''No identity provider is enabled on this broker.'')"
| "refusal_words Refuse_Required =
     (ProviderRequired, ''provider_required'',
      ''Several identity providers are enabled: choose one from /auth/providers and pass it as ?provider=.'')"
| "refusal_words Refuse_Unknown = (UnknownProvider, ''unknown_provider'', ''No identity provider has that id.'')"
| "refusal_words Refuse_Disabled =
     (ProviderDisabled_Code, ''provider_disabled'', ''That identity provider is disabled.'')"
| "refusal_words (Refuse_Unavailable (Failure word _)) =
     (ProviderUnavailable_Code, ''provider_unavailable'',
      ''The identity provider could not be reached ('' @ word @ '').'')"

text \<open>\<open>authorize\<close> is the library's authorisation URL for the drawn state, nonce and challenge.\<close>

definition start_login ::
  "('k oidc_client \<Rightarrow> login_draws \<Rightarrow> string) \<Rightarrow> login_draws \<Rightarrow> string option \<Rightarrow> timestamp \<Rightarrow> 'k oidc_client \<Rightarrow>
   'k login_state \<Rightarrow> response \<times> 'k login_state" where
  "start_login authorize dr return_to now c s =
     (let (txn, txns) = begin_login dr return_to now c (rg_txns (ls_registry s))
      in (append_cookie (txn_cookie (login_config s) txn (int login_ttl_secs)) (redirect (authorize c dr)),
          s\<lparr>ls_registry := (ls_registry s)\<lparr>rg_txns := txns\<rparr>\<rparr>))"

definition login ::
  "net \<Rightarrow> 'k builder \<Rightarrow> ('k oidc_client \<Rightarrow> login_draws \<Rightarrow> string) \<Rightarrow> login_draws \<Rightarrow> header_map \<Rightarrow> string option \<Rightarrow>
   nat \<Rightarrow> timestamp \<Rightarrow> login_query \<Rightarrow> 'k login_state \<Rightarrow> response \<times> 'k login_state" where
  "login N build authorize dr headers peer instant now q s =
     (if lq_return_to q \<noteq> None \<and> safe_return_to (lq_return_to q) = None
      then (error_response (api_error_new BadRequest ''return_to must be a same-origin absolute path''), s)
      else
        (let return_to = safe_return_to (lq_return_to q);
             (limited, s1) =
               (case ls_limit s of
                  None \<Rightarrow> (None, s)
                | Some (src, l) \<Rightarrow>
                    (let (r, l') = rate_limit_check src peer headers ''login'' instant l
                     in (r, s\<lparr>ls_limit := Some (src, l')\<rparr>)))
         in case limited of
              Some r \<Rightarrow> (r, s1)
            | None \<Rightarrow>
                (let (c, reg) = client_for_login N build (lq_provider q) (ls_registry s1);
                     s2 = s1\<lparr>ls_registry := reg\<rparr>
                 in case c of
                      Inl refusal \<Rightarrow>
                        (let (code, word, detail) = refusal_words refusal
                         in (error_response (api_error_new code detail), note_desktop_failure return_to word detail now s2))
                    | Inr client \<Rightarrow> start_login authorize dr return_to now client s2)))"

section \<open>Completing a login\<close>

record callback_query =
  cq_code :: "string option"
  cq_state :: "string option"
  cq_error :: "string option"
  cq_error_description :: "string option"
  cq_iss :: "string option"

definition discard_txn :: "string \<Rightarrow> 'k registry \<Rightarrow> 'k registry" where
  "discard_txn txn_id reg = reg\<lparr>rg_txns := discard txn_id (rg_txns reg)\<rparr>"

definition resolve_callback ::
  "net \<Rightarrow> 'k builder \<Rightarrow> (string \<Rightarrow> 'k idp) \<Rightarrow> string \<Rightarrow> callback_query \<Rightarrow> timestamp \<Rightarrow> 'k registry \<Rightarrow>
   (oauth_error + upstream_tokens \<times> string option) \<times> 'k registry" where
  "resolve_callback N build idps txn_id q now reg =
     (case provider_of txn_id (rg_txns reg) of
        None \<Rightarrow> (Inl Unknown_Txn, reg)
      | Some provider_id \<Rightarrow>
          (let (client, reg1) = client_for_callback N build provider_id reg
           in case client of
                Inl e \<Rightarrow> (Inl e, discard_txn txn_id reg1)
              | Inr c \<Rightarrow>
                  (if cq_iss q \<noteq> None \<and> cq_iss q \<noteq> Some (oc_issuer c)
                   then (Inl Issuer_Mismatch, discard_txn txn_id reg1)
                   else case cq_error q of
                     Some e \<Rightarrow>
                       (Inl (Provider_Error (case cq_error_description q of Some d \<Rightarrow> e @ '': '' @ d | None \<Rightarrow> e)),
                        discard_txn txn_id reg1)
                   | None \<Rightarrow>
                       (case (cq_code q, cq_state q) of
                          (Some code, Some state_param) \<Rightarrow>
                            (let (r, c', txns) = complete_login (idps provider_id) txn_id state_param code now c (rg_txns reg1);
                                 reg2 = put_client provider_id c' (reg1\<lparr>rg_txns := txns\<rparr>)
                             in (bindE r (\<lambda>(tokens, return_to).
                                   if ut_provider_id tokens = default_provider \<and> subject_collides (ut_sub tokens) reg2
                                   then Inl Subject_Collision else Inr (tokens, return_to)), reg2))
                        | _ \<Rightarrow> (Inl (Provider_Error ''callback is missing code or state''), discard_txn txn_id reg1)))))"

text \<open>
  What a request draws and what its blocking write meets: the session, custody and reference ids,
  the token, the ack channel, and the events of the other senders and of the writer thread.
\<close>

record callback_draws =
  cd_sid :: string
  cd_custody :: string
  cd_token :: session_token
  cd_reference :: string
  cd_ack :: ack
  cd_events :: "writer_event list"

definition grant_of :: "upstream_tokens \<Rightarrow> new_grant" where
  "grant_of tokens =
     \<lparr>gr_sub = ut_sub tokens, gr_refresh_token = (case ut_refresh_token tokens of Some t \<Rightarrow> t | None \<Rightarrow> []),
      gr_access_token = ut_access_token tokens, gr_access_exp = ut_expires_at tokens,
      gr_scope = ut_scope tokens, gr_provider_id = ut_provider_id tokens\<rparr>"

text \<open>The part of \<open>success_response\<close> behind the custody: session, desktop note, record, redirect.\<close>

definition admit_person ::
  "(session_token \<Rightarrow> token_hash) \<Rightarrow> (session_meta \<Rightarrow> string) \<Rightarrow> (string \<Rightarrow> string) \<Rightarrow> callback_draws \<Rightarrow>
   upstream_tokens \<Rightarrow> string option \<Rightarrow> timestamp \<Rightarrow> 'k login_state \<Rightarrow> response option \<times> 'k login_state" where
  "admit_person hash enc render dr tokens return_to now s =
     (let (created, m) = create hash (cd_token dr) (cd_sid dr) (cd_custody dr) (ut_sub tokens) now (ap_sessions (ls_app s));
          s1 = s\<lparr>ls_app := (ls_app s)\<lparr>ap_sessions := m\<rparr>\<rparr>
      in case created of
           None \<Rightarrow> (None, s1)
         | Some issued \<Rightarrow>
             (let s2 = (case attempt_of return_to of
                          None \<Rightarrow> s1
                        | Some attempt \<Rightarrow> s1\<lparr>ls_held := note_login attempt (cd_sid dr) now (ls_held s1)\<rparr>);
                  s3 = audit_login ((event_new ''session.created'' Outcome_Success Actor_User now)
                         \<lparr>au_subject := Some (ut_sub tokens), au_sid := Some (cd_sid dr),
                          au_custody_id := Some (cd_custody dr), au_detail := Some (render (ut_provider_id tokens))\<rparr>) s2;
                  destination = (case safe_return_to return_to of Some p \<Rightarrow> p | None \<Rightarrow> ''/'')
              in (Some ((redirect destination)\<lparr>rp_cookies := issue_cookies enc (login_config s) issued\<rparr>), s3)))"

definition success_response ::
  "'f f64 \<Rightarrow> crypto \<Rightarrow> json \<Rightarrow> (session_token \<Rightarrow> token_hash) \<Rightarrow> (session_meta \<Rightarrow> string) \<Rightarrow> (string \<Rightarrow> string) \<Rightarrow>
   callback_draws \<Rightarrow> upstream_tokens \<Rightarrow> string option \<Rightarrow> timestamp \<Rightarrow> 'k login_state \<Rightarrow> response option \<times> 'k login_state" where
  "success_response F cr js hash enc render dr tokens return_to now s =
     (if \<not> ls_custody s then admit_person hash enc render dr tokens return_to now s
      else
        (let (r, w, ch) = take_custody F cr js (cd_custody dr) (grant_of tokens) now (cd_ack dr) (cd_events dr)
                            (ls_writer s) (ls_channel s);
             s1 = s\<lparr>ls_writer := w, ls_channel := ch\<rparr>
         in case r of
              None \<Rightarrow> (None, s1)
            | Some (Inr _) \<Rightarrow> admit_person hash enc render dr tokens return_to now s1
            | Some (Inl _) \<Rightarrow>
                (let (resp, s2) = error_redirect (cd_reference dr) ''custody_failed''
                       ''The broker could not store the sign-in in its own database. Nothing is wrong at the provider; check the broker log.''
                       (note_desktop_failure return_to ''custody_failed''
                          ''The broker could not store the sign-in in its own database.'' now s1)
                 in (Some resp, s2))))"

definition callback ::
  "net \<Rightarrow> 'k builder \<Rightarrow> (string \<Rightarrow> 'k idp) \<Rightarrow> (oauth_error \<Rightarrow> string) \<Rightarrow> 'f f64 \<Rightarrow> crypto \<Rightarrow> json \<Rightarrow>
   (session_token \<Rightarrow> token_hash) \<Rightarrow> (session_meta \<Rightarrow> string) \<Rightarrow> (string \<Rightarrow> string) \<Rightarrow> callback_draws \<Rightarrow>
   header_map \<Rightarrow> callback_query \<Rightarrow> timestamp \<Rightarrow> 'k login_state \<Rightarrow> response option \<times> 'k login_state" where
  "callback N build idps said F cr js hash enc render dr headers q now s =
     (let (r, s') =
        (case cookie headers (txn_cookie_name (login_config s)) of
           None \<Rightarrow>
             (let (resp, s1) = error_redirect (cd_reference dr) ''no_txn_cookie''
                    ''The browser sent no sign-in cookie with this response.'' (record_login_failure ''no_txn_cookie'' now s)
              in (Some resp, s1))
         | Some txn_id \<Rightarrow>
             (let txn_return_to = return_to_of txn_id (rg_txns (ls_registry s));
                  (outcome, reg) = resolve_callback N build idps txn_id q now (ls_registry s);
                  s1 = s\<lparr>ls_registry := reg\<rparr>
              in case outcome of
                   Inr (tokens, return_to) \<Rightarrow> success_response F cr js hash enc render dr tokens return_to now s1
                 | Inl e \<Rightarrow>
                     (let s2 = note_desktop_failure txn_return_to (oauth_code e) (said e) now
                                 (record_login_failure (oauth_code e) now s1);
                          (resp, s3) = error_redirect (cd_reference dr) (oauth_code e) (said e) s2
                      in (Some resp, s3))))
      in (map_option (append_cookie (expire_txn_cookie (login_config s))) r, s'))"

end
