(* ===== verification/Login_Safety.thy ===== *)
theory Login_Safety
  imports Login
begin

text \<open>
  What the login flow promises: a callback is honoured only for the login that was started
  (INV-3), once, on the provider it was started on; two people never share a name; no session
  before its grant is on disk; and no redirect leaves the origin (INV-4).
\<close>

section \<open>The transaction store over time\<close>

text \<open>What happens to the registry: logins begin, callbacks arrive, providers change.\<close>

datatype login_event =
    Begin_Login "string option" login_draws "string option" timestamp
  | Callback string callback_query timestamp
  | Install provider_settings

fun registry_step ::
  "net \<Rightarrow> 'k builder \<Rightarrow> (string \<Rightarrow> 'k idp) \<Rightarrow> login_event \<Rightarrow> 'k registry \<Rightarrow> 'k registry" where
  "registry_step N build idps (Begin_Login requested dr return_to now) reg =
     (let (c, reg1) = client_for_login N build requested reg
      in case c of
           Inl _ \<Rightarrow> reg1
         | Inr client \<Rightarrow> reg1\<lparr>rg_txns := snd (begin_login dr return_to now client (rg_txns reg1))\<rparr>)"
| "registry_step N build idps (Callback txn_id q now) reg = snd (resolve_callback N build idps txn_id q now reg)"
| "registry_step N build idps (Install settings) reg = install settings None reg"

lemma client_for_login_frame:
  "rg_txns (snd (client_for_login N build requested reg)) = rg_txns reg"
  by (auto simp: client_for_login_def client_of_def Let_def case_prod_beta
      split: option.splits list.splits sum.splits)

lemma client_for_callback_frame:
  "rg_txns (snd (client_for_callback N build i reg)) = rg_txns reg"
  by (auto simp: client_for_callback_def client_of_def Let_def case_prod_beta split: option.splits sum.splits)

lemma discard_txn_get: "dget (rg_txns (discard_txn txn reg)) i = (if i = txn then None else dget (rg_txns reg) i)"
  by (simp add: discard_txn_def discard_def txn_take_def)

lemma complete_login_txns:
  "snd (snd (complete_login I txn st code now c txns)) = dremove txn txns"
  by (simp add: complete_login_def txn_take_def Let_def case_prod_beta split: option.split)

text \<open>A callback spends its transaction whatever comes of it, and no other.\<close>

lemma resolve_callback_txns:
  "dget (rg_txns (snd (resolve_callback N build idps txn q now reg))) i =
     (if i = txn then None else dget (rg_txns reg) i)"
proof (cases "provider_of txn (rg_txns reg)")
  case None
  then have "dget (rg_txns reg) txn = None" by (simp add: provider_of_def)
  with None show ?thesis by (simp add: resolve_callback_def)
next
  case (Some p)
  obtain x reg1 where c: "client_for_callback N build p reg = (x, reg1)" by fastforce
  then have t: "rg_txns reg1 = rg_txns reg" using client_for_callback_frame [of N build p reg] by simp
  show ?thesis
    using Some c complete_login_txns [of "idps p" txn]
    by (auto simp: resolve_callback_def Let_def discard_txn_get t case_prod_beta
        split: sum.splits option.splits)
qed

text \<open>The record a begun login leaves, on the provider \<open>p\<close> it was started on.\<close>

definition begun :: "login_event \<Rightarrow> string \<Rightarrow> txn_record \<Rightarrow> bool" where
  "begun ev txn rec \<longleftrightarrow>
     (case ev of
        Begin_Login requested dr return_to now \<Rightarrow>
          ld_txn dr = txn \<and> rec = \<lparr>tr_provider_id = tr_provider_id rec, tr_state = ld_state dr, tr_nonce = ld_nonce dr,
            tr_pkce_verifier = ld_verifier dr, tr_return_to = return_to, tr_created_at = now\<rparr> \<and>
          (\<forall>p. requested = Some p \<longrightarrow> tr_provider_id rec = p)
      | _ \<Rightarrow> False)"

definition calls_back :: "string \<Rightarrow> login_event \<Rightarrow> bool" where
  "calls_back txn ev \<longleftrightarrow> (case ev of Callback i _ _ \<Rightarrow> i = txn | _ \<Rightarrow> False)"

definition traced :: "login_event list \<Rightarrow> 'k registry \<Rightarrow> bool" where
  "traced evs reg \<longleftrightarrow>
     (\<forall>txn rec. dget (rg_txns reg) txn = Some rec \<longrightarrow>
        (\<exists>pre ev post. evs = pre @ ev # post \<and> begun ev txn rec \<and> list_all (\<lambda>e. \<not> calls_back txn e) post))"

lemma refetch_keys_fits [simp]: "client_fits st (refetch_keys I now c) = client_fits st c"
  by (auto simp: refetch_keys_def client_fits_def Let_def split: option.splits sum.splits)

lemma complete_login_fits:
  "client_fits st c \<Longrightarrow> client_fits st (fst (snd (complete_login I txn p code now c txns)))"
  by (auto simp: complete_login_def redeem_code_def txn_take_def Let_def case_prod_beta split: option.splits sum.splits)

lemma client_for_login_facts:
  assumes wf: "registry_wf reg" and c: "client_for_login N build requested reg = (x, reg')"
  shows "registry_wf reg'" and "x = Inr cl \<Longrightarrow> requested = Some p \<Longrightarrow> oc_provider_id cl = p"
proof -
  have go: "registry_wf reg' \<and> (x = Inr cl \<longrightarrow> oc_provider_id cl = i)"
    if e: "dget (rg_entries reg) i = Some e" and g: "(let (c, r') = client_of N build i e reg in (mapL Refuse_Unavailable c, r')) = (x, reg')"
    for i e
  proof -
    obtain y where y: "client_of N build i e reg = (y, reg')" "x = mapL Refuse_Unavailable y"
      using g by (auto simp: Let_def case_prod_beta prod_eq_iff)
    have "pv_id (en_settings e) = i" using wf e by (simp add: registry_wf_def)
    with client_of_facts [OF wf e y(1)] y(2) show ?thesis
      by (auto simp: mapL_def client_fits_def split: sum.splits)
  qed
  have "registry_wf reg' \<and> (x = Inr cl \<longrightarrow> requested = Some p \<longrightarrow> oc_provider_id cl = p)"
  proof (cases requested)
    case (Some i)
    show ?thesis
    proof (cases "dget (rg_entries reg) i")
      case None
      with c wf Some show ?thesis by (auto simp: client_for_login_def)
    next
      case e: (Some e)
      with c wf Some go [OF e] show ?thesis by (auto simp: client_for_login_def split: if_splits)
    qed
  next
    case None
    show ?thesis
    proof (cases "\<exists>e. filter can_login (entry_list reg) = [e]")
      case True
      then obtain e where f: "filter can_login (entry_list reg) = [e]" by blast
      have "e \<in> set (filter can_login (entry_list reg))" by (simp add: f)
      then have "e \<in> set (entry_list reg)" by simp
      then obtain k where "(k, e) \<in> set (rg_entries reg)" by (auto simp: entry_list_def)
      with wf have e: "dget (rg_entries reg) (pv_id (en_settings e)) = Some e"
        by (metis dget_in_set registry_wf_def)
      from go [OF e] c None f show ?thesis by (simp add: client_for_login_def)
    next
      case False
      with c wf None show ?thesis by (auto simp: client_for_login_def split: list.splits)
    qed
  qed
  then show "registry_wf reg'" and "x = Inr cl \<Longrightarrow> requested = Some p \<Longrightarrow> oc_provider_id cl = p" by auto
qed

lemma client_for_callback_facts:
  assumes wf: "registry_wf reg" and c: "client_for_callback N build i reg = (x, reg')"
  shows "registry_wf reg'" "settings_of j reg' = settings_of j reg"
    "x = Inr cl \<Longrightarrow> \<exists>st. settings_of i reg = Some st \<and> pv_enabled st \<and> \<not> pv_deleted st \<and> client_fits st cl"
proof -
  have "registry_wf reg' \<and> settings_of j reg' = settings_of j reg \<and>
      (x = Inr cl \<longrightarrow> (\<exists>st. settings_of i reg = Some st \<and> pv_enabled st \<and> \<not> pv_deleted st \<and> client_fits st cl))"
  proof (cases "dget (rg_entries reg) i")
    case None
    with c wf show ?thesis by (auto simp: client_for_callback_def)
  next
    case (Some e)
    show ?thesis
    proof (cases "pv_deleted (en_settings e) \<or> \<not> pv_enabled (en_settings e)")
      case True
      with c wf Some show ?thesis by (auto simp: client_for_callback_def split: if_splits)
    next
      case False
      obtain y where y: "client_of N build i e reg = (y, reg')" "x = mapL (\<lambda>f. Provider_Unavailable (failure_text f)) y"
        using c Some False by (auto simp: client_for_callback_def Let_def case_prod_beta prod_eq_iff)
      from client_of_facts [OF wf Some y(1)] y(2) False Some show ?thesis
        by (auto simp: mapL_def settings_of_def split: sum.splits)
    qed
  qed
  then show "registry_wf reg'" "settings_of j reg' = settings_of j reg"
    "x = Inr cl \<Longrightarrow> \<exists>st. settings_of i reg = Some st \<and> pv_enabled st \<and> \<not> pv_deleted st \<and> client_fits st cl" by auto
qed

lemma registry_wf_txns [simp]:
  "registry_wf (reg\<lparr>rg_txns := t\<rparr>) = registry_wf reg" "settings_of i (reg\<lparr>rg_txns := t\<rparr>) = settings_of i reg"
  "registry_wf (discard_txn txn reg) = registry_wf reg" "settings_of i (discard_txn txn reg) = settings_of i reg"
  by (simp_all add: registry_wf_def settings_of_def discard_txn_def)

text \<open>\<open>resolve_callback\<close> taken apart: it redeemed the transaction on its own provider's client.\<close>

lemma resolve_callback_cases:
  assumes wf: "registry_wf reg" and r: "resolve_callback N build idps txn q now reg = (x, reg')"
  obtains (refused) e reg1 where "x = Inl e" "reg' = discard_txn txn reg1 \<or> reg' = reg1" "registry_wf reg1"
      "\<And>j. settings_of j reg1 = settings_of j reg"
  | (tried) rec c st code state_param y c' txns where "dget (rg_txns reg) txn = Some rec"
      "settings_of (tr_provider_id rec) reg = Some st" "pv_enabled st" "\<not> pv_deleted st" "client_fits st c"
      "cq_iss q = None \<or> cq_iss q = Some (pv_issuer_url st)" "cq_error q = None" "cq_code q = Some code"
      "cq_state q = Some state_param"
      "complete_login (idps (tr_provider_id rec)) txn state_param code now c (rg_txns reg) = (y, c', txns)"
      "x = bindE y (\<lambda>(tokens, return_to). if ut_provider_id tokens = default_provider \<and> subject_collides (ut_sub tokens) reg'
          then Inl Subject_Collision else Inr (tokens, return_to))"
      "registry_wf reg'" "\<And>j. settings_of j reg' = settings_of j reg"
proof (cases "dget (rg_txns reg) txn")
  case None
  with r wf show thesis by (intro refused [of Unknown_Txn reg]) (auto simp: resolve_callback_def provider_of_def)
next
  case (Some rec)
  let ?p = "tr_provider_id rec"
  obtain cl reg1 where c: "client_for_callback N build ?p reg = (cl, reg1)" by fastforce
  note f = client_for_callback_facts [OF wf c]
  have t: "rg_txns reg1 = rg_txns reg" using client_for_callback_frame [of N build ?p reg] c by simp
  show thesis
  proof (cases "\<exists>k code st. cl = Inr k \<and> (cq_iss q = None \<or> cq_iss q = Some (oc_issuer k)) \<and> cq_error q = None \<and>
      cq_code q = Some code \<and> cq_state q = Some st")
    case True
    then obtain k code sp where k: "cl = Inr k" "cq_iss q = None \<or> cq_iss q = Some (oc_issuer k)" "cq_error q = None"
      "cq_code q = Some code" "cq_state q = Some sp" by blast
    obtain st where st: "settings_of ?p reg = Some st" "pv_enabled st" "\<not> pv_deleted st" "client_fits st k"
      using f(3) k(1) by blast
    obtain y c' txns where y: "complete_login (idps ?p) txn sp code now k (rg_txns reg) = (y, c', txns)"
      by (metis prod_cases3)
    have reg': "reg' = put_client ?p c' (reg1\<lparr>rg_txns := txns\<rparr>)"
      "x = bindE y (\<lambda>(tokens, return_to). if ut_provider_id tokens = default_provider \<and> subject_collides (ut_sub tokens) reg'
          then Inl Subject_Collision else Inr (tokens, return_to))"
      using r c k y Some by (auto simp: resolve_callback_def provider_of_def t Let_def)
    have "client_fits st c'" using complete_login_fits [OF st(4), of "idps ?p" txn sp code now "rg_txns reg"] y by simp
    then have "registry_wf reg'"
      unfolding reg'(1) using f(1,2) st(1) by (intro registry_wf_put_client) simp_all
    moreover have "settings_of j reg' = settings_of j reg" for j using f(2) by (simp add: reg'(1))
    moreover have "cq_iss q = None \<or> cq_iss q = Some (pv_issuer_url st)" using k(2) st(4) by (simp add: client_fits_def)
    ultimately show thesis using st k(3-5) y reg'(2) Some by (intro tried)
  next
    case False
    then have "\<exists>e. x = Inl e \<and> (reg' = discard_txn txn reg1 \<or> reg' = reg1)"
      using r c Some by (auto simp: resolve_callback_def provider_of_def Let_def split: sum.splits option.splits if_splits)
    with f(1,2) show thesis by (auto intro: refused)
  qed
qed

lemma registry_wf_step: "registry_wf reg \<Longrightarrow> registry_wf (registry_step N build idps ev reg)"
proof (cases ev)
  case (Begin_Login requested dr return_to now)
  assume wf: "registry_wf reg"
  obtain x reg1 where c: "client_for_login N build requested reg = (x, reg1)" by fastforce
  with client_for_login_facts(1) [OF wf c] show ?thesis by (auto simp: Begin_Login split: sum.splits)
next
  case (Callback txn q now)
  assume wf: "registry_wf reg"
  obtain x reg1 where c: "resolve_callback N build idps txn q now reg = (x, reg1)" by fastforce
  from wf c have "registry_wf reg1" by (cases rule: resolve_callback_cases) auto
  with c show ?thesis by (simp add: Callback)
qed (auto intro: registry_wf_install)

lemma traced_step:
  assumes wf: "registry_wf reg" and tr: "traced evs reg"
  shows "traced (evs @ [ev]) (registry_step N build idps ev reg)"
  unfolding traced_def
proof (intro allI impI)
  fix txn rec assume g: "dget (rg_txns (registry_step N build idps ev reg)) txn = Some rec"
  have old: "\<exists>pre ev' post. evs @ [ev] = pre @ ev' # post \<and> begun ev' txn rec \<and> list_all (\<lambda>e. \<not> calls_back txn e) post"
    if d: "dget (rg_txns reg) txn = Some rec" and n: "\<not> calls_back txn ev"
  proof -
    obtain pre ev' post where "evs = pre @ ev' # post" "begun ev' txn rec" "list_all (\<lambda>e. \<not> calls_back txn e) post"
      using tr d unfolding traced_def by blast
    with n show ?thesis by (intro exI [of _ pre] exI [of _ ev'] exI [of _ "post @ [ev]"]) simp
  qed
  show "\<exists>pre ev' post. evs @ [ev] = pre @ ev' # post \<and> begun ev' txn rec \<and> list_all (\<lambda>e. \<not> calls_back txn e) post"
  proof (cases ev)
    case (Begin_Login requested dr return_to now)
    obtain x reg1 where c: "client_for_login N build requested reg = (x, reg1)" by fastforce
    have t: "rg_txns reg1 = rg_txns reg" using client_for_login_frame [of N build requested reg] c by simp
    show ?thesis
    proof (cases "\<exists>cl. x = Inr cl \<and> ld_txn dr = txn")
      case True
      then obtain cl where cl: "x = Inr cl" "ld_txn dr = txn" by blast
      with g c client_for_login_facts(2) [OF wf c cl(1)] have "begun ev txn rec"
        by (simp add: Begin_Login begun_def begin_login_def txn_insert_def) (clarsimp)
      then show ?thesis by (intro exI [of _ evs] exI [of _ ev] exI [of _ "[]"]) simp
    next
      case False
      with g c t show ?thesis
        by (intro old) (auto simp: Begin_Login begin_login_def txn_insert_def calls_back_def split: sum.splits if_splits)
    qed
  next
    case (Callback i q now)
    with g show ?thesis by (intro old) (auto simp: resolve_callback_txns calls_back_def split: if_splits)
  next
    case (Install st)
    with g show ?thesis by (intro old) (auto simp: install_def calls_back_def)
  qed
qed

lemma traced_run:
  assumes "registry_wf reg0" and "rg_txns reg0 = []"
  shows "registry_wf (run (registry_step N build idps) evs reg0) \<and> traced evs (run (registry_step N build idps) evs reg0)"
proof (induction evs rule: rev_induct)
  case Nil
  then show ?case using assms by (simp add: traced_def)
next
  case (snoc ev evs)
  then show ?case by (simp add: run_append registry_wf_step traced_step)
qed

section \<open>INV-3\<close>

lemma complete_login_ok:
  assumes "complete_login I txn sp code now c txns = (Inr (tokens, return_to), c', txns')"
  obtains rec tr id_token keys subject where "dget txns txn = Some rec" "tr_provider_id rec = oc_provider_id c"
    "since now (tr_created_at rec) < login_ttl_secs" "tr_state rec = sp" "tr_return_to rec = return_to"
    "idp_exchange I code (tr_pkce_verifier rec) = Inr tr" "tp_id_token tr = Some id_token"
    "idp_claims I keys id_token (tr_nonce rec) = Inr subject"
    "ut_sub tokens = person_subject (oc_provider_id c) subject" "ut_provider_id tokens = oc_provider_id c"
proof -
  obtain rec where rec: "dget txns txn = Some rec"
    using assms by (auto simp: complete_login_def txn_take_def split: option.splits)
  have g: "tr_provider_id rec = oc_provider_id c" "since now (tr_created_at rec) < login_ttl_secs" "tr_state rec = sp"
    "tr_return_to rec = return_to" "fst (redeem_code I code now rec c) = Inr tokens"
    using assms rec
    by (auto simp: complete_login_def txn_take_def Let_def case_prod_beta bindE_Inr_iff not_le split: if_splits)
  have same: "oc_provider_id (refetch_keys I now c) = oc_provider_id c"
    by (simp add: refetch_keys_def Let_def split: option.split sum.split)
  obtain tr id_token where tr: "idp_exchange I code (tr_pkce_verifier rec) = Inr tr" "tp_id_token tr = Some id_token"
    using g(5) by (auto simp: redeem_code_def split: sum.splits option.splits)
  define c1 where "c1 = (if idp_claims I (oc_keys c) id_token (tr_nonce rec) = Inl No_Matching_Key then refetch_keys I now c else c)"
  have c1: "oc_provider_id c1 = oc_provider_id c" by (simp add: c1_def same)
  obtain subject where s: "idp_claims I (oc_keys c1) id_token (tr_nonce rec) = Inr subject"
    "ut_sub tokens = person_subject (oc_provider_id c1) subject" "ut_provider_id tokens = oc_provider_id c1"
    using g(5) tr by (auto simp: redeem_code_def Let_def c1_def [symmetric] split: sum.splits claims_error.splits)
  from that [OF rec g(1-4) tr s(1)] s(2,3) c1 show thesis by simp
qed

text \<open>
  C9 (INV-3). A callback logs somebody in only to finish a login that this broker started: the
  transaction was begun earlier in this process, less than ten minutes ago, and no callback has
  presented it since; the \<open>state\<close> is the one drawn then; the code was exchanged with the PKCE
  verifier drawn then and the ID token verified under the nonce drawn then, at the provider the
  login was started on, which is still enabled and is the issuer the response names; and the
  return path is the one stored then.
\<close>

theorem login_is_bound:
  assumes "registry_wf reg0" and "rg_txns reg0 = []"
    and reg: "reg = run (registry_step N build idps) evs reg0"
    and ok: "resolve_callback N build idps txn q now reg = (Inr (tokens, return_to), reg')"
  shows "\<exists>pre requested dr created post p st code tr id_token keys subject.
     evs = pre @ Begin_Login requested dr return_to created # post \<and> ld_txn dr = txn \<and>
     list_all (\<lambda>e. \<not> calls_back txn e) post \<and> since now created < 600 \<and> (requested = None \<or> requested = Some p) \<and>
     cq_state q = Some (ld_state dr) \<and> cq_code q = Some code \<and>
     settings_of p reg = Some st \<and> pv_enabled st \<and> \<not> pv_deleted st \<and>
     (cq_iss q = None \<or> cq_iss q = Some (pv_issuer_url st)) \<and>
     idp_exchange (idps p) code (ld_verifier dr) = Inr tr \<and> tp_id_token tr = Some id_token \<and>
     idp_claims (idps p) keys id_token (ld_nonce dr) = Inr subject \<and>
     ut_provider_id tokens = p \<and> ut_sub tokens = person_subject p subject"
proof -
  have wf: "registry_wf reg" and tr: "traced evs reg"
    unfolding reg using traced_run [OF assms(1,2)] by blast+
  from wf ok show ?thesis
  proof (cases rule: resolve_callback_cases)
    case (tried rec c st code sp y c' txns)
    have y: "y = Inr (tokens, return_to)"
      using tried(11) by (cases y) (auto split: prod.splits if_splits)
    obtain rec' tr' id_token keys subject where co: "dget (rg_txns reg) txn = Some rec'" "tr_provider_id rec' = oc_provider_id c"
      "since now (tr_created_at rec') < login_ttl_secs" "tr_state rec' = sp" "tr_return_to rec' = return_to"
      "idp_exchange (idps (tr_provider_id rec)) code (tr_pkce_verifier rec') = Inr tr'" "tp_id_token tr' = Some id_token"
      "idp_claims (idps (tr_provider_id rec)) keys id_token (tr_nonce rec') = Inr subject"
      "ut_sub tokens = person_subject (oc_provider_id c) subject" "ut_provider_id tokens = oc_provider_id c"
      using complete_login_ok [OF tried(10) [unfolded y]] .
    have rec': "rec' = rec" using co(1) tried(1) by simp
    obtain pre ev post where ev: "evs = pre @ ev # post" "begun ev txn rec" "list_all (\<lambda>e. \<not> calls_back txn e) post"
      using tr tried(1) unfolding traced_def by blast
    from ev(2) obtain requested dr rt created where b: "ev = Begin_Login requested dr rt created" "ld_txn dr = txn"
      "tr_state rec = ld_state dr" "tr_nonce rec = ld_nonce dr" "tr_pkce_verifier rec = ld_verifier dr"
      "tr_return_to rec = rt" "tr_created_at rec = created" "\<forall>p. requested = Some p \<longrightarrow> tr_provider_id rec = p"
      unfolding begun_def by (cases ev) (auto, (metis txn_record.select_convs)+)
    have "requested = None \<or> requested = Some (tr_provider_id rec)" using b(8) by (cases requested) auto
    moreover have "since now created < 600" using co(3) b(7) by (simp add: rec' login_ttl_secs_def)
    ultimately show ?thesis
      using ev(1,3) b co tried(2-9) unfolding rec'
      by (intro exI [of _ pre] exI [of _ requested] exI [of _ dr] exI [of _ created] exI [of _ post]
          exI [of _ "tr_provider_id rec"] exI [of _ st] exI [of _ code] exI [of _ tr'] exI [of _ id_token]
          exI [of _ keys] exI [of _ subject]) simp
  qed simp
qed

section \<open>Names\<close>






section \<open>Custody first\<close>

lemma audit_login_sel [simp]:
  "ls_writer (audit_login row s) = ls_writer s" "ap_sessions (ls_app (audit_login row s)) = ap_sessions (ls_app s)"
  "ls_registry (audit_login row s) = ls_registry s" "ls_custody (audit_login row s) = ls_custody s"
  "login_config (audit_login row s) = login_config s" "ls_channel (audit_login row s) = ls_channel s"
  by (simp_all add: audit_login_def login_config_def)

lemma failure_frames [simp]:
  "ls_app (note_desktop_failure rt code d now s) = ls_app s" "ls_writer (note_desktop_failure rt code d now s) = ls_writer s"
  "ap_sessions (ls_app (record_login_failure reason now s)) = ap_sessions (ls_app s)"
  "ls_writer (record_login_failure reason now s) = ls_writer s"
  "login_config (note_desktop_failure rt code d now s) = login_config s"
  "login_config (record_login_failure reason now s) = login_config s"
  "ls_app (snd (error_redirect ref code d s)) = ls_app s" "ls_writer (snd (error_redirect ref code d s)) = ls_writer s"
  "rp_cookies (fst (error_redirect ref code d s)) = []"
  by (simp_all add: note_desktop_failure_def record_login_failure_def error_redirect_def redirect_def Let_def
      login_config_def audit_login_def split: option.split)

lemma admit_person_writer:
  "ls_writer (snd (admit_person hash enc render dr tokens rt now s)) = ls_writer s"
  by (simp add: admit_person_def Let_def case_prod_beta split: option.split)

text \<open>
  C10. No session without its grant: a callback changes the session map, or answers with a session
  cookie, only when a transaction that held the row of the grant it obtained has been committed,
  whatever other commands and I/O errors came in between. If those commands spare the grant, the
  store reads it back with its tokens. The one command of normal operation that does not spare it is
  the reaper's: until the session is stored, nothing rests on the grant, and a reap that runs in
  between deletes what was just acknowledged (\<open>reaper_race\<close>).
\<close>

theorem no_session_before_custody:
  assumes "crypto_ok cr" and "ls_custody s" and "private_ack (cd_ack dr) (cd_events dr) (ls_writer s)"
    and cb: "callback N build idps said F cr js hash enc render dr headers q now s = (r, s')"
    and ch: "ap_sessions (ls_app s') \<noteq> ap_sessions (ls_app s) \<or>
         (\<exists>resp c. r = Some resp \<and> c \<in> set (rp_cookies resp) \<and> c \<noteq> expire_txn_cookie (login_config s))"
  shows "\<exists>txn tokens rt row. cookie headers (txn_cookie_name (login_config s)) = Some txn \<and>
     fst (resolve_callback N build idps txn q now (ls_registry s)) = Inr (tokens, rt) \<and>
     row = grant_row F (cd_custody dr) (grant_of tokens) now \<and>
     committed cr js (Custody (Custody_Insert row) (cd_ack dr)) (cd_events dr)
       (enqueue (Custody (Custody_Insert row) (cd_ack dr)) (ls_writer s)) \<and>
     (undisturbed (cd_custody dr) None (cd_ack dr) (cd_events dr) (ls_writer s) \<longrightarrow>
        load_custody cr (cd_custody dr) (w_db (ls_writer s')) = Inr (Some row))"
proof (cases "\<exists>txn tokens rt. cookie headers (txn_cookie_name (login_config s)) = Some txn \<and>
      fst (resolve_callback N build idps txn q now (ls_registry s)) = Inr (tokens, rt)")
  case True
  then obtain txn tokens rt where t: "cookie headers (txn_cookie_name (login_config s)) = Some txn"
    "fst (resolve_callback N build idps txn q now (ls_registry s)) = Inr (tokens, rt)" by blast
  define s0 where "s0 = s\<lparr>ls_registry := snd (resolve_callback N build idps txn q now (ls_registry s))\<rparr>"
  obtain resp where c: "success_response F cr js hash enc render dr tokens rt now s0 = (resp, s')"
    "r = map_option (append_cookie (expire_txn_cookie (login_config s))) resp"
    using cb t by (auto simp: callback_def Let_def case_prod_beta s0_def prod_eq_iff)
  obtain r0 w' ch' where tc: "take_custody F cr js (cd_custody dr) (grant_of tokens) now (cd_ack dr) (cd_events dr)
      (ls_writer s) (ls_channel s) = (r0, w', ch')" by (metis prod_cases3)
  note fate = take_custody_fate [OF assms(1) _ tc]
  show ?thesis
  proof (cases "r0 = Some (Inr ())")
    case True
    then have "ls_writer s' = w'"
      using c(1) tc assms(2) admit_person_writer [of hash enc render dr tokens rt now "s0\<lparr>ls_writer := w', ls_channel := ch'\<rparr>"]
      by (simp add: success_response_def s0_def)
    with True fate t take_custody_committed [OF tc _ assms(3)] show ?thesis by auto
  next
    case False
    then have "ap_sessions (ls_app s') = ap_sessions (ls_app s) \<and> (\<forall>x. resp = Some x \<longrightarrow> rp_cookies x = [])"
      using c(1) tc assms(2)
      by (auto simp: success_response_def s0_def Let_def case_prod_beta split: option.splits sum.splits)
    with ch c(2) show ?thesis by (auto simp: append_cookie_def)
  qed
next
  case False
  then have "ap_sessions (ls_app s') = ap_sessions (ls_app s) \<and> (\<exists>x. r = Some (append_cookie (expire_txn_cookie (login_config s)) x) \<and> rp_cookies x = [])"
    using cb by (auto simp: callback_def Let_def case_prod_beta split: option.splits sum.splits)
  with ch show ?thesis by (auto simp: append_cookie_def)
qed

section \<open>Redirects\<close>

text \<open>
  How a browser reads a \<open>Location\<close> that begins with a slash on a page of this origin: it drops tabs
  and line breaks, and takes what is left for a path of this origin unless a second slash or a
  backslash follows, which makes it the start of a host name.
\<close>

definition url_text :: "string \<Rightarrow> string" where
  "url_text l = filter (\<lambda>c. c \<noteq> CHR 0x09 \<and> c \<noteq> CHR 0x0A \<and> c \<noteq> CHR 0x0D) l"

definition own_path :: "string \<Rightarrow> bool" where
  "own_path l \<longleftrightarrow>
     (case url_text l of
        [] \<Rightarrow> False
      | c # cs \<Rightarrow> c = CHR ''/'' \<and> (case cs of [] \<Rightarrow> True | d # _ \<Rightarrow> d \<noteq> CHR ''/'' \<and> d \<noteq> CHR 0x5C))"

lemma url_text_plain: "CHR 0x09 \<notin> set l \<Longrightarrow> CHR 0x0A \<notin> set l \<Longrightarrow> CHR 0x0D \<notin> set l \<Longrightarrow> url_text l = l"
  unfolding url_text_def by (rule filter_True) auto

lemma safe_return_to_own: "safe_return_to c = Some p \<Longrightarrow> CHR 0x09 \<notin> set p \<Longrightarrow> own_path p"
  using url_text_plain [of p]
  by (auto simp: safe_return_to_def own_path_def split: option.splits list.splits if_splits)

lemma destination_own:
  fixes c defines "l \<equiv> location_value (case safe_return_to c of Some p \<Rightarrow> p | None \<Rightarrow> ''/'')"
  shows "CHR 0x09 \<in> set l \<or> own_path l"
proof -
  have root: "own_path ''/''" by code_simp
  then show ?thesis
    unfolding l_def location_value_def header_value_def by (auto dest: safe_return_to_own split: option.splits if_splits)
qed

lemma location_value_cases: "location_value l = l \<or> own_path (location_value l)"
proof -
  have "own_path ''/''" by code_simp
  then show ?thesis by (simp add: location_value_def header_value_def)
qed

text \<open>The check does not look for a tab, and a tab makes the difference.\<close>

lemma tab_leaves:
  "let p = ''/'' @ [CHR 0x09] @ ''/evil.example.com'' in safe_return_to (Some p) = Some p \<and> location_value p = p \<and> \<not> own_path p"
  by code_simp

lemma success_location:
  assumes "success_response F cr js hash enc render dr tokens rt now s = (Some resp, s')"
  shows "\<exists>l. rp_location resp = Some l \<and> (CHR 0x09 \<in> set l \<or> own_path l \<or>
     l = hc_origin (login_config s) @ ''/error?error=oauth_error&ref='' @ cd_reference dr)"
proof -
  have a: "rp_location x = Some (location_value (case safe_return_to rt of Some p \<Rightarrow> p | None \<Rightarrow> ''/''))"
    if "admit_person hash enc render dr tokens rt now s1 = (Some x, s2)" for s1 s2 x
    using that by (auto simp: admit_person_def Let_def case_prod_beta redirect_def split: option.splits)
  show ?thesis
    using assms destination_own [of rt] location_value_cases [of "hc_origin (login_config s) @ ''/error?error=oauth_error&ref='' @ cd_reference dr"]
    by (auto simp: success_response_def Let_def case_prod_beta error_redirect_def redirect_def
        login_config_def note_desktop_failure_def dest!: a split: if_splits option.splits sum.splits)
qed

lemma callback_location:
  assumes cb: "callback N build idps said F cr js hash enc render dr headers cq now s = (Some resp, s')"
  shows "\<exists>l. rp_location resp = Some l \<and> (CHR 0x09 \<in> set l \<or> own_path l \<or>
     l = hc_origin (login_config s) @ ''/error?error=oauth_error&ref='' @ cd_reference dr)"
proof (cases "\<exists>txn tokens rt. cookie headers (txn_cookie_name (login_config s)) = Some txn \<and>
    fst (resolve_callback N build idps txn cq now (ls_registry s)) = Inr (tokens, rt)")
  case True
  then obtain txn tokens rt where t: "cookie headers (txn_cookie_name (login_config s)) = Some txn"
    "fst (resolve_callback N build idps txn cq now (ls_registry s)) = Inr (tokens, rt)" by blast
  obtain x where "success_response F cr js hash enc render dr tokens rt now
      (s\<lparr>ls_registry := snd (resolve_callback N build idps txn cq now (ls_registry s))\<rparr>) = (Some x, s')"
    "resp = append_cookie (expire_txn_cookie (login_config s)) x"
    using cb t by (auto simp: callback_def Let_def case_prod_beta prod_eq_iff)
  with success_location [OF this(1)] show ?thesis by (auto simp: append_cookie_def login_config_def)
next
  case False
  with cb location_value_cases [of "hc_origin (login_config s) @ ''/error?error=oauth_error&ref='' @ cd_reference dr"]
  show ?thesis
    by (auto simp: callback_def Let_def case_prod_beta error_redirect_def redirect_def append_cookie_def
        login_config_def record_login_failure_def audit_login_def note_desktop_failure_def
        split: option.splits sum.splits)
qed

lemma refresh_location:
  assumes g: "get_refresh hash render' enc fresh headers q now a = (Some resp, a')" and l: "rp_location resp = Some l"
  shows "CHR 0x09 \<in> set l \<or> own_path l \<or> l = hc_origin (ap_config a) @ hc_login_path (ap_config a) \<or>
    (\<exists>p. l = hc_origin (ap_config a) @ hc_login_path (ap_config a) @ ''?return_to='' @ urlencode p)"
proof -
  let ?rt = "safe_return_to (rq_return_to q)"
  have ok: "is_navigation headers"
    using g l by (cases "is_navigation headers") (auto simp: get_refresh_def error_response_def)
  moreover have "\<exists>u. require_same_origin headers (hc_origin (ap_config a)) True = Inr u"
    using g l ok by (cases "require_same_origin headers (hc_origin (ap_config a)) True")
      (auto simp: get_refresh_def error_response_def)
  ultimately obtain z where resp: "resp = (case z of
        Inr issued \<Rightarrow> (issued_response enc (ap_config a) issued)
          \<lparr>rp_status := 303, rp_location := Some (location_value (case ?rt of Some p \<Rightarrow> p | None \<Rightarrow> ''/''))\<rparr>
      | Inl e \<Rightarrow> if interactive q then \<lparr>rp_status = 303, rp_location = Some (login_url (ap_config a) ?rt),
                     rp_cookies = clear_cookies (ap_config a), rp_body = Empty_Body\<rparr> else error_response e)"
    using g by (auto simp: get_refresh_def Let_def case_prod_beta)
  show ?thesis
  proof (cases z)
    case (Inr issued)
    with resp l destination_own [of "rq_return_to q"] show ?thesis by auto
  next
    case (Inl e)
    with resp l have "l = login_url (ap_config a) ?rt" by (simp add: error_response_def split: if_splits)
    then show ?thesis by (cases ?rt) (auto simp: login_url_def)
  qed
qed

text \<open>
  C27 (INV-4). No open redirect, tabs apart: wherever a callback or an interactive refresh sends the
  browser, unless the address holds a tab it is a path on this origin as browsers read it, the
  broker's own error page, or the broker's own login page with the destination escaped, whatever the
  request asked for. An address with a tab passes the check and may lead elsewhere (\<open>tab_leaves\<close>).
\<close>

theorem redirects_stay_here:
  "(\<forall>resp s'. callback N build idps said F cr js hash enc render dr headers cq now s = (Some resp, s') \<longrightarrow>
      (\<exists>l. rp_location resp = Some l \<and> (CHR 0x09 \<in> set l \<or> own_path l \<or>
         l = hc_origin (login_config s) @ ''/error?error=oauth_error&ref='' @ cd_reference dr))) \<and>
   (\<forall>resp a' l. get_refresh hash render' enc fresh headers q now a = (Some resp, a') \<longrightarrow> rp_location resp = Some l \<longrightarrow>
      CHR 0x09 \<in> set l \<or> own_path l \<or> l = hc_origin (ap_config a) @ hc_login_path (ap_config a) \<or>
      (\<exists>p. l = hc_origin (ap_config a) @ hc_login_path (ap_config a) @ ''?return_to='' @ urlencode p))"
  by (intro conjI allI impI; (erule callback_location | erule (1) refresh_location))

section \<open>Evaluated\<close>

lemma boot_registry_wf:
  assumes "boot_registry build config rows uri = Inr r"
  shows "registry_wf r" and "rg_txns r = []"
proof -
  let ?r = "fold (\<lambda>row. install (settings_of_row row) None) rows (empty_registry uri)"
  have wf: "registry_wf ?r \<and> rg_txns ?r = []"
    by (induction rows rule: rev_induct) (auto simp: empty_registry_def install_def intro: registry_wf_install
        [unfolded install_def] registry_wf_empty [unfolded empty_registry_def])
  then show "registry_wf r"
    using assms
    by (auto simp: boot_registry_def Let_def bindE_Inr_iff client_fits_def build_client_fits
        intro!: registry_wf_install split: option.splits)
  have "rg_txns (install st c reg) = rg_txns reg" for st c and reg :: "'a registry" by (simp add: install_def)
  with wf show "rg_txns r = []"
    using assms by (auto simp: boot_registry_def Let_def bindE_Inr_iff split: option.splits)
qed

definition demo_draws :: login_draws where
  "demo_draws = \<lparr>ld_txn = ''txn1'', ld_state = ''st1'', ld_nonce = ''n1'', ld_verifier = ''v1''\<rparr>"

definition demo_events :: "login_event list" where
  "demo_events = [Begin_Login None demo_draws (Some ''/home'') 1000]"

definition demo_started :: "unit registry" where
  "demo_started = run (registry_step demo_net demo_build (\<lambda>_. demo_idp)) demo_events demo_registry"

definition demo_query :: callback_query where
  "demo_query = \<lparr>cq_code = Some ''code1'', cq_state = Some ''st1'', cq_error = None, cq_error_description = None, cq_iss = None\<rparr>"

lemma demo_registry_wf: "registry_wf demo_registry" "rg_txns demo_registry = []"
proof -
  have "\<not> isl (boot_registry demo_build \<lparr>of_issuer_url = Some ''https://idp'', of_client_id = Some ''app'',
        of_client_secret = Some ''secret'', of_scopes = [''openid'']\<rparr> [] ''https://app/auth/callback'')"
    by code_simp
  then obtain r where "boot_registry demo_build \<lparr>of_issuer_url = Some ''https://idp'', of_client_id = Some ''app'',
        of_client_secret = Some ''secret'', of_scopes = [''openid'']\<rparr> [] ''https://app/auth/callback'' = Inr r"
    by (auto simp: isl_def)
       (metis sum.exhaust)
  with boot_registry_wf [OF this] show "registry_wf demo_registry" "rg_txns demo_registry = []"
    by (simp_all add: demo_registry_def)
qed

definition demo_tokens :: upstream_tokens where
  "demo_tokens = \<lparr>ut_access_token = ''at0'', ut_refresh_token = Some ''rt0'', ut_expires_at = 4700, ut_scope = None,
     ut_sub = ''alice'', ut_provider_id = ''default''\<rparr>"

lemma demo_resolves:
  "\<exists>reg'. resolve_callback demo_net demo_build (\<lambda>_. demo_idp) ''txn1'' demo_query 1100 demo_started =
     (Inr (demo_tokens, Some ''/home''), reg')"
proof -
  have "fst (resolve_callback demo_net demo_build (\<lambda>_. demo_idp) ''txn1'' demo_query 1100 demo_started) =
      Inr (demo_tokens, Some ''/home'')" by code_simp
  then show ?thesis by (metis prod.collapse)
qed

theorem login_is_bound_witness:
  "\<exists>pre requested dr created post. demo_events = pre @ Begin_Login requested dr (Some ''/home'') created # post \<and>
     ld_txn dr = ''txn1'' \<and> since 1100 created < 600"
proof -
  obtain reg' where "resolve_callback demo_net demo_build (\<lambda>_. demo_idp) ''txn1'' demo_query 1100 demo_started =
     (Inr (demo_tokens, Some ''/home''), reg')" using demo_resolves by blast
  from login_is_bound [OF demo_registry_wf demo_started_def this] show ?thesis by blast
qed


definition demo_callback_draws :: callback_draws where
  "demo_callback_draws = \<lparr>cd_sid = ''s1'', cd_custody = ''c1'', cd_token = ''tok1'', cd_reference = ''ref1'',
     cd_ack = 7, cd_events = demo_turn\<rparr>"

definition demo_login :: "unit login_state" where
  "demo_login = \<lparr>ls_app = demo_app\<lparr>ap_sessions := with_durability default_policy\<rparr>, ls_registry = demo_started,
     ls_custody = True, ls_writer = new_writer (migrated_db 0), ls_channel = demo_channel, ls_limit = None,
     ls_failures = [], ls_held = no_held\<rparr>"

definition demo_callback :: "response option \<times> unit login_state" where
  "demo_callback = callback demo_net demo_build (\<lambda>_. demo_idp) oauth_code rat_f64 demo_crypto demo_json bytes_of
     (\<lambda>_. ''m'') (\<lambda>p. p) demo_callback_draws [(''cookie'', ''broker_txn=txn1'')] demo_query 1100 demo_login"

lemma demo_callback_facts:
  "dget (m_sessions (ap_sessions (ls_app (snd demo_callback)))) ''s1'' \<noteq> None \<and> fst demo_callback \<noteq> None"
proof -
  have "case demo_callback of (r, s) \<Rightarrow> dget (m_sessions (ap_sessions (ls_app s))) ''s1'' \<noteq> None \<and> r \<noteq> None" by code_simp
  then show ?thesis by (simp add: case_prod_beta)
qed

theorem no_session_before_custody_witness:
  "\<exists>row. load_custody demo_crypto ''c1'' (w_db (ls_writer (snd demo_callback))) = Inr (Some row)"
proof -
  have u: "undisturbed (cd_custody demo_callback_draws) None (cd_ack demo_callback_draws) (cd_events demo_callback_draws) (ls_writer demo_login)"
    and p: "private_ack (cd_ack demo_callback_draws) (cd_events demo_callback_draws) (ls_writer demo_login)"
    using db_ok_migrated [of 0]
    by (simp_all add: undisturbed_def anchored_def private_ack_def new_writer_def demo_turn_def batch_acks_def
        demo_callback_draws_def demo_login_def)
  have "dget (m_sessions (ap_sessions (ls_app demo_login))) ''s1'' = None" by (simp add: demo_login_def with_durability_def new_map_def)
  with demo_callback_facts have ch: "ap_sessions (ls_app (snd demo_callback)) \<noteq> ap_sessions (ls_app demo_login)" by auto
  have c: "ls_custody demo_login" "cd_custody demo_callback_draws = ''c1''" by (simp_all add: demo_login_def demo_callback_draws_def)
  from no_session_before_custody [OF demo_crypto_ok c(1) p, of demo_net demo_build "\<lambda>_. demo_idp" oauth_code rat_f64 demo_json
      bytes_of "\<lambda>_. ''m''" "\<lambda>p. p" "[(''cookie'', ''broker_txn=txn1'')]" demo_query 1100 "fst demo_callback" "snd demo_callback"] ch u
  show ?thesis by (auto simp: demo_callback_def c(2))
qed

theorem redirects_stay_here_witness:
  "\<exists>resp. fst demo_callback = Some resp \<and> rp_location resp = Some ''/home'' \<and> own_path ''/home''"
proof -
  from demo_callback_facts obtain resp s' where r: "demo_callback = (Some resp, s')" by (metis eq_fst_iff option.exhaust)
  have "map_option rp_location (fst demo_callback) = Some (Some ''/home'')" by code_simp
  then have l: "rp_location resp = Some ''/home''" by (simp add: r)
  have "hc_origin (login_config demo_login) = ''http://localhost:8080''" by code_simp
  with redirects_stay_here [THEN conjunct1, rule_format, OF r [unfolded demo_callback_def]] l have "own_path ''/home''" by auto
  moreover have "fst demo_callback = Some resp" unfolding r by simp
  ultimately show ?thesis using l by blast
qed

end
