(* ===== verification/Issuer.thy ===== *)
theory Issuer
  imports Audit_Sink Writer_Handle
begin

text \<open>
  The token issuer: \<open>issuer/keys.rs\<close>, \<open>issuer/mod.rs\<close> and \<open>issuer/jwt.rs\<close> over the reads of the
  \<open>signing_key\<close>, \<open>principal\<close> and \<open>user_grant\<close> tables in \<open>store/repo.rs\<close>. The issuer holds a cache of
  the keys; a call reads the clock once (\<open>now\<close>) and the committed store of the writer, a read of
  which may fail (\<open>rf\<close>). Writes block on the writer's ack as in \<open>Writer_Handle\<close>: the result is
  \<open>None\<close> while they do.
\<close>

section \<open>What the issuer is given\<close>

text \<open>
  Ed25519 (public key of a seed, signature), the \<open>kid\<close> of a public key, base64url, JSON string
  literals, SHA-256 of a presented secret, pseudonyms, and the JSON details of its audit rows.
\<close>

record rotation =
  ro_kid :: string
  ro_activate_at :: timestamp
  ro_previous_retire_at :: timestamp
  ro_immediate :: bool

record issuer_env =
  ie_crypto :: crypto
  ie_json :: json
  ie_public :: "bytes \<Rightarrow> bytes"
  ie_kid_of :: "bytes \<Rightarrow> string"
  ie_sign :: "bytes \<Rightarrow> string \<Rightarrow> bytes"
  ie_b64 :: "bytes \<Rightarrow> string"
  ie_quote :: "string \<Rightarrow> string"
  ie_hash :: "string \<Rightarrow> bytes"
  ie_pseudonym :: "string \<Rightarrow> string"
  ie_created_detail :: "timestamp \<Rightarrow> string"
  ie_rotated_detail :: "rotation \<Rightarrow> string"

section \<open>Reads of the store\<close>

record signing_key_row =
  sg_kid :: string
  sg_public_key :: bytes
  sg_created_at :: timestamp
  sg_activate_at :: timestamp
  sg_retire_at :: "timestamp option"
  sg_removed_at :: "timestamp option"

definition signing_key_row_of :: "db_signing_key \<Rightarrow> repo_error + signing_key_row" where
  "signing_key_row_of k =
     (if length (sk_public_key k) = 32
      then Inr \<lparr>sg_kid = sk_kid k, sg_public_key = sk_public_key k, sg_created_at = sk_created_at k,
                sg_activate_at = sk_activate_at k, sg_retire_at = sk_retire_at k, sg_removed_at = sk_removed_at k\<rparr>
      else Inl (Corrupt ''signing_key.public_key''))"

definition list_signing_keys :: "db \<Rightarrow> repo_error + signing_key_row list" where
  "list_signing_keys d = mapE signing_key_row_of (signing_key_order (signing_key_tbl d))"

definition opened_seed :: "crypto \<Rightarrow> db_signing_key \<Rightarrow> bytes option" where
  "opened_seed cr k =
     (case copen cr (sk_seed_sealed k) (signing_seed_context (sk_kid k)) of
        Inl _ \<Rightarrow> None
      | Inr plain \<Rightarrow> if length plain = 32 then Some plain else None)"

definition load_signing_keys :: "crypto \<Rightarrow> db \<Rightarrow> repo_error + (signing_key_row \<times> bytes option) list" where
  "load_signing_keys cr d =
     mapE (\<lambda>k. bindE (signing_key_row_of k) (\<lambda>row. Inr (row, opened_seed cr k)))
       (signing_key_order (filter (\<lambda>k. sk_removed_at k = None) (signing_key_tbl d)))"

record user_grant_row =
  gw_sub :: string
  gw_tenant_id :: string
  gw_roles :: "string list"
  gw_indexes :: "string list"
  gw_created_at :: timestamp
  gw_created_by :: "string option"
  gw_revoked_at :: "timestamp option"

definition user_grant_row_of :: "json \<Rightarrow> db_user_grant \<Rightarrow> repo_error + user_grant_row" where
  "user_grant_row_of js g =
     bindE (json_list js (ug_roles g)) (\<lambda>roles.
     bindE (json_list js (ug_indexes g)) (\<lambda>indexes.
       Inr \<lparr>gw_sub = ug_sub g, gw_tenant_id = ug_tenant_id g, gw_roles = roles, gw_indexes = indexes,
            gw_created_at = ug_created_at g, gw_created_by = ug_created_by g, gw_revoked_at = ug_revoked_at g\<rparr>))"

definition find_live_user_grants :: "json \<Rightarrow> string \<Rightarrow> db \<Rightarrow> repo_error + user_grant_row list" where
  "find_live_user_grants js sub d = mapE (user_grant_row_of js) (live_user_grants sub d)"

definition list_user_grants :: "json \<Rightarrow> string option \<Rightarrow> string option \<Rightarrow> db \<Rightarrow> repo_error + user_grant_row list" where
  "list_user_grants js tenant sub d =
     mapE (user_grant_row_of js)
       (rev (sort_key ug_created_at
          (filter (\<lambda>g. (tenant = None \<or> tenant = Some (ug_tenant_id g)) \<and> (sub = None \<or> sub = Some (ug_sub g)))
             (user_grant_tbl d))))"

definition get_principal :: "json \<Rightarrow> string \<Rightarrow> db \<Rightarrow> repo_error + principal_row option" where
  "get_principal js i d =
     (case sql_find (\<lambda>p. p_principal_id p = i) (principal_tbl d) of
        None \<Rightarrow> Inr None
      | Some p \<Rightarrow> bindE (principal_row_of js p) (\<lambda>r. Inr (Some r)))"

section \<open>The key cache\<close>

definition generate :: "issuer_env \<Rightarrow> bytes \<Rightarrow> new_signing_key" where
  "generate E seed = \<lparr>nk_kid = ie_kid_of E (ie_public E seed), nk_public_key = ie_public E seed, nk_seed = seed\<rparr>"

record cached_key =
  ck_row :: signing_key_row
  ck_signing :: "bytes option"

definition key_published :: "timestamp \<Rightarrow> cached_key \<Rightarrow> bool" where
  "key_published now k \<longleftrightarrow> sg_removed_at (ck_row k) = None \<and> open_past now (sg_retire_at (ck_row k))"

record key_cache =
  kc_keys :: "cached_key list"
  kc_loaded_at :: "timestamp option"

definition no_keys :: key_cache where
  "no_keys = \<lparr>kc_keys = [], kc_loaded_at = None\<rparr>"

text \<open>A seed that opens but belongs to a different public key does not sign.\<close>

definition usable_seed :: "issuer_env \<Rightarrow> signing_key_row \<Rightarrow> bytes option \<Rightarrow> bytes option" where
  "usable_seed E row seed =
     (case seed of None \<Rightarrow> None | Some s \<Rightarrow> if ie_public E s = sg_public_key row then Some s else None)"

definition cache_build ::
  "issuer_env \<Rightarrow> (signing_key_row \<times> bytes option) list \<Rightarrow> timestamp \<Rightarrow> key_cache \<times> string list" where
  "cache_build E rows now =
     (\<lparr>kc_keys = map (\<lambda>(row, seed). \<lparr>ck_row = row, ck_signing = usable_seed E row seed\<rparr>) rows,
       kc_loaded_at = Some now\<rparr>,
      [sg_kid row. (row, seed) \<leftarrow> rows, usable_seed E row seed = None])"

definition signs_at :: "timestamp \<Rightarrow> cached_key \<Rightarrow> bool" where
  "signs_at now k \<longleftrightarrow> sg_activate_at (ck_row k) \<le> now \<and> key_published now k \<and> ck_signing k \<noteq> None"

definition cache_signing :: "timestamp \<Rightarrow> key_cache \<Rightarrow> (string \<times> bytes) option" where
  "cache_signing now c =
     (case find (signs_at now) (kc_keys c) of
        None \<Rightarrow> None
      | Some k \<Rightarrow> map_option (\<lambda>seed. (sg_kid (ck_row k), seed)) (ck_signing k))"

definition cache_published :: "timestamp \<Rightarrow> key_cache \<Rightarrow> signing_key_row list" where
  "cache_published now c = map ck_row (filter (key_published now) (kc_keys c))"

section \<open>The issuer\<close>

definition reload_interval_secs :: nat where
  "reload_interval_secs = 60"

definition touch_interval_secs :: nat where
  "touch_interval_secs = 60"

definition retire_margin_secs :: nat where
  "retire_margin_secs = 300"

record key_policy =
  kp_publish_lead_secs :: nat
  kp_max_ttl_secs :: nat

definition default_key_policy :: key_policy where
  "default_key_policy = \<lparr>kp_publish_lead_secs = 86400, kp_max_ttl_secs = 86400\<rparr>"

datatype issuer_error =
    Store_Unread
  | Store_Row repo_error
  | Store_Write write_failure
  | No_Signing_Key
  | Claims_Error

record issuer =
  is_audit :: "audit_sink option"
  is_policy :: key_policy
  is_cache :: key_cache
  is_touched :: "(string, timestamp) dmap"

text \<open>\<open>Reader::with\<close>: the query on the committed store, unless the read itself fails.\<close>

definition with_reader :: "bool \<Rightarrow> (db \<Rightarrow> repo_error + 'a) \<Rightarrow> writer \<Rightarrow> issuer_error + 'a" where
  "with_reader rf query w =
     (if rf then Inl Store_Unread
      else case query (w_db w) of Inl e \<Rightarrow> Inl (Store_Row e) | Inr x \<Rightarrow> Inr x)"

definition reload :: "issuer_env \<Rightarrow> bool \<Rightarrow> timestamp \<Rightarrow> writer \<Rightarrow> issuer \<Rightarrow> (issuer_error + unit) \<times> issuer" where
  "reload E rf now w s =
     (case with_reader rf (load_signing_keys (ie_crypto E)) w of
        Inl e \<Rightarrow> (Inl e, s)
      | Inr rows \<Rightarrow> (Inr (), s\<lparr>is_cache := fst (cache_build E rows now)\<rparr>))"

definition with_keys ::
  "issuer_env \<Rightarrow> bool \<Rightarrow> timestamp \<Rightarrow> writer \<Rightarrow> (key_cache \<Rightarrow> timestamp \<Rightarrow> 'a) \<Rightarrow> issuer \<Rightarrow> 'a \<times> issuer" where
  "with_keys E rf now w f s =
     (let stale = (case kc_loaded_at (is_cache s) of None \<Rightarrow> True | Some t \<Rightarrow> reload_interval_secs \<le> since now t);
          s' = (if stale then snd (reload E rf now w s) else s)
      in (f (is_cache s') now, s'))"

section \<open>Signing and publishing\<close>

text \<open>\<open>jwt::encode\<close>; \<open>claims\<close> is what \<open>serde_json\<close> makes of the caller's struct, \<open>None\<close> an error.\<close>

definition jwt_header :: "issuer_env \<Rightarrow> string \<Rightarrow> string" where
  "jwt_header E kid =
     ''{'' @ ie_quote E ''alg'' @ '':'' @ ie_quote E ''EdDSA'' @ '','' @ ie_quote E ''typ'' @ '':'' @
     ie_quote E ''JWT'' @ '','' @ ie_quote E ''kid'' @ '':'' @ ie_quote E kid @ ''}''"

definition jwt_encode :: "issuer_env \<Rightarrow> string \<Rightarrow> bytes \<Rightarrow> string option \<Rightarrow> issuer_error + string" where
  "jwt_encode E kid seed claims =
     (case claims of
        None \<Rightarrow> Inl Claims_Error
      | Some payload \<Rightarrow>
          (let signed = ie_b64 E (bytes_of (jwt_header E kid)) @ ''.'' @ ie_b64 E (bytes_of payload)
           in Inr (signed @ ''.'' @ ie_b64 E (ie_sign E seed signed))))"

definition sign_with_kid ::
  "issuer_env \<Rightarrow> bool \<Rightarrow> timestamp \<Rightarrow> writer \<Rightarrow> string option \<Rightarrow> issuer \<Rightarrow> (issuer_error + string \<times> string) \<times> issuer" where
  "sign_with_kid E rf now w claims =
     with_keys E rf now w (\<lambda>keys now.
       case cache_signing now keys of
         None \<Rightarrow> Inl No_Signing_Key
       | Some (kid, seed) \<Rightarrow> bindE (jwt_encode E kid seed claims) (\<lambda>token. Inr (kid, token)))"

definition sign :: "issuer_env \<Rightarrow> bool \<Rightarrow> timestamp \<Rightarrow> writer \<Rightarrow> string option \<Rightarrow> issuer \<Rightarrow> (issuer_error + string) \<times> issuer" where
  "sign E rf now w claims s =
     (let (r, s') = sign_with_kid E rf now w claims s in (bindE r (\<lambda>(_, token). Inr token), s'))"

definition signing_kid :: "issuer_env \<Rightarrow> bool \<Rightarrow> timestamp \<Rightarrow> writer \<Rightarrow> issuer \<Rightarrow> string option \<times> issuer" where
  "signing_kid E rf now w = with_keys E rf now w (\<lambda>keys now. map_option fst (cache_signing now keys))"

text \<open>\<open>Issuer::jwks\<close>: the \<open>kid\<close> and \<open>x\<close> members; the others are the same in every key.\<close>

definition jwks :: "issuer_env \<Rightarrow> bool \<Rightarrow> timestamp \<Rightarrow> writer \<Rightarrow> issuer \<Rightarrow> (string \<times> string) list \<times> issuer" where
  "jwks E rf now w =
     with_keys E rf now w (\<lambda>keys now. map (\<lambda>row. (sg_kid row, ie_b64 E (sg_public_key row))) (cache_published now keys))"

section \<open>Lookups\<close>

definition authenticate ::
  "issuer_env \<Rightarrow> bool \<Rightarrow> timestamp \<Rightarrow> writer \<Rightarrow> string \<Rightarrow> issuer_error + principal_row option" where
  "authenticate E rf now w secret =
     with_reader rf (find_live_principal_by_secret (ie_json E) (ie_hash E secret) now) w"

record user_grants =
  us_live :: "user_grant_row list"
  us_any_row :: bool

definition user_grants_of :: "issuer_env \<Rightarrow> bool \<Rightarrow> writer \<Rightarrow> string \<Rightarrow> issuer_error + user_grants" where
  "user_grants_of E rf w sub =
     with_reader rf (\<lambda>d.
       bindE (find_live_user_grants (ie_json E) sub d) (\<lambda>live.
         if live \<noteq> [] then Inr \<lparr>us_live = live, us_any_row = True\<rparr>
         else bindE (list_user_grants (ie_json E) None (Some sub) d) (\<lambda>rows.
           Inr \<lparr>us_live = live, us_any_row = rows \<noteq> []\<rparr>))) w"

definition issuer_tenant_is_disabled :: "bool \<Rightarrow> writer \<Rightarrow> string \<Rightarrow> issuer_error + bool" where
  "issuer_tenant_is_disabled rf w tenant = with_reader rf (\<lambda>d. Inr (tenant_is_disabled tenant d)) w"

definition principal_exists :: "issuer_env \<Rightarrow> bool \<Rightarrow> writer \<Rightarrow> string \<Rightarrow> issuer_error + bool" where
  "principal_exists E rf w i =
     with_reader rf (\<lambda>d. bindE (get_principal (ie_json E) i d) (\<lambda>row. Inr (row \<noteq> None))) w"

definition record_principal_use :: "string \<Rightarrow> timestamp \<Rightarrow> ack \<Rightarrow> issuer \<times> writer \<Rightarrow> issuer \<times> writer" where
  "record_principal_use i now k sw =
     (let (s, w) = sw
      in case dget (is_touched s) i of
           Some t \<Rightarrow>
             if since now t < touch_interval_secs then (s, w)
             else (s\<lparr>is_touched := dinsert i now (is_touched s)\<rparr>, snd (enqueue_principal_touch i now k w))
         | None \<Rightarrow> (s\<lparr>is_touched := dinsert i now (is_touched s)\<rparr>, snd (enqueue_principal_touch i now k w)))"

section \<open>The key lifecycle\<close>

definition issuer_write ::
  "issuer_env \<Rightarrow> admin_write \<Rightarrow> audit_row \<Rightarrow> ack \<Rightarrow> writer_event list \<Rightarrow> issuer \<Rightarrow> writer \<Rightarrow>
   (issuer_error + bool) option \<times> writer" where
  "issuer_write E write event k es s w =
     (let (r, w') = write_admin_audited (ie_crypto E) (ie_json E) write
                      (map_option (transactional (ie_pseudonym E) event) (is_audit s)) k es w
      in (map_option (\<lambda>r. case r of Inl e \<Rightarrow> Inl (Store_Write e) | Inr b \<Rightarrow> Inr b) r, w'))"

definition rotation_plan :: "key_policy \<Rightarrow> nat option \<Rightarrow> string \<Rightarrow> timestamp \<Rightarrow> rotation" where
  "rotation_plan pol activate_in_secs kid now =
     (let lead = (case activate_in_secs of Some n \<Rightarrow> n | None \<Rightarrow> kp_publish_lead_secs pol);
          immediate = (lead = 0);
          activate_at = plus_secs now lead;
          retire_at = (if immediate then now
                       else plus_secs activate_at (sat_u64 (kp_max_ttl_secs pol + retire_margin_secs)))
      in \<lparr>ro_kid = kid, ro_activate_at = activate_at, ro_previous_retire_at = retire_at, ro_immediate = immediate\<rparr>)"

definition rotate ::
  "issuer_env \<Rightarrow> nat option \<Rightarrow> string \<Rightarrow> bytes \<Rightarrow> timestamp \<Rightarrow> ack \<Rightarrow> writer_event list \<Rightarrow> bool \<Rightarrow> timestamp \<Rightarrow>
   issuer \<Rightarrow> writer \<Rightarrow> (issuer_error + rotation) option \<times> issuer \<times> writer" where
  "rotate E activate_in_secs actor_id seed now k es rf now' s w =
     (let key = generate E seed;
          plan = rotation_plan (is_policy s) activate_in_secs (nk_kid key) now;
          event = (event_new ''signing_key.rotated'' Outcome_Success Actor_Admin now)
            \<lparr>au_actor_id := Some actor_id, au_key_id := Some (nk_kid key), au_detail := Some (ie_rotated_detail E plan)\<rparr>;
          (r, w') = issuer_write E (RotateSigningKey key now (ro_activate_at plan) (ro_previous_retire_at plan)) event k es s w
      in case r of
           None \<Rightarrow> (None, s, w')
         | Some (Inl e) \<Rightarrow> (Some (Inl e), s, w')
         | Some (Inr _) \<Rightarrow>
             (let (loaded, s') = reload E rf now' w' s in (Some (bindE loaded (\<lambda>_. Inr plan)), s', w')))"

text \<open>\<open>prune_retired\<close>: one write per due key, each with its own ack and its own interleaving.\<close>

fun prune_each ::
  "issuer_env \<Rightarrow> timestamp \<Rightarrow> (string \<Rightarrow> ack \<times> writer_event list) \<Rightarrow> issuer \<Rightarrow> string list \<Rightarrow> nat \<Rightarrow> writer \<Rightarrow>
   nat option \<times> writer" where
  "prune_each E now turns s [] removed w = (Some removed, w)"
| "prune_each E now turns s (kid # due) removed w =
     (let event = (event_new ''signing_key.removed'' Outcome_Success Actor_System now)\<lparr>au_key_id := Some kid\<rparr>;
          (r, w') = issuer_write E (RemoveRetiredSigningKey kid now) event (fst (turns kid)) (snd (turns kid)) s w
      in case r of
           None \<Rightarrow> (None, w')
         | Some (Inr True) \<Rightarrow> prune_each E now turns s due (removed + 1) w'
         | Some _ \<Rightarrow> prune_each E now turns s due removed w')"

definition prune_retired ::
  "issuer_env \<Rightarrow> bool \<Rightarrow> timestamp \<Rightarrow> (string \<Rightarrow> ack \<times> writer_event list) \<Rightarrow> bool \<Rightarrow> timestamp \<Rightarrow>
   issuer \<Rightarrow> writer \<Rightarrow> nat option \<times> issuer \<times> writer" where
  "prune_retired E rf now turns rf' now' s w =
     (case with_reader rf (\<lambda>d. Inr (retired_signing_keys_due now d)) w of
        Inl _ \<Rightarrow> (Some 0, s, w)
      | Inr due \<Rightarrow>
          (let (removed, w') = prune_each E now turns s due 0 w
           in case removed of
                None \<Rightarrow> (None, s, w')
              | Some n \<Rightarrow> (Some n, if 0 < n then snd (reload E rf' now' w' s) else s, w')))"

definition issuer_open ::
  "issuer_env \<Rightarrow> bool \<Rightarrow> timestamp \<Rightarrow> audit_sink option \<Rightarrow> key_policy \<Rightarrow> writer \<Rightarrow> issuer_error + issuer" where
  "issuer_open E rf now audit pol w =
     (let (r, s) = reload E rf now w
            \<lparr>is_audit = audit, is_policy = pol, is_cache = no_keys, is_touched = []\<rparr>
      in bindE r (\<lambda>_. Inr s))"

definition bootstrap ::
  "issuer_env \<Rightarrow> bool \<Rightarrow> bool \<Rightarrow> bool \<Rightarrow> timestamp \<Rightarrow> audit_sink option \<Rightarrow> key_policy \<Rightarrow> bytes \<Rightarrow> ack \<Rightarrow> writer_event list \<Rightarrow>
   writer \<Rightarrow> (issuer_error + issuer) option \<times> writer" where
  "bootstrap E rf rf' rf'' now audit pol seed k es w =
     (case issuer_open E rf now audit pol w of
        Inl e \<Rightarrow> (Some (Inl e), w)
      | Inr s \<Rightarrow>
          (case with_reader rf' list_signing_keys w of
             Inl e \<Rightarrow> (Some (Inl e), w)
           | Inr existing \<Rightarrow>
               if existing \<noteq> [] then (Some (Inr s), w)
               else
                 (let key = generate E seed;
                      event = (event_new ''signing_key.created'' Outcome_Success Actor_System now)
                        \<lparr>au_key_id := Some (nk_kid key), au_detail := Some (ie_created_detail E now)\<rparr>;
                      (r, w') = issuer_write E (InsertSigningKey key now) event k es s w
                  in case r of
                       None \<Rightarrow> (None, w')
                     | Some (Inl e) \<Rightarrow> (Some (Inl e), w')
                     | Some (Inr _) \<Rightarrow>
                         (let (loaded, s') = reload E rf'' now w' s
                          in (Some (bindE loaded (\<lambda>_. Inr s')), w')))))"

end
