(* ===== verification/Key_Order.thy ===== *)
theory Key_Order
  imports Issuer
begin

text \<open>
  Which key signs. The keys are kept newest first and the first usable one signs; ties on both
  clocks go to the later row. The lemmas restate that choice on the table itself, and say when a
  superseded key still has a published successor.
\<close>

section \<open>The last of the greatest\<close>

fun newest :: "('a \<Rightarrow> bool) \<Rightarrow> ('a \<Rightarrow> 'k::linorder) \<Rightarrow> 'a list \<Rightarrow> 'a option" where
  "newest P f [] = None"
| "newest P f (x # xs) =
     (case newest P f xs of
        None \<Rightarrow> if P x then Some x else None
      | Some m \<Rightarrow> if P x \<and> f m < f x then Some x else Some m)"

lemma newest_None: "newest P f xs = None \<longleftrightarrow> (\<forall>x \<in> set xs. \<not> P x)"
  by (induction xs) (auto split: option.split)

lemma find_append: "find P (xs @ ys) = (case find P xs of None \<Rightarrow> find P ys | Some x \<Rightarrow> Some x)"
  by (induction xs) auto

lemma find_in: "find P xs = Some x \<Longrightarrow> x \<in> set xs"
  by (auto simp: find_Some_iff)

lemma find_rev_insort:
  assumes "sorted (map f xs)"
  shows "find P (rev (insort_key f x xs)) =
     (case find P (rev xs) of
        None \<Rightarrow> if P x then Some x else None
      | Some m \<Rightarrow> if P x \<and> f m < f x then Some x else Some m)"
  using assms
proof (induction xs)
  case (Cons y ys)
  then have le: "\<forall>z \<in> set ys. f y \<le> f z" by simp
  show ?case
  proof (cases "f x \<le> f y")
    case True
    then have "\<forall>z \<in> set (y # ys). \<not> f z < f x" using le by force
    then have "\<not> f m < f x" if "find P (rev (y # ys)) = Some m" for m
      using find_in [OF that] by auto
    with True show ?thesis by (auto simp: find_append split: option.splits)
  next
    case False
    with Cons show ?thesis by (auto simp: find_append split: option.split)
  qed
qed simp

lemma find_rev_sort: "find P (rev (sort_key f xs)) = newest P f xs"
  by (induction xs) (simp_all add: find_rev_insort)

lemma newest_greatest: "newest P f xs = Some m \<Longrightarrow> y \<in> set xs \<Longrightarrow> P y \<Longrightarrow> f y \<le> f m"
proof (induction xs arbitrary: m)
  case (Cons x xs)
  show ?case
  proof (cases "newest P f xs")
    case None
    with Cons.prems show ?thesis by (auto simp: newest_None split: if_splits)
  next
    case (Some n)
    with Cons.IH [OF Some] Cons.prems show ?thesis by (auto split: if_splits)
  qed
qed simp

lemma newest_filter: "(\<And>x. P x \<Longrightarrow> Q x) \<Longrightarrow> newest P f (filter Q xs) = newest P f xs"
  by (induction xs) (auto split: option.split)

lemma find_map: "find P (map f xs) = map_option f (find (P \<circ> f) xs)"
  by (induction xs) auto

lemma newest_split:
  assumes "newest P f xs = Some m"
  shows "\<exists>as bs. xs = as @ m # bs \<and> P m \<and> (\<forall>y \<in> set bs. P y \<longrightarrow> f y < f m)"
  using assms
proof (induction xs)
  case (Cons x xs)
  show ?case
  proof (cases "newest P f xs")
    case None
    with Cons.prems have "m = x" "P x" by (auto split: if_splits)
    moreover from None have "\<forall>y \<in> set xs. \<not> P y" by (simp add: newest_None)
    ultimately show ?thesis by (intro exI [of _ "[]"] exI [of _ xs]) auto
  next
    case (Some n)
    note n = Some
    show ?thesis
    proof (cases "P x \<and> f n < f x")
      case True
      then have "m = x" using Cons.prems n by simp
      moreover have "\<forall>y \<in> set xs. P y \<longrightarrow> f y \<le> f n"
        using newest_greatest [OF n] by blast
      ultimately show ?thesis using True by (intro exI [of _ "[]"] exI [of _ xs]) force
    next
      case False
      then have "newest P f xs = Some m" using Cons.prems n by auto
      from Cons.IH [OF this] obtain as bs where "xs = as @ m # bs" "P m" "\<forall>y \<in> set bs. P y \<longrightarrow> f y < f m"
        by blast
      then show ?thesis by (intro exI [of _ "x # as"] exI [of _ bs]) simp
    qed
  qed
qed simp

section \<open>Keys and their successors\<close>

text \<open>
  \<open>effective\<close>: the key has an instant at which it may sign. \<open>covered M\<close>: an effective key with an end
  date has a later row that is effective, ranks no lower, and takes over at least \<open>M\<close> seconds before
  that date.
\<close>

definition effective :: "db_signing_key \<Rightarrow> bool" where
  "effective k \<longleftrightarrow> open_past (sk_activate_at k) (sk_retire_at k)"

definition rank :: "db_signing_key \<Rightarrow> int \<times> int" where
  "rank k = (sk_activate_at k, sk_created_at k)"

definition takes_over :: "int \<Rightarrow> timestamp \<Rightarrow> db_signing_key \<Rightarrow> db_signing_key \<Rightarrow> bool" where
  "takes_over M r k k' \<longleftrightarrow>
     effective k' \<and> sk_activate_at k \<le> sk_activate_at k' \<and> sk_created_at k \<le> sk_created_at k' \<and> sk_activate_at k' + M \<le> r"

fun covered :: "int \<Rightarrow> db_signing_key list \<Rightarrow> bool" where
  "covered M [] \<longleftrightarrow> True"
| "covered M (k # ks) \<longleftrightarrow>
     covered M ks \<and>
     (effective k \<longrightarrow> (case sk_retire_at k of None \<Rightarrow> True | Some r \<Rightarrow> \<exists>k' \<in> set ks. takes_over M r k k'))"

definition row_published :: "timestamp \<Rightarrow> db_signing_key \<Rightarrow> bool" where
  "row_published now k \<longleftrightarrow> sk_removed_at k = None \<and> open_past now (sk_retire_at k)"

definition removed_late :: "timestamp \<Rightarrow> db_signing_key \<Rightarrow> bool" where
  "removed_late now k \<longleftrightarrow> (sk_removed_at k \<noteq> None \<longrightarrow> (\<exists>r. sk_retire_at k = Some r \<and> r \<le> now))"

definition row_signs :: "timestamp \<Rightarrow> db_signing_key \<Rightarrow> bool" where
  "row_signs now k \<longleftrightarrow> sk_activate_at k \<le> now \<and> row_published now k"

lemma rank_le: "sk_activate_at k \<le> sk_activate_at k' \<Longrightarrow> sk_created_at k \<le> sk_created_at k' \<Longrightarrow> rank k \<le> rank k'"
  by (auto simp: rank_def less_eq_prod_def)

lemma covered_append: "covered M (as @ bs) \<Longrightarrow> covered M bs"
  by (induction as) auto

text \<open>An effective key that has activated ranks no higher than one that signs.\<close>

lemma some_row_signs:
  assumes "covered M ks" and "0 \<le> M" and "\<forall>k \<in> set ks. removed_late t k"
    and "k \<in> set ks" and "effective k" and "sk_activate_at k \<le> t"
  shows "\<exists>k' \<in> set ks. row_signs t k' \<and> rank k \<le> rank k'"
  using assms
proof (induction ks arbitrary: k)
  case (Cons x ks)
  have later: "\<exists>k' \<in> set ks. row_signs t k' \<and> rank y \<le> rank k'"
    if "y \<in> set ks" "effective y" "sk_activate_at y \<le> t" for y
    using Cons.IH [OF _ _ _ that] Cons.prems(1-3) by simp
  show ?case
  proof (cases "k \<in> set ks")
    case True
    from later [OF this Cons.prems(5,6)] show ?thesis by auto
  next
    case False
    with Cons.prems(4) have k: "k = x" by simp
    show ?thesis
    proof (cases "row_published t k")
      case True
      with Cons.prems(6) k show ?thesis by (auto simp: row_signs_def)
    next
      case False
      then obtain r where r: "sk_retire_at k = Some r" "r \<le> t"
        using Cons.prems(3,4) by (auto simp: row_published_def removed_late_def open_past_def split: option.splits)
      then obtain k' where k': "k' \<in> set ks" "takes_over M r k k'"
        using Cons.prems(1,5) by (auto simp: k)
      with r Cons.prems(2) have "effective k'" "sk_activate_at k' \<le> t" "rank k \<le> rank k'"
        by (auto simp: takes_over_def intro: rank_le)
      with later [OF k'(1)] show ?thesis by force
    qed
  qed
qed simp

text \<open>So a key chosen to sign at \<open>t\<close> has no end date before \<open>t + M\<close>.\<close>

lemma chosen_outlives:
  assumes "covered M ks" and "0 \<le> M" and "\<forall>k \<in> set ks. removed_late t k"
    and "newest (row_signs t) rank ks = Some k" and "sk_retire_at k = Some r"
  shows "t + M \<le> r"
proof (rule ccontr)
  assume late: "\<not> t + M \<le> r"
  obtain as bs where ks: "ks = as @ k # bs" and k: "row_signs t k" and top: "\<forall>y \<in> set bs. row_signs t y \<longrightarrow> rank y < rank k"
    using newest_split [OF assms(4)] by blast
  have c: "covered M (k # bs)" using covered_append [of M as] assms(1) ks by blast
  moreover have "effective k" using k by (auto simp: row_signs_def row_published_def effective_def open_past_def split: option.splits)
  ultimately obtain k' where k': "k' \<in> set bs" "takes_over M r k k'" using assms(5) by auto
  then have "sk_activate_at k' \<le> t" "effective k'" "rank k \<le> rank k'"
    using late by (auto simp: takes_over_def intro: rank_le)
  moreover have "covered M bs" "\<forall>k \<in> set bs. removed_late t k" using c assms(3) ks by auto
  ultimately obtain k'' where "k'' \<in> set bs" "row_signs t k''" "rank k' \<le> rank k''"
    using some_row_signs [of M bs t k'] k'(1) assms(2) by blast
  with top \<open>rank k \<le> rank k'\<close> show False by force
qed

end
