(* ===== verification/Issuer_Safety.thy ===== *)
theory Issuer_Safety
  imports Key_Order Custody
begin

text \<open>
  What the issuer promises verifiers: a token it signs can be checked against the published keys
  for the whole of its life, whatever planned rotations and prunes happen meanwhile.
\<close>

section \<open>What rotation does to the keys\<close>

definition rotated_key :: "timestamp \<Rightarrow> timestamp \<Rightarrow> timestamp \<Rightarrow> db_signing_key \<Rightarrow> db_signing_key" where
  "rotated_key now a r k =
     (let k1 = (if sk_removed_at k = None \<and> open_past r (sk_retire_at k) then k\<lparr>sk_retire_at := Some r\<rparr> else k)
      in if sk_removed_at k1 = None \<and> a < sk_activate_at k1 \<and> open_past now (sk_retire_at k1)
         then k1\<lparr>sk_retire_at := Some now\<rparr> else k1)"

lemma rotated_key_sel [simp]:
  "sk_kid (rotated_key now a r k) = sk_kid k" "sk_public_key (rotated_key now a r k) = sk_public_key k"
  "sk_seed_sealed (rotated_key now a r k) = sk_seed_sealed k" "sk_created_at (rotated_key now a r k) = sk_created_at k"
  "sk_activate_at (rotated_key now a r k) = sk_activate_at k" "sk_removed_at (rotated_key now a r k) = sk_removed_at k"
  by (simp_all add: rotated_key_def Let_def)

definition new_row :: "crypto \<Rightarrow> new_signing_key \<Rightarrow> timestamp \<Rightarrow> timestamp \<Rightarrow> db_signing_key" where
  "new_row cr key now a =
     \<lparr>sk_kid = nk_kid key, sk_public_key = nk_public_key key,
      sk_seed_sealed = cseal cr (nk_seed key) (signing_seed_context (nk_kid key)),
      sk_created_at = now, sk_activate_at = a, sk_retire_at = None, sk_removed_at = None\<rparr>"

lemma new_row_sel [simp]:
  "sk_kid (new_row cr key now a) = nk_kid key" "sk_public_key (new_row cr key now a) = nk_public_key key"
  "sk_created_at (new_row cr key now a) = now" "sk_activate_at (new_row cr key now a) = a"
  "sk_retire_at (new_row cr key now a) = None" "sk_removed_at (new_row cr key now a) = None"
  "sk_seed_sealed (new_row cr key now a) = cseal cr (nk_seed key) (signing_seed_context (nk_kid key))"
  by (simp_all add: new_row_def)

lemma rotate_signing_key_tbl:
  assumes "rotate_signing_key cr key now a r d = Inr d'"
  shows "signing_key_tbl d' = map (rotated_key now a r) (signing_key_tbl d) @ [new_row cr key now a]"
  using assms
  by (auto simp: rotate_signing_key_def insert_signing_key_def Let_def sql_update_def new_row_def rotated_key_def
      cong: if_cong split: if_splits)

text \<open>
  A planned rotation gives the keys it dates their successor: the new row. A key it withdraws has
  not activated, and any key that counted on the withdrawn one is dated by the new row instead.
\<close>

lemma rotation_covers:
  assumes "covered M ks" and M: "0 < M" and a: "now < a" and r: "r = a + M"
    and "\<forall>k \<in> set ks. sk_created_at k \<le> now \<and> removed_late now k" and n: "sk_activate_at n = a" "sk_created_at n = now" "sk_retire_at n = None"
  shows "covered M (map (rotated_key now a r) ks @ [n])"
  using assms(1,5)
proof (induction ks)
  case (Cons k ks)
  let ?g = "rotated_key now a r"
  have IH: "covered M (map ?g ks @ [n])" using Cons by simp
  have "\<exists>k' \<in> set (map ?g ks @ [n]). takes_over M e (?g k) k'"
    if eff: "effective (?g k)" and e: "sk_retire_at (?g k) = Some e" for e
  proof (cases "sk_activate_at k \<le> a \<and> a + M \<le> e")
    case True
    then have "takes_over M e (?g k) n"
      using n Cons.prems(2) by (auto simp: takes_over_def effective_def open_past_def)
    then show ?thesis by simp
  next
    case False
    have le: "sk_activate_at k \<le> a"
    proof (rule ccontr)
      assume "\<not> sk_activate_at k \<le> a"
      with eff e a M r Cons.prems(2) show False
        by (auto simp: rotated_key_def Let_def effective_def open_past_def removed_late_def split: if_splits option.splits)
    qed
    with False have lt: "e < a + M" by simp
    then have same: "sk_retire_at k = Some e" "effective k"
      using eff e le r by (auto simp: rotated_key_def Let_def effective_def open_past_def split: if_splits option.splits)
    with Cons.prems(1) obtain k' where k': "k' \<in> set ks" "takes_over M e k k'" by auto
    then have "sk_activate_at k' < a" using lt by (auto simp: takes_over_def)
    moreover have "effective k'" using k'(2) by (simp add: takes_over_def)
    ultimately have "effective (?g k')"
      using M r by (auto simp: rotated_key_def Let_def effective_def open_past_def split: option.splits)
    with k'(2) have "takes_over M e (?g k) (?g k')" by (simp add: takes_over_def)
    with k'(1) show ?thesis by auto
  qed
  with IH show ?case by (auto split: option.split)
qed (simp add: n)

lemma covered_map:
  assumes "\<And>k. sk_retire_at (g k) = sk_retire_at k" and "\<And>k. sk_activate_at (g k) = sk_activate_at k"
    and "\<And>k. sk_created_at (g k) = sk_created_at k"
  shows "covered M (map g ks) = covered M ks"
  by (induction ks) (auto simp: assms effective_def takes_over_def split: option.splits)

lemma removal_covers: "covered M (sql_update p (\<lambda>k. k\<lparr>sk_removed_at := Some now\<rparr>) ks) = covered M ks"
  by (simp add: sql_update_def covered_map)

section \<open>Writes through the writer\<close>

fun leaves_keys :: "command \<Rightarrow> bool" where
  "leaves_keys (Admin (InsertSigningKey _ _) _ _) \<longleftrightarrow> False"
| "leaves_keys (Admin (RotateSigningKey _ _ _ _) _ _) \<longleftrightarrow> False"
| "leaves_keys (Admin (RemoveRetiredSigningKey _ _) _ _) \<longleftrightarrow> False"
| "leaves_keys Reseal \<longleftrightarrow> False"
| "leaves_keys _ \<longleftrightarrow> True"

lemma admin_signing_key_tbl:
  assumes "apply_admin cr js aw d = Inr (d', b)" and "leaves_keys (Admin aw au k)"
  shows "signing_key_tbl d' = signing_key_tbl d"
proof -
  have et: "signing_key_tbl d1 = signing_key_tbl d" if "ensure_tenant t now d = (d1, e)" for t now d1 e
    using that by (auto simp: ensure_tenant_def insert_tenant_def Let_def split: if_splits)
  show ?thesis
    using assms
    by (cases aw) (auto simp: bindE_Inr_iff repo_defs Let_def dest: et split: if_splits option.splits prod.splits)
qed

lemma keys_frame:
  assumes "leaves_keys c" and "apply_command cr js c (d, b) = Inr (d', b')"
  shows "signing_key_tbl d' = signing_key_tbl d"
proof (cases c)
  case (Admin aw au k)
  with assms(2) obtain d1 out where 1: "apply_admin cr js aw d = Inr (d1, out)"
    and "d' = (case au of None \<Rightarrow> d1 | Some row \<Rightarrow> insert_audit (tier_a_row aw out row) d1)"
    by (auto simp: bindE_Inr_iff)
  with admin_signing_key_tbl [OF 1, of au k] assms(1) Admin show ?thesis
    by (auto simp: insert_audit_def split: option.splits)
next
  case (Custody aw k)
  with assms show ?thesis by (cases aw) (auto simp: bindE_Inr_iff repo_defs split: if_splits)
next
  case (Reap x y)
  with assms show ?thesis by (auto simp: bindE_Inr_iff reaped_def Let_def dest!: reap_Inr)
qed (use assms in \<open>auto simp: bindE_Inr_iff repo_defs Let_def split: if_splits\<close>)

interpretation keys: write_through cr js signing_key_tbl leaves_keys "Admin aw au k" k
  for cr js aw au k
  by unfold_locales (auto dest: keys_frame)

text \<open>Nobody else uses the ack, and nothing queued or sent meanwhile touches the signing keys.\<close>

definition quiet :: "ack \<Rightarrow> writer_event list \<Rightarrow> writer \<Rightarrow> bool" where
  "quiet k es w \<longleftrightarrow>
     db_ok (w_db w) \<and> k \<notin> fst ` set (w_acked w) \<and> k \<notin> batch_acks (w_queue w) \<and>
     list_all leaves_keys (w_queue w) \<and> list_all (bystander k leaves_keys) es"

lemma issuer_write_fate:
  assumes "quiet k es w" and "issuer_write E aw ev k es s w = (r, w')"
  obtains (ok) applied d0 d1 where "r = Some (Inr applied)" "db_ok (w_db w')"
      "signing_key_tbl d0 = signing_key_tbl (w_db w)" "apply_admin (ie_crypto E) (ie_json E) aw d0 = Inr (d1, applied)"
      "signing_key_tbl (w_db w') = signing_key_tbl d1"
  | (no) "\<And>applied. r \<noteq> Some (Inr applied)" "db_ok (w_db w')" "signing_key_tbl (w_db w') = signing_key_tbl (w_db w)"
proof -
  let ?cr = "ie_crypto E" and ?js = "ie_json E"
  define au where "au = map_option (transactional (ie_pseudonym E) ev) (is_audit s)"
  obtain r0 where b: "blocking ?cr ?js (Admin aw au k) k es w = (r0, w')"
    and r: "r = map_option (\<lambda>r. case admin_reply r of Inl e \<Rightarrow> Inl (Store_Write e) | Inr b \<Rightarrow> Inr b) r0"
    using assms(2)
    by (auto simp: issuer_write_def write_admin_audited_def au_def Let_def option.map_comp comp_def split: prod.splits)
  from keys.blocking_fate [OF _ _ _ _ _ b] assms(1)
  consider (1) msg d0 b d1 b' where "r0 = Some (Inr msg)" "good_reply ?cr ?js (Admin aw au k) d0 msg"
      "signing_key_tbl d0 = signing_key_tbl (w_db w)"
      "apply_command ?cr ?js (Admin aw au k) (d0, b) = Inr (d1, b')" "signing_key_tbl (w_db w') = signing_key_tbl d1"
      "db_ok (w_db w')"
    | (2) "\<forall>msg. r0 = Some (Inr msg) \<longrightarrow> \<not> acked_ok msg" "signing_key_tbl (w_db w') = signing_key_tbl (w_db w)"
      "db_ok (w_db w')"
    unfolding quiet_def by metis
  then show thesis
  proof cases
    case 1
    then obtain d2 applied where ap: "apply_admin ?cr ?js aw d0 = Inr (d2, applied)" "msg = Admin_Sent (Inr applied)"
      by (auto simp: good_reply_def)
    with 1(4) have "signing_key_tbl d1 = signing_key_tbl d2"
      by (auto simp: insert_audit_def split: option.splits)
    with 1 ap show thesis by (intro ok [of applied d0 d2]) (simp_all add: r)
  next
    case 2
    have "r \<noteq> Some (Inr applied)" for applied
    proof
      assume "r = Some (Inr applied)"
      then obtain x where x: "r0 = Some x" "admin_reply x = Inr applied"
        by (cases r0) (auto simp: r split: sum.splits)
      then have "x = Inr (Admin_Sent (Inr applied))" by (cases x rule: admin_reply.cases) auto
      with 2(1) x(1) show False by (simp add: acked_ok_def)
    qed
    with 2 show thesis by (intro no)
  qed
qed

section \<open>The cache follows the store\<close>

text \<open>Every stored seed opens and belongs to its public key, as for every key the issuer made itself.\<close>

definition good_key :: "issuer_env \<Rightarrow> db_signing_key \<Rightarrow> bool" where
  "good_key E k \<longleftrightarrow>
     length (sk_public_key k) = 32 \<and>
     (\<exists>seed. opened_seed (ie_crypto E) k = Some seed \<and> ie_public E seed = sk_public_key k)"

definition key_row :: "db_signing_key \<Rightarrow> signing_key_row" where
  "key_row k = \<lparr>sg_kid = sk_kid k, sg_public_key = sk_public_key k, sg_created_at = sk_created_at k,
     sg_activate_at = sk_activate_at k, sg_retire_at = sk_retire_at k, sg_removed_at = sk_removed_at k\<rparr>"

definition cached :: "issuer_env \<Rightarrow> db_signing_key \<Rightarrow> cached_key" where
  "cached E k = \<lparr>ck_row = key_row k, ck_signing = opened_seed (ie_crypto E) k\<rparr>"

definition live_rows :: "db_signing_key list \<Rightarrow> db_signing_key list" where
  "live_rows ks = signing_key_order (filter (\<lambda>k. sk_removed_at k = None) ks)"

definition in_sync :: "issuer_env \<Rightarrow> issuer \<Rightarrow> writer \<Rightarrow> bool" where
  "in_sync E s w \<longleftrightarrow> kc_keys (is_cache s) = map (cached E) (live_rows (signing_key_tbl (w_db w)))"

lemma set_live_rows: "set (live_rows ks) = {k \<in> set ks. sk_removed_at k = None}"
  by (simp add: live_rows_def signing_key_order_def)

lemma reload_syncs:
  assumes "\<forall>k \<in> set (signing_key_tbl (w_db w)). good_key E k" and "reload E rf now w s = (r, s')"
    and "\<not> rf \<or> in_sync E s w"
  shows "in_sync E s' w \<and> is_policy s' = is_policy s \<and> is_audit s' = is_audit s \<and> (\<not> rf \<longrightarrow> r = Inr ())"
proof (cases rf)
  case False
  let ?ks = "live_rows (signing_key_tbl (w_db w))"
  have "load_signing_keys (ie_crypto E) (w_db w) = Inr (map (\<lambda>k. (key_row k, opened_seed (ie_crypto E) k)) ?ks)"
    unfolding load_signing_keys_def live_rows_def [symmetric] using assms(1)
    by (intro mapE_total) (auto simp: signing_key_row_of_def key_row_def good_key_def set_live_rows)
  with False assms(2) have r: "r = Inr ()"
    and s': "s' = s\<lparr>is_cache := fst (cache_build E (map (\<lambda>k. (key_row k, opened_seed (ie_crypto E) k)) ?ks) now)\<rparr>"
    by (auto simp: reload_def with_reader_def)
  have "usable_seed E (key_row k) (opened_seed (ie_crypto E) k) = opened_seed (ie_crypto E) k"
    if "k \<in> set ?ks" for k
    using that assms(1) by (auto simp: usable_seed_def good_key_def key_row_def set_live_rows)
  then show ?thesis by (simp add: s' r in_sync_def cache_build_def cached_def)
next
  case True
  with assms show ?thesis by (auto simp: reload_def with_reader_def)
qed

lemma with_keys_syncs:
  assumes "\<forall>k \<in> set (signing_key_tbl (w_db w)). good_key E k" and "in_sync E s w"
    and "with_keys E rf now w f s = (x, s')"
  shows "in_sync E s' w" and "is_policy s' = is_policy s" and "x = f (is_cache s') now"
proof -
  have s': "s' = s \<or> s' = snd (reload E rf now w s)" and x: "x = f (is_cache s') now"
    using assms(3) by (auto simp: with_keys_def Let_def)
  have "in_sync E (snd (reload E rf now w s)) w \<and> is_policy (snd (reload E rf now w s)) = is_policy s"
    using reload_syncs [OF assms(1) surjective_pairing] assms(2) by blast
  with s' assms(2) show "in_sync E s' w" "is_policy s' = is_policy s" by auto
  show "x = f (is_cache s') now" by (rule x)
qed

lemma jwks_syncs:
  assumes "\<forall>k \<in> set (signing_key_tbl (w_db w)). good_key E k" and "in_sync E s w"
  shows "in_sync E (snd (jwks E rf now w s)) w" and "is_policy (snd (jwks E rf now w s)) = is_policy s"
    and "fst (jwks E rf now w s) =
      map (\<lambda>k. (sk_kid k, ie_b64 E (sk_public_key k))) (filter (row_published now) (live_rows (signing_key_tbl (w_db w))))"
proof -
  note j = with_keys_syncs [OF assms surjective_pairing]
  show "in_sync E (snd (jwks E rf now w s)) w" "is_policy (snd (jwks E rf now w s)) = is_policy s"
    unfolding jwks_def by (rule j)+
  have "filter (key_published now \<circ> cached E) ks = filter (row_published now) ks" for ks
    by (intro filter_cong) (simp_all add: key_published_def cached_def key_row_def row_published_def)
  with \<open>in_sync E (snd (jwks E rf now w s)) w\<close>
  have "cache_published now (is_cache (snd (jwks E rf now w s))) =
      map key_row (filter (row_published now) (live_rows (signing_key_tbl (w_db w))))"
    by (simp add: cache_published_def in_sync_def filter_map cached_def)
  then show "fst (jwks E rf now w s) =
      map (\<lambda>k. (sk_kid k, ie_b64 E (sk_public_key k))) (filter (row_published now) (live_rows (signing_key_tbl (w_db w))))"
    unfolding jwks_def j(3) by (simp add: key_row_def)
qed

text \<open>The key that signs is the newest row that may.\<close>

lemma cache_signing_newest:
  assumes "\<forall>k \<in> set (signing_key_tbl (w_db w)). good_key E k" and "in_sync E s w"
    and "cache_signing now (is_cache s) = Some (kid, seed)"
  shows "\<exists>k. newest (row_signs now) rank (signing_key_tbl (w_db w)) = Some k \<and> sk_kid k = kid \<and>
     opened_seed (ie_crypto E) k = Some seed"
proof -
  let ?t = "signing_key_tbl (w_db w)"
  have eq: "(signs_at now \<circ> cached E) k \<longleftrightarrow> row_signs now k" if "k \<in> set (live_rows ?t)" for k
    using that assms(1)
    by (auto simp: signs_at_def cached_def key_row_def key_published_def row_signs_def row_published_def good_key_def set_live_rows)
  obtain c where c: "find (signs_at now) (map (cached E) (live_rows ?t)) = Some c"
    "kid = sg_kid (ck_row c)" "ck_signing c = Some seed"
    using assms(2,3) by (auto simp: cache_signing_def in_sync_def split: option.splits)
  then obtain k where k: "find (signs_at now \<circ> cached E) (live_rows ?t) = Some k" "c = cached E k"
    by (auto simp: find_map)
  have "find (signs_at now \<circ> cached E) (live_rows ?t) = find (row_signs now) (live_rows ?t)"
    using eq by (intro find_cong) auto
  also have "\<dots> = newest (row_signs now) rank (filter (\<lambda>k. sk_removed_at k = None) ?t)"
    unfolding live_rows_def signing_key_order_def by (simp only: find_rev_sort rank_def [abs_def, symmetric])
  also have "\<dots> = newest (row_signs now) rank ?t"
    by (rule newest_filter) (simp add: row_signs_def row_published_def)
  finally have "newest (row_signs now) rank ?t = Some k" using k(1) by simp
  with k(2) c(2,3) show ?thesis by (simp add: cached_def key_row_def)
qed

section \<open>The issuer as a state machine\<close>

text \<open>
  What a broker does with its issuer between the boot and a later instant: rotations, prunes, uses
  of the cache (signing, publishing), and anything else that changes the store but not the
  signing keys. Reads of the store succeed; leads are not zero.
\<close>

datatype issuer_op =
    Op_Rotate "nat option" string bytes timestamp ack "writer_event list" timestamp
  | Op_Prune timestamp "string \<Rightarrow> ack \<times> writer_event list" timestamp
  | Op_Keys timestamp
  | Op_Store timestamp writer

fun issuer_time :: "issuer_op \<Rightarrow> timestamp" where
  "issuer_time (Op_Rotate _ _ _ now _ _ _) = now"
| "issuer_time (Op_Prune now _ _) = now"
| "issuer_time (Op_Keys now) = now"
| "issuer_time (Op_Store now _) = now"

fun issuer_step :: "issuer_env \<Rightarrow> issuer_op \<Rightarrow> issuer \<times> writer \<Rightarrow> issuer \<times> writer" where
  "issuer_step E (Op_Rotate lead actor seed now k es now') (s, w) = snd (rotate E lead actor seed now k es False now' s w)"
| "issuer_step E (Op_Prune now turns now') (s, w) = snd (prune_retired E False now turns False now' s w)"
| "issuer_step E (Op_Keys now) (s, w) = (snd (jwks E False now w s), w)"
| "issuer_step E (Op_Store _ w') (s, w) = (s, w')"

fun prune_calm :: "issuer_env \<Rightarrow> timestamp \<Rightarrow> (string \<Rightarrow> ack \<times> writer_event list) \<Rightarrow> issuer \<Rightarrow> string list \<Rightarrow> writer \<Rightarrow> bool" where
  "prune_calm E now turns s [] w \<longleftrightarrow> True"
| "prune_calm E now turns s (kid # due) w \<longleftrightarrow>
     quiet (fst (turns kid)) (snd (turns kid)) w \<and>
     prune_calm E now turns s due
       (snd (issuer_write E (RemoveRetiredSigningKey kid now)
          ((event_new ''signing_key.removed'' Outcome_Success Actor_System now)\<lparr>au_key_id := Some kid\<rparr>)
          (fst (turns kid)) (snd (turns kid)) s w))"

definition lead_of :: "key_policy \<Rightarrow> nat option \<Rightarrow> nat" where
  "lead_of pol lead = (case lead of Some n \<Rightarrow> n | None \<Rightarrow> kp_publish_lead_secs pol)"

fun issuer_admits :: "issuer_env \<Rightarrow> issuer_op \<Rightarrow> issuer \<times> writer \<Rightarrow> bool" where
  "issuer_admits E (Op_Rotate lead actor seed now k es now') (s, w) \<longleftrightarrow>
     quiet k es w \<and> length seed = 32 \<and> 0 < lead_of (is_policy s) lead \<and> sane_time now \<and>
     sane_secs (lead_of (is_policy s) lead) \<and> sane_time (now + int (lead_of (is_policy s) lead))"
| "issuer_admits E (Op_Prune now turns now') (s, w) \<longleftrightarrow>
     prune_calm E now turns s (retired_signing_keys_due now (w_db w)) w \<and>
     fst (prune_retired E False now turns False now' s w) \<noteq> None"
| "issuer_admits E (Op_Keys now) (s, w) \<longleftrightarrow> True"
| "issuer_admits E (Op_Store _ w') (s, w) \<longleftrightarrow> db_ok (w_db w') \<and> signing_key_tbl (w_db w') = signing_key_tbl (w_db w)"

definition env_ok :: "issuer_env \<Rightarrow> bool" where
  "env_ok E \<longleftrightarrow> crypto_ok (ie_crypto E) \<and> (\<forall>seed. length (ie_public E seed) = 32)"

definition table_inv :: "issuer_env \<Rightarrow> int \<Rightarrow> timestamp \<Rightarrow> db_signing_key list \<Rightarrow> bool" where
  "table_inv E M now ks \<longleftrightarrow>
     covered M ks \<and> (\<forall>k \<in> set ks. good_key E k \<and> sk_created_at k \<le> now \<and> removed_late now k)"

definition issuer_inv :: "issuer_env \<Rightarrow> nat \<Rightarrow> timestamp \<Rightarrow> issuer \<times> writer \<Rightarrow> bool" where
  "issuer_inv E ttl now sw \<longleftrightarrow>
     db_ok (w_db (snd sw)) \<and> in_sync E (fst sw) (snd sw) \<and> kp_max_ttl_secs (is_policy (fst sw)) = ttl \<and>
     table_inv E (int ttl + 300) now (signing_key_tbl (w_db (snd sw)))"

text \<open>A key that signed at \<open>t\<close>: present, activated by then, and not ended before \<open>t + M\<close>.\<close>

definition held_until :: "string \<Rightarrow> bytes \<Rightarrow> timestamp \<Rightarrow> timestamp \<Rightarrow> db_signing_key list \<Rightarrow> bool" where
  "held_until kid pk t e ks \<longleftrightarrow>
     (\<exists>k \<in> set ks. sk_kid k = kid \<and> sk_public_key k = pk \<and> sk_activate_at k \<le> t \<and> sk_removed_at k = None \<and>
        (case sk_retire_at k of None \<Rightarrow> True | Some r \<Rightarrow> e \<le> r))"

subsection \<open>Rotation\<close>

lemma good_new_row:
  assumes "env_ok E" and "length seed = 32"
  shows "good_key E (new_row (ie_crypto E) (generate E seed) now a)"
  using assms by (simp add: good_key_def opened_seed_def generate_def env_ok_def crypto_ok_def)

lemma good_rotated_key [simp]: "good_key E (rotated_key now a r k) = good_key E k"
  by (simp add: good_key_def opened_seed_def)

lemma removed_late_rotated: "removed_late now k \<Longrightarrow> removed_late now (rotated_key now a r k)"
  by (auto simp: removed_late_def rotated_key_def Let_def)

lemma removed_late_mono: "removed_late now k \<Longrightarrow> now \<le> now' \<Longrightarrow> removed_late now' k"
  by (auto simp: removed_late_def)

lemma table_inv_mono: "table_inv E M now ks \<Longrightarrow> now \<le> now' \<Longrightarrow> table_inv E M now' ks"
  by (auto simp: table_inv_def intro: removed_late_mono)

lemma rotated_table_inv:
  assumes "env_ok E" and "length seed = 32" and "table_inv E M now ks" and "0 < M" and "now < a"
  shows "table_inv E M now (map (rotated_key now a (a + M)) ks @ [new_row (ie_crypto E) (generate E seed) now a])"
  using assms rotation_covers [of M ks now a "a + M" "new_row (ie_crypto E) (generate E seed) now a"]
  by (auto simp: table_inv_def good_new_row removed_late_rotated removed_late_def [of _ "new_row _ _ _ _"])

lemma rotated_held:
  assumes "held_until kid pk t e ks" and "t \<le> now" and "now < a" and "e \<le> a + M"
  shows "held_until kid pk t e (map (rotated_key now a (a + M)) ks @ [n])"
proof -
  obtain k where k: "k \<in> set ks" "sk_kid k = kid" "sk_public_key k = pk" "sk_activate_at k \<le> t" "sk_removed_at k = None"
    "case sk_retire_at k of None \<Rightarrow> True | Some r \<Rightarrow> e \<le> r" using assms(1) by (auto simp: held_until_def)
  have "\<not> a < sk_activate_at k" using k(4) assms(2,3) by simp
  then have "case sk_retire_at (rotated_key now a (a + M) k) of None \<Rightarrow> True | Some r \<Rightarrow> e \<le> r"
    using k(6) assms(4) by (auto simp: rotated_key_def Let_def split: option.splits)
  with k show ?thesis unfolding held_until_def by (intro bexI [of _ "rotated_key now a (a + M) k"]) auto
qed

text \<open>What a planned rotation leaves: the rotated table, or the table as it was.\<close>

lemma rotate_effect:
  assumes "rotate E lead actor seed now k es False now' s w = (r, s', w')" and "quiet k es w"
    and "0 < lead_of (is_policy s) lead" and "sane_time now" and "sane_secs (lead_of (is_policy s) lead)"
    and "sane_time (now + int (lead_of (is_policy s) lead))" and "sane_secs (kp_max_ttl_secs (is_policy s) + 300)"
  defines "a \<equiv> now + int (lead_of (is_policy s) lead)" and "M \<equiv> int (kp_max_ttl_secs (is_policy s)) + 300"
  shows "db_ok (w_db w') \<and>
     (s' = s \<and> signing_key_tbl (w_db w') = signing_key_tbl (w_db w) \<or>
      s' = snd (reload E False now' w' s) \<and>
      signing_key_tbl (w_db w') = map (rotated_key now a (a + M)) (signing_key_tbl (w_db w)) @
        [new_row (ie_crypto E) (generate E seed) now a])"
proof -
  define plan where "plan = rotation_plan (is_policy s) lead (nk_kid (generate E seed)) now"
  have plan: "ro_activate_at plan = a" "ro_previous_retire_at plan = a + M"
    using assms(3-7)
    by (auto simp: plan_def rotation_plan_def lead_of_def [symmetric] a_def M_def Let_def retire_margin_secs_def clock_simps
        sat_u64_def u64_max_def sane_secs_def min_def)
  define ev where "ev = (event_new ''signing_key.rotated'' Outcome_Success Actor_Admin now)
    \<lparr>au_actor_id := Some actor, au_key_id := Some (nk_kid (generate E seed)), au_detail := Some (ie_rotated_detail E plan)\<rparr>"
  obtain r0 where wr: "issuer_write E (RotateSigningKey (generate E seed) now a (a + M)) ev k es s w = (r0, w')"
    and s': "s' = (case r0 of Some (Inr _) \<Rightarrow> snd (reload E False now' w' s) | _ \<Rightarrow> s)"
    using assms(1) plan
    by (auto simp: rotate_def plan_def [symmetric] ev_def [symmetric] Let_def split: prod.splits option.splits sum.splits)
  from assms(2) wr show ?thesis
  proof (cases rule: issuer_write_fate)
    case (ok applied d0 d1)
    then have "rotate_signing_key (ie_crypto E) (generate E seed) now a (a + M) d0 = Inr d1" by (auto simp: bindE_Inr_iff)
    from rotate_signing_key_tbl [OF this] ok show ?thesis by (simp add: s')
  next
    case no
    then have "s' = s" by (auto simp: s' split: option.splits sum.splits)
    with no show ?thesis by simp
  qed
qed

subsection \<open>Pruning\<close>

definition removed_row :: "timestamp \<Rightarrow> string \<Rightarrow> db_signing_key \<Rightarrow> db_signing_key" where
  "removed_row now kid k = (if sk_kid k = kid \<and> retire_due now k then k\<lparr>sk_removed_at := Some now\<rparr> else k)"

lemma removed_row_sel [simp]:
  "sk_kid (removed_row now kid k) = sk_kid k" "sk_public_key (removed_row now kid k) = sk_public_key k"
  "sk_seed_sealed (removed_row now kid k) = sk_seed_sealed k" "sk_created_at (removed_row now kid k) = sk_created_at k"
  "sk_activate_at (removed_row now kid k) = sk_activate_at k" "sk_retire_at (removed_row now kid k) = sk_retire_at k"
  by (simp_all add: removed_row_def)

lemma removed_table_inv:
  assumes "table_inv E M now ks"
  shows "table_inv E M now (map (removed_row now kid) ks)"
proof -
  have "removed_late now (removed_row now kid k)" if "removed_late now k" for k
    using that by (auto simp: removed_row_def removed_late_def retire_due_def split: option.splits)
  moreover have "good_key E (removed_row now kid k) = good_key E k" for k by (simp add: good_key_def opened_seed_def)
  ultimately show ?thesis using assms by (auto simp: table_inv_def covered_map)
qed

lemma removed_held:
  assumes "held_until kid' pk t e ks" and "now < e"
  shows "held_until kid' pk t e (map (removed_row now kid) ks)"
proof -
  obtain k where k: "k \<in> set ks" "sk_kid k = kid'" "sk_public_key k = pk" "sk_activate_at k \<le> t" "sk_removed_at k = None"
    "case sk_retire_at k of None \<Rightarrow> True | Some r \<Rightarrow> e \<le> r" using assms(1) by (auto simp: held_until_def)
  then have "removed_row now kid k = k" using assms(2) by (auto simp: removed_row_def retire_due_def split: option.splits)
  with k show ?thesis unfolding held_until_def by (intro bexI [of _ k]) force+
qed

lemma prune_each_effect:
  assumes "prune_calm E now turns s due w" and "db_ok (w_db w)" and "prune_each E now turns s due n w = (r, w')"
    and "P (signing_key_tbl (w_db w))" and "\<And>ks kid. P ks \<Longrightarrow> P (map (removed_row now kid) ks)"
  shows "db_ok (w_db w') \<and> P (signing_key_tbl (w_db w')) \<and>
     (\<forall>m. r = Some m \<longrightarrow> n \<le> m) \<and> (r = Some n \<longrightarrow> signing_key_tbl (w_db w') = signing_key_tbl (w_db w))"
  using assms(1-4)
proof (induction due arbitrary: n w)
  case (Cons kid due)
  define ev where "ev = (event_new ''signing_key.removed'' Outcome_Success Actor_System now)\<lparr>au_key_id := Some kid\<rparr>"
  obtain r1 w1 where wr: "issuer_write E (RemoveRetiredSigningKey kid now) ev (fst (turns kid)) (snd (turns kid)) s w = (r1, w1)"
    by force
  from Cons.prems(1) wr have q: "quiet (fst (turns kid)) (snd (turns kid)) w" and calm: "prune_calm E now turns s due w1"
    by (auto simp: ev_def)
  have step: "db_ok (w_db w1) \<and> P (signing_key_tbl (w_db w1)) \<and>
      (r1 \<noteq> Some (Inr True) \<longrightarrow> signing_key_tbl (w_db w1) = signing_key_tbl (w_db w))"
    using q wr
  proof (cases rule: issuer_write_fate)
    case (ok applied d0 d1)
    then have d1: "signing_key_tbl d1 = map (removed_row now kid) (signing_key_tbl (w_db w))"
      and "applied = (0 < sql_count (\<lambda>k. sk_kid k = kid \<and> retire_due now k) (signing_key_tbl (w_db w)))"
      by (auto simp: remove_retired_signing_key_def Let_def sql_update_def removed_row_def [abs_def])
    moreover from this have "\<not> applied \<Longrightarrow> signing_key_tbl d1 = signing_key_tbl (w_db w)"
      by (auto simp: sql_count_pos removed_row_def intro!: map_idI)
    ultimately show ?thesis using ok Cons.prems(4) assms(5) by auto
  next
    case no
    then show ?thesis using Cons.prems(4) by simp
  qed
  have "prune_each E now turns s (kid # due) n w =
      (case r1 of None \<Rightarrow> (None, w1) | Some (Inr True) \<Rightarrow> prune_each E now turns s due (n + 1) w1
       | Some _ \<Rightarrow> prune_each E now turns s due n w1)"
    using wr by (simp add: ev_def Let_def)
  with Cons.prems(3) consider "r1 = None" "r = None" "w' = w1"
    | "r1 = Some (Inr True)" "prune_each E now turns s due (n + 1) w1 = (r, w')"
    | "r1 \<noteq> Some (Inr True)" "prune_each E now turns s due n w1 = (r, w')"
    by (auto split: option.splits sum.splits bool.splits)
  then show ?case
  proof cases
    case 1
    with step show ?thesis by auto
  next
    case 2
    from Cons.IH [OF calm _ 2(2)] step show ?thesis by fastforce
  next
    case 3
    from Cons.IH [OF calm _ 3(2)] step 3(1) show ?thesis by auto
  qed
qed auto

subsection \<open>Every step\<close>

lemma reload_table:
  assumes "table_inv E M now (signing_key_tbl (w_db w))"
  shows "in_sync E (snd (reload E False t w s)) w" "is_policy (snd (reload E False t w s)) = is_policy s"
  using reload_syncs [of w E False t s, OF _ surjective_pairing] assms by (auto simp: table_inv_def)

lemma issuer_step_ok:
  assumes env: "env_ok E" and ttl: "sane_secs (ttl + 300)" and inv: "issuer_inv E ttl now (s, w)"
    and adm: "issuer_admits E op (s, w)" and later: "now \<le> issuer_time op"
    and P: "P (signing_key_tbl (w_db w))"
    and Prot: "\<And>ks a n. P ks \<Longrightarrow> issuer_time op < a \<Longrightarrow> P (map (rotated_key (issuer_time op) a (a + (int ttl + 300))) ks @ [n])"
    and Prem: "\<And>ks kid. P ks \<Longrightarrow> P (map (removed_row (issuer_time op) kid) ks)"
    and st: "issuer_step E op (s, w) = (s', w')"
  shows "issuer_inv E ttl (issuer_time op) (s', w') \<and> P (signing_key_tbl (w_db w'))"
proof -
  let ?M = "int ttl + 300"
  have tab: "table_inv E ?M (issuer_time op) (signing_key_tbl (w_db w))" and ok: "db_ok (w_db w)"
    and sync: "in_sync E s w" and pol: "kp_max_ttl_secs (is_policy s) = ttl"
    using inv later by (auto simp: issuer_inv_def intro: table_inv_mono)
  show ?thesis
  proof (cases op)
    case (Op_Rotate lead actor seed t0 k es t1)
    let ?a = "t0 + int (lead_of (is_policy s) lead)"
    obtain r where r: "rotate E lead actor seed t0 k es False t1 s w = (r, s', w')"
      using st Op_Rotate by (auto simp: prod_eq_iff)
    have "db_ok (w_db w') \<and>
       (s' = s \<and> signing_key_tbl (w_db w') = signing_key_tbl (w_db w) \<or>
        s' = snd (reload E False t1 w' s) \<and>
        signing_key_tbl (w_db w') = map (rotated_key t0 ?a (?a + ?M)) (signing_key_tbl (w_db w)) @
          [new_row (ie_crypto E) (generate E seed) t0 ?a])"
      using rotate_effect [OF r] adm Op_Rotate pol ttl by simp
    moreover have "table_inv E ?M t0 (map (rotated_key t0 ?a (?a + ?M)) (signing_key_tbl (w_db w)) @
          [new_row (ie_crypto E) (generate E seed) t0 ?a])"
      using rotated_table_inv [OF env _ tab] adm Op_Rotate by simp
    moreover have "P (map (rotated_key t0 ?a (?a + ?M)) (signing_key_tbl (w_db w)) @
          [new_row (ie_crypto E) (generate E seed) t0 ?a])"
      using Prot [OF P] adm Op_Rotate by simp
    ultimately show ?thesis
      using reload_table [of E ?M t0 w' t1 s] tab sync pol P Op_Rotate by (auto simp: issuer_inv_def in_sync_def)
  next
    case (Op_Prune t0 turns t1)
    let ?due = "retired_signing_keys_due t0 (w_db w)"
    obtain n where pe: "prune_each E t0 turns s ?due 0 w = (Some n, w')"
      and s': "s' = (if 0 < n then snd (reload E False t1 w' s) else s)"
      using st adm Op_Prune by (auto simp: prune_retired_def with_reader_def split: prod.splits option.splits)
    have calm: "prune_calm E t0 turns s ?due w" using adm Op_Prune by simp
    have "db_ok (w_db w') \<and> (table_inv E ?M t0 (signing_key_tbl (w_db w')) \<and> P (signing_key_tbl (w_db w'))) \<and>
        (n = 0 \<longrightarrow> signing_key_tbl (w_db w') = signing_key_tbl (w_db w))"
      using prune_each_effect [OF calm ok pe, of "\<lambda>ks. table_inv E ?M t0 ks \<and> P ks"] tab P Prem Op_Prune
      by (auto intro: removed_table_inv)
    then show ?thesis
      using reload_table [of E ?M t0 w' t1 s] sync pol Op_Prune by (auto simp: issuer_inv_def s' in_sync_def)
  next
    case (Op_Keys t0)
    have "w' = w" "s' = snd (jwks E False t0 w s)" using st Op_Keys by auto
    with jwks_syncs [OF _ sync, of False t0] tab ok pol P Op_Keys show ?thesis
      by (auto simp: issuer_inv_def table_inv_def)
  next
    case (Op_Store t0 w1)
    with st adm tab ok pol P sync show ?thesis by (auto simp: issuer_inv_def in_sync_def)
  qed
qed

lemma issuer_run_ok:
  assumes env: "env_ok E" and ttl: "sane_secs (ttl + 300)" and "issuer_inv E ttl now (s, w)"
    and "admitted (issuer_step E) (issuer_admits E) ops (s, w)" and "sorted (now # map issuer_time ops)"
    and "P (signing_key_tbl (w_db w))"
    and Prot: "\<And>ks u a n. P ks \<Longrightarrow> u \<in> issuer_time ` set ops \<Longrightarrow> u < a \<Longrightarrow> P (map (rotated_key u a (a + (int ttl + 300))) ks @ [n])"
    and Prem: "\<And>ks u kid. P ks \<Longrightarrow> u \<in> issuer_time ` set ops \<Longrightarrow> P (map (removed_row u kid) ks)"
    and "run (issuer_step E) ops (s, w) = (s', w')"
  shows "issuer_inv E ttl (last (now # map issuer_time ops)) (s', w') \<and> P (signing_key_tbl (w_db w'))"
  using assms(3-9)
proof (induction ops arbitrary: now s w)
  case (Cons op ops)
  obtain s1 w1 where st: "issuer_step E op (s, w) = (s1, w1)" by force
  have "issuer_inv E ttl (issuer_time op) (s1, w1) \<and> P (signing_key_tbl (w_db w1))"
    using Cons.prems by (intro issuer_step_ok [where P = P, OF env ttl Cons.prems(1) _ _ _ _ _ st]) auto
  then show ?case using Cons.IH [of "issuer_time op" s1 w1] Cons.prems st by auto
qed simp

subsection \<open>The first key\<close>

lemma bootstrap_inv:
  assumes env: "env_ok E" and "quiet k es w" and none: "signing_key_tbl (w_db w) = []" and seed: "length seed = 32"
    and b: "bootstrap E False False False now audit pol seed k es w = (Some (Inr s), w')"
  shows "issuer_inv E (kp_max_ttl_secs pol) now (s, w')"
proof -
  define s0 where "s0 = \<lparr>is_audit = audit, is_policy = pol, is_cache = fst (cache_build E [] now), is_touched = []\<rparr>"
  define ev where "ev = (event_new ''signing_key.created'' Outcome_Success Actor_System now)
    \<lparr>au_key_id := Some (nk_kid (generate E seed)), au_detail := Some (ie_created_detail E now)\<rparr>"
  have op: "issuer_open E False now audit pol w = Inr s0"
    by (simp add: issuer_open_def reload_def with_reader_def load_signing_keys_def none signing_key_order_def s0_def)
  obtain r where wr: "issuer_write E (InsertSigningKey (generate E seed) now) ev k es s0 w = (r, w')"
    and r: "\<exists>x. r = Some (Inr x)" "reload E False now w' s0 = (Inr (), s)"
    using b op
    by (auto simp: bootstrap_def with_reader_def list_signing_keys_def none signing_key_order_def ev_def [symmetric] Let_def bindE_Inr_iff
        split: prod.splits option.splits sum.splits)
  from assms(2) wr show ?thesis
  proof (cases rule: issuer_write_fate)
    case (ok applied d0 d1)
    then have "signing_key_tbl (w_db w') = [new_row (ie_crypto E) (generate E seed) now now]"
      using none by (auto simp: bindE_Inr_iff insert_signing_key_def new_row_def split: if_splits)
    then have "table_inv E (int (kp_max_ttl_secs pol) + 300) now (signing_key_tbl (w_db w'))"
      using good_new_row [OF env seed] by (simp add: table_inv_def removed_late_def)
    with reload_table [OF this, of now s0] r(2) ok show ?thesis by (simp add: issuer_inv_def s0_def)
  next
    case no
    with r(1) show ?thesis by blast
  qed
qed

section \<open>Tokens outlive rotations\<close>

lemma sign_held:
  assumes inv: "issuer_inv E ttl now (s, w)" and "now \<le> t"
    and "sign_with_kid E rf t w claims s = (Inr (kid, token), s')"
  shows "issuer_inv E ttl now (s', w) \<and> (\<exists>seed. jwt_encode E kid seed claims = Inr token \<and>
     held_until kid (ie_public E seed) t (t + (int ttl + 300)) (signing_key_tbl (w_db w)))"
proof -
  let ?ks = "signing_key_tbl (w_db w)"
  have good: "\<forall>k \<in> set ?ks. good_key E k" and cov: "covered (int ttl + 300) ?ks" "\<forall>k \<in> set ?ks. removed_late t k"
    and sync: "in_sync E s w"
    using inv assms(2) by (auto simp: issuer_inv_def table_inv_def intro: removed_late_mono)
  note k = with_keys_syncs [OF good sync assms(3) [unfolded sign_with_kid_def]]
  obtain seed where seed: "cache_signing t (is_cache s') = Some (kid, seed)" "jwt_encode E kid seed claims = Inr token"
    using k(3) [symmetric] by (auto simp: bindE_Inr_iff split: option.splits)
  obtain c where c: "newest (row_signs t) rank ?ks = Some c" "sk_kid c = kid" "opened_seed (ie_crypto E) c = Some seed"
    using cache_signing_newest [OF good k(1) seed(1)] by blast
  then have "c \<in> set ?ks" "row_signs t c" using newest_split [OF c(1)] by auto
  moreover from this good c(3) have "sk_public_key c = ie_public E seed" by (auto simp: good_key_def)
  ultimately have "held_until kid (ie_public E seed) t (t + (int ttl + 300)) ?ks"
    using chosen_outlives [OF cov(1) _ cov(2) c(1)] c(2)
    by (auto simp: held_until_def row_signs_def row_published_def split: option.splits intro!: bexI [of _ c])
  with inv k(1,2) seed(2) show ?thesis by (auto simp: issuer_inv_def)
qed

text \<open>
  C11. No token is orphaned by a planned rotation: starting from the boot that creates the first
  key, whatever rotations with a lead, prunes, reloads and other store traffic come before and
  after, a token signed at \<open>t\<close> is signed by a key that every published key set contains, under the
  public key of that very seed, until the longest token lifetime plus the verifiers' clock
  allowance of five minutes has passed.
\<close>

theorem tokens_stay_verifiable:
  assumes env: "env_ok E" and boot: "quiet k es w0" "signing_key_tbl (w_db w0) = []" "length seed = 32"
      "bootstrap E False False False t0 audit pol seed k es w0 = (Some (Inr s1), w1)"
    and ttl: "sane_secs (kp_max_ttl_secs pol + 300)"
    and before: "admitted (issuer_step E) (issuer_admits E) ops (s1, w1)" "run (issuer_step E) ops (s1, w1) = (s2, w2)"
    and sign: "sign_with_kid E rf t w2 claims s2 = (Inr (kid, token), s3)"
    and after: "admitted (issuer_step E) (issuer_admits E) ops' (s3, w2)" "run (issuer_step E) ops' (s3, w2) = (s4, w4)"
    and times: "sorted (t0 # map issuer_time ops @ t # map issuer_time ops' @ [u])" "u < t + int (kp_max_ttl_secs pol) + 300"
  shows "\<exists>sk. jwt_encode E kid sk claims = Inr token \<and>
     (kid, ie_b64 E (ie_public E sk)) \<in> set (fst (jwks E rf' u w4 s4))"
proof -
  let ?ttl = "kp_max_ttl_secs pol"
  have s1: "sorted (t0 # map issuer_time ops)" and s2: "sorted (t # map issuer_time ops')"
    and lt: "last (t0 # map issuer_time ops) \<le> t" "\<forall>v \<in> set (map issuer_time ops'). t \<le> v \<and> v \<le> u"
    "last (t # map issuer_time ops') \<le> u"
    using times(1) by (auto simp: sorted_append last_map)
  have "issuer_inv E ?ttl (last (t0 # map issuer_time ops)) (s2, w2)"
    using issuer_run_ok [where P = "\<lambda>_. True", OF env ttl bootstrap_inv [OF env boot] before(1) s1 _ _ _ before(2)] by simp
  from sign_held [OF this lt(1) sign] obtain sk where sk: "jwt_encode E kid sk claims = Inr token"
    "held_until kid (ie_public E sk) t (t + (int ?ttl + 300)) (signing_key_tbl (w_db w2))"
    and inv: "issuer_inv E ?ttl t (s3, w2)"
    using lt(1) by (auto simp: issuer_inv_def intro: table_inv_mono)
  have "issuer_inv E ?ttl (last (t # map issuer_time ops')) (s4, w4) \<and>
      held_until kid (ie_public E sk) t (t + (int ?ttl + 300)) (signing_key_tbl (w_db w4))"
    using lt(2) times(2)
    by (intro issuer_run_ok [where P = "held_until kid (ie_public E sk) t (t + (int ?ttl + 300))", OF env ttl inv after(1) s2 sk(2) _ _ after(2)])
      (fastforce intro!: rotated_held removed_held)+
  then have good: "\<forall>k \<in> set (signing_key_tbl (w_db w4)). good_key E k" and sync: "in_sync E s4 w4"
    and held: "held_until kid (ie_public E sk) t (t + (int ?ttl + 300)) (signing_key_tbl (w_db w4))"
    by (auto simp: issuer_inv_def table_inv_def)
  from held times(2) have "(kid, ie_b64 E (ie_public E sk)) \<in> set (fst (jwks E rf' u w4 s4))"
    by (auto simp: jwks_syncs(3) [OF good sync] held_until_def set_live_rows row_published_def open_past_def
        image_iff split: option.splits intro!: bexI)
  with sk(1) show ?thesis by blast
qed

section \<open>An example run\<close>

definition demo_ie :: issuer_env where
  "demo_ie = \<lparr>ie_crypto = demo_crypto, ie_json = demo_json, ie_public = (\<lambda>s. take 32 (s @ replicate 32 0)),
     ie_kid_of = (\<lambda>p. if p ! 0 = 1 then ''k1'' else ''k2''), ie_sign = (\<lambda>seed _. seed), ie_b64 = string_of_bytes,
     ie_quote = (\<lambda>s. s), ie_hash = bytes_of, ie_pseudonym = (\<lambda>s. s), ie_created_detail = (\<lambda>_. []),
     ie_rotated_detail = (\<lambda>_. [])\<rparr>"

definition demo_boot :: "(issuer_error + issuer) option \<times> writer" where
  "demo_boot = bootstrap demo_ie False False False 1000 None \<lparr>kp_publish_lead_secs = 86400, kp_max_ttl_secs = 3600\<rparr>
     (replicate 32 1) 7 demo_turn (new_writer (migrated_db 0))"

definition demo_booted :: "issuer \<times> writer" where
  "demo_booted = ((case fst demo_boot of Some (Inr s) \<Rightarrow> s | _ \<Rightarrow> undefined), snd demo_boot)"

definition demo_rotation :: issuer_op where
  "demo_rotation = Op_Rotate (Some 100) ''op'' (replicate 32 2) 2000 8 demo_turn 2000"

definition demo_rotated :: "issuer \<times> writer" where
  "demo_rotated = issuer_step demo_ie demo_rotation demo_booted"

definition demo_signed :: "(issuer_error + string \<times> string) \<times> issuer" where
  "demo_signed = sign_with_kid demo_ie False 2050 (snd demo_rotated) (Some ''{}'') (fst demo_rotated)"

lemma demo_ie_ok: "env_ok demo_ie"
  by (auto simp: env_ok_def demo_ie_def demo_crypto_ok min_def)

lemma quiet_idle: "db_ok (w_db w) \<Longrightarrow> w_queue w = [] \<Longrightarrow> k \<notin> fst ` set (w_acked w) \<Longrightarrow> quiet k demo_turn w"
  by (simp add: quiet_def demo_turn_def batch_acks_def)

lemma demo_boot_eq: "demo_boot = (Some (Inr (fst demo_booted)), snd demo_booted)"
proof -
  have "(case fst demo_boot of Some (Inr s) \<Rightarrow> True | _ \<Rightarrow> False)" by code_simp
  then show ?thesis by (auto simp: demo_booted_def prod_eq_iff split: option.splits sum.splits)
qed

text \<open>The token signed before the new key activates is still covered an hour later.\<close>

theorem tokens_stay_verifiable_witness:
  "\<exists>sk token. jwt_encode demo_ie ''k1'' sk (Some ''{}'') = Inr token \<and>
     (''k1'', ie_b64 demo_ie (ie_public demo_ie sk)) \<in>
       set (fst (jwks demo_ie False 5650 (snd demo_rotated) (snd demo_signed)))"
proof -
  obtain s1 w1 where b: "demo_booted = (s1, w1)" by force
  have q0: "quiet 7 demo_turn (new_writer (migrated_db 0))"
    by (rule quiet_idle) (simp_all add: new_writer_def db_ok_migrated)
  note boot = demo_ie_ok q0 _ _ demo_boot_eq [unfolded demo_boot_def b fst_conv snd_conv]
  have inv: "issuer_inv demo_ie 3600 1000 (s1, w1)"
    using bootstrap_inv [OF boot] by (simp add: new_writer_def migrated_db_def)
  have "(w_queue (snd demo_booted) = []) \<and>
      (8 \<notin> fst ` set (w_acked (snd demo_booted))) \<and>
      (kp_publish_lead_secs (is_policy (fst demo_booted)) = 86400)" by code_simp
  then have adm: "admitted (issuer_step demo_ie) (issuer_admits demo_ie) [demo_rotation] (s1, w1)"
    using inv by (simp add: b demo_rotation_def lead_of_def sane_time_def sane_secs_def quiet_idle issuer_inv_def)
  obtain s2 w2 where r: "demo_rotated = (s2, w2)" by force
  then have run: "run (issuer_step demo_ie) [demo_rotation] (s1, w1) = (s2, w2)" by (simp add: demo_rotated_def b)
  have "map_option fst (case fst demo_signed of Inr x \<Rightarrow> Some x | _ \<Rightarrow> None) = Some ''k1''" by code_simp
  then obtain token where "fst demo_signed = Inr (''k1'', token)" by (auto split: sum.splits)
  then have sg: "sign_with_kid demo_ie False 2050 w2 (Some ''{}'') s2 = (Inr (''k1'', token), snd demo_signed)"
    by (simp add: demo_signed_def r prod_eq_iff)
  have "\<exists>sk. jwt_encode demo_ie ''k1'' sk (Some ''{}'') = Inr token \<and>
     (''k1'', ie_b64 demo_ie (ie_public demo_ie sk)) \<in> set (fst (jwks demo_ie False 5650 w2 (snd demo_signed)))"
    by (rule tokens_stay_verifiable [OF boot(1,2) _ _ boot(5) _ adm run sg, where ops' = "[]"])
      (simp_all add: new_writer_def migrated_db_def sane_secs_def demo_rotation_def)
  then show ?thesis by (auto simp: r)
qed

end
