(* ===== verification/Internal.thy ===== *)
theory Internal
  imports Http Audit_Sink Writer_Handle
begin

text \<open>
  The backend lane: \<open>POST /internal/token\<close> (\<open>http/internal.rs\<close>) and the edge check \<open>/authz\<close>
  (\<open>http/authz.rs\<close>), which shares its state. \<open>rf\<close> and \<open>rf'\<close> are failures of the two store reads,
  \<open>instant\<close> the monotonic clock, \<open>k\<close> the ack channel of the write that records a use; SHA-256, the
  token hash, the rendering of a gap row and what \<open>HeaderValue::from_str\<close> accepts are arguments. Metrics and logs are left out.
\<close>

section \<open>State\<close>

record internal_state =
  it_sessions :: session_map
  it_store :: writer
  it_api_key :: "string option"
  it_touches :: bool
  it_last_touch :: "(string, nat) dmap"
  it_audit :: "audit_sink option"
  it_rate_limit :: "(client_source \<times> limiter) option"

record lane_env =
  le_crypto :: crypto
  le_hash_secret :: "string \<Rightarrow> bytes"
  le_token_hash :: "session_token \<Rightarrow> token_hash"
  le_pseudonym :: "string \<Rightarrow> string"
  le_gap :: "nat \<Rightarrow> string"
  le_header_ok :: "string \<Rightarrow> bool"

definition touch_interval_nanos :: nat where
  "touch_interval_nanos = 60 * 1000000000"

datatype backend_auth = Auth_Issued string | Auth_Bootstrap | Auth_Disabled | Auth_Refused

section \<open>Authenticating a backend\<close>

text \<open>\<open>key_matches\<close>: the loop accumulates the differences of all bytes and looks at them at the end.\<close>

definition byte_diff :: "8 word \<Rightarrow> 8 word \<times> 8 word \<Rightarrow> 8 word" where
  "byte_diff diff xy = or diff (xor (fst xy) (snd xy))"

definition key_matches :: "string \<Rightarrow> string \<Rightarrow> bool" where
  "key_matches presented expected =
     (let a = bytes_of presented; b = bytes_of expected
      in if length a \<noteq> length b then False else foldl byte_diff 0 (zip a b) = 0)"

definition bearer :: "header_map \<Rightarrow> string option" where
  "bearer headers = Option.bind (header_str headers ''authorization'') (strip_prefix ''Bearer '')"

definition authenticate_backend :: "lane_env \<Rightarrow> bool \<Rightarrow> internal_state \<Rightarrow> string \<Rightarrow> backend_auth" where
  "authenticate_backend E rf s presented =
     (case (if rf then None else find_live_api_key (le_hash_secret E presented) (w_db (it_store s))) of
        Some row \<Rightarrow> Auth_Issued (k_key_id row)
      | None \<Rightarrow>
          (case it_api_key s of
             Some expected \<Rightarrow> if key_matches presented expected then Auth_Bootstrap else Auth_Refused
           | None \<Rightarrow> Auth_Disabled))"

definition record_use :: "string \<Rightarrow> nat \<Rightarrow> timestamp \<Rightarrow> ack \<Rightarrow> internal_state \<Rightarrow> internal_state" where
  "record_use key_id instant now k s =
     (if \<not> it_touches s then s
      else
        (let seen = it_last_touch s;
             recent = (case dget seen key_id of Some t \<Rightarrow> instant - t < touch_interval_nanos | None \<Rightarrow> False)
         in if recent then s
            else s\<lparr>it_last_touch := dinsert key_id instant seen,
                   it_store := snd (enqueue_touch key_id now k (it_store s))\<rparr>))"

definition backend_is_authenticated ::
  "lane_env \<Rightarrow> bool \<Rightarrow> nat \<Rightarrow> timestamp \<Rightarrow> ack \<Rightarrow> header_map \<Rightarrow> internal_state \<Rightarrow> bool \<times> internal_state" where
  "backend_is_authenticated E rf instant now k headers s =
     (case bearer headers of
        None \<Rightarrow> (False, s)
      | Some presented \<Rightarrow>
          (case authenticate_backend E rf s presented of
             Auth_Issued key_id \<Rightarrow> (True, record_use key_id instant now k s)
           | Auth_Bootstrap \<Rightarrow> (True, s)
           | Auth_Disabled \<Rightarrow> (False, s)
           | Auth_Refused \<Rightarrow> (False, s)))"

section \<open>The exchange\<close>

record token_grant =
  tg_access_token :: string
  tg_sub :: string
  tg_expires_at :: timestamp
  tg_scope :: "string option"

record lane_refusal =
  rf_status :: nat
  rf_error :: string
  rf_detail :: string

definition refusal :: "nat \<Rightarrow> string \<Rightarrow> string \<Rightarrow> lane_refusal" where
  "refusal status e detail = \<lparr>rf_status = status, rf_error = e, rf_detail = detail\<rparr>"

definition not_active :: lane_refusal where
  "not_active = refusal 401 ''session_not_active''
     ''The presented session token does not authenticate resource access.''"

text \<open>What the handler learns on the way, for the audit row: key, session, subject.\<close>

record exchange_facts =
  xf_key_id :: "string option"
  xf_sid :: "string option"
  xf_subject :: "string option"

definition no_facts :: exchange_facts where
  "no_facts = \<lparr>xf_key_id = None, xf_sid = None, xf_subject = None\<rparr>"

definition admit_backend ::
  "lane_env \<Rightarrow> bool \<Rightarrow> nat \<Rightarrow> timestamp \<Rightarrow> ack \<Rightarrow> header_map \<Rightarrow> internal_state \<Rightarrow>
   (lane_refusal + string option) \<times> internal_state" where
  "admit_backend E rf instant now k headers s =
     (case bearer headers of
        None \<Rightarrow> (Inl (refusal 401 ''missing_api_key''
                  ''This lane requires a broker API key in addition to a session token.''), s)
      | Some presented \<Rightarrow>
          (case authenticate_backend E rf s presented of
             Auth_Issued i \<Rightarrow> (Inr (Some i), record_use i instant now k s)
           | Auth_Bootstrap \<Rightarrow> (Inr None, s)
           | Auth_Disabled \<Rightarrow> (Inl (refusal 501 ''lane_disabled''
               ''No broker API keys are configured, so the internal token lane is disabled.''), s)
           | Auth_Refused \<Rightarrow> (Inl (refusal 401 ''bad_api_key'' ''The broker API key was not recognised.''), s)))"

definition read_grant :: "lane_env \<Rightarrow> bool \<Rightarrow> timestamp \<Rightarrow> custody_id \<Rightarrow> internal_state \<Rightarrow> lane_refusal + token_grant" where
  "read_grant E rf now c s =
     (case (if rf then Inl (Sqlite Io_Failure) else load_custody (le_crypto E) c (w_db (it_store s))) of
        Inl _ \<Rightarrow> Inl (refusal 503 ''custody_unavailable'' ''The upstream grant could not be read.'')
      | Inr None \<Rightarrow> Inl (refusal 503 ''custody_unavailable'' ''No upstream grant is held for this session.'')
      | Inr (Some row) \<Rightarrow>
          if cr_access_exp row \<le> now
          then Inl (refusal 503 ''custody_unavailable''
                 ''The custodied access token has expired and has not yet been renewed.'')
          else case from_utf8 (cr_access_tok row) of
                 None \<Rightarrow> Inl (refusal 503 ''custody_unavailable'' ''The stored access token could not be decoded.'')
               | Some access_token \<Rightarrow>
                   Inr \<lparr>tg_access_token = access_token, tg_sub = cr_sub row, tg_expires_at = cr_access_exp row,
                        tg_scope = cr_scope row\<rparr>)"

definition exchange_inner ::
  "lane_env \<Rightarrow> bool \<Rightarrow> bool \<Rightarrow> nat \<Rightarrow> timestamp \<Rightarrow> ack \<Rightarrow> header_map \<Rightarrow> session_token \<Rightarrow> internal_state \<Rightarrow>
   (lane_refusal + token_grant) \<times> exchange_facts \<times> internal_state" where
  "exchange_inner E rf rf' instant now k headers session_token s =
     (case admit_backend E rf instant now k headers s of
        (Inl r, s') \<Rightarrow> (Inl r, no_facts, s')
      | (Inr key_id, s') \<Rightarrow>
          (let h = le_token_hash E session_token;
               facts = \<lparr>xf_key_id = key_id, xf_sid = sid_for_hash h (it_sessions s'), xf_subject = None\<rparr>
           in if \<not> authenticates (resolve h now (it_sessions s')) then (Inl not_active, facts, s')
              else case meta_for h (it_sessions s') of
                     None \<Rightarrow> (Inl not_active, facts, s')
                   | Some meta \<Rightarrow>
                       (let facts' = facts\<lparr>xf_subject := Some (sm_sub meta)\<rparr>
                        in case custody_for h (it_sessions s') of
                             None \<Rightarrow> (Inl not_active, facts', s')
                           | Some c \<Rightarrow>
                               if sm_custody meta = Dead
                               then (Inl (refusal 503 ''upstream_revoked''
                                      ''The upstream grant behind this session has been revoked.''), facts', s')
                               else (read_grant E rf' now c s', facts', s'))))"

definition lane_record :: "lane_env \<Rightarrow> audit_row \<Rightarrow> internal_state \<Rightarrow> internal_state" where
  "lane_record E row s =
     (case it_audit s of
        None \<Rightarrow> s
      | Some sink \<Rightarrow>
          (let (sink', w) = sink_record (le_pseudonym E) (le_gap E) row (sink, it_store s)
           in s\<lparr>it_audit := Some sink', it_store := w\<rparr>))"

datatype lane_reply = Granted_Reply token_grant | Refused_Reply nat string string | Limited_Reply response

definition record_exchange :: "lane_env \<Rightarrow> timestamp \<Rightarrow> exchange_facts \<Rightarrow> internal_state \<Rightarrow> internal_state" where
  "record_exchange E now facts s =
     (case it_audit s of
        None \<Rightarrow> s
      | Some sink \<Rightarrow>
          (let key = (case xf_key_id facts of Some i \<Rightarrow> i | None \<Rightarrow> ''bootstrap'');
               session = (case xf_sid facts of Some i \<Rightarrow> i | None \<Rightarrow> []);
               (wanted, sink') = should_record_exchange key session now sink;
               s' = s\<lparr>it_audit := Some sink'\<rparr>;
               event = (event_new ''token.exchanged'' Outcome_Success Actor_Backend now)
                 \<lparr>au_actor_id := Some key, au_key_id := Some key, au_sid := xf_sid facts, au_subject := xf_subject facts\<rparr>
           in if wanted then lane_record E event s' else s'))"

definition record_refusal :: "lane_env \<Rightarrow> timestamp \<Rightarrow> exchange_facts \<Rightarrow> lane_refusal \<Rightarrow> internal_state \<Rightarrow> internal_state" where
  "record_refusal E now facts r =
     lane_record E ((event_new ''token.refused'' Outcome_Failure Actor_Backend now)
       \<lparr>au_reason := Some (rf_error r), au_actor_id := xf_key_id facts, au_key_id := xf_key_id facts, au_sid := xf_sid facts\<rparr>)"

definition spend_attempt ::
  "string option \<Rightarrow> header_map \<Rightarrow> nat \<Rightarrow> lane_refusal \<Rightarrow> internal_state \<Rightarrow> response option \<times> internal_state" where
  "spend_attempt peer headers instant r s =
     (if rf_error r \<noteq> ''bad_api_key'' \<and> rf_error r \<noteq> ''missing_api_key'' then (None, s)
      else case it_rate_limit s of
             None \<Rightarrow> (None, s)
           | Some (src, l) \<Rightarrow>
               (let (resp, l') = rate_limit_check src peer headers ''backend_auth'' instant l
                in (resp, s\<lparr>it_rate_limit := Some (src, l')\<rparr>)))"

definition exchange ::
  "lane_env \<Rightarrow> bool \<Rightarrow> bool \<Rightarrow> nat \<Rightarrow> timestamp \<Rightarrow> timestamp \<Rightarrow> ack \<Rightarrow> string option \<Rightarrow> header_map \<Rightarrow> session_token \<Rightarrow>
   internal_state \<Rightarrow> lane_reply \<times> internal_state" where
  "exchange E rf rf' instant now now' k peer headers session_token s =
     (case exchange_inner E rf rf' instant now' k headers session_token s of
        (Inr grant, facts, s1) \<Rightarrow> (Granted_Reply grant, record_exchange E now facts s1)
      | (Inl r, facts, s1) \<Rightarrow>
          (case spend_attempt peer headers instant r s1 of
             (Some resp, s2) \<Rightarrow> (Limited_Reply resp, s2)
           | (None, s2) \<Rightarrow> (Refused_Reply (rf_status r) (rf_error r) (rf_detail r), record_refusal E now facts r s2)))"

section \<open>The edge check\<close>

text \<open>The first non-empty session cookie, under either name.\<close>

fun named_value :: "string list \<Rightarrow> string \<Rightarrow> string option" where
  "named_value [] part = None"
| "named_value (name # names) part =
     (case Option.bind (strip_prefix name part) (strip_prefix ''='') of
        Some (c # cs) \<Rightarrow> Some (c # cs)
      | _ \<Rightarrow> named_value names part)"

fun first_some :: "('a \<Rightarrow> 'b option) \<Rightarrow> 'a list \<Rightarrow> 'b option" where
  "first_some f [] = None"
| "first_some f (x # xs) = (case f x of Some y \<Rightarrow> Some y | None \<Rightarrow> first_some f xs)"

definition session_cookie :: "string \<Rightarrow> string option" where
  "session_cookie raw =
     first_some (named_value [''__Host-broker_session'', ''broker_session''] \<circ> trim) (split_on (CHR '';'') raw)"

datatype authz_reply = Authz_Allow string string | Authz_Deny nat string

fun custody_word :: "custody_status \<Rightarrow> string" where
  "custody_word Ok = ''ok''"
| "custody_word Degraded = ''degraded''"
| "custody_word Dead = ''dead''"

definition authz_check ::
  "lane_env \<Rightarrow> bool \<Rightarrow> nat \<Rightarrow> timestamp \<Rightarrow> timestamp \<Rightarrow> ack \<Rightarrow> header_map \<Rightarrow> internal_state \<Rightarrow> authz_reply \<times> internal_state" where
  "authz_check E rf instant now now' k headers s =
     (case backend_is_authenticated E rf instant now k headers s of
        (False, s') \<Rightarrow> (Authz_Deny 403 ''edge is not authenticated'', s')
      | (True, s') \<Rightarrow>
          (case header_str headers ''cookie'' of
             None \<Rightarrow> (Authz_Deny 401 ''no cookie'', s')
           | Some raw \<Rightarrow>
               (case session_cookie raw of
                  None \<Rightarrow> (Authz_Deny 401 ''no session cookie'', s')
                | Some token \<Rightarrow>
                    (let h = le_token_hash E token
                     in if \<not> authenticates (resolve h now' (it_sessions s')) then (Authz_Deny 401 ''session not active'', s')
                        else case meta_for h (it_sessions s') of
                               None \<Rightarrow> (Authz_Deny 401 ''session not active'', s')
                             | Some meta \<Rightarrow>
                                 if le_header_ok E (sm_sub meta)
                                 then (Authz_Allow (sm_sub meta) (custody_word (sm_custody meta)), s')
                                 else (Authz_Deny 401 ''subject is not header-safe'', s')))))"

section \<open>What it takes\<close>

lemma byte_diff_zero: "byte_diff d (x, y) = 0 \<longleftrightarrow> d = 0 \<and> x = y"
proof -
  have "xor x y = 0 \<longleftrightarrow> x = y"
  proof
    assume "xor x y = 0"
    then have "xor (xor x y) y = y" by simp
    then show "x = y" by (simp add: xor.assoc)
  qed simp
  then show ?thesis by (simp add: byte_diff_def or_eq_0_iff)
qed

lemma foldl_byte_diff: "foldl byte_diff d (zip a b) = 0 \<longleftrightarrow> d = 0 \<and> (\<forall>(x, y) \<in> set (zip a b). x = y)"
proof (induction a arbitrary: b d)
  case (Cons x a)
  then show ?case by (cases b) (auto simp: byte_diff_zero)
qed simp

lemma key_matches_iff: "key_matches presented expected \<longleftrightarrow> presented = expected"
proof -
  have "length a = length b \<Longrightarrow> (\<forall>(x, y) \<in> set (zip a b). x = y) \<longleftrightarrow> a = b" for a b :: bytes
    by (induction a b rule: list_induct2) auto
  then show ?thesis by (auto simp: key_matches_def Let_def foldl_byte_diff bytes_of_inj)
qed

text \<open>A backend is known by an issued key that is live, or by the bootstrap key itself.\<close>

definition known_backend :: "lane_env \<Rightarrow> bool \<Rightarrow> header_map \<Rightarrow> internal_state \<Rightarrow> bool" where
  "known_backend E rf headers s \<longleftrightarrow>
     (\<exists>key. bearer headers = Some key \<and>
        (\<not> rf \<and> find_live_api_key (le_hash_secret E key) (w_db (it_store s)) \<noteq> None \<or> it_api_key s = Some key))"

lemma record_use_sel [simp]:
  "it_sessions (record_use i instant now k s) = it_sessions s" "w_db (it_store (record_use i instant now k s)) = w_db (it_store s)"
  "it_api_key (record_use i instant now k s) = it_api_key s" "it_audit (record_use i instant now k s) = it_audit s"
  by (simp_all add: record_use_def Let_def enqueue_touch_def send_or_gone_def enqueue_def)

lemma admit_backend_iff:
  assumes "admit_backend E rf instant now k headers s = (r, s')"
  shows "(\<exists>key_id. r = Inr key_id) \<longleftrightarrow> known_backend E rf headers s" and "it_sessions s' = it_sessions s"
    and "w_db (it_store s') = w_db (it_store s)"
  using assms
  by (auto simp: admit_backend_def known_backend_def authenticate_backend_def key_matches_iff
      split: option.splits backend_auth.splits if_splits)

lemma backend_is_authenticated_iff:
  assumes "backend_is_authenticated E rf instant now k headers s = (r, s')"
  shows "r \<longleftrightarrow> known_backend E rf headers s" and "it_sessions s' = it_sessions s"
  using assms
  by (auto simp: backend_is_authenticated_def known_backend_def authenticate_backend_def key_matches_iff
      split: option.splits backend_auth.splits if_splits)

end
