(* ===== verification/Internal_Safety.thy ===== *)
theory Internal_Safety
  imports Internal Store_Records Session_Safety
begin

text \<open>
  The contract of the backend lane: exactly when it hands out an upstream token, exactly when the
  edge lets a request through, and what a revocation cuts off.
\<close>

section \<open>Dual authentication\<close>

definition grant_behind :: "lane_env \<Rightarrow> timestamp \<Rightarrow> custody_id \<Rightarrow> internal_state \<Rightarrow> token_grant \<Rightarrow> bool" where
  "grant_behind E now c s g \<longleftrightarrow>
     (\<exists>row. load_custody (le_crypto E) c (w_db (it_store s)) = Inr (Some row) \<and> now < cr_access_exp row \<and>
        utf8_ok (cr_access_tok row) \<and>
        g = \<lparr>tg_access_token = string_of_bytes (cr_access_tok row), tg_sub = cr_sub row,
             tg_expires_at = cr_access_exp row, tg_scope = cr_scope row\<rparr>)"

lemma read_grant_iff: "read_grant E rf now c s = Inr g \<longleftrightarrow> \<not> rf \<and> grant_behind E now c s g"
  by (auto simp: read_grant_def grant_behind_def from_utf8_def split: sum.splits option.splits if_splits)

lemma grant_behind_cong: "w_db (it_store s') = w_db (it_store s) \<Longrightarrow> grant_behind E now c s' = grant_behind E now c s"
  by (simp add: grant_behind_def fun_eq_iff)

lemma exchange_inner_iff:
  "(\<exists>facts s'. exchange_inner E rf rf' instant now k headers token s = (Inr g, facts, s')) \<longleftrightarrow>
   known_backend E rf headers s \<and>
   (\<exists>meta c. authenticates (resolve (le_token_hash E token) now (it_sessions s)) \<and>
      meta_for (le_token_hash E token) (it_sessions s) = Some meta \<and>
      custody_for (le_token_hash E token) (it_sessions s) = Some c \<and>
      sm_custody meta \<noteq> Dead \<and> \<not> rf' \<and> grant_behind E now c s g)"
proof -
  obtain r s1 where a: "admit_backend E rf instant now k headers s = (r, s1)" by force
  note ad = admit_backend_iff [OF a]
  show ?thesis
  proof (cases r)
    case (Inl e)
    with ad(1) show ?thesis by (auto simp: exchange_inner_def a)
  next
    case (Inr key_id)
    with ad(1) have "known_backend E rf headers s" by blast
    with Inr ad(2,3) show ?thesis
      by (auto simp: exchange_inner_def a Let_def read_grant_iff grant_behind_cong [OF ad(3)] split: if_splits option.splits)
  qed
qed

text \<open>
  C12 (INV-11). The lane gives out an upstream token exactly when both halves hold: the caller
  presents a live issued key or the bootstrap key, and the session token it forwards
  authenticates right now; and then only the token of the grant behind that very session, not
  dead, not expired, as stored. Nothing else the request says matters.
\<close>

theorem exchange_needs_both:
  "(\<exists>s'. exchange E rf rf' instant now now' k peer headers token s = (Granted_Reply g, s')) \<longleftrightarrow>
   known_backend E rf headers s \<and>
   (\<exists>meta c. authenticates (resolve (le_token_hash E token) now' (it_sessions s)) \<and>
      meta_for (le_token_hash E token) (it_sessions s) = Some meta \<and>
      custody_for (le_token_hash E token) (it_sessions s) = Some c \<and>
      sm_custody meta \<noteq> Dead \<and> \<not> rf' \<and> grant_behind E now' c s g)"
  unfolding exchange_inner_iff [symmetric, where instant = instant and k = k]
  by (auto simp: exchange_def split: sum.splits prod.splits option.splits)

section \<open>The edge\<close>

text \<open>
  C20. The edge lets a request through exactly when the edge itself is a known backend, the first
  session cookie authenticates right now, and the subject can be written in a header; the
  subject it announces is then the session's own, never the caller's.
\<close>

theorem authz_allows_exactly:
  "(\<exists>s'. authz_check E rf instant now now' k headers s = (Authz_Allow sub word, s')) \<longleftrightarrow>
   known_backend E rf headers s \<and>
   (\<exists>raw token meta. header_str headers ''cookie'' = Some raw \<and> session_cookie raw = Some token \<and>
      authenticates (resolve (le_token_hash E token) now' (it_sessions s)) \<and>
      meta_for (le_token_hash E token) (it_sessions s) = Some meta \<and> le_header_ok E (sm_sub meta) \<and>
      sub = sm_sub meta \<and> word = custody_word (sm_custody meta))"
proof -
  obtain b s1 where a: "backend_is_authenticated E rf instant now k headers s = (b, s1)" by force
  note ba = backend_is_authenticated_iff [OF a]
  show ?thesis
    by (cases b) (use ba in \<open>auto simp: authz_check_def a Let_def split: option.splits if_splits\<close>)
qed

text \<open>
  The edge takes either cookie name wherever it runs, so a cookie without the \<open>__Host-\<close> prefix,
  which a sibling host can set, wins when it comes first.
\<close>

lemma planted_cookie_wins: "session_cookie ''broker_session=planted; __Host-broker_session=own'' = Some ''planted''"
  by code_simp

section \<open>Revocation\<close>

text \<open>
  C21. Revoking a backend's key cuts it off from both lanes for good: whatever the writer commits
  afterwards and whatever session token it holds, the key gets no upstream token and passes no
  request, unless the deployment's bootstrap key is that same string.
\<close>

theorem revoked_key_opens_nothing:
  assumes "db_ok (w_db w)" and "row \<in> set (api_key_tbl (w_db w))" and "k_revoked_at row \<noteq> None"
    and "k_key_hash row = le_hash_secret E key" and "bearer headers = Some key"
    and "it_store s = run (writer_step cr js) es w" and "it_api_key s \<noteq> Some key"
  shows "(\<nexists>g s'. exchange E rf rf' instant now now' k peer headers token s = (Granted_Reply g, s')) \<and>
     (\<nexists>sub word s'. authz_check E rf instant now now' k headers s = (Authz_Allow sub word, s'))"
proof -
  have "find_live_api_key (le_hash_secret E key) (w_db (it_store s)) = None"
    using dead_api_key [OF assms(1-3) refl, of cr js es] assms(4,6) by simp
  with assms(5,7) have unknown: "\<not> known_backend E rf headers s" by (auto simp: known_backend_def)
  have "\<nexists>facts s' g. exchange_inner E rf rf' instant now' k headers token s = (Inr g, facts, s')"
    using unknown exchange_inner_iff [of E rf rf' instant now' k headers token s] by blast
  moreover obtain b s1 where a: "backend_is_authenticated E rf instant now k headers s = (b, s1)" by force
  moreover from backend_is_authenticated_iff [OF a] unknown have "\<not> b" by simp
  ultimately show ?thesis
    by (auto simp: exchange_def authz_check_def split: sum.splits prod.splits option.splits)
qed

definition demo_lane :: lane_env where
  "demo_lane = \<lparr>le_crypto = demo_crypto, le_hash_secret = bytes_of, le_token_hash = bytes_of,
     le_pseudonym = (\<lambda>s. s), le_gap = (\<lambda>_. []), le_header_ok = (\<lambda>_. True)\<rparr>"

definition demo_internal :: internal_state where
  "demo_internal = \<lparr>it_sessions = new_map default_policy,
     it_store = run (writer_step demo_crypto demo_json)
       [Send (Admin (InsertApiKey ''k2'' ''again'' [9] None 1200) None 9), Turn fine 1] demo_revoked,
     it_api_key = Some ''bootstrap'', it_touches = True, it_last_touch = [], it_audit = None, it_rate_limit = None\<rparr>"

theorem revoked_key_opens_nothing_witness:
  "(\<nexists>g s'. exchange demo_lane False False 0 1300 1300 7 None [(''authorization'', ''Bearer '' @ [CHR 0x09])] ''t'' demo_internal
      = (Granted_Reply g, s')) \<and>
   (\<nexists>sub word s'. authz_check demo_lane False 0 1300 1300 7 [(''authorization'', ''Bearer '' @ [CHR 0x09])] demo_internal
      = (Authz_Allow sub word, s'))"
proof -
  have "\<exists>k \<in> set (api_key_tbl (w_db demo_revoked)). k_revoked_at k \<noteq> None \<and> k_key_hash k = le_hash_secret demo_lane [CHR 0x09]"
    by code_simp
  then obtain k where k: "k \<in> set (api_key_tbl (w_db demo_revoked))" "k_revoked_at k \<noteq> None"
    "k_key_hash k = le_hash_secret demo_lane [CHR 0x09]" by blast
  have "bearer [(''authorization'', ''Bearer '' @ [CHR 0x09])] = Some [CHR 0x09]" by code_simp
  then show ?thesis
    by (rule revoked_key_opens_nothing [OF demo_revoked_ok k, where cr = demo_crypto and js = demo_json and
        es = "[Send (Admin (InsertApiKey ''k2'' ''again'' [9] None 1200) None 9), Turn fine 1]"])
      (simp_all add: demo_internal_def)
qed

end
