(* ===== verification/Mint.thy ===== *)
theory Mint
  imports Issuer Http_Session Providers
begin

text \<open>
  The two token endpoints over the issuer: \<open>POST /session/token\<close> for a signed-in user
  (\<open>http/user_token.rs\<close>) and \<open>POST /auth/token\<close> for a service principal (\<open>http/token.rs\<close>). A
  request carries the readings of the clock, the failures of its store reads and the random
  token id as inputs; JSON and base64 are arguments. Metrics and logs are left out.
\<close>

section \<open>Configuration and state\<close>

record issuer_config =
  ic_issuer :: string
  ic_audiences :: "string list"
  ic_machine_ttl_secs :: nat
  ic_user_ttl_secs :: nat
  ic_max_ttl_secs :: nat
  ic_publish_lead_secs :: nat
  ic_jwks_max_age_secs :: nat
  ic_jwks_uri :: string
  ic_token_endpoint :: string
  ic_default_user_tenant :: "string option"
  ic_default_user_roles :: "string list"

definition key_policy_of :: "issuer_config \<Rightarrow> key_policy" where
  "key_policy_of c = \<lparr>kp_publish_lead_secs = ic_publish_lead_secs c, kp_max_ttl_secs = ic_max_ttl_secs c\<rparr>"

record mint_state =
  mi_sessions :: session_map
  mi_http :: http_config
  mi_config :: issuer_config
  mi_issuer :: issuer
  mi_store :: writer
  mi_audit :: "audit_sink option"
  mi_failures :: "limiter option"

record user_claims =
  uc_iss :: string
  uc_sub :: string
  uc_sid :: string
  uc_aud :: string
  uc_exp :: timestamp
  uc_iat :: timestamp
  uc_jti :: string
  uc_kind :: string
  uc_tenant :: string
  uc_roles :: "string list"
  uc_indexes :: "string list"

record machine_claims =
  mc_iss :: string
  mc_sub :: string
  mc_aud :: string
  mc_exp :: timestamp
  mc_iat :: timestamp
  mc_jti :: string
  mc_tenant :: string
  mc_kind :: string
  mc_name :: string
  mc_scopes :: "string list"
  mc_indexes :: "string list"

record issued_facts =
  if_audience :: string
  if_tenant :: string
  if_kid :: string
  if_jti :: string
  if_ttl :: nat

record mint_env =
  me_issuer :: issuer_env
  me_token_hash :: "session_token \<Rightarrow> token_hash"
  me_user_json :: "user_claims \<Rightarrow> string option"
  me_machine_json :: "machine_claims \<Rightarrow> string option"
  me_parse_request :: "bytes \<Rightarrow> (string \<times> string option) option"
  me_base64 :: "string \<Rightarrow> bytes option"
  me_detail :: "string \<Rightarrow> issued_facts \<Rightarrow> string"
  me_gap :: "nat \<Rightarrow> string"

record mint_draws =
  md_now :: timestamp
  md_sign_now :: timestamp
  md_jti :: string
  md_rf :: bool
  md_rf_tenant :: bool
  md_rf_keys :: bool

definition mint_record :: "mint_env \<Rightarrow> audit_row \<Rightarrow> mint_state \<Rightarrow> mint_state" where
  "mint_record E row s =
     (case mi_audit s of
        None \<Rightarrow> s
      | Some sink \<Rightarrow>
          (let (sink', w) = sink_record (ie_pseudonym (me_issuer E)) (me_gap E) row (sink, mi_store s)
           in s\<lparr>mi_audit := Some sink', mi_store := w\<rparr>))"

section \<open>User tokens\<close>

definition unavailable :: api_error where
  "unavailable = api_error_new Unavailable ''the token could not be issued right now; retry shortly''"

definition not_granted :: api_error where
  "not_granted = api_error_new NotGranted ''this user has no grant for that tenant''"

record user_attempt =
  ua_sub :: "string option"
  ua_sid :: "string option"
  ua_issued :: "issued_facts option"

record user_granted =
  ugr_access_token :: string
  ugr_expires_in :: nat
  ugr_tenant :: string
  ugr_roles :: "string list"
  ugr_indexes :: "string list"

text \<open>What the user may have: tenant, roles and indexes.\<close>

definition entitlement ::
  "mint_env \<Rightarrow> bool \<Rightarrow> bool \<Rightarrow> string \<Rightarrow> string option \<Rightarrow> mint_state \<Rightarrow> api_error + string \<times> string list \<times> string list" where
  "entitlement E rf rf' sub asked_tenant s =
     (case user_grants_of (me_issuer E) rf (mi_store s) sub of
        Inl _ \<Rightarrow> Inl unavailable
      | Inr grants \<Rightarrow>
          if us_live grants = [] \<and> \<not> us_any_row grants
          then
            (case ic_default_user_tenant (mi_config s) of
               None \<Rightarrow> Inl not_granted
             | Some dflt \<Rightarrow>
                 if asked_tenant = None \<or> asked_tenant = Some dflt
                 then
                   (case issuer_tenant_is_disabled rf' (mi_store s) dflt of
                      Inl _ \<Rightarrow> Inl unavailable
                    | Inr True \<Rightarrow> Inl not_granted
                    | Inr False \<Rightarrow> Inr (dflt, ic_default_user_roles (mi_config s), [''*'']))
                 else Inl not_granted)
          else
            (let pick = (\<lambda>g. Inr (gw_tenant_id g, gw_roles g, gw_indexes g))
             in case asked_tenant of
                  Some asked \<Rightarrow>
                    (case find (\<lambda>g. gw_tenant_id g = asked) (us_live grants) of
                       None \<Rightarrow> Inl not_granted | Some g \<Rightarrow> pick g)
                | None \<Rightarrow>
                    (case us_live grants of
                       [] \<Rightarrow> Inl not_granted
                     | [only] \<Rightarrow> pick only
                     | _ \<Rightarrow> Inl (api_error_new BadRequest ''this user holds several tenants: name one in \"tenant\"''))))"

definition user_ttl :: "issuer_config \<Rightarrow> session_meta \<Rightarrow> timestamp \<Rightarrow> nat" where
  "user_ttl c meta now = min (ic_user_ttl_secs c) (nat (max (wrap_i64 (sm_refresh_until meta - now)) 1))"

definition mint_user ::
  "mint_env \<Rightarrow> mint_draws \<Rightarrow> session_meta \<Rightarrow> string \<Rightarrow> string option \<Rightarrow> mint_state \<Rightarrow>
   (api_error + user_granted) \<times> user_attempt \<times> mint_state" where
  "mint_user E D meta audience asked_tenant s =
     (let attempt = \<lparr>ua_sub = Some (sm_sub meta), ua_sid = Some (sm_sid meta), ua_issued = None\<rparr>; c = mi_config s
      in if audience \<notin> set (ic_audiences c)
         then (Inl (api_error_new BadAudience ''this issuer does not issue tokens for that audience''), attempt, s)
         else case entitlement E (md_rf D) (md_rf_tenant D) (sm_sub meta) asked_tenant s of
                Inl e \<Rightarrow> (Inl e, attempt, s)
              | Inr (tenant, roles, indexes) \<Rightarrow>
                  (let ttl = user_ttl c meta (md_now D);
                       claims = \<lparr>uc_iss = ic_issuer c, uc_sub = sm_sub meta, uc_sid = sm_sid meta, uc_aud = audience,
                         uc_exp = plus_secs (md_now D) ttl, uc_iat = md_now D, uc_jti = md_jti D, uc_kind = ''user'',
                         uc_tenant = tenant, uc_roles = roles, uc_indexes = indexes\<rparr>;
                       (r, signer) = sign_with_kid (me_issuer E) (md_rf_keys D) (md_sign_now D) (mi_store s)
                                       (me_user_json E claims) (mi_issuer s);
                       s' = s\<lparr>mi_issuer := signer\<rparr>
                   in case r of
                        Inl _ \<Rightarrow> (Inl unavailable, attempt, s')
                      | Inr (kid, token) \<Rightarrow>
                          (Inr \<lparr>ugr_access_token = token, ugr_expires_in = ttl, ugr_tenant = tenant, ugr_roles = roles,
                                ugr_indexes = indexes\<rparr>,
                           attempt\<lparr>ua_issued := Some \<lparr>if_audience = audience, if_tenant = tenant, if_kid = kid,
                                if_jti = md_jti D, if_ttl = ttl\<rparr>\<rparr>, s')))"

definition no_attempt :: user_attempt where
  "no_attempt = \<lparr>ua_sub = None, ua_sid = None, ua_issued = None\<rparr>"

definition user_issue_inner ::
  "mint_env \<Rightarrow> mint_draws \<Rightarrow> timestamp \<Rightarrow> header_map \<Rightarrow> bytes \<Rightarrow> mint_state \<Rightarrow>
   (api_error + user_granted) \<times> user_attempt \<times> mint_state" where
  "user_issue_inner E D now headers body s =
     (case require_same_origin headers (hc_origin (mi_http s)) False of
        Inl e \<Rightarrow> (Inl e, no_attempt, s)
      | Inr _ \<Rightarrow>
          (case cookie headers (session_cookie_name (mi_http s)) of
             None \<Rightarrow> (Inl (unauthenticated (mi_http s) None), no_attempt, s)
           | Some c \<Rightarrow>
               (let h = me_token_hash E c
                in case resolve h now (mi_sessions s) of
                     StaleRefreshable _ _ \<Rightarrow>
                       (Inl (api_error_new SessionStale ''this session generation has aged out: refresh, then retry''), no_attempt, s)
                   | Active _ _ _ \<Rightarrow>
                       (case meta_for h (mi_sessions s) of
                          None \<Rightarrow> (Inl (unauthenticated (mi_http s) None), no_attempt, s)
                        | Some meta \<Rightarrow>
                            (case me_parse_request E body of
                               None \<Rightarrow> (Inl (api_error_new BadRequest
                                          ''the body must be JSON: {\"audience\": \"...\", \"tenant\": \"...\"}''),
                                        \<lparr>ua_sub = Some (sm_sub meta), ua_sid = Some (sm_sid meta), ua_issued = None\<rparr>, s)
                             | Some (audience, tenant) \<Rightarrow> mint_user E D meta audience tenant s))
                   | other \<Rightarrow> (Inl (denial other (mi_http s) None), no_attempt, s))))"

definition audit_issued :: "mint_env \<Rightarrow> user_attempt \<Rightarrow> timestamp \<Rightarrow> mint_state \<Rightarrow> mint_state" where
  "audit_issued E attempt now s =
     (case (mi_audit s, ua_sub attempt, ua_issued attempt) of
        (Some sink, Some sub, Some facts) \<Rightarrow>
          (let (wanted, sink') = should_record_issuance sub (if_audience facts) now sink; s' = s\<lparr>mi_audit := Some sink'\<rparr>
           in if wanted
              then mint_record E ((event_new ''token.issued'' Outcome_Success Actor_User now)
                     \<lparr>au_subject := Some sub, au_detail := Some (me_detail E ''user'' facts), au_sid := ua_sid attempt\<rparr>) s'
              else s')
      | _ \<Rightarrow> s)"

fun error_code_text :: "error_code \<Rightarrow> string" where
  "error_code_text InvalidSession = ''invalid_session''"
| "error_code_text SessionStale = ''session_stale''"
| "error_code_text SessionExpired = ''session_expired''"
| "error_code_text LoginRequired = ''login_required''"
| "error_code_text UpstreamRevoked_Error = ''upstream_revoked''"
| "error_code_text CsrfRejected = ''csrf_rejected''"
| "error_code_text OauthError_Code = ''oauth_error''"
| "error_code_text BadRequest = ''bad_request''"
| "error_code_text RateLimited = ''rate_limited''"
| "error_code_text NotGranted = ''not_granted''"
| "error_code_text BadAudience = ''bad_audience''"
| "error_code_text LaneDisabled = ''lane_disabled''"
| "error_code_text Unavailable = ''unavailable''"
| "error_code_text NoProviders = ''no_providers''"
| "error_code_text ProviderRequired = ''provider_required''"
| "error_code_text UnknownProvider = ''unknown_provider''"
| "error_code_text ProviderDisabled_Code = ''provider_disabled''"
| "error_code_text ProviderUnavailable_Code = ''provider_unavailable''"

definition audit_refused :: "mint_env \<Rightarrow> user_attempt \<Rightarrow> string \<Rightarrow> timestamp \<Rightarrow> mint_state \<Rightarrow> mint_state" where
  "audit_refused E attempt code now s =
     (case ua_sub attempt of
        None \<Rightarrow> s
      | Some sub \<Rightarrow>
          if code = ''unavailable'' then s
          else mint_record E ((event_new ''token.issuance_refused'' Outcome_Failure Actor_User now)
                 \<lparr>au_subject := Some sub, au_reason := Some code, au_sid := ua_sid attempt\<rparr>) s)"

text \<open>\<open>issue\<close>; \<open>enabled\<close> says whether the lane has an issuer.\<close>

definition user_issue ::
  "mint_env \<Rightarrow> bool \<Rightarrow> mint_draws \<Rightarrow> timestamp \<Rightarrow> timestamp \<Rightarrow> header_map \<Rightarrow> bytes \<Rightarrow> mint_state \<Rightarrow>
   (api_error + user_granted) \<times> mint_state" where
  "user_issue E enabled D now now' headers body s =
     (if \<not> enabled
      then (Inl (api_error_new LaneDisabled
              ''The token issuer is not configured: set token_issuer and issuer_audiences.''), s)
      else case user_issue_inner E D now' headers body s of
             (Inr g, attempt, s') \<Rightarrow> (Inr g, audit_issued E attempt now s')
           | (Inl e, attempt, s') \<Rightarrow> (Inl e, audit_refused E attempt (error_code_text (ae_error e)) now s'))"

section \<open>Machine tokens\<close>

record machine_refusal =
  mr_status :: nat
  mr_error :: string
  mr_description :: string

definition invalid_request :: "string \<Rightarrow> machine_refusal" where
  "invalid_request d = \<lparr>mr_status = 400, mr_error = ''invalid_request'', mr_description = d\<rparr>"

definition invalid_client :: machine_refusal where
  "invalid_client = \<lparr>mr_status = 401, mr_error = ''invalid_client'', mr_description = ''Client authentication failed.''\<rparr>"

definition temporarily_unavailable :: machine_refusal where
  "temporarily_unavailable = \<lparr>mr_status = 503, mr_error = ''temporarily_unavailable'',
     mr_description = ''The token could not be issued right now. Retry shortly.''\<rparr>"

record machine_attempt =
  ma_client_id :: "string option"
  ma_kind :: "string option"
  ma_issued :: "issued_facts option"

definition no_machine_attempt :: machine_attempt where
  "no_machine_attempt = \<lparr>ma_client_id = None, ma_kind = None, ma_issued = None\<rparr>"

record machine_granted =
  mg_access_token :: string
  mg_expires_in :: nat
  mg_scope :: string

text \<open>A parameter sent twice is an error; an empty one counts as absent.\<close>

definition form_field :: "(string \<times> string) list \<Rightarrow> string \<Rightarrow> machine_refusal + string option" where
  "form_field params name =
     (case map snd (filter (\<lambda>f. fst f = name) params) of
        [] \<Rightarrow> Inr None
      | [v] \<Rightarrow> Inr (if v = [] then None else Some v)
      | _ \<Rightarrow> Inl (invalid_request ''A parameter was sent more than once.''))"

definition digit_value :: "char \<Rightarrow> nat" where
  "digit_value c = of_char c - 48"

definition is_digit :: "char \<Rightarrow> bool" where
  "is_digit c \<longleftrightarrow> 48 \<le> (of_char c :: nat) \<and> (of_char c :: nat) \<le> 57"

text \<open>\<open>str::parse::<u64>\<close>: an optional plus sign, digits, no overflow.\<close>

definition parse_u64 :: "string \<Rightarrow> nat option" where
  "parse_u64 s =
     (let ds = (case s of c # cs \<Rightarrow> if c = CHR ''+'' then cs else s | [] \<Rightarrow> []);
          n = foldl (\<lambda>n c. 10 * n + digit_value c) 0 ds
      in if ds \<noteq> [] \<and> list_all is_digit ds \<and> n \<le> u64_max then Some n else None)"

definition id_char :: "char \<Rightarrow> bool" where
  "id_char c \<longleftrightarrow> is_digit c \<or> 65 \<le> (of_char c :: nat) \<and> (of_char c :: nat) \<le> 90 \<or>
     97 \<le> (of_char c :: nat) \<and> (of_char c :: nat) \<le> 122 \<or> c = CHR ''_'' \<or> c = CHR ''-''"

definition is_principal_id :: "string \<Rightarrow> bool" where
  "is_principal_id value \<longleftrightarrow>
     length value \<le> 64 \<and> (case strip_prefix ''sp_'' value of None \<Rightarrow> False | Some rest \<Rightarrow> rest \<noteq> [] \<and> list_all id_char rest)"

definition basic_credentials :: "mint_env \<Rightarrow> header_map \<Rightarrow> machine_refusal + (string \<times> string) option" where
  "basic_credentials E headers =
     (case map_of headers ''authorization'' of
        None \<Rightarrow> Inr None
      | Some value \<Rightarrow>
          (case Option.bind (header_to_str value) (split_once (CHR '' '')) of
             None \<Rightarrow> Inl invalid_client
           | Some (scheme, rest) \<Rightarrow>
               if \<not> eq_ignore_ascii_case scheme ''basic'' then Inl invalid_client
               else case Option.bind (me_base64 E (trim rest)) from_utf8 of
                      None \<Rightarrow> Inl invalid_client
                    | Some decoded \<Rightarrow>
                        (case split_once (CHR '':'') decoded of
                           None \<Rightarrow> Inl invalid_client
                         | Some cred \<Rightarrow> Inr (Some cred))))"

definition choose_credentials ::
  "(string \<times> string) option \<Rightarrow> string option \<Rightarrow> string option \<Rightarrow> machine_refusal + string \<times> string" where
  "choose_credentials basic body_id body_secret =
     (case (basic, body_id, body_secret) of
        (Some _, _, Some _) \<Rightarrow>
          Inl (invalid_request ''Send the client secret in the Authorization header or in the body, not both.'')
      | (Some (i, secret), Some other, None) \<Rightarrow>
          if i \<noteq> other then Inl (invalid_request ''client_id in the body does not match the Authorization header.'')
          else Inr (i, secret)
      | (Some (i, secret), None, None) \<Rightarrow> Inr (i, secret)
      | (None, Some i, Some secret) \<Rightarrow> Inr (i, secret)
      | (None, _, _) \<Rightarrow> Inl invalid_client)"

fun narrow_scopes :: "string list \<Rightarrow> string list \<Rightarrow> string list \<Rightarrow> machine_refusal + string list" where
  "narrow_scopes held [] narrowed = Inr narrowed"
| "narrow_scopes held (scope # rest) narrowed =
     (if scope \<notin> set held
      then Inl \<lparr>mr_status = 400, mr_error = ''invalid_scope'',
             mr_description = ''The requested scope is not one this principal holds.''\<rparr>
      else narrow_scopes held rest (if scope \<in> set narrowed then narrowed else narrowed @ [scope]))"

definition requested_scopes :: "string list \<Rightarrow> string option \<Rightarrow> machine_refusal + string list" where
  "requested_scopes held requested =
     (case requested of
        None \<Rightarrow> Inr held
      | Some r \<Rightarrow>
          bindE (narrow_scopes held (filter (\<lambda>s. s \<noteq> []) (split_on (CHR '' '') r)) []) (\<lambda>narrowed.
            Inr (if narrowed = [] then held else narrowed)))"

definition machine_ttl :: "issuer_config \<Rightarrow> principal_row \<Rightarrow> nat option \<Rightarrow> machine_refusal + nat" where
  "machine_ttl c p asked =
     (let ceiling = min (pr_max_ttl_secs p) (ic_max_ttl_secs c)
      in case asked of
           Some n \<Rightarrow> if ceiling < n then Inl (invalid_request ''ttl is longer than this principal's maximum token lifetime.'')
                     else Inr n
         | None \<Rightarrow> Inr (min (ic_machine_ttl_secs c) ceiling))"

fun join_words :: "string list \<Rightarrow> string" where
  "join_words [] = []"
| "join_words [w] = w"
| "join_words (w # ws) = w @ '' '' @ join_words ws"

definition parse_ttl :: "string option \<Rightarrow> machine_refusal + nat option" where
  "parse_ttl raw =
     (case raw of
        None \<Rightarrow> Inr None
      | Some r \<Rightarrow>
          (case parse_u64 r of
             Some n \<Rightarrow> if 0 < n then Inr (Some n) else Inl (invalid_request ''ttl must be a whole number of seconds, at least 1.'')
           | None \<Rightarrow> Inl (invalid_request ''ttl must be a whole number of seconds, at least 1.'')))"

text \<open>The request as far as the credentials: ttl, scope, id and secret.\<close>

definition read_request ::
  "mint_env \<Rightarrow> header_map \<Rightarrow> nat + (string \<times> string) list \<Rightarrow>
   machine_refusal + nat option \<times> string option \<times> string \<times> string" where
  "read_request E headers form =
     (case form of
        Inl status \<Rightarrow> Inl \<lparr>mr_status = (if status = 413 then 413 else 400), mr_error = ''invalid_request'',
            mr_description = ''The body must be application/x-www-form-urlencoded.''\<rparr>
      | Inr params \<Rightarrow>
          bindE (form_field params ''grant_type'') (\<lambda>grant_type.
            if grant_type = None then Inl (invalid_request ''grant_type is required.'')
            else if grant_type \<noteq> Some ''client_credentials''
            then Inl \<lparr>mr_status = 400, mr_error = ''unsupported_grant_type'',
                   mr_description = ''Only grant_type=client_credentials is supported.''\<rparr>
            else bindE (bindE (form_field params ''ttl'') parse_ttl) (\<lambda>ttl.
                 bindE (form_field params ''scope'') (\<lambda>scope.
                 bindE (form_field params ''client_id'') (\<lambda>body_id.
                 bindE (form_field params ''client_secret'') (\<lambda>body_secret.
                 bindE (basic_credentials E headers) (\<lambda>basic.
                 bindE (choose_credentials basic body_id body_secret) (\<lambda>(client_id, secret).
                   Inr (ttl, scope, client_id, secret)))))))))"

definition find_principal ::
  "mint_env \<Rightarrow> bool \<Rightarrow> timestamp \<Rightarrow> string \<Rightarrow> string \<Rightarrow> mint_state \<Rightarrow> machine_refusal + principal_row" where
  "find_principal E rf now client_id secret s =
     (if take 4 secret \<noteq> ''sbp_'' \<or> 128 < length secret then Inl invalid_client
      else case authenticate (me_issuer E) rf now (mi_store s) secret of
             Inl _ \<Rightarrow> Inl temporarily_unavailable
           | Inr (Some p) \<Rightarrow> if pr_principal_id p = client_id then Inr p else Inl invalid_client
           | Inr None \<Rightarrow> Inl invalid_client)"

definition sign_machine ::
  "mint_env \<Rightarrow> mint_draws \<Rightarrow> ack \<Rightarrow> timestamp \<Rightarrow> principal_row \<Rightarrow> string list \<Rightarrow> nat \<Rightarrow> machine_attempt \<Rightarrow> mint_state \<Rightarrow>
   (machine_refusal + machine_granted) \<times> machine_attempt \<times> mint_state" where
  "sign_machine E D k use_now p scopes ttl attempt s =
     (let c = mi_config s;
          claims = \<lparr>mc_iss = ic_issuer c, mc_sub = pr_principal_id p, mc_aud = pr_audience p,
            mc_exp = plus_secs (md_now D) ttl, mc_iat = md_now D, mc_jti = md_jti D, mc_tenant = pr_tenant_id p,
            mc_kind = pr_kind p, mc_name = pr_name p, mc_scopes = scopes, mc_indexes = pr_indexes p\<rparr>;
          (r, signer) = sign_with_kid (me_issuer E) (md_rf_keys D) (md_sign_now D) (mi_store s) (me_machine_json E claims) (mi_issuer s)
      in case r of
           Inl _ \<Rightarrow> (Inl temporarily_unavailable, attempt, s\<lparr>mi_issuer := signer\<rparr>)
         | Inr (kid, token) \<Rightarrow>
             (let (signer', w) = record_principal_use (pr_principal_id p) use_now k (signer, mi_store s)
              in (Inr \<lparr>mg_access_token = token, mg_expires_in = ttl, mg_scope = join_words scopes\<rparr>,
                  attempt\<lparr>ma_issued := Some \<lparr>if_audience = pr_audience p, if_tenant = pr_tenant_id p, if_kid = kid,
                     if_jti = md_jti D, if_ttl = ttl\<rparr>\<rparr>,
                  s\<lparr>mi_issuer := signer', mi_store := w\<rparr>)))"

definition machine_issue_inner ::
  "mint_env \<Rightarrow> mint_draws \<Rightarrow> ack \<Rightarrow> timestamp \<Rightarrow> timestamp \<Rightarrow> header_map \<Rightarrow> nat + (string \<times> string) list \<Rightarrow> mint_state \<Rightarrow>
   (machine_refusal + machine_granted) \<times> machine_attempt \<times> mint_state" where
  "machine_issue_inner E D k auth_now use_now headers form s =
     (case read_request E headers form of
        Inl r \<Rightarrow> (Inl r, no_machine_attempt, s)
      | Inr (asked_ttl, scope, client_id, secret) \<Rightarrow>
          if \<not> is_principal_id client_id then (Inl invalid_client, no_machine_attempt, s)
          else
            (let attempt = no_machine_attempt\<lparr>ma_client_id := Some client_id\<rparr>
             in case find_principal E (md_rf D) auth_now client_id secret s of
                  Inl r \<Rightarrow> (Inl r, attempt, s)
                | Inr p \<Rightarrow>
                    (let attempt' = attempt\<lparr>ma_kind := Some (pr_kind p)\<rparr>
                     in if pr_audience p \<notin> set (ic_audiences (mi_config s))
                        then (Inl \<lparr>mr_status = 400, mr_error = ''unauthorized_client'', mr_description =
                                ''This principal's audience is not one this issuer is configured for (issuer_audiences).''\<rparr>, attempt', s)
                        else case requested_scopes (pr_scopes p) scope of
                               Inl r \<Rightarrow> (Inl r, attempt', s)
                             | Inr scopes \<Rightarrow>
                                 (case machine_ttl (mi_config s) p asked_ttl of
                                    Inl r \<Rightarrow> (Inl r, attempt', s)
                                  | Inr ttl \<Rightarrow> sign_machine E D k use_now p scopes ttl attempt' s))))"

definition spend_failure ::
  "mint_env \<Rightarrow> bool \<Rightarrow> nat \<Rightarrow> machine_attempt \<Rightarrow> mint_state \<Rightarrow> nat option \<times> mint_state" where
  "spend_failure E rf instant attempt s =
     (case mi_failures s of
        None \<Rightarrow> (None, s)
      | Some l \<Rightarrow>
          (let known = (\<lambda>i. case principal_exists (me_issuer E) rf (mi_store s) i of Inr b \<Rightarrow> b | Inl _ \<Rightarrow> False);
               i = (case ma_client_id attempt of Some i \<Rightarrow> if known i then i else ''unknown'' | None \<Rightarrow> ''unknown'')
           in case check_at (''issuer_client:'' @ i) instant l of
                (Allow, l') \<Rightarrow> (None, s\<lparr>mi_failures := Some l'\<rparr>)
              | (Deny retry_after, l') \<Rightarrow> (Some (max (retry_after div 1000000000) 1), s\<lparr>mi_failures := Some l'\<rparr>)))"

datatype machine_reply =
    Machine_Granted machine_granted
  | Machine_Refused nat string string
  | Machine_Limited nat
  | Machine_Disabled

definition record_machine_issued :: "mint_env \<Rightarrow> machine_attempt \<Rightarrow> timestamp \<Rightarrow> mint_state \<Rightarrow> mint_state" where
  "record_machine_issued E attempt now s =
     (case (mi_audit s, ma_client_id attempt, ma_issued attempt) of
        (Some sink, Some i, Some facts) \<Rightarrow>
          (let (wanted, sink') = should_record_issuance i (if_audience facts) now sink; s' = s\<lparr>mi_audit := Some sink'\<rparr>;
               kind = (case ma_kind attempt of Some x \<Rightarrow> x | None \<Rightarrow> ''machine'')
           in if wanted
              then mint_record E ((event_new ''token.issued'' Outcome_Success Actor_Backend now)
                     \<lparr>au_actor_id := Some i, au_key_id := Some i, au_detail := Some (me_detail E kind facts)\<rparr>) s'
              else s')
      | _ \<Rightarrow> s)"

definition record_machine_refused :: "mint_env \<Rightarrow> machine_attempt \<Rightarrow> machine_refusal \<Rightarrow> timestamp \<Rightarrow> mint_state \<Rightarrow> mint_state" where
  "record_machine_refused E attempt r now s =
     (if mr_error r \<in> {''invalid_request'', ''unsupported_grant_type'', ''temporarily_unavailable''} \<and> ma_kind attempt = None
      then s
      else mint_record E ((event_new ''token.issuance_refused'' Outcome_Failure Actor_Backend now)
             \<lparr>au_reason := Some (mr_error r), au_actor_id := ma_client_id attempt, au_key_id := ma_client_id attempt\<rparr>) s)"

definition machine_issue ::
  "mint_env \<Rightarrow> bool \<Rightarrow> mint_draws \<Rightarrow> ack \<Rightarrow> timestamp \<Rightarrow> timestamp \<Rightarrow> timestamp \<Rightarrow> nat \<Rightarrow> bool \<Rightarrow> header_map \<Rightarrow>
   nat + (string \<times> string) list \<Rightarrow> mint_state \<Rightarrow> machine_reply \<times> mint_state" where
  "machine_issue E enabled D k now auth_now use_now instant rf headers form s =
     (if \<not> enabled then (Machine_Disabled, s)
      else case machine_issue_inner E D k auth_now use_now headers form s of
             (Inr g, attempt, s') \<Rightarrow> (Machine_Granted g, record_machine_issued E attempt now s')
           | (Inl r, attempt, s') \<Rightarrow>
               (case (if mr_error r = ''invalid_client'' then spend_failure E rf instant attempt s' else (None, s')) of
                  (Some secs, s2) \<Rightarrow> (Machine_Limited secs, s2)
                | (None, s2) \<Rightarrow> (Machine_Refused (mr_status r) (mr_error r) (mr_description r),
                                 record_machine_refused E attempt r now s2)))"

end
