(* ===== verification/Config.thy ===== *)
theory Config
  imports Mint
begin

text \<open>
  \<open>config.rs\<close>: settings from the environment over an optional file over the defaults, parsed and
  validated once at boot. \<open>env\<close> is the process environment; parsing a socket address is an
  argument. A string is its UTF-8 bytes, so white space and control characters are looked for by
  their encodings. An error keeps the field it names, not the wording of its message.
\<close>

section \<open>Characters\<close>

text \<open>\<open>char::is_whitespace\<close>, each character as its bytes.\<close>

definition white_codes :: "string list" where
  "white_codes =
     map (\<lambda>n. [char_of (n :: nat)]) [9, 10, 11, 12, 13, 32] @
     map (\<lambda>n. [char_of (0xC2 :: nat), char_of (n :: nat)]) [0x85, 0xA0] @
     [[char_of (0xE1 :: nat), char_of (0x9A :: nat), char_of (0x80 :: nat)]] @
     map (\<lambda>n. [char_of (0xE2 :: nat), char_of (0x80 :: nat), char_of (n :: nat)]) ([0x80..<0x8B] @ [0xA8, 0xA9, 0xAF]) @
     [[char_of (0xE2 :: nat), char_of (0x81 :: nat), char_of (0x9F :: nat)],
      [char_of (0xE3 :: nat), char_of (0x80 :: nat), char_of (0x80 :: nat)]]"

text \<open>\<open>char::is_control\<close>.\<close>

definition control_codes :: "string list" where
  "control_codes =
     map (\<lambda>n. [char_of (n :: nat)]) ([0..<32] @ [127]) @
     map (\<lambda>n. [char_of (0xC2 :: nat), char_of (n :: nat)]) [0x80..<0xA0]"

definition starts_any :: "string list \<Rightarrow> string \<Rightarrow> string option" where
  "starts_any codes s = find (\<lambda>c. strip_prefix c s \<noteq> None) codes"

fun contains_any :: "string list \<Rightarrow> string \<Rightarrow> bool" where
  "contains_any codes [] \<longleftrightarrow> False"
| "contains_any codes (c # cs) \<longleftrightarrow> starts_any codes (c # cs) \<noteq> None \<or> contains_any codes cs"

text \<open>\<open>str::trim\<close>: the fuel is the length, and each round removes at least one byte.\<close>

fun strip_codes :: "string list \<Rightarrow> nat \<Rightarrow> string \<Rightarrow> string" where
  "strip_codes codes 0 s = s"
| "strip_codes codes (Suc n) s =
     (case starts_any codes s of None \<Rightarrow> s | Some c \<Rightarrow> strip_codes codes n (drop (length c) s))"

definition trim_text :: "string \<Rightarrow> string" where
  "trim_text s =
     (let front = strip_codes white_codes (length s) s
      in rev (strip_codes (map rev white_codes) (length front) (rev front)))"

definition char_count :: "string \<Rightarrow> nat" where
  "char_count s = length (filter (\<lambda>c. \<not> (128 \<le> (of_char c :: nat) \<and> (of_char c :: nat) < 192)) s)"

definition lower_ascii :: "string \<Rightarrow> string" where
  "lower_ascii = map (\<lambda>c. if 65 \<le> (of_char c :: nat) \<and> (of_char c :: nat) \<le> 90 then char_of ((of_char c :: nat) + 32) else c)"

definition upper_ascii :: "string \<Rightarrow> string" where
  "upper_ascii = map (\<lambda>c. if 97 \<le> (of_char c :: nat) \<and> (of_char c :: nat) \<le> 122 then char_of ((of_char c :: nat) - 32) else c)"

definition strip_suffix :: "string \<Rightarrow> string \<Rightarrow> string option" where
  "strip_suffix t s = map_option rev (strip_prefix (rev t) (rev s))"

section \<open>Sources\<close>

type_synonym settings = "(string, string) dmap"

datatype config_error = Invalid string | Read_File string

definition parse_line :: "string \<Rightarrow> (string \<times> string) option" where
  "parse_line raw =
     (let line = trim_text raw
      in if line = [] \<or> hd line = CHR ''#'' \<or> hd line = CHR ''['' then None
         else case split_once (CHR ''='') line of
                None \<Rightarrow> None
              | Some (key, value) \<Rightarrow>
                  (let v = trim_text value;
                       v' = (case strip_prefix [CHR 0x22] v of
                               Some rest \<Rightarrow> (case strip_suffix [CHR 0x22] rest of Some inner \<Rightarrow> inner | None \<Rightarrow> rest)
                             | None \<Rightarrow> trim_text (hd (split_on (CHR ''#'') v)))
                   in Some (trim_text key, v')))"

definition parse_simple_toml :: "string \<Rightarrow> settings" where
  "parse_simple_toml input =
     fold (\<lambda>line out. case parse_line line of None \<Rightarrow> out | Some (k, v) \<Rightarrow> dinsert k v out) (split_on (CHR 0x0A) input) []"

definition load_file_settings ::
  "(string \<Rightarrow> string option) \<Rightarrow> (string \<Rightarrow> bool) \<Rightarrow> (string \<Rightarrow> string option) \<Rightarrow> config_error + settings" where
  "load_file_settings env exists read_file =
     (let path = (case env ''BROKER_CONFIG_FILE'' of
                    Some p \<Rightarrow> Some p
                  | None \<Rightarrow> if exists ''session-broker.toml'' then Some ''session-broker.toml'' else None)
      in case path of
           None \<Rightarrow> Inr []
         | Some p \<Rightarrow>
             (case read_file p of None \<Rightarrow> Inl (Read_File p) | Some contents \<Rightarrow> Inr (parse_simple_toml contents)))"

record sources =
  so_env :: "string \<Rightarrow> string option"
  so_file :: settings

definition get_setting :: "sources \<Rightarrow> string \<Rightarrow> string option" where
  "get_setting src field =
     (case so_env src (''BROKER_'' @ upper_ascii field) of
        Some (c # cs) \<Rightarrow> Some (c # cs)
      | _ \<Rightarrow> dget (so_file src) field)"

definition get_or :: "sources \<Rightarrow> string \<Rightarrow> string \<Rightarrow> string" where
  "get_or src field dflt = (case get_setting src field of Some v \<Rightarrow> v | None \<Rightarrow> dflt)"

definition parse_field :: "(string \<Rightarrow> 'a option) \<Rightarrow> sources \<Rightarrow> string \<Rightarrow> string \<Rightarrow> config_error + 'a" where
  "parse_field parse src field dflt =
     (case parse (get_or src field dflt) of Some v \<Rightarrow> Inr v | None \<Rightarrow> Inl (Invalid field))"

text \<open>Unsigned parsing at a width: as \<open>parse_u64\<close>, with the type's own maximum.\<close>

definition parse_u32 :: "string \<Rightarrow> nat option" where
  "parse_u32 s = (case parse_u64 s of Some n \<Rightarrow> if n < 2 ^ 32 then Some n else None | None \<Rightarrow> None)"

definition parse_bool :: "sources \<Rightarrow> string \<Rightarrow> bool \<Rightarrow> config_error + bool" where
  "parse_bool src field dflt =
     (let raw = lower_ascii (get_or src field (if dflt then ''true'' else ''false''))
      in if raw \<in> {''true'', ''1'', ''yes'', ''on''} then Inr True
         else if raw \<in> {''false'', ''0'', ''no'', ''off''} then Inr False
         else Inl (Invalid field))"

definition parse_revocation_policy :: "sources \<Rightarrow> config_error + revocation_policy" where
  "parse_revocation_policy src =
     (let raw = lower_ascii (get_or src ''on_upstream_revoked'' ''kill'')
      in if raw = ''kill'' then Inr Kill
         else if raw = ''degrade'' then Inr Degrade
         else Inl (Invalid ''on_upstream_revoked''))"

section \<open>Validation\<close>

definition cut_any :: "char list \<Rightarrow> string \<Rightarrow> string" where
  "cut_any seps s = takeWhile (\<lambda>c. c \<notin> set seps) s"

definition validate_http_url :: "string \<Rightarrow> string \<Rightarrow> config_error + unit" where
  "validate_http_url field url =
     (if contains_any white_codes url then Inl (Invalid field)
      else case (case strip_prefix ''https://'' url of Some r \<Rightarrow> Some r | None \<Rightarrow> strip_prefix ''http://'' url) of
             None \<Rightarrow> Inl (Invalid field)
           | Some rest \<Rightarrow>
               if cut_any '':'' (cut_any ''/?#'' rest) = [] then Inl (Invalid field) else Inr ())"

definition is_slug :: "string \<Rightarrow> bool" where
  "is_slug s \<longleftrightarrow>
     (let low = (\<lambda>c. 97 \<le> (of_char c :: nat) \<and> (of_char c :: nat) \<le> 122 \<or> is_digit c)
      in 1 \<le> length s \<and> length s \<le> 63 \<and> low (hd s) \<and> list_all (\<lambda>c. low c \<or> c = CHR ''-'') s)"

definition max_token_ttl_secs :: nat where
  "max_token_ttl_secs = 31536000"

definition max_publish_lead_secs :: nat where
  "max_publish_lead_secs = 2592000"

text \<open>A comma-separated list of words, in order, without repeats.\<close>

definition is_word :: "string \<Rightarrow> bool" where
  "is_word w \<longleftrightarrow> w \<noteq> [] \<and> char_count w \<le> 128 \<and> \<not> contains_any white_codes w \<and> \<not> contains_any control_codes w"

fun add_words :: "string \<Rightarrow> string list \<Rightarrow> string list \<Rightarrow> config_error + string list" where
  "add_words field [] out = Inr out"
| "add_words field (w # ws) out =
     (if \<not> is_word w then Inl (Invalid field)
      else add_words field ws (if w \<in> set out then out else out @ [w]))"

definition word_list :: "string \<Rightarrow> string \<Rightarrow> config_error + string list" where
  "word_list field raw = add_words field (map trim_text (split_on (CHR '','') raw)) []"

definition require :: "bool \<Rightarrow> string \<Rightarrow> config_error + unit" where
  "require b field = (if b then Inr () else Inl (Invalid field))"

definition default_tenant :: "sources \<Rightarrow> config_error + string option" where
  "default_tenant src =
     (let slug = trim_text (get_or src ''default_user_tenant'' ''default'')
      in if slug = [] \<or> slug = ''none'' then Inr None
         else if is_slug slug then Inr (Some slug)
         else Inl (Invalid ''default_user_tenant''))"

definition issuer_settings :: "sources \<Rightarrow> string \<Rightarrow> string \<Rightarrow> string \<Rightarrow> config_error + issuer_config" where
  "issuer_settings src base_url raw_issuer audiences =
     bindE (validate_http_url ''token_issuer'' raw_issuer) (\<lambda>_.
     bindE (require (CHR ''?'' \<notin> set raw_issuer \<and> CHR ''#'' \<notin> set raw_issuer) ''token_issuer'') (\<lambda>_.
       let issuer = trim_end_slashes raw_issuer; base = trim_end_slashes base_url
       in
       bindE (require (issuer = base \<or> strip_prefix (base @ ''/'') issuer \<noteq> None) ''token_issuer'') (\<lambda>_.
       bindE (word_list ''issuer_audiences'' audiences) (\<lambda>auds.
       bindE (parse_field parse_u64 src ''issuer_machine_ttl_secs'' ''86400'') (\<lambda>machine_ttl.
       bindE (parse_field parse_u64 src ''issuer_user_ttl_secs'' ''3600'') (\<lambda>user_ttl.
       bindE (parse_field parse_u64 src ''issuer_max_ttl_secs'' ''2592000'') (\<lambda>max_ttl.
       bindE (parse_field parse_u64 src ''signing_key_publish_lead_secs'' ''86400'') (\<lambda>lead.
       bindE (parse_field parse_u64 src ''issuer_jwks_max_age_secs'' ''300'') (\<lambda>max_age.
       bindE (require (1 \<le> max_ttl \<and> max_ttl \<le> max_token_ttl_secs) ''issuer_max_ttl_secs'') (\<lambda>_.
       bindE (require (machine_ttl \<noteq> 0 \<and> machine_ttl \<le> max_ttl) ''issuer_machine_ttl_secs'') (\<lambda>_.
       bindE (require (user_ttl \<noteq> 0 \<and> user_ttl \<le> max_ttl) ''issuer_user_ttl_secs'') (\<lambda>_.
       bindE (require (1 \<le> lead \<and> lead \<le> max_publish_lead_secs) ''signing_key_publish_lead_secs'') (\<lambda>_.
       bindE (require (max_age \<le> 86400) ''issuer_jwks_max_age_secs'') (\<lambda>_.
       bindE (default_tenant src) (\<lambda>tenant.
       bindE (word_list ''default_user_roles'' (get_or src ''default_user_roles'' ''viewer'')) (\<lambda>roles.
         Inr \<lparr>ic_issuer = issuer, ic_audiences = auds, ic_machine_ttl_secs = machine_ttl, ic_user_ttl_secs = user_ttl,
              ic_max_ttl_secs = max_ttl, ic_publish_lead_secs = lead, ic_jwks_max_age_secs = max_age,
              ic_jwks_uri = base @ ''/auth/jwks.json'', ic_token_endpoint = base @ ''/auth/token'',
              ic_default_user_tenant = tenant, ic_default_user_roles = roles\<rparr>))))))))))))))))"

definition issuer_config_of :: "sources \<Rightarrow> string \<Rightarrow> config_error + issuer_config option" where
  "issuer_config_of src base_url =
     (case (get_setting src ''token_issuer'', get_setting src ''issuer_audiences'') of
        (None, None) \<Rightarrow> Inr None
      | (Some _, None) \<Rightarrow> Inl (Invalid ''issuer_audiences'')
      | (None, Some _) \<Rightarrow> Inl (Invalid ''token_issuer'')
      | (Some issuer, Some audiences) \<Rightarrow>
          bindE (issuer_settings src base_url issuer audiences) (\<lambda>c. Inr (Some c)))"

definition is_plaintext_off_loopback :: "issuer_config \<Rightarrow> bool" where
  "is_plaintext_off_loopback c =
     (case strip_prefix ''http://'' (ic_issuer c) of
        None \<Rightarrow> False
      | Some rest \<Rightarrow>
          (let authority = cut_any ''/?#'' rest;
               host = (case strip_prefix ''['' authority of Some v6 \<Rightarrow> cut_any '']'' v6 | None \<Rightarrow> cut_any '':'' authority)
           in host \<notin> {''localhost'', ''127.0.0.1'', ''::1''}))"

section \<open>The broker's configuration\<close>

datatype log_format = Log_Text | Log_Json

datatype file_rotation = Daily | Hourly | Never

definition log_format_of :: "string \<Rightarrow> log_format option" where
  "log_format_of raw =
     (let s = lower_ascii raw
      in if s \<in> {''text'', ''plain'', ''human''} then Some Log_Text else if s = ''json'' then Some Log_Json else None)"

definition file_rotation_of :: "string \<Rightarrow> file_rotation option" where
  "file_rotation_of raw =
     (let s = lower_ascii raw
      in if s = ''daily'' then Some Daily else if s = ''hourly'' then Some Hourly
         else if s = ''never'' \<or> s = ''none'' then Some Never else None)"

definition subject_mode_of :: "string \<Rightarrow> subject_mode option" where
  "subject_mode_of raw =
     (let s = lower_ascii raw
      in if s = ''plain'' then Some Plain else if s = ''hashed'' \<or> s = ''pseudonymous'' then Some Hashed else None)"

record log_config =
  lc_format :: log_format
  lc_default_filter :: string
  lc_file :: "string option"
  lc_file_rotation :: file_rotation
  lc_queue_capacity :: nat
  lc_override_max_secs :: nat

record rate_limit_config =
  rl_enabled :: bool
  rl_client_ip_header :: "string option"
  rl_login_burst :: nat
  rl_login_per_secs :: nat
  rl_auth_failure_burst :: nat
  rl_auth_failure_per_secs :: nat
  rl_max_tracked :: nat

definition default_rate_limit :: rate_limit_config where
  "default_rate_limit = \<lparr>rl_enabled = True, rl_client_ip_header = None, rl_login_burst = 30, rl_login_per_secs = 60,
     rl_auth_failure_burst = 10, rl_auth_failure_per_secs = 60, rl_max_tracked = 16384\<rparr>"

record broker_config =
  bc_bind_addr :: string
  bc_internal_bind_addr :: string
  bc_base_url :: string
  bc_db_path :: string
  bc_keyfile_path :: string
  bc_oidc :: oidc_config
  bc_redirect_uri :: "string option"
  bc_session_policy :: session_policy
  bc_error_page_path :: string
  bc_broker_api_key :: "string option"
  bc_admin_api_key :: "string option"
  bc_log :: log_config
  bc_metrics_enabled :: bool
  bc_audit :: audit_config
  bc_reap_after_secs :: nat
  bc_rate_limit :: rate_limit_config
  bc_max_body_bytes :: nat
  bc_request_timeout_secs :: nat
  bc_shutdown_grace_secs :: nat
  bc_shutdown_drain_delay_secs :: nat
  bc_issuer :: "issuer_config option"

definition oidc_scopes :: "sources \<Rightarrow> string list" where
  "oidc_scopes src =
     (case get_setting src ''oidc_scopes'' of
        None \<Rightarrow> [''openid'', ''offline_access'']
      | Some raw \<Rightarrow> filter (\<lambda>s. s \<noteq> []) (map trim_text (split_on (CHR '','') raw)))"

definition oidc_settings :: "sources \<Rightarrow> string \<Rightarrow> config_error + oidc_config \<times> string option" where
  "oidc_settings src base_url =
     (let issuer_url = get_setting src ''oidc_issuer_url''; client_id = get_setting src ''oidc_client_id'';
          client_secret = get_setting src ''oidc_client_secret'';
          redirect_uri = (case get_setting src ''oidc_redirect_uri'' of
                            Some u \<Rightarrow> Some u
                          | None \<Rightarrow> if issuer_url \<noteq> None then Some (trim_end_slashes base_url @ ''/auth/callback'') else None)
      in bindE (require (issuer_url = None \<or> client_secret \<noteq> None) ''oidc_client_secret'') (\<lambda>_.
         bindE (require (issuer_url = None \<or> client_id \<noteq> None) ''oidc_client_id'') (\<lambda>_.
           Inr (\<lparr>of_issuer_url = issuer_url, of_client_id = client_id, of_client_secret = client_secret,
                 of_scopes = oidc_scopes src\<rparr>, redirect_uri))))"

definition session_settings :: "sources \<Rightarrow> config_error + session_policy" where
  "session_settings src =
     bindE (parse_field parse_u64 src ''gen_ttl_secs'' ''600'') (\<lambda>gen_ttl.
     bindE (parse_field parse_u64 src ''grace_secs'' ''60'') (\<lambda>grace.
     bindE (parse_field parse_u64 src ''coalesce_secs'' ''30'') (\<lambda>coalesce.
     bindE (parse_field parse_u64 src ''idle_ttl_secs'' ''604800'') (\<lambda>idle.
     bindE (parse_field parse_u64 src ''absolute_ttl_secs'' ''2592000'') (\<lambda>absolute.
     bindE (parse_field parse_u64 src ''max_live_gens'' ''4'') (\<lambda>gens.
     bindE (parse_field parse_u64 src ''retired_memory'' ''8'') (\<lambda>memory.
     bindE (parse_revocation_policy src) (\<lambda>revoked.
     bindE (require (idle \<le> absolute) ''idle_ttl_secs'') (\<lambda>_.
       Inr \<lparr>gen_ttl_secs = gen_ttl, grace_secs = grace, coalesce_secs = coalesce, idle_ttl_secs = idle,
            absolute_ttl_secs = absolute, max_live_gens = gens, retired_memory = memory, on_upstream_revoked = revoked\<rparr>)))))))))"

definition log_settings :: "sources \<Rightarrow> config_error + log_config" where
  "log_settings src =
     bindE (parse_field log_format_of src ''log_format'' ''text'') (\<lambda>fmt.
     bindE (parse_field file_rotation_of src ''log_file_rotation'' ''daily'') (\<lambda>rotation.
     bindE (parse_field parse_u64 src ''log_queue_capacity'' ''16384'') (\<lambda>capacity.
     bindE (parse_field parse_u64 src ''log_level_override_max_secs'' ''3600'') (\<lambda>override.
       Inr \<lparr>lc_format = fmt, lc_default_filter = get_or src ''log_level'' ''session_broker=info,broker=info,tower_http=warn'',
            lc_file = get_setting src ''log_file'', lc_file_rotation = rotation, lc_queue_capacity = capacity,
            lc_override_max_secs = override\<rparr>))))"

definition rate_limit_settings :: "sources \<Rightarrow> config_error + rate_limit_config" where
  "rate_limit_settings src =
     bindE (parse_bool src ''rate_limit_enabled'' (rl_enabled default_rate_limit)) (\<lambda>on.
     bindE (parse_field parse_u32 src ''rate_limit_login_burst'' ''30'') (\<lambda>login_burst.
     bindE (parse_field parse_u64 src ''rate_limit_login_per_secs'' ''60'') (\<lambda>login_per.
     bindE (parse_field parse_u32 src ''rate_limit_auth_failure_burst'' ''10'') (\<lambda>fail_burst.
     bindE (parse_field parse_u64 src ''rate_limit_auth_failure_per_secs'' ''60'') (\<lambda>fail_per.
     bindE (parse_field parse_u64 src ''rate_limit_max_tracked'' ''16384'') (\<lambda>tracked.
       Inr \<lparr>rl_enabled = on, rl_client_ip_header = map_option lower_ascii (get_setting src ''rate_limit_client_ip_header''),
            rl_login_burst = login_burst, rl_login_per_secs = login_per, rl_auth_failure_burst = fail_burst,
            rl_auth_failure_per_secs = fail_per, rl_max_tracked = tracked\<rparr>))))))"

definition audit_settings :: "sources \<Rightarrow> config_error + audit_config" where
  "audit_settings src =
     bindE (parse_field parse_u32 src ''audit_retention_days'' ''90'') (\<lambda>days.
     bindE (parse_field parse_u64 src ''audit_queue_capacity'' ''8192'') (\<lambda>capacity.
     bindE (parse_field parse_u64 src ''audit_coalesce_secs'' ''300'') (\<lambda>coalesce.
     bindE (parse_bool src ''audit_record_rotations'' False) (\<lambda>rotations.
     bindE (parse_field subject_mode_of src ''audit_subject_mode'' ''plain'') (\<lambda>mode.
     bindE (require (capacity \<noteq> 0) ''audit_queue_capacity'') (\<lambda>_.
       Inr \<lparr>ac_retention_days = days, ac_queue_capacity = capacity, ac_coalesce_secs = coalesce,
            ac_record_rotations = rotations, ac_subject_mode = mode\<rparr>))))))"

definition long_enough :: "string option \<Rightarrow> bool" where
  "long_enough key \<longleftrightarrow> (case key of None \<Rightarrow> True | Some k \<Rightarrow> 32 \<le> length k)"

definition from_sources :: "(string \<Rightarrow> bool) \<Rightarrow> sources \<Rightarrow> config_error + broker_config" where
  "from_sources addr_ok src =
     (let addr = (\<lambda>s. if addr_ok s then Some s else None); base_url = get_or src ''base_url'' ''http://localhost:8080'';
          broker_key = get_setting src ''api_key''; admin_key = get_setting src ''admin_api_key''
      in
     bindE (parse_field addr src ''bind_addr'' ''0.0.0.0:8080'') (\<lambda>bind_addr.
     bindE (parse_field addr src ''internal_bind_addr'' ''127.0.0.1:8090'') (\<lambda>internal_bind_addr.
     bindE (validate_http_url ''base_url'' base_url) (\<lambda>_.
     bindE (oidc_settings src base_url) (\<lambda>(oidc, redirect_uri).
     bindE (session_settings src) (\<lambda>policy.
     bindE (require (long_enough broker_key) ''broker_api_key'') (\<lambda>_.
     bindE (require (long_enough admin_key) ''admin_api_key'') (\<lambda>_.
     bindE (log_settings src) (\<lambda>log.
     bindE (parse_bool src ''metrics_enabled'' True) (\<lambda>metrics.
     bindE (parse_field parse_u64 src ''reap_after_secs'' ''86400'') (\<lambda>reap_after.
     bindE (parse_field parse_u64 src ''max_body_bytes'' ''65536'') (\<lambda>max_body.
     bindE (parse_field parse_u64 src ''request_timeout_secs'' ''30'') (\<lambda>timeout.
     bindE (parse_field parse_u64 src ''shutdown_grace_secs'' ''15'') (\<lambda>grace.
     bindE (parse_field parse_u64 src ''shutdown_drain_delay_secs'' ''0'') (\<lambda>drain.
     bindE (rate_limit_settings src) (\<lambda>rate_limit.
     bindE (audit_settings src) (\<lambda>audit.
     bindE (issuer_config_of src base_url) (\<lambda>issuer.
       Inr \<lparr>bc_bind_addr = bind_addr, bc_internal_bind_addr = internal_bind_addr, bc_base_url = base_url,
            bc_db_path = get_or src ''db_path'' ''session-broker.db'',
            bc_keyfile_path = get_or src ''keyfile_path'' ''session-broker.key'', bc_oidc = oidc,
            bc_redirect_uri = redirect_uri, bc_session_policy = policy,
            bc_error_page_path = get_or src ''error_page_path'' ''/error'', bc_broker_api_key = broker_key,
            bc_admin_api_key = admin_key, bc_log = log, bc_metrics_enabled = metrics, bc_audit = audit,
            bc_reap_after_secs = reap_after, bc_rate_limit = rate_limit, bc_max_body_bytes = max_body,
            bc_request_timeout_secs = timeout, bc_shutdown_grace_secs = grace, bc_shutdown_drain_delay_secs = drain,
            bc_issuer = issuer\<rparr>))))))))))))))))))"

definition load_config ::
  "(string \<Rightarrow> bool) \<Rightarrow> (string \<Rightarrow> string option) \<Rightarrow> (string \<Rightarrow> bool) \<Rightarrow> (string \<Rightarrow> string option) \<Rightarrow>
   config_error + broker_config" where
  "load_config addr_ok env exists read_file =
     bindE (load_file_settings env exists read_file) (\<lambda>file.
       from_sources addr_ok \<lparr>so_env = env, so_file = file\<rparr>)"

end
