(* ===== verification/Config_Safety.thy ===== *)
theory Config_Safety
  imports Config
begin

text \<open>
  What an accepted configuration guarantees the rest of the broker, that a broker without any
  settings starts, and that a configuration file reads back what it says.
\<close>

section \<open>What an accepted configuration guarantees\<close>

definition under_base :: "string \<Rightarrow> string \<Rightarrow> bool" where
  "under_base base url \<longleftrightarrow> url = base \<or> strip_prefix (base @ ''/'') url \<noteq> None"

definition issuer_ok :: "string \<Rightarrow> issuer_config \<Rightarrow> bool" where
  "issuer_ok base_url c \<longleftrightarrow>
     under_base (trim_end_slashes base_url) (ic_issuer c) \<and>
     ic_audiences c \<noteq> [] \<and> distinct (ic_audiences c) \<and> list_all is_word (ic_audiences c) \<and>
     distinct (ic_default_user_roles c) \<and> list_all is_word (ic_default_user_roles c) \<and>
     pred_option is_slug (ic_default_user_tenant c) \<and>
     ic_machine_ttl_secs c \<in> {1..ic_max_ttl_secs c} \<and> ic_user_ttl_secs c \<in> {1..ic_max_ttl_secs c} \<and>
     ic_max_ttl_secs c \<le> max_token_ttl_secs \<and> ic_publish_lead_secs c \<in> {1..max_publish_lead_secs} \<and>
     ic_jwks_max_age_secs c \<le> 86400"

definition policy_in_range :: "session_policy \<Rightarrow> bool" where
  "policy_in_range p \<longleftrightarrow>
     list_all (\<lambda>n. n \<le> u64_max) [gen_ttl_secs p, grace_secs p, coalesce_secs p, idle_ttl_secs p, absolute_ttl_secs p,
       max_live_gens p, retired_memory p] \<and> idle_ttl_secs p \<le> absolute_ttl_secs p"

definition config_ok :: "(string \<Rightarrow> bool) \<Rightarrow> broker_config \<Rightarrow> bool" where
  "config_ok addr_ok c \<longleftrightarrow>
     addr_ok (bc_bind_addr c) \<and> addr_ok (bc_internal_bind_addr c) \<and> validate_http_url [] (bc_base_url c) = Inr () \<and>
     policy_in_range (bc_session_policy c) \<and>
     (of_issuer_url (bc_oidc c) \<noteq> None \<longrightarrow>
        of_client_id (bc_oidc c) \<noteq> None \<and> of_client_secret (bc_oidc c) \<noteq> None \<and> bc_redirect_uri c \<noteq> None) \<and>
     long_enough (bc_broker_api_key c) \<and> long_enough (bc_admin_api_key c) \<and> 0 < ac_queue_capacity (bc_audit c) \<and>
     pred_option (issuer_ok (bc_base_url c)) (bc_issuer c)"

lemma require_Inr: "require b field = Inr u \<longleftrightarrow> b"
  by (simp add: require_def)

lemma parse_u64_bound: "parse_u64 s = Some n \<Longrightarrow> n \<le> u64_max"
  by (auto simp: parse_u64_def Let_def split: if_splits)

lemma parse_field_Inr: "parse_field parse src field dflt = Inr v \<longleftrightarrow> parse (get_or src field dflt) = Some v"
  by (auto simp: parse_field_def split: option.splits)

lemma add_words_ok:
  "add_words field ws out = Inr out' \<Longrightarrow> distinct out \<Longrightarrow> list_all is_word out \<Longrightarrow>
   distinct out' \<and> list_all is_word out' \<and> set out' = set out \<union> set ws"
proof (induction ws arbitrary: out)
  case (Cons w ws)
  then show ?case using Cons.IH [of "if w \<in> set out then out else out @ [w]"] by (auto split: if_splits)
qed simp

lemma split_on_nonempty: "split_on c s \<noteq> []"
  by (induction s) (auto split: list.splits)

lemma word_list_ok: "word_list field raw = Inr ws \<Longrightarrow> distinct ws \<and> list_all is_word ws \<and> ws \<noteq> []"
  using add_words_ok [of field "map trim_text (split_on (CHR '','') raw)" "[]" ws] split_on_nonempty [of "CHR '',''" raw]
  by (cases ws) (auto simp: word_list_def)

lemma default_tenant_ok: "default_tenant src = Inr t \<Longrightarrow> pred_option is_slug t"
  by (auto simp: default_tenant_def Let_def split: if_splits)

lemma issuer_settings_ok:
  assumes "issuer_settings src base_url i auds = Inr c"
  shows "issuer_ok base_url c"
  using assms unfolding issuer_settings_def Let_def bindE_Inr_iff require_Inr sum.inject
  by (elim exE conjE, hypsubst) (simp add: issuer_ok_def under_base_def word_list_ok default_tenant_ok)

lemma session_settings_ok: "session_settings src = Inr p \<Longrightarrow> policy_in_range p"
  by (auto simp: session_settings_def policy_in_range_def bindE_Inr_iff parse_field_Inr require_Inr dest: parse_u64_bound)

lemma validate_http_url_field: "validate_http_url f u = Inr x \<longleftrightarrow> validate_http_url g u = Inr y"
  by (auto simp: validate_http_url_def split: option.splits if_splits)

lemma oidc_settings_ok:
  "oidc_settings src base_url = Inr (cfg, r) \<Longrightarrow>
   of_issuer_url cfg = None \<or> of_client_id cfg \<noteq> None \<and> of_client_secret cfg \<noteq> None \<and> r \<noteq> None"
  by (cases "get_setting src ''oidc_redirect_uri''") (auto simp: oidc_settings_def Let_def bindE_Inr_iff require_Inr, metis)

lemma audit_settings_ok: "audit_settings src = Inr a \<Longrightarrow> 0 < ac_queue_capacity a"
  by (auto simp: audit_settings_def bindE_Inr_iff require_Inr)

lemma issuer_config_of_ok: "issuer_config_of src base_url = Inr i \<Longrightarrow> pred_option (issuer_ok base_url) i"
  by (auto simp: issuer_config_of_def bindE_Inr_iff split: option.splits dest: issuer_settings_ok)

lemma addr_field: "parse_field (\<lambda>s. if ok s then Some s else None) src field dflt = Inr v \<Longrightarrow> ok v"
  by (auto simp: parse_field_Inr split: if_splits)

lemmas settings_ok = session_settings_ok oidc_settings_ok audit_settings_ok issuer_config_of_ok addr_field

text \<open>
  C22. Every configuration the broker starts with is well formed: a session cannot idle past its
  absolute ceiling, every number fits its type, an upstream provider is configured completely or
  not at all, secrets are 32 bytes or longer, the audit queue holds something, and an issuer
  lives under the base URL, names its audiences, and keeps every lifetime between a second and
  its maximum.
\<close>

theorem accepted_config:
  assumes "from_sources addr_ok src = Inr c"
  shows "config_ok addr_ok c"
proof -
  have ok: "validate_http_url ''base_url'' u = Inr () \<Longrightarrow> validate_http_url [] u = Inr ()" for u
    using validate_http_url_field by blast
  show ?thesis
    using assms unfolding from_sources_def Let_def bindE_Inr_iff split_paired_Ex prod.case require_Inr sum.inject
    by (elim exE conjE, hypsubst) (auto simp: config_ok_def dest!: settings_ok ok)
qed

section \<open>Without any settings\<close>

definition no_settings :: sources where
  "no_settings = \<lparr>so_env = (\<lambda>_. None), so_file = []\<rparr>"

definition demo_settings :: sources where
  "demo_settings = \<lparr>so_env = (\<lambda>k. if k = ''BROKER_BASE_URL'' then Some ''https://broker.example/'' else None),
     so_file = [(''token_issuer'', ''https://broker.example/idp''), (''issuer_audiences'', ''api, search,api'')]\<rparr>"

theorem accepted_config_witness:
  "\<exists>c. from_sources (\<lambda>_. True) demo_settings = Inr c \<and> config_ok (\<lambda>_. True) c \<and>
       map_option ic_audiences (bc_issuer c) = Some [''api'', ''search'']"
proof -
  have 1: "(case from_sources (\<lambda>_. True) demo_settings of Inr c \<Rightarrow> map_option ic_audiences (bc_issuer c) | _ \<Rightarrow> None) = Some [''api'', ''search'']"
    by code_simp
  then obtain c where c: "from_sources (\<lambda>_. True) demo_settings = Inr c" by (auto split: sum.splits)
  with 1 accepted_config [OF c] show ?thesis by simp
qed

lemma zero_config_boots: "(case from_sources (\<lambda>_. True) no_settings of
    Inr c \<Rightarrow> bc_session_policy c = default_policy \<and> bc_issuer c = None \<and> of_issuer_url (bc_oidc c) = None
  | Inl _ \<Rightarrow> False)"
  by code_simp

section \<open>Files read back\<close>

text \<open>Characters that neither begin nor end white space.\<close>

definition solid :: "char \<Rightarrow> bool" where
  "solid c \<longleftrightarrow> 33 \<le> (of_char c :: nat) \<and> (of_char c :: nat) < 127"

lemma starts_any_None:
  assumes "\<forall>code \<in> set codes. code \<noteq> [] \<and> \<not> solid (hd code)" and "solid c"
  shows "starts_any codes (c # cs) = None"
proof -
  have "strip_prefix code (c # cs) = None" if "code \<in> set codes" for code
  proof (cases code)
    case (Cons d ds)
    with assms that have "d \<noteq> c" by auto
    with Cons show ?thesis by (simp add: strip_prefix_def)
  qed (use assms that in auto)
  then show ?thesis by (auto simp: starts_any_def find_None_iff)
qed

lemma starts_any_only:
  assumes "\<forall>code \<in> set codes. code \<noteq> [] \<and> (hd code = c \<longrightarrow> code = [c])" and "[c] \<in> set codes"
  shows "starts_any codes (c # cs) = Some [c]"
proof (cases "starts_any codes (c # cs)")
  case None
  with assms(2) show ?thesis by (auto simp: starts_any_def find_None_iff strip_prefix_def)
next
  case (Some code)
  then obtain r where "code \<in> set codes" "c # cs = code @ r"
    by (auto simp: starts_any_def find_Some_iff strip_prefix_iff)
  with assms(1) Some show ?thesis by (cases code) auto
qed

lemma starts_white [simp]:
  assumes "solid c"
  shows "starts_any white_codes (c # cs) = None" "starts_any (map rev white_codes) (c # cs) = None"
proof -
  have "(list_all (\<lambda>code. code \<noteq> [] \<and> \<not> solid (hd code)) white_codes) \<and>
      (list_all (\<lambda>code. code \<noteq> [] \<and> \<not> solid (hd code)) (map rev white_codes))" by code_simp
  with assms show "starts_any white_codes (c # cs) = None" "starts_any (map rev white_codes) (c # cs) = None"
    by (simp_all add: starts_any_None list_all_iff del: set_map)
qed

lemma starts_space [simp]:
  "starts_any white_codes (CHR '' '' # cs) = Some '' ''" "starts_any (map rev white_codes) (CHR '' '' # cs) = Some '' ''"
proof -
  have h0: "(list_all (\<lambda>code. code \<noteq> [] \<and> (hd code = CHR '' '' \<longrightarrow> code = '' '')) white_codes) \<and>
      ('' '' \<in> set white_codes) \<and>
      (list_all (\<lambda>code. code \<noteq> [] \<and> (hd code = CHR '' '' \<longrightarrow> code = '' '')) (map rev white_codes)) \<and>
      ('' '' \<in> set (map rev white_codes))" by code_simp
  note h = h0 [THEN conjunct1] h0 [THEN conjunct2, THEN conjunct1] h0 [THEN conjunct2, THEN conjunct2, THEN conjunct1] h0 [THEN conjunct2, THEN conjunct2, THEN conjunct2]
  show "starts_any white_codes (CHR '' '' # cs) = Some '' ''"
    by (rule starts_any_only [OF h(1) [unfolded list_all_iff] h(2)])
  show "starts_any (map rev white_codes) (CHR '' '' # cs) = Some '' ''"
    by (rule starts_any_only [OF h(3) [unfolded list_all_iff] h(4)])
qed

lemma strip_codes_None: "starts_any codes s = None \<Longrightarrow> strip_codes codes n s = s"
  by (cases n) auto

lemma trim_text_solid:
  assumes "s = c # cs" "solid c" "s = ds @ [d]" "solid d"
  shows "trim_text s = s" "trim_text ('' '' @ s) = s" "trim_text (s @ '' '') = s"
proof -
  have front: "strip_codes white_codes n (s @ r) = s @ r" for n r using assms(1,2) by (simp add: strip_codes_None)
  have tail: "strip_codes (map rev white_codes) n (rev s) = rev s" for n using assms(3,4) by (simp add: strip_codes_None)
  show "trim_text s = s" using front [of _ "[]"] tail by (simp add: trim_text_def)
  show "trim_text ('' '' @ s) = s" using front [of _ "[]"] tail by (simp add: trim_text_def)
  show "trim_text (s @ '' '') = s" unfolding trim_text_def front Let_def using tail by simp
qed

definition field_char :: "char \<Rightarrow> bool" where
  "field_char c \<longleftrightarrow> c = CHR ''_'' \<or> is_digit c \<or> 97 \<le> (of_char c :: nat) \<and> (of_char c :: nat) \<le> 122"

definition field_name :: "string \<Rightarrow> bool" where
  "field_name k \<longleftrightarrow> k \<noteq> [] \<and> list_all field_char k"

definition render_line :: "string \<times> string \<Rightarrow> string" where
  "render_line kv = fst kv @ '' = '' @ [CHR 0x22] @ snd kv @ [CHR 0x22]"

definition render :: "(string \<times> string) list \<Rightarrow> string" where
  "render kvs = concat (map (\<lambda>kv. render_line kv @ [CHR 0x0A]) kvs)"

lemma field_char_solid: "field_char c \<Longrightarrow> solid c \<and> c \<noteq> CHR ''='' \<and> c \<noteq> CHR ''#'' \<and> c \<noteq> CHR ''['' \<and> c \<noteq> CHR 0x0A"
  by (auto simp: field_char_def solid_def is_digit_def)

lemma parse_render_line:
  assumes "field_name k"
  shows "parse_line (render_line (k, v)) = Some (k, v)"
proof -
  obtain c cs where k: "k = c # cs" and c: "field_char c" using assms by (cases k) (auto simp: field_name_def)
  obtain ds d where kd: "k = ds @ [d]" and d: "field_char d"
    using assms by (cases k rule: rev_cases) (auto simp: field_name_def)
  have q: "solid (CHR 0x22)" by (simp add: solid_def)
  have line: "trim_text (render_line (k, v)) = render_line (k, v)"
    using field_char_solid [OF c] q k
    by (intro trim_text_solid(1) [where ds = "k @ '' = '' @ [CHR 0x22] @ v" and d = "CHR 0x22" and c = c]) (auto simp: render_line_def)
  have "CHR ''='' \<notin> set (k @ '' '')" using assms by (auto simp: field_name_def list_all_iff dest: field_char_solid)
  then have once: "split_once (CHR ''='') (render_line (k, v)) = Some (k @ '' '', '' '' @ [CHR 0x22] @ v @ [CHR 0x22])"
    using split_once_append [of "CHR ''=''" "k @ '' ''" "'' '' @ [CHR 0x22] @ v @ [CHR 0x22]"] by (simp add: render_line_def)
  have "trim_text (k @ '' '') = k" using field_char_solid [OF c] field_char_solid [OF d] k kd by (intro trim_text_solid(3) [OF k _ kd]) auto
  moreover have "trim_text ('' '' @ [CHR 0x22] @ v @ [CHR 0x22]) = [CHR 0x22] @ v @ [CHR 0x22]"
    using q by (intro trim_text_solid(2) [where ds = "[CHR 0x22] @ v" and d = "CHR 0x22"]) auto
  moreover have "strip_prefix [CHR 0x22] ([CHR 0x22] @ v @ [CHR 0x22]) = Some (v @ [CHR 0x22])"
    "strip_suffix [CHR 0x22] (v @ [CHR 0x22]) = Some v" by (simp_all add: strip_prefix_def strip_suffix_def)
  moreover have "render_line (k, v) \<noteq> []" "hd (render_line (k, v)) = c" using k by (simp_all add: render_line_def)
  ultimately show ?thesis using field_char_solid [OF c] by (simp add: parse_line_def line once)
qed

lemma split_on_append: "c \<notin> set p \<Longrightarrow> split_on c (p @ c # r) = p # split_on c r"
  by (induction p) auto

lemma parse_rendered:
  assumes "\<forall>(k, v) \<in> set kvs. field_name k \<and> CHR 0x0A \<notin> set v"
  shows "dget (fold (\<lambda>line out. case parse_line line of None \<Rightarrow> out | Some (k, v) \<Rightarrow> dinsert k v out)
           (split_on (CHR 0x0A) (render kvs)) out) f = (case map_of (rev kvs) f of Some v \<Rightarrow> Some v | None \<Rightarrow> dget out f)"
  using assms
proof (induction kvs arbitrary: out)
  case Nil
  show ?case by (simp add: render_def parse_line_def trim_text_def)
next
  case (Cons kv kvs)
  obtain k v where kv: "kv = (k, v)" by force
  have "CHR 0x0A \<notin> set (render_line kv)"
    using Cons.prems kv by (auto simp: render_line_def field_name_def list_all_iff dest: field_char_solid)
  then have "split_on (CHR 0x0A) (render (kv # kvs)) = render_line kv # split_on (CHR 0x0A) (render kvs)"
    using split_on_append by (simp add: render_def)
  then show ?case
    using Cons kv parse_render_line [of k v]
    by (auto simp: map_add_def dget_def dinsert_def update_conv' split: option.splits)
qed

lemma digit_char: "n < 10 \<Longrightarrow> is_digit (char_of (48 + n)) \<and> digit_value (char_of (48 + n)) = n"
  by (simp add: is_digit_def digit_value_def of_char_of)

lemma show_nat_digits:
  "list_all is_digit (show_nat n) \<and> show_nat n \<noteq> [] \<and> foldl (\<lambda>n c. 10 * n + digit_value c) 0 (show_nat n) = n"
proof (induction n rule: show_nat.induct)
  case (1 n)
  show ?case
  proof (cases "n < 10")
    case True
    then show ?thesis using digit_char [of n] by (subst (1 2 3) show_nat.simps) simp
  next
    case False
    then show ?thesis using 1 digit_char [of "n mod 10"] by (subst (1 2 3) show_nat.simps) simp
  qed
qed

lemma parse_show: "n \<le> u64_max \<Longrightarrow> parse_u64 (show_nat n) = Some n"
  using show_nat_digits [of n] by (auto simp: parse_u64_def Let_def is_digit_def split: list.splits)

definition policy_settings :: "session_policy \<Rightarrow> (string \<times> string) list" where
  "policy_settings p =
     [(''gen_ttl_secs'', show_nat (gen_ttl_secs p)), (''grace_secs'', show_nat (grace_secs p)),
      (''coalesce_secs'', show_nat (coalesce_secs p)), (''idle_ttl_secs'', show_nat (idle_ttl_secs p)),
      (''absolute_ttl_secs'', show_nat (absolute_ttl_secs p)), (''max_live_gens'', show_nat (max_live_gens p)),
      (''retired_memory'', show_nat (retired_memory p)),
      (''on_upstream_revoked'', case on_upstream_revoked p of Kill \<Rightarrow> ''kill'' | Degrade \<Rightarrow> ''degrade'')]"

lemma policy_settings_fields: "\<forall>(k, v) \<in> set (policy_settings p). field_name k \<and> CHR 0x0A \<notin> set v"
proof -
  have "CHR 0x0A \<notin> set (show_nat n)" for n using show_nat_digits [of n] by (auto simp: list_all_iff is_digit_def)
  then show ?thesis
    by (simp add: policy_settings_def field_name_def field_char_def is_digit_def split: revocation_policy.split)
qed

text \<open>
  A policy written into a configuration file is the policy the broker runs with: reading the
  lines, finding the fields and parsing the numbers give back every field, for every policy that
  is in range.
\<close>

theorem policy_round_trip:
  assumes "policy_in_range p"
  shows "session_settings \<lparr>so_env = (\<lambda>_. None), so_file = parse_simple_toml (render (policy_settings p))\<rparr> = Inr p"
proof -
  define src where "src = \<lparr>so_env = (\<lambda>_. None), so_file = parse_simple_toml (render (policy_settings p))\<rparr>"
  have get: "get_or src f d = (case map_of (rev (policy_settings p)) f of Some v \<Rightarrow> v | None \<Rightarrow> d)" for f d
    using parse_rendered [OF policy_settings_fields [of p], of "[]" f]
    by (simp add: src_def get_or_def get_setting_def parse_simple_toml_def split: option.splits)
  have "parse_revocation_policy src = Inr (on_upstream_revoked p)"
    by (cases "on_upstream_revoked p") (simp_all add: parse_revocation_policy_def get policy_settings_def lower_ascii_def)
  with assms show ?thesis
    unfolding src_def [symmetric] session_settings_def
    by (simp add: parse_field_def parse_show get policy_settings_def policy_in_range_def require_def)
qed

text \<open>A comment behind a quoted value is taken into the value, closing quote included.\<close>

lemma comment_after_quoted:
  "parse_line (''key = '' @ [CHR 0x22] @ ''v'' @ [CHR 0x22] @ '' # note'') = Some (''key'', ''v'' @ [CHR 0x22] @ '' # note'')"
  by code_simp

text \<open>The loopback test of the HTTP layer never sees an IPv6 host whole.\<close>

lemma ipv6_loopback_refused:
  "validate_http_url ''base_url'' ''http://[::1]:8080'' = Inr ()"
  "http_config_new ''http://[::1]:8080'' default_policy = Inl (InsecureOffLoopback ''http://[::1]:8080'')"
  by code_simp+

end
