(* ===== verification/Console_Reads.thy ===== *)
theory Console_Reads
  imports Issuer "HOL-Library.Char_ord" "HOL-Library.List_Lexorder"
begin

text \<open>
  The queries of \<open>store/repo.rs\<close> that only the admin console makes: the lists of keys, tenants,
  principals, secrets and people, and the audit trail with its filters, its cursor and its
  statistics. Where a statement orders by a column with equal values, they stay in table order.
  The console may follow the audit cursor while rows are being appended: it still gets every row
  once.
\<close>

section \<open>Lists\<close>

record api_key_row =
  kr_key_id :: string
  kr_name :: string
  kr_created_at :: timestamp
  kr_created_by :: "string option"
  kr_last_used_at :: "timestamp option"
  kr_revoked_at :: "timestamp option"

definition list_api_keys :: "db \<Rightarrow> api_key_row list" where
  "list_api_keys d =
     map (\<lambda>k. \<lparr>kr_key_id = k_key_id k, kr_name = k_name k, kr_created_at = k_created_at k, kr_created_by = k_created_by k,
                kr_last_used_at = k_last_used_at k, kr_revoked_at = k_revoked_at k\<rparr>)
       (sort_key (\<lambda>k. - k_created_at k) (api_key_tbl d))"

record person =
  pp_sub :: string
  pp_last_seen :: timestamp
  pp_custodies :: int

definition provider_people :: "string \<Rightarrow> nat \<Rightarrow> db \<Rightarrow> person list" where
  "provider_people i limit d =
     (let rows = filter (\<lambda>c. c_provider_id c = i) (custody_tbl d);
          person = (\<lambda>sub. let mine = filter (\<lambda>c. c_sub c = sub) rows
                          in \<lparr>pp_sub = sub, pp_last_seen = Max (c_updated_at ` set mine), pp_custodies = int (length mine)\<rparr>)
      in take limit (sort_key (\<lambda>p. - pp_last_seen p) (sort_key pp_sub (map person (remdups (map c_sub rows))))))"

definition list_tenants :: "db \<Rightarrow> db_tenant list" where
  "list_tenants d = sort_key t_tenant_id (tenant_tbl d)"

definition list_principals :: "json \<Rightarrow> string option \<Rightarrow> db \<Rightarrow> repo_error + principal_row list" where
  "list_principals js tenant d =
     mapE (principal_row_of js)
       (rev (sort_key p_created_at (filter (\<lambda>p. tenant = None \<or> tenant = Some (p_tenant_id p)) (principal_tbl d))))"

record secret_row =
  sr_secret_id :: string
  sr_created_at :: timestamp
  sr_expires_at :: "timestamp option"
  sr_revoked_at :: "timestamp option"

definition secret_row_of :: "db_secret \<Rightarrow> secret_row" where
  "secret_row_of s = \<lparr>sr_secret_id = ps_secret_id s, sr_created_at = ps_created_at s, sr_expires_at = ps_expires_at s,
     sr_revoked_at = ps_revoked_at s\<rparr>"

definition secret_row_live_at :: "timestamp \<Rightarrow> secret_row \<Rightarrow> bool" where
  "secret_row_live_at now s \<longleftrightarrow>
     sr_revoked_at s = None \<and> (case sr_expires_at s of None \<Rightarrow> True | Some e \<Rightarrow> now < e)"

definition list_principal_secrets :: "string \<Rightarrow> db \<Rightarrow> secret_row list" where
  "list_principal_secrets i d =
     map secret_row_of (rev (sort_key ps_created_at (filter (\<lambda>s. ps_principal_id s = i) (secret_tbl d))))"

section \<open>The audit trail\<close>

record audit_query =
  aq_since :: "timestamp option"
  aq_until :: "timestamp option"
  aq_action_prefix :: "string option"
  aq_subject :: "string option"
  aq_outcome :: "string option"
  aq_actor_kind :: "string option"
  aq_before_seq :: "int option"
  aq_limit :: nat

definition escape_like :: "string \<Rightarrow> string" where
  "escape_like v = concat (map (\<lambda>c. if c = CHR 0x5C \<or> c = CHR ''%'' \<or> c = CHR ''_'' then [CHR 0x5C, c] else [c]) v)"

text \<open>
  SQL's \<open>text LIKE pattern ESCAPE\<close> with the backslash: \<open>%\<close> is any text, \<open>_\<close> any character, letters of ASCII match
  in either case.
\<close>

definition fold_ascii :: "char \<Rightarrow> char" where
  "fold_ascii c = (if 65 \<le> (of_char c :: nat) \<and> (of_char c :: nat) \<le> 90 then char_of ((of_char c :: nat) + 32) else c)"

definition continuation :: "char \<Rightarrow> bool" where
  "continuation c \<longleftrightarrow> 128 \<le> (of_char c :: nat) \<and> (of_char c :: nat) < 192"

fun like :: "string \<Rightarrow> string \<Rightarrow> bool" where
  "like [] s \<longleftrightarrow> s = []"
| "like (c # p) s \<longleftrightarrow>
     (if c = CHR 0x5C
      then (case (p, s) of (d # p', x # s') \<Rightarrow> fold_ascii x = fold_ascii d \<and> like p' s' | _ \<Rightarrow> False)
      else if c = CHR ''%'' then list_ex (\<lambda>i. like p (drop i s)) [0..<Suc (length s)]
      else if c = CHR ''_'' then (case s of [] \<Rightarrow> False | _ # s' \<Rightarrow> like p (dropWhile continuation s'))
      else (case s of [] \<Rightarrow> False | x # s' \<Rightarrow> fold_ascii x = fold_ascii c \<and> like p s'))"

definition given :: "('a \<Rightarrow> bool) \<Rightarrow> 'a option \<Rightarrow> bool" where
  "given P x \<longleftrightarrow> (case x of None \<Rightarrow> True | Some v \<Rightarrow> P v)"

definition audit_matches :: "audit_query \<Rightarrow> db_audit \<Rightarrow> bool" where
  "audit_matches q a \<longleftrightarrow>
     given (\<lambda>since. since \<le> au_at (a_row a)) (aq_since q) \<and>
     given (\<lambda>until. au_at (a_row a) \<le> until) (aq_until q) \<and>
     given (\<lambda>p. like (escape_like p @ ''%'') (au_action (a_row a))) (aq_action_prefix q) \<and>
     given (\<lambda>s. au_subject (a_row a) = Some s) (aq_subject q) \<and>
     given (\<lambda>out. au_outcome (a_row a) = out) (aq_outcome q) \<and>
     given (\<lambda>kind. au_actor_kind (a_row a) = kind) (aq_actor_kind q) \<and>
     given (\<lambda>before. a_seq a < before) (aq_before_seq q)"

definition page_size :: "audit_query \<Rightarrow> nat" where
  "page_size q = max 1 (min 1000 (aq_limit q))"

definition list_audit :: "audit_query \<Rightarrow> db \<Rightarrow> db_audit list" where
  "list_audit q d = take (page_size q) (rev (sort_key a_seq (filter (audit_matches q) (audit_tbl d))))"

record audit_stats =
  as_rows :: nat
  as_oldest_at :: "timestamp option"
  as_newest_at :: "timestamp option"
  as_gaps :: nat

definition no_stats :: audit_stats where
  "no_stats = \<lparr>as_rows = 0, as_oldest_at = None, as_newest_at = None, as_gaps = 0\<rparr>"

definition audit_stats_of :: "db \<Rightarrow> audit_stats" where
  "audit_stats_of d =
     (let ts = map (au_at \<circ> a_row) (audit_tbl d)
      in \<lparr>as_rows = length ts, as_oldest_at = (if ts = [] then None else Some (Min (set ts))),
          as_newest_at = (if ts = [] then None else Some (Max (set ts))),
          as_gaps = length (filter (\<lambda>a. au_action (a_row a) = ''audit.gap'') (audit_tbl d))\<rparr>)"

text \<open>The cursor a page hands out (\<open>list_audit\<close> of \<open>http/admin.rs\<close>).\<close>

definition next_before_seq :: "audit_query \<Rightarrow> db_audit list \<Rightarrow> int option" where
  "next_before_seq q rows = (if page_size q \<le> length rows \<and> rows \<noteq> [] then Some (a_seq (last rows)) else None)"

section \<open>What a prefix filter finds\<close>

lemma like_anything [simp]: "like ''%'' s"
  by (auto simp: list_ex_iff intro!: bexI [of _ "length s"])

lemma like_escaped: "like (escape_like p @ ''%'') s \<longleftrightarrow> map fold_ascii (take (length p) s) = map fold_ascii p"
proof (induction p arbitrary: s)
  case Nil
  show ?case using like_anything [of s] by (simp add: escape_like_def del: like.simps)
next
  case (Cons c p)
  have "like (escape_like (c # p) @ ''%'') s \<longleftrightarrow>
      (case s of [] \<Rightarrow> False | x # s' \<Rightarrow> fold_ascii x = fold_ascii c \<and> like (escape_like p @ ''%'') s')"
    by (cases s) (auto simp: escape_like_def)
  then show ?case using Cons.IH by (cases s) auto
qed

section \<open>Following the cursor\<close>

text \<open>
  A console that follows the cursor until there is none, each page read from the table as it then
  is: \<open>ds i\<close> is the store at the \<open>i\<close>-th request. Fuel bounds the number of requests.
\<close>

fun walk_audit :: "nat \<Rightarrow> (nat \<Rightarrow> db) \<Rightarrow> nat \<Rightarrow> audit_query \<Rightarrow> db_audit list option" where
  "walk_audit 0 ds i q = None"
| "walk_audit (Suc n) ds i q =
     (let rows = list_audit q (ds i)
      in case next_before_seq q rows of
           None \<Rightarrow> Some rows
         | Some b \<Rightarrow> map_option ((@) rows) (walk_audit n ds (Suc i) (q\<lparr>aq_before_seq := Some b\<rparr>)))"

text \<open>Between two states of the store, audit rows were only appended.\<close>

definition appended :: "db \<Rightarrow> db \<Rightarrow> bool" where
  "appended d d' \<longleftrightarrow>
     sorted_wrt (<) (map a_seq (audit_tbl d')) \<and> take (length (audit_tbl d)) (audit_tbl d') = audit_tbl d"

lemma insert_audit_appends: "db_ok d \<Longrightarrow> appended d (insert_audit row d)"
  by (auto simp: appended_def insert_audit_def db_ok_def db_audit_ok_def sorted_wrt_append)

lemma page_size_pos: "0 < page_size q"
  by (simp add: page_size_def)

lemma filter_below:
  assumes "sorted_wrt (\<lambda>x y. f y < (f x :: int)) xs" and "0 < k" "k \<le> length xs"
  shows "filter (\<lambda>x. f x < f (last (take k xs))) xs = drop k xs"
proof -
  obtain ys y where y: "take k xs = ys @ [y]" using assms(2,3) by (cases "take k xs" rule: rev_cases) auto
  define zs where "zs = drop k xs"
  have xs: "xs = (ys @ [y]) @ zs" using append_take_drop_id [of k xs] by (simp add: y zs_def)
  have "filter (\<lambda>x. f x < f y) ys = []" "filter (\<lambda>x. f x < f y) zs = zs"
    using assms(1) by (auto simp: xs sorted_wrt_append filter_empty_conv filter_id_conv)
  then have "filter (\<lambda>x. f x < f y) xs = zs" by (simp add: xs)
  then show ?thesis by (simp add: y zs_def)
qed

definition matching :: "audit_query \<Rightarrow> db \<Rightarrow> db_audit list" where
  "matching q d = rev (filter (audit_matches q) (audit_tbl d))"

lemma list_audit_matching:
  assumes "sorted_wrt (<) (map a_seq (audit_tbl d))"
  shows "list_audit q d = take (page_size q) (matching q d)"
    and "sorted_wrt (\<lambda>x y. a_seq y < a_seq x) (matching q d)"
proof -
  have s: "sorted_wrt (\<lambda>x y. a_seq x < a_seq y) (filter (audit_matches q) (audit_tbl d))"
    using assms by (simp add: sorted_wrt_map sorted_wrt_filter)
  then have "sorted (map a_seq (filter (audit_matches q) (audit_tbl d)))"
    by (simp add: sorted_wrt_map sorted_wrt_mono_rel [of _ "\<lambda>x y. a_seq x < a_seq y"])
  then show "list_audit q d = take (page_size q) (matching q d)"
    by (simp add: list_audit_def matching_def sort_key_id_if_sorted)
  show "sorted_wrt (\<lambda>x y. a_seq y < a_seq x) (matching q d)" using s by (simp add: matching_def sorted_wrt_rev)
qed

lemma matching_below:
  assumes "appended d d'" and "x \<in> set (audit_tbl d)" and "audit_matches q x"
  shows "matching (q\<lparr>aq_before_seq := Some (a_seq x)\<rparr>) d' = filter (\<lambda>a. a_seq a < a_seq x) (matching q d)"
proof -
  define new where "new = drop (length (audit_tbl d)) (audit_tbl d')"
  have t: "audit_tbl d' = audit_tbl d @ new"
    using assms(1) append_take_drop_id [of "length (audit_tbl d)" "audit_tbl d'"] by (simp add: appended_def new_def)
  have m: "audit_matches (q\<lparr>aq_before_seq := Some (a_seq x)\<rparr>) a \<longleftrightarrow> a_seq a < a_seq x \<and> audit_matches q a" for a
    using assms(3) by (auto simp: audit_matches_def given_def split: option.splits)
  have "\<not> a_seq a < a_seq x" if "a \<in> set new" for a
    using assms(1,2) that by (fastforce simp: appended_def t sorted_wrt_append)
  then have "filter (audit_matches (q\<lparr>aq_before_seq := Some (a_seq x)\<rparr>)) new = []" by (auto simp: m filter_empty_conv)
  then show ?thesis by (auto simp: matching_def t rev_filter m intro!: filter_cong)
qed

lemma walk_audit_collects:
  assumes "\<And>j. appended (ds j) (ds (Suc j))" and "sorted_wrt (<) (map a_seq (audit_tbl (ds i)))"
    and "length (matching q (ds i)) < n"
  shows "walk_audit n ds i q = Some (matching q (ds i))"
  using assms(2,3)
proof (induction n arbitrary: i q)
  case (Suc n)
  let ?M = "matching q (ds i)" and ?k = "page_size q"
  note page = list_audit_matching [OF Suc.prems(1)]
  show ?case
  proof (cases "?k \<le> length ?M")
    case True
    define b where "b = last (take ?k ?M)"
    have ne: "take ?k ?M \<noteq> []" using True page_size_pos [of q] by (auto simp: take_eq_Nil)
    then have "b \<in> set (take ?k ?M)" by (simp add: b_def)
    then have b: "b \<in> set (audit_tbl (ds i))" "audit_matches q b" by (auto simp: matching_def dest!: in_set_takeD)
    let ?q = "q\<lparr>aq_before_seq := Some (a_seq b)\<rparr>"
    have rest: "matching ?q (ds (Suc i)) = drop ?k ?M"
      using matching_below [OF assms(1) b] filter_below [OF page(2) page_size_pos True] by (simp add: b_def)
    have "walk_audit n ds (Suc i) ?q = Some (drop ?k ?M)"
      using Suc.IH [of "Suc i" ?q] assms(1) [of i] Suc.prems(2) True page_size_pos [of q] by (simp add: rest appended_def)
    then show ?thesis using True ne by (simp add: page(1) next_before_seq_def Let_def b_def [symmetric])
  next
    case False
    then show ?thesis by (simp add: page(1) next_before_seq_def Let_def)
  qed
qed simp

text \<open>
  C32. Following the cursor of the audit trail ends, after at most one request per row and one
  more, and has then shown every row that matched when it started, each exactly once and newest
  first, however many rows were appended meanwhile.
\<close>

theorem audit_walk_is_exact:
  assumes "db_ok (ds 0)" and "\<And>j. appended (ds j) (ds (Suc j))"
  shows "walk_audit (Suc (length (audit_tbl (ds 0)))) ds 0 q = Some (rev (filter (audit_matches q) (audit_tbl (ds 0))))"
  using walk_audit_collects [of ds 0 q "Suc (length (audit_tbl (ds 0)))", OF assms(2)] assms(1)
  by (simp add: db_ok_def db_audit_ok_def matching_def le_imp_less_Suc)

definition demo_line :: "string \<Rightarrow> audit_row" where
  "demo_line action = \<lparr>au_at = 5, au_action = action, au_outcome = ''success'', au_actor_kind = ''admin'', au_actor_id = None,
     au_subject = None, au_sid = None, au_custody_id = None, au_key_id = None, au_reason = None,
     au_client_ip_prefix = None, au_detail = None\<rparr>"

definition demo_trail :: "nat \<Rightarrow> db" where
  "demo_trail j = (insert_audit (demo_line ''key.revoked'') ^^ j)
     (insert_audit (demo_line ''key.issued'') (insert_audit (demo_line ''keyring.loaded'')
       (insert_audit (demo_line ''key.issued'') (migrated_db 0))))"

definition demo_trail_query :: audit_query where
  "demo_trail_query = \<lparr>aq_since = None, aq_until = None, aq_action_prefix = Some ''key.'', aq_subject = None, aq_outcome = None,
     aq_actor_kind = None, aq_before_seq = None, aq_limit = 1\<rparr>"

theorem audit_walk_is_exact_witness:
  "map_option (map a_seq) (walk_audit 4 demo_trail 0 demo_trail_query) = Some [3, 1]"
proof -
  have ok: "db_ok (demo_trail j)" for j
    by (induction j) (auto simp: demo_trail_def db_ok_migrated insert_audit_ok)
  have "demo_trail (Suc j) = insert_audit (demo_line ''key.revoked'') (demo_trail j)" for j by (simp add: demo_trail_def)
  with insert_audit_appends [OF ok] have "appended (demo_trail j) (demo_trail (Suc j))" for j by metis
  note w = audit_walk_is_exact [of demo_trail, OF ok this, of demo_trail_query]
  have "length (audit_tbl (demo_trail 0)) = 3"
    "map a_seq (rev (filter (audit_matches demo_trail_query) (audit_tbl (demo_trail 0)))) = [3, 1]" by code_simp+
  with w show ?thesis by (simp add: numeral_eq_Suc del: walk_audit.simps)
qed

end
