(* ===== verification/Log_Control.thy ===== *)
theory Log_Control
  imports Config
begin

text \<open>
  The runtime verbosity control of \<open>telemetry/mod.rs\<close>. \<open>lg_installed\<close> is the filter the subscriber
  really applies; whether a directive parses and whether the subscriber takes a new filter
  (\<open>attached\<close>) are inputs. The mutex around the override is never poisoned: nothing panics while
  it is held. Sinks are fixed at boot and not part of the state.
\<close>

section \<open>The control\<close>

record level_override =
  lo_filter :: string
  lo_expires_at :: timestamp
  lo_requested_by :: "string option"

record log_control =
  lg_config :: log_config
  lg_installed :: string
  lg_active :: "level_override option"
  lg_override_active :: bool

datatype log_control_error = Bad_Filter string | Too_Long nat nat | Detached

fun log_format_as_str :: "log_format \<Rightarrow> string" where
  "log_format_as_str Log_Text = ''text''"
| "log_format_as_str Log_Json = ''json''"

fun file_rotation_as_str :: "file_rotation \<Rightarrow> string" where
  "file_rotation_as_str Daily = ''daily''"
| "file_rotation_as_str Hourly = ''hourly''"
| "file_rotation_as_str Never = ''never''"

definition default_log_config :: log_config where
  "default_log_config = \<lparr>lc_format = Log_Text, lc_default_filter = ''session_broker=info,broker=info,tower_http=warn'',
     lc_file = None, lc_file_rotation = Daily, lc_queue_capacity = 16384, lc_override_max_secs = 3600\<rparr>"

text \<open>\<open>init\<close>, its filter: \<open>RUST_LOG\<close> wins unless it is empty.\<close>

definition log_init :: "(string \<Rightarrow> bool) \<Rightarrow> string option \<Rightarrow> log_config \<Rightarrow> log_control option" where
  "log_init parses rust_log c =
     (let initial = (case rust_log of Some (x # xs) \<Rightarrow> x # xs | _ \<Rightarrow> lc_default_filter c)
      in if parses initial
         then Some \<lparr>lg_config = c, lg_installed = initial, lg_active = None, lg_override_active = False\<rparr>
         else None)"

definition effective_filter :: "log_control \<Rightarrow> string" where
  "effective_filter g = (case lg_active g of Some ov \<Rightarrow> lo_filter ov | None \<Rightarrow> lc_default_filter (lg_config g))"

definition set_override ::
  "(string \<Rightarrow> bool) \<Rightarrow> bool \<Rightarrow> string \<Rightarrow> nat \<Rightarrow> timestamp \<Rightarrow> string option \<Rightarrow> log_control \<Rightarrow>
   (log_control_error + level_override) \<times> log_control" where
  "set_override parses attached directive duration_secs now requested_by g =
     (if duration_secs = 0 \<or> lc_override_max_secs (lg_config g) < duration_secs
      then (Inl (Too_Long duration_secs (lc_override_max_secs (lg_config g))), g)
      else if \<not> parses directive then (Inl (Bad_Filter directive), g)
      else if \<not> attached then (Inl Detached, g)
      else
        (let ov = \<lparr>lo_filter = directive, lo_expires_at = plus_secs now duration_secs, lo_requested_by = requested_by\<rparr>
         in (Inr ov, g\<lparr>lg_installed := directive, lg_active := Some ov, lg_override_active := True\<rparr>)))"

definition restore :: "(string \<Rightarrow> bool) \<Rightarrow> bool \<Rightarrow> log_control \<Rightarrow> (log_control_error + bool) \<times> log_control" where
  "restore parses attached g =
     (let was = lg_override_active g; g' = g\<lparr>lg_override_active := False, lg_active := None\<rparr>;
          dflt = lc_default_filter (lg_config g)
      in if \<not> was then (Inr False, g')
         else if \<not> parses dflt then (Inl (Bad_Filter dflt), g')
         else if \<not> attached then (Inl Detached, g')
         else (Inr True, g'\<lparr>lg_installed := dflt\<rparr>))"

definition expire_due_override :: "(string \<Rightarrow> bool) \<Rightarrow> bool \<Rightarrow> timestamp \<Rightarrow> log_control \<Rightarrow> bool \<times> log_control" where
  "expire_due_override parses attached now g =
     (let due = (case lg_active g of Some ov \<Rightarrow> lo_expires_at ov \<le> now | None \<Rightarrow> False)
      in (due, if due then snd (restore parses attached g) else g))"

section \<open>Verbosity comes back by itself\<close>

datatype log_op =
    Set_Level string nat timestamp "string option"
  | Restore_Level timestamp
  | Expiry_Tick timestamp

fun log_time :: "log_op \<Rightarrow> timestamp" where
  "log_time (Set_Level _ _ now _) = now"
| "log_time (Restore_Level now) = now"
| "log_time (Expiry_Tick now) = now"

fun log_step :: "(string \<Rightarrow> bool) \<Rightarrow> log_op \<Rightarrow> log_control \<Rightarrow> log_control" where
  "log_step parses (Set_Level f secs now who) g = snd (set_override parses True f secs now who g)"
| "log_step parses (Restore_Level now) g = snd (restore parses True g)"
| "log_step parses (Expiry_Tick now) g = snd (expire_due_override parses True now g)"

text \<open>
  In step: the flag and the recorded override agree, the filter reported is the filter installed,
  and an override ends at most the configured ceiling after the last request.
\<close>

definition log_ok :: "timestamp \<Rightarrow> log_control \<Rightarrow> bool" where
  "log_ok now g \<longleftrightarrow>
     lg_override_active g = (lg_active g \<noteq> None) \<and> effective_filter g = lg_installed g \<and>
     (case lg_active g of
        None \<Rightarrow> True
      | Some ov \<Rightarrow> lo_expires_at ov \<le> now + int (lc_override_max_secs (lg_config g)))"

lemma log_step_config [simp]: "lg_config (log_step parses op g) = lg_config g"
  by (cases op) (auto simp: set_override_def restore_def expire_due_override_def Let_def)

lemma log_step_ok:
  assumes "log_ok now g" and "now \<le> log_time op" and "sane_time (log_time op)" and "sane_secs (lc_override_max_secs (lg_config g))"
    and "parses (lc_default_filter (lg_config g))"
  shows "log_ok (log_time op) (log_step parses op g)"
proof -
  have "plus_secs (log_time op) n = log_time op + int n" if "n \<le> lc_override_max_secs (lg_config g)" for n
    using assms(3,4) that by (intro plus_secs_exact) (auto simp: sane_secs_def)
  with assms show ?thesis
    by (cases op) (auto simp: log_ok_def set_override_def restore_def expire_due_override_def effective_filter_def Let_def
        split: option.splits)
qed

lemma log_run_ok:
  assumes "log_ok now g" and "sorted (now # map log_time ops)" and "\<forall>op \<in> set ops. sane_time (log_time op)"
    and "sane_secs (lc_override_max_secs (lg_config g))" and "parses (lc_default_filter (lg_config g))"
  shows "log_ok (last (now # map log_time ops)) (run (log_step parses) ops g) \<and> lg_config (run (log_step parses) ops g) = lg_config g"
  using assms
proof (induction ops arbitrary: now g)
  case (Cons op ops)
  then show ?case using Cons.IH [of "log_time op" "log_step parses op g"] log_step_ok [of now g op parses] by auto
qed simp

text \<open>
  C33. Raised verbosity restores itself: whatever the console sets and restores, the filter it is
  told is the one installed, and the first expiry check the configured ceiling after the last
  request leaves the configured filter installed and no override behind.
\<close>

theorem verbosity_returns:
  assumes "log_init parses None c = Some g0" and "sane_secs (lc_override_max_secs c)"
    and "sorted (t0 # map log_time ops)" and "\<forall>op \<in> set ops. sane_time (log_time op)"
    and "g = run (log_step parses) ops g0" and "last (t0 # map log_time ops) + int (lc_override_max_secs c) \<le> u"
  shows "effective_filter g = lg_installed g \<and>
     lg_installed (log_step parses (Expiry_Tick u) g) = lc_default_filter c \<and>
     lg_active (log_step parses (Expiry_Tick u) g) = None"
proof -
  have g0: "lg_config g0 = c" "parses (lc_default_filter c)" "log_ok t0 g0"
    using assms(1) by (auto simp: log_init_def log_ok_def effective_filter_def Let_def split: if_splits)
  then have g: "log_ok (last (t0 # map log_time ops)) g" "lg_config g = c"
    using log_run_ok [of t0 g0 ops parses] assms(2-5) by auto
  with g0(2) assms(6) show ?thesis
    by (cases "lg_active g") (auto simp: log_ok_def expire_due_override_def restore_def effective_filter_def Let_def)
qed

theorem verbosity_returns_witness:
  "lg_installed (log_step (\<lambda>_. True) (Expiry_Tick 5000)
     (run (log_step (\<lambda>_. True)) [Set_Level ''trace'' 600 1000 None]
       \<lparr>lg_config = default_log_config, lg_installed = lc_default_filter default_log_config, lg_active = None,
        lg_override_active = False\<rparr>)) = lc_default_filter default_log_config"
  using verbosity_returns [of "\<lambda>_. True" default_log_config _ 0 "[Set_Level ''trace'' 600 1000 None]" _ 5000]
  by (simp add: log_init_def Let_def default_log_config_def sane_secs_def sane_time_def)

text \<open>With \<open>RUST_LOG\<close> the filter in force is not the one reported, and a restore does not bring it back.\<close>

lemma rust_log_is_forgotten:
  assumes "rust_log \<noteq> []" and "rust_log \<noteq> lc_default_filter c" and "log_init parses (Some rust_log) c = Some g"
    and "parses f" "parses (lc_default_filter c)" "0 < secs" "secs \<le> lc_override_max_secs c"
  shows "lg_installed g = rust_log" and "effective_filter g \<noteq> lg_installed g"
    and "lg_installed (run (log_step parses) [Set_Level f secs now who, Restore_Level now'] g) = lc_default_filter c"
  using assms by (cases rust_log; auto simp: log_init_def effective_filter_def set_override_def restore_def Let_def split: if_splits)+

end
