(* ===== verification/Mint_Safety.thy ===== *)
theory Mint_Safety
  imports Mint Session_Safety Issuer_Safety
begin

text \<open>
  What a token says: a user token carries what the broker's own grant table holds for the subject
  of a live session, a machine token what the principal's row holds, and neither lives longer
  than the configuration allows.
\<close>

section \<open>Signing\<close>

lemma signed_by:
  assumes "sign_with_kid E rf now w claims s = (Inr (kid, token), s')"
  shows "\<exists>sk. jwt_encode E kid sk claims = Inr token"
proof -
  have "(case cache_signing now (is_cache s') of None \<Rightarrow> Inl No_Signing_Key
       | Some (kid, seed) \<Rightarrow> bindE (jwt_encode E kid seed claims) (\<lambda>token. Inr (kid, token))) = Inr (kid, token)"
    using assms unfolding sign_with_kid_def with_keys_def Let_def by blast
  then show ?thesis by (auto simp: bindE_Inr_iff split: option.splits prod.splits)
qed

section \<open>User tokens\<close>

text \<open>A row of the grant table that counts now: not revoked, its tenant not disabled.\<close>

definition granted :: "json \<Rightarrow> string \<Rightarrow> string \<times> string list \<times> string list \<Rightarrow> db \<Rightarrow> bool" where
  "granted js sub tri d \<longleftrightarrow>
     (\<exists>g \<in> set (user_grant_tbl d). \<exists>t \<in> set (tenant_tbl d).
        ug_sub g = sub \<and> ug_revoked_at g = None \<and> t_tenant_id t = ug_tenant_id g \<and> t_disabled_at t = None \<and>
        fst tri = ug_tenant_id g \<and> json_list js (ug_roles g) = Inr (fst (snd tri)) \<and>
        json_list js (ug_indexes g) = Inr (snd (snd tri)))"

lemma mapE_set: "mapE f xs = Inr ys \<Longrightarrow> y \<in> set ys \<Longrightarrow> \<exists>x \<in> set xs. f x = Inr y"
  by (induction xs arbitrary: ys) (auto simp: bindE_Inr_iff)

lemma mapE_Nil: "mapE f xs = Inr [] \<longleftrightarrow> xs = []"
  by (cases xs) (auto simp: bindE_Inr_iff)

lemma find_Some_in: "find P xs = Some x \<Longrightarrow> x \<in> set xs \<and> P x"
  by (auto simp: find_Some_iff)

lemma sort_key_Nil: "sort_key f xs = [] \<longleftrightarrow> xs = []"
  using length_sort [of f xs] by (metis length_0_conv)

lemma live_grant_granted:
  assumes "find_live_user_grants js sub d = Inr live" and "g \<in> set live"
  shows "granted js sub (gw_tenant_id g, gw_roles g, gw_indexes g) d"
proof -
  obtain r where r: "r \<in> set (live_user_grants sub d)" "user_grant_row_of js r = Inr g"
    using mapE_set [OF assms(1) [unfolded find_live_user_grants_def] assms(2)] by blast
  then obtain t where "r \<in> set (user_grant_tbl d)" "t \<in> set (tenant_tbl d)" "ug_sub r = sub" "ug_revoked_at r = None"
    "t_tenant_id t = ug_tenant_id r" "t_disabled_at t = None"
    by (auto simp: live_user_grants_def)
  with r(2) show ?thesis
    unfolding granted_def by (intro bexI [of _ r] bexI [of _ t]) (auto simp: user_grant_row_of_def bindE_Inr_iff)
qed

text \<open>What the entitlement rests on: a live grant, or the install's default for a stranger.\<close>

lemma entitlement_cases:
  assumes "entitlement E rf rf' sub asked s = Inr (tenant, roles, indexes)"
  shows "(asked = None \<or> asked = Some tenant) \<and>
     (granted (ie_json (me_issuer E)) sub (tenant, roles, indexes) (w_db (mi_store s)) \<or>
      (\<forall>g \<in> set (user_grant_tbl (w_db (mi_store s))). ug_sub g \<noteq> sub) \<and>
      ic_default_user_tenant (mi_config s) = Some tenant \<and> roles = ic_default_user_roles (mi_config s) \<and>
      indexes = [''*''] \<and> \<not> tenant_is_disabled tenant (w_db (mi_store s)))"
proof -
  let ?d = "w_db (mi_store s)" and ?js = "ie_json (me_issuer E)"
  obtain grants where g: "user_grants_of (me_issuer E) rf (mi_store s) sub = Inr grants"
    using assms by (auto simp: entitlement_def split: sum.splits)
  then obtain live where live: "find_live_user_grants ?js sub ?d = Inr live" "us_live grants = live"
    and rows: "live = [] \<Longrightarrow> \<exists>all. list_user_grants ?js None (Some sub) ?d = Inr all \<and> us_any_row grants = (all \<noteq> [])"
    "live \<noteq> [] \<Longrightarrow> us_any_row grants"
    by (auto simp: user_grants_of_def with_reader_def bindE_Inr_iff split: if_splits sum.splits)
  show ?thesis
  proof (cases "us_live grants = [] \<and> \<not> us_any_row grants")
    case True
    with rows(1) live(2) have "list_user_grants ?js None (Some sub) ?d = Inr []" by auto
    then have "\<forall>g \<in> set (user_grant_tbl ?d). ug_sub g \<noteq> sub"
      by (auto simp: list_user_grants_def mapE_Nil sort_key_Nil filter_empty_conv)
    with True assms show ?thesis
      by (auto simp: entitlement_def g issuer_tenant_is_disabled_def with_reader_def
          split: option.splits if_splits sum.splits bool.splits)
  next
    case False
    with assms obtain x where "x \<in> set live" "(tenant, roles, indexes) = (gw_tenant_id x, gw_roles x, gw_indexes x)"
      "asked = None \<or> asked = Some tenant"
      by (auto simp: entitlement_def g live(2) Let_def split: option.splits list.splits dest!: find_Some_in)
    with live_grant_granted [OF live(1)] show ?thesis by auto
  qed
qed

lemma active_before_idle:
  assumes "authenticates (resolve h now m)" and "meta_for h m = Some meta"
  shows "now < sm_refresh_until meta"
proof -
  obtain e where e: "entry_for_hash h m = Some e" "authenticates (classify e h now (m_policy m))"
    "entry_meta e = Some meta"
    using assms by (auto simp: resolve_def meta_for_def split: option.splits)
  then have "session_expiry e now (m_policy m) = None" by (auto simp: classify_def split: option.splits)
  with e(3) show ?thesis by (auto simp: session_expiry_def entry_meta_def split: option.splits if_splits)
qed

definition sane_sessions :: "session_map \<Rightarrow> bool" where
  "sane_sessions m \<longleftrightarrow> list_all (\<lambda>(_, e). sane_time (e_idle_exp e)) (m_sessions m)"

lemma sane_meta: "sane_sessions m \<Longrightarrow> meta_for h m = Some meta \<Longrightarrow> sane_time (sm_refresh_until meta)"
  by (auto simp: sane_sessions_def meta_for_def entry_for_hash_def entry_meta_def list_all_iff dget_def
      split: option.splits dest!: map_of_SomeD)

text \<open>
  C13. A user token says only what the broker itself holds: it is issued on a same-origin request
  whose session cookie authenticates right now, for an audience of the configuration; subject
  and session are that session's; tenant, roles and indexes are a live grant of the subject, or
  the configured default when the table never held a row for them and the default tenant is not
  disabled; it is signed as stated, and expires within the configured lifetime and no later
  than the session's idle expiry.
\<close>

theorem user_token_is_entitled:
  assumes "user_issue_inner E D now headers body s = (Inr g, attempt, s')" and "md_now D = now"
    and "sane_time now" and "sane_sessions (mi_sessions s)"
    and "sane_secs (ic_user_ttl_secs (mi_config s))"
  shows "\<exists>c meta claims kid sk.
     require_same_origin headers (hc_origin (mi_http s)) False = Inr () \<and>
     cookie headers (session_cookie_name (mi_http s)) = Some c \<and>
     authenticates (resolve (me_token_hash E c) now (mi_sessions s)) \<and>
     meta_for (me_token_hash E c) (mi_sessions s) = Some meta \<and>
     uc_sub claims = sm_sub meta \<and> uc_sid claims = sm_sid meta \<and> uc_aud claims \<in> set (ic_audiences (mi_config s)) \<and>
     (granted (ie_json (me_issuer E)) (sm_sub meta) (uc_tenant claims, uc_roles claims, uc_indexes claims) (w_db (mi_store s)) \<or>
      (\<forall>r \<in> set (user_grant_tbl (w_db (mi_store s))). ug_sub r \<noteq> sm_sub meta) \<and>
      ic_default_user_tenant (mi_config s) = Some (uc_tenant claims) \<and>
      uc_roles claims = ic_default_user_roles (mi_config s) \<and> uc_indexes claims = [''*''] \<and>
      \<not> tenant_is_disabled (uc_tenant claims) (w_db (mi_store s))) \<and>
     jwt_encode (me_issuer E) kid sk (me_user_json E claims) = Inr (ugr_access_token g) \<and>
     uc_iat claims = now \<and> uc_exp claims \<le> now + int (ic_user_ttl_secs (mi_config s)) \<and>
     uc_exp claims \<le> sm_refresh_until meta"
proof -
  obtain c meta audience asked where so: "require_same_origin headers (hc_origin (mi_http s)) False = Inr ()"
    and c: "cookie headers (session_cookie_name (mi_http s)) = Some c"
    and act: "authenticates (resolve (me_token_hash E c) now (mi_sessions s))"
    and meta: "meta_for (me_token_hash E c) (mi_sessions s) = Some meta"
    and mint: "mint_user E D meta audience asked s = (Inr g, attempt, s')"
    using assms(1) by (auto simp: user_issue_inner_def Let_def split: sum.splits option.splits resolution.splits prod.splits)
  let ?c = "mi_config s" and ?ttl = "user_ttl (mi_config s) meta (md_now D)"
  obtain tenant roles indexes where aud: "audience \<in> set (ic_audiences ?c)"
    and ent: "entitlement E (md_rf D) (md_rf_tenant D) (sm_sub meta) asked s = Inr (tenant, roles, indexes)"
    using mint by (auto simp: mint_user_def Let_def split: if_splits sum.splits)
  define claims where "claims = \<lparr>uc_iss = ic_issuer ?c, uc_sub = sm_sub meta, uc_sid = sm_sid meta, uc_aud = audience,
     uc_exp = plus_secs (md_now D) ?ttl, uc_iat = md_now D, uc_jti = md_jti D, uc_kind = ''user'',
     uc_tenant = tenant, uc_roles = roles, uc_indexes = indexes\<rparr>"
  obtain kid signer where sg: "sign_with_kid (me_issuer E) (md_rf_keys D) (md_sign_now D) (mi_store s)
       (me_user_json E claims) (mi_issuer s) = (Inr (kid, ugr_access_token g), signer)"
    using mint aud ent
    by (auto simp: mint_user_def Let_def claims_def [symmetric] split: sum.splits prod.splits)
  obtain sk where sk: "jwt_encode (me_issuer E) kid sk (me_user_json E claims) = Inr (ugr_access_token g)"
    using signed_by [OF sg] by blast
  have left: "now < sm_refresh_until meta" by (rule active_before_idle [OF act meta])
  have "wrap_i64 (sm_refresh_until meta - now) = sm_refresh_until meta - now"
    using assms(3) sane_meta [OF assms(4) meta] left by (intro wrap_i64_id) (simp add: sane_time_def in_i64_def i64_min_def i64_max_def)
  then have ttl: "?ttl \<le> ic_user_ttl_secs ?c" "int ?ttl \<le> sm_refresh_until meta - now" using left assms(2) by (auto simp: user_ttl_def)
  then have "sane_secs ?ttl" using assms(5) by (simp add: sane_secs_def)
  with assms(2,3) have exp: "uc_exp claims = now + int ?ttl" by (simp add: claims_def clock_simps)
  show ?thesis
    using so c act meta aud entitlement_cases [OF ent] sk exp ttl assms(2)
    by (intro exI [of _ c] exI [of _ meta] exI [of _ claims] exI [of _ kid] exI [of _ sk]) (auto simp: claims_def)
qed

section \<open>Machine tokens\<close>

lemma narrow_scopes_held: "narrow_scopes held ws acc = Inr out \<Longrightarrow> set acc \<subseteq> set held \<Longrightarrow> set out \<subseteq> set held"
proof (induction ws arbitrary: acc)
  case (Cons w ws)
  then show ?case using Cons.IH [of "if w \<in> set acc then acc else acc @ [w]"] by (simp split: if_splits)
qed simp

lemma requested_scopes_held: "requested_scopes held r = Inr out \<Longrightarrow> set out \<subseteq> set held"
  by (auto simp: requested_scopes_def bindE_Inr_iff split: option.splits if_splits dest: narrow_scopes_held)

lemma live_principalE:
  assumes "find_live_principal_by_secret js h now d = Inr (Some p)"
  obtains r sec t where "r \<in> set (principal_tbl d)" "principal_row_of js r = Inr p" "p_revoked_at r = None"
    "sec \<in> set (secret_tbl d)" "ps_principal_id sec = p_principal_id r" "ps_secret_hash sec = h" "secret_live_at now sec"
    "t \<in> set (tenant_tbl d)" "t_tenant_id t = p_tenant_id r" "t_disabled_at t = None"
proof -
  obtain r rs where r: "live_principal_rows h now d = r # rs" "principal_row_of js r = Inr p"
    using assms by (auto simp: find_live_principal_by_secret_def bindE_Inr_iff split: list.splits)
  then have "r \<in> set (live_principal_rows h now d)" by simp
  then obtain sec t where "sec \<in> set (secret_tbl d)" "ps_secret_hash sec = h" "secret_live_at now sec"
    "r \<in> set (principal_tbl d)" "p_principal_id r = ps_principal_id sec" "p_revoked_at r = None"
    "t \<in> set (tenant_tbl d)" "t_tenant_id t = p_tenant_id r" "t_disabled_at t = None"
    by (auto simp: live_principal_rows_def)
  with r(2) that show thesis by metis
qed

lemma machine_granted_cases:
  assumes "machine_issue_inner E D k auth_now use_now headers form s = (Inr g, attempt, s')"
  obtains asked scope client_id secret p scopes ttl where
    "read_request E headers form = Inr (asked, scope, client_id, secret)" "is_principal_id client_id"
    "find_principal E (md_rf D) auth_now client_id secret s = Inr p" "pr_audience p \<in> set (ic_audiences (mi_config s))"
    "requested_scopes (pr_scopes p) scope = Inr scopes" "machine_ttl (mi_config s) p asked = Inr ttl"
    "sign_machine E D k use_now p scopes ttl
       (no_machine_attempt\<lparr>ma_client_id := Some client_id, ma_kind := Some (pr_kind p)\<rparr>) s = (Inr g, attempt, s')"
  using assms that
  by (auto simp: machine_issue_inner_def Let_def split: sum.splits prod.splits if_splits)

definition machine_claims_of :: "mint_draws \<Rightarrow> issuer_config \<Rightarrow> principal_row \<Rightarrow> string list \<Rightarrow> nat \<Rightarrow> machine_claims" where
  "machine_claims_of D c p scopes ttl = \<lparr>mc_iss = ic_issuer c, mc_sub = pr_principal_id p, mc_aud = pr_audience p,
     mc_exp = plus_secs (md_now D) ttl, mc_iat = md_now D, mc_jti = md_jti D, mc_tenant = pr_tenant_id p,
     mc_kind = pr_kind p, mc_name = pr_name p, mc_scopes = scopes, mc_indexes = pr_indexes p\<rparr>"

lemma sign_machine_cases:
  assumes "sign_machine E D k use_now p scopes ttl attempt s = (Inr g, attempt', s')"
  obtains kid signer where
    "sign_with_kid (me_issuer E) (md_rf_keys D) (md_sign_now D) (mi_store s)
       (me_machine_json E (machine_claims_of D (mi_config s) p scopes ttl)) (mi_issuer s) = (Inr (kid, mg_access_token g), signer)"
    "mg_expires_in g = ttl" "(mi_issuer s', mi_store s') = record_principal_use (pr_principal_id p) use_now k (signer, mi_store s)"
  using assms
  by (auto simp: sign_machine_def Let_def machine_claims_of_def [symmetric] split: sum.splits prod.splits intro: that)

lemma machine_ttl_bound: "machine_ttl c p asked = Inr ttl \<Longrightarrow> ttl \<le> pr_max_ttl_secs p \<and> ttl \<le> ic_max_ttl_secs c"
  by (auto simp: machine_ttl_def Let_def split: option.splits if_splits)

text \<open>
  C14. A machine token says only what the principal's row says: the presented secret is a live one
  of a principal that is not revoked, of a tenant that is not disabled, under the id the caller
  named; every claim is the row's but the scopes, which are among the row's; and the lifetime
  stays under the principal's and the issuer's maximum. No parameter of the request reaches
  tenant, audience, kind, name or indexes.
\<close>

theorem machine_token_is_entitled:
  assumes "machine_issue_inner E D k auth_now use_now headers form s = (Inr g, attempt, s')"
  shows "\<exists>asked scope client_id secret row p sec t scopes ttl kid sk.
     read_request E headers form = Inr (asked, scope, client_id, secret) \<and>
     row \<in> set (principal_tbl (w_db (mi_store s))) \<and> principal_row_of (ie_json (me_issuer E)) row = Inr p \<and>
     p_principal_id row = client_id \<and> p_revoked_at row = None \<and>
     sec \<in> set (secret_tbl (w_db (mi_store s))) \<and> ps_principal_id sec = client_id \<and>
     ps_secret_hash sec = ie_hash (me_issuer E) secret \<and> secret_live_at auth_now sec \<and>
     t \<in> set (tenant_tbl (w_db (mi_store s))) \<and> t_tenant_id t = p_tenant_id row \<and> t_disabled_at t = None \<and>
     pr_audience p \<in> set (ic_audiences (mi_config s)) \<and> set scopes \<subseteq> set (pr_scopes p) \<and>
     ttl \<le> pr_max_ttl_secs p \<and> ttl \<le> ic_max_ttl_secs (mi_config s) \<and> mg_expires_in g = ttl \<and>
     jwt_encode (me_issuer E) kid sk (me_machine_json E (machine_claims_of D (mi_config s) p scopes ttl)) = Inr (mg_access_token g)"
  using assms
proof (cases rule: machine_granted_cases)
  case (1 asked scope client_id secret p scopes ttl)
  from 1(3) have fp: "find_live_principal_by_secret (ie_json (me_issuer E)) (ie_hash (me_issuer E) secret) auth_now (w_db (mi_store s)) = Inr (Some p)"
    "pr_principal_id p = client_id"
    by (auto simp: find_principal_def authenticate_def with_reader_def split: if_splits sum.splits option.splits)
  from fp(1) obtain row sec t where row: "row \<in> set (principal_tbl (w_db (mi_store s)))" "principal_row_of (ie_json (me_issuer E)) row = Inr p"
    "p_revoked_at row = None" "sec \<in> set (secret_tbl (w_db (mi_store s)))" "ps_principal_id sec = p_principal_id row"
    "ps_secret_hash sec = ie_hash (me_issuer E) secret" "secret_live_at auth_now sec"
    "t \<in> set (tenant_tbl (w_db (mi_store s)))" "t_tenant_id t = p_tenant_id row" "t_disabled_at t = None"
    by (rule live_principalE)
  moreover have "p_principal_id row = client_id" using row(2) fp(2) by (auto simp: principal_row_of_def bindE_Inr_iff)
  moreover obtain kid signer where "sign_with_kid (me_issuer E) (md_rf_keys D) (md_sign_now D) (mi_store s)
       (me_machine_json E (machine_claims_of D (mi_config s) p scopes ttl)) (mi_issuer s) = (Inr (kid, mg_access_token g), signer)"
    "mg_expires_in g = ttl" using 1(7) by (rule sign_machine_cases)
  moreover note signed_by [OF this(1)] machine_ttl_bound [OF 1(6)] requested_scopes_held [OF 1(5)] 1(1,4)
  ultimately show ?thesis by metis
qed

section \<open>Example requests\<close>

definition demo_mint_env :: mint_env where
  "demo_mint_env = \<lparr>me_issuer = demo_ie, me_token_hash = bytes_of, me_user_json = (\<lambda>c. Some (uc_sub c)),
     me_machine_json = (\<lambda>c. Some (mc_sub c)), me_parse_request = (\<lambda>_. Some (''aud'', None)), me_base64 = (\<lambda>_. None),
     me_detail = (\<lambda>_ _. []), me_gap = (\<lambda>_. [])\<rparr>"

definition demo_issuer_config :: issuer_config where
  "demo_issuer_config = \<lparr>ic_issuer = ''http://localhost:8080'', ic_audiences = [''aud''], ic_machine_ttl_secs = 3600,
     ic_user_ttl_secs = 600, ic_max_ttl_secs = 3600, ic_publish_lead_secs = 86400, ic_jwks_max_age_secs = 300,
     ic_jwks_uri = [], ic_token_endpoint = [], ic_default_user_tenant = None, ic_default_user_roles = []\<rparr>"

definition demo_rows :: "db \<Rightarrow> db" where
  "demo_rows d = d\<lparr>
     user_grant_tbl := [\<lparr>ug_sub = ''alice'', ug_tenant_id = ''default'', ug_roles = [], ug_indexes = [], ug_created_at = 5,
       ug_created_by = None, ug_revoked_at = None\<rparr>],
     principal_tbl := [\<lparr>p_principal_id = ''sp_1'', p_tenant_id = ''default'', p_name = ''ci'', p_kind = ''ingest'',
       p_scope = [], p_indexes = [], p_audience = ''aud'', p_max_ttl_secs = 60, p_created_at = 0,
       p_created_by = None, p_last_used_at = None, p_revoked_at = None\<rparr>],
     secret_tbl := [\<lparr>ps_secret_id = ''x1'', ps_principal_id = ''sp_1'', ps_secret_hash = bytes_of ''sbp_1'',
       ps_created_at = 0, ps_expires_at = None, ps_revoked_at = None\<rparr>]\<rparr>"

definition demo_mint :: mint_state where
  "demo_mint = \<lparr>mi_sessions = demo_map, mi_http = demo_config, mi_config = demo_issuer_config, mi_issuer = fst demo_booted,
     mi_store = (snd demo_booted)\<lparr>w_db := demo_rows (w_db (snd demo_booted))\<rparr>, mi_audit = None, mi_failures = None\<rparr>"

definition demo_draws :: mint_draws where
  "demo_draws = \<lparr>md_now = 1040, md_sign_now = 1040, md_jti = ''j'', md_rf = False, md_rf_tenant = False, md_rf_keys = False\<rparr>"

definition demo_form :: "(string \<times> string) list" where
  "demo_form = [(''grant_type'', ''client_credentials''), (''client_id'', ''sp_1''), (''client_secret'', ''sbp_1''), (''tenant'', ''other'')]"

lemma demo_map_sane: "sane_sessions demo_map"
  by code_simp

lemma granted_result: "\<not> isl (fst r) \<Longrightarrow> \<exists>g a s. r = (Inr g, a, s)"
  by (cases r; cases "fst r") auto

theorem user_token_is_entitled_witness:
  "\<exists>(claims :: user_claims) kid sk g attempt s'.
     user_issue_inner demo_mint_env demo_draws 1040 demo_headers [] demo_mint = (Inr g, attempt, s') \<and>
     jwt_encode demo_ie kid sk (Some (uc_sub claims)) = Inr (ugr_access_token g) \<and> uc_tenant claims = ''default'' \<and> uc_exp claims \<le> 1640"
proof -
  have "\<not> isl (fst (user_issue_inner demo_mint_env demo_draws 1040 demo_headers [] demo_mint))" by code_simp
  then obtain g attempt s' where i: "user_issue_inner demo_mint_env demo_draws 1040 demo_headers [] demo_mint = (Inr g, attempt, s')"
    by (blast dest: granted_result)
  have h: "md_now demo_draws = 1040" "sane_time 1040" "sane_sessions (mi_sessions demo_mint)"
    "sane_secs (ic_user_ttl_secs (mi_config demo_mint))" "ic_default_user_tenant (mi_config demo_mint) = None"
    "\<forall>r \<in> set (user_grant_tbl (w_db (mi_store demo_mint))). ug_tenant_id r = ''default''"
    "ic_user_ttl_secs (mi_config demo_mint) = 600"
    using demo_map_sane by (simp_all add: demo_draws_def demo_mint_def demo_issuer_config_def demo_rows_def sane_time_def sane_secs_def)
  from user_token_is_entitled [OF i h(1-4)] h(5,7)
  obtain claims :: user_claims and kid sk where c: "granted (ie_json demo_ie) (uc_sub claims) (uc_tenant claims, uc_roles claims, uc_indexes claims) (w_db (mi_store demo_mint))"
    "jwt_encode demo_ie kid sk (Some (uc_sub claims)) = Inr (ugr_access_token g)" "uc_exp claims \<le> 1640"
    by (auto simp: demo_mint_env_def) metis
  moreover from c(1) h(6) have "uc_tenant claims = ''default''" by (auto simp: granted_def)
  ultimately show ?thesis using i by blast
qed

theorem machine_token_is_entitled_witness:
  "\<exists>g attempt s' ttl kid sk.
     machine_issue_inner demo_mint_env demo_draws 9 1040 1040 [] (Inr demo_form) demo_mint = (Inr g, attempt, s') \<and>
     ttl \<le> 60 \<and> mg_expires_in g = ttl \<and> jwt_encode demo_ie kid sk (Some ''sp_1'') = Inr (mg_access_token g)"
proof -
  let ?i = "machine_issue_inner demo_mint_env demo_draws 9 1040 1040 [] (Inr demo_form) demo_mint"
  have "\<not> isl (fst ?i)" by code_simp
  then obtain g attempt s' where i: "?i = (Inr g, attempt, s')" by (blast dest: granted_result)
  have h: "\<forall>r \<in> set (principal_tbl (w_db (mi_store demo_mint))). p_max_ttl_secs r = 60 \<and> p_principal_id r = ''sp_1''"
    by (simp add: demo_mint_def demo_rows_def)
  from machine_token_is_entitled [OF i]
  obtain row p scopes ttl kid sk where r: "row \<in> set (principal_tbl (w_db (mi_store demo_mint)))"
    "principal_row_of (ie_json demo_ie) row = Inr p" "ttl \<le> pr_max_ttl_secs p" "mg_expires_in g = ttl"
    "jwt_encode demo_ie kid sk (Some (pr_principal_id p)) = Inr (mg_access_token g)"
    by (auto simp: demo_mint_env_def machine_claims_of_def)
  moreover from r(1-3) h have "ttl \<le> 60 \<and> pr_principal_id p = ''sp_1''" by (auto simp: principal_row_of_def bindE_Inr_iff)
  ultimately show ?thesis using i by auto
qed

end
