(* ===== verification/Handoff.thy ===== *)
theory Handoff
  imports Mint_Safety Desktop
begin

text \<open>
  The end of a desktop sign-in: the page \<open>GET /auth/desktop\<close> (\<open>http/desktop.rs\<close>), which mints a
  token for the session its own login made and parks it under the attempt, and the collection by
  verifier (\<open>http/admin/handoff.rs\<close> calls \<open>redeem\<close>). The clock is read once by the handler and once
  by the mint (\<open>md_now\<close>). A page is its status, title and text; the HTML around them is fixed.
\<close>

section \<open>The page\<close>

datatype page = Page nat string string

definition render_page :: "page \<Rightarrow> string" where
  "render_page p = (case p of Page _ title body \<Rightarrow>
     ''<!doctype html><html lang=\"en\"><meta charset=\"utf-8\"><title>'' @ escape_html title @
     ''</title><body style=\"font:15px system-ui;max-width:42rem;margin:4rem auto;padding:0 1rem\"><h1 style=\"font-size:1.4rem\">'' @
     escape_html title @ ''</h1><p>'' @ escape_html body @ ''</p></body></html>'')"

definition not_recognised :: page where
  "not_recognised = Page 400 ''Sign-in not recognised'' ''This link is not one the app made. Start again from the app.''"

definition not_signed_in :: page where
  "not_signed_in = Page 401 ''Not signed in'' ''This page only completes a sign-in the app started. Start again from the app.''"

definition no_issuer_detail :: string where
  "no_issuer_detail = ''The broker'' @ [CHR 0x27] @ ''s token issuer is not configured.''"

definition one_audience_detail :: string where
  "one_audience_detail = ''The desktop handoff needs exactly one issuer audience.''"

text \<open>The session this attempt's own login created, and no other.\<close>

definition fresh_login :: "string \<Rightarrow> sid \<Rightarrow> timestamp \<Rightarrow> held \<Rightarrow> bool" where
  "fresh_login attempt i now hs \<longleftrightarrow>
     (case dget (hd_logins hs) attempt of Some (j, t) \<Rightarrow> j = i \<and> now < t + attempt_ttl_secs | None \<Rightarrow> False)"

definition signed_in :: "mint_env \<Rightarrow> timestamp \<Rightarrow> header_map \<Rightarrow> mint_state \<Rightarrow> session_meta option" where
  "signed_in E now headers s =
     Option.bind (cookie headers (session_cookie_name (mi_http s)))
       (\<lambda>c. case resolve (me_token_hash E c) now (mi_sessions s) of
              Active _ _ _ \<Rightarrow> meta_for (me_token_hash E c) (mi_sessions s)
            | _ \<Rightarrow> None)"

definition hand_over ::
  "mint_env \<Rightarrow> mint_draws \<Rightarrow> timestamp \<Rightarrow> string \<Rightarrow> session_meta \<Rightarrow> string \<Rightarrow> mint_state \<times> held \<Rightarrow> page \<times> mint_state \<times> held" where
  "hand_over E D now attempt meta audience sh =
     (let (s, hs) = sh
      in case mint_user E D meta audience (ic_default_user_tenant (mi_config s)) s of
           (Inr g, issuance, s1) \<Rightarrow>
             (let s2 = audit_issued E issuance now s1;
                  (done, hs') = finish attempt (Complete (ugr_access_token g) (ugr_expires_in g) (ugr_tenant g) (ugr_roles g)) now hs
              in if \<not> done
                 then (Page 409 ''Sign-in not recognised'' ''This sign-in has already ended. Start again from the app.'', s2, hs')
                 else (Page 200 ''Signed in'' ''You are signed in. Return to the app; you can close this tab.'', s2, hs'))
         | (Inl e, issuance, s1) \<Rightarrow>
             (let code = error_code_text (ae_error e)
              in (Page 403 ''Sign-in failed'' (failure_hint code (ae_detail e) @ '' Return to the app for details.''),
                  audit_refused E issuance code now s1, note_failure attempt code (ae_detail e) now hs)))"

definition desktop ::
  "mint_env \<Rightarrow> bool \<Rightarrow> mint_draws \<Rightarrow> timestamp \<Rightarrow> string option \<Rightarrow> header_map \<Rightarrow> mint_state \<times> held \<Rightarrow> page \<times> mint_state \<times> held" where
  "desktop E enabled D now query headers sh =
     (let (s, hs) = sh
      in case query of
           None \<Rightarrow> (not_recognised, sh)
         | Some attempt \<Rightarrow>
             if \<not> is_attempt attempt then (not_recognised, sh)
             else case signed_in E now headers s of
                    None \<Rightarrow> (not_signed_in, sh)
                  | Some meta \<Rightarrow>
                      if \<not> fresh_login attempt (sm_sid meta) now hs then (not_signed_in, sh)
                      else if \<not> enabled
                      then (Page 501 ''Sign-in failed'' (no_issuer_detail @ '' Return to the app.''), s,
                            note_failure attempt ''lane_disabled'' no_issuer_detail now hs)
                      else case ic_audiences (mi_config s) of
                             [audience] \<Rightarrow> hand_over E D now attempt meta audience sh
                           | _ \<Rightarrow> (Page 501 ''Sign-in failed'' (one_audience_detail @ '' Return to the app.''), s,
                                    note_failure attempt ''lane_disabled'' one_audience_detail now hs))"

section \<open>What is held\<close>

definition held_ok :: "held \<Rightarrow> bool" where
  "held_ok hs \<longleftrightarrow> dmap_ok (hd_logins hs) \<and> dmap_ok (hd_outcomes hs)"

lemma evict_sub: "dmap_ok m \<Longrightarrow> dmap_ok (evict m)" "dget (evict m) k = Some v \<Longrightarrow> dget m k = Some v"
proof -
  show "dmap_ok m \<Longrightarrow> dmap_ok (evict m)"
    by (induction m rule: evict.induct) (subst evict.simps, auto split: option.splits)
  show "dget (evict m) k = Some v \<Longrightarrow> dget m k = Some v"
    by (induction m rule: evict.induct) (subst (asm) evict.simps, auto split: option.splits if_splits)
qed

lemma trim_held_ok: "dmap_ok m \<Longrightarrow> dmap_ok (trim_held now m)"
  by (auto simp: trim_held_def dmap_ok_def dkeys_def intro!: evict_sub(1) [unfolded dmap_ok_def dkeys_def] distinct_map_filter)

lemma trim_held_sub: "dmap_ok m \<Longrightarrow> dget (trim_held now m) k = Some v \<Longrightarrow> dget m k = Some v"
  unfolding trim_held_def by (drule evict_sub(2)) (auto simp: dget_def dest!: map_of_SomeD simp: dmap_ok_def dkeys_def)

lemma note_login_held:
  assumes "held_ok hs"
  shows "held_ok (note_login a i now hs)" and "hd_outcomes (note_login a i now hs) = hd_outcomes hs"
    and "dget (hd_logins (note_login a i now hs)) b = Some v \<Longrightarrow> dget (hd_logins hs) b = Some v \<or> (b = a \<and> v = (i, now))"
  using assms by (auto simp: note_login_def held_ok_def trim_held_ok dest: trim_held_sub split: if_splits)

lemma finish_held:
  assumes "held_ok hs" and "finish a oc now hs = (b, hs')"
  shows "held_ok hs'" and "dget (hd_logins hs') k = Some v \<Longrightarrow> dget (hd_logins hs) k = Some v"
    and "dget (hd_outcomes hs') k = Some x \<Longrightarrow> dget (hd_outcomes hs) k = Some x \<or> (k = a \<and> x = (oc, now))"
  using assms by (auto simp: finish_def Let_def held_ok_def trim_held_ok dest: trim_held_sub split: if_splits)

lemma redeem_held:
  assumes "held_ok hs" and "redeem a now hs = (r, hs')"
  shows "held_ok hs'" and "hd_logins hs' = hd_logins hs"
    and "dget (hd_outcomes hs') k = (if k = a then None else dget (hd_outcomes hs) k)"
    and "r = Some oc \<Longrightarrow> \<exists>t. dget (hd_outcomes hs) a = Some (oc, t)"
  using assms by (auto simp: redeem_def held_ok_def split: option.splits if_splits)

section \<open>A collected token\<close>

text \<open>
  The life of the held attempts: a login that came back with an attempt, a visit of the page, a
  login that failed, a collection, and anything else the broker does.
\<close>

datatype handoff_op =
    Login_Noted string sid timestamp
  | Page_Visit bool mint_draws timestamp "string option" header_map
  | Login_Failed string string string timestamp
  | Collected string timestamp
  | Elsewhere mint_state

fun handoff_step :: "mint_env \<Rightarrow> handoff_op \<Rightarrow> mint_state \<times> held \<Rightarrow> mint_state \<times> held" where
  "handoff_step E (Login_Noted a i now) (s, hs) = (s, note_login a i now hs)"
| "handoff_step E (Page_Visit enabled D now q headers) (s, hs) = snd (desktop E enabled D now q headers (s, hs))"
| "handoff_step E (Login_Failed a code detail now) (s, hs) = (s, note_failure a code detail now hs)"
| "handoff_step E (Collected a now) (s, hs) = (s, snd (redeem a now hs))"
| "handoff_step E (Elsewhere s') (s, hs) = (s', hs)"

text \<open>
  The token was minted on a visit with a signed-in session, one that a login had made for this very
  attempt, and nobody collected it since.
\<close>

definition good_visit ::
  "mint_env \<Rightarrow> mint_state \<Rightarrow> handoff_op list \<Rightarrow> mint_draws \<Rightarrow> timestamp \<Rightarrow> header_map \<Rightarrow> string \<Rightarrow> string \<Rightarrow> bool" where
  "good_visit E s0 pre D now headers a token \<longleftrightarrow>
     (\<exists>s1 hs1 meta audience g issuance s2 u.
        run (handoff_step E) pre (s0, no_held) = (s1, hs1) \<and>
        signed_in E now headers s1 = Some meta \<and> Login_Noted a (sm_sid meta) u \<in> set pre \<and>
        ic_audiences (mi_config s1) = [audience] \<and>
        mint_user E D meta audience (ic_default_user_tenant (mi_config s1)) s1 = (Inr g, issuance, s2) \<and>
        token = ugr_access_token g)"

definition minted_for :: "mint_env \<Rightarrow> mint_state \<Rightarrow> handoff_op list \<Rightarrow> string \<Rightarrow> string \<Rightarrow> bool" where
  "minted_for E s0 ops a token \<longleftrightarrow>
     (\<exists>pre D now headers post. ops = pre @ Page_Visit True D now (Some a) headers # post \<and>
        good_visit E s0 pre D now headers a token \<and> (\<forall>t. Collected a t \<notin> set post))"

definition handoff_traced :: "mint_env \<Rightarrow> mint_state \<Rightarrow> handoff_op list \<Rightarrow> held \<Rightarrow> bool" where
  "handoff_traced E s0 ops hs \<longleftrightarrow>
     held_ok hs \<and>
     (\<forall>a i t. dget (hd_logins hs) a = Some (i, t) \<longrightarrow> Login_Noted a i t \<in> set ops) \<and>
     (\<forall>a token ttl tenant roles t. dget (hd_outcomes hs) a = Some (Complete token ttl tenant roles, t) \<longrightarrow> minted_for E s0 ops a token)"

lemma minted_for_snoc:
  assumes "minted_for E s0 ops a token" and "\<forall>t. op \<noteq> Collected a t"
  shows "minted_for E s0 (ops @ [op]) a token"
proof -
  obtain pre D now headers post where "ops = pre @ Page_Visit True D now (Some a) headers # post"
    "good_visit E s0 pre D now headers a token" "\<forall>t. Collected a t \<notin> set post"
    using assms(1) unfolding minted_for_def by blast
  with assms(2) show ?thesis unfolding minted_for_def
    by (intro exI [of _ pre] exI [of _ D] exI [of _ now] exI [of _ headers] exI [of _ "post @ [op]"]) auto
qed

lemma traced_snoc:
  assumes tr: "handoff_traced E s0 ops hs" and "held_ok hs'"
    and l: "\<And>a i t. dget (hd_logins hs') a = Some (i, t) \<Longrightarrow> dget (hd_logins hs) a = Some (i, t) \<or> op = Login_Noted a i t"
    and o: "\<And>a token ttl tenant roles t. dget (hd_outcomes hs') a = Some (Complete token ttl tenant roles, t) \<Longrightarrow>
       dget (hd_outcomes hs) a = Some (Complete token ttl tenant roles, t) \<and> (\<forall>t. op \<noteq> Collected a t) \<or>
       minted_for E s0 (ops @ [op]) a token"
  shows "handoff_traced E s0 (ops @ [op]) hs'"
  unfolding handoff_traced_def
proof (intro conjI allI impI)
  fix a i t assume "dget (hd_logins hs') a = Some (i, t)"
  from l [OF this] tr show "Login_Noted a i t \<in> set (ops @ [op])" by (auto simp: handoff_traced_def)
next
  fix a token ttl tenant roles t assume "dget (hd_outcomes hs') a = Some (Complete token ttl tenant roles, t)"
  from o [OF this] tr show "minted_for E s0 (ops @ [op]) a token"
    by (auto simp: handoff_traced_def intro: minted_for_snoc)
qed fact

lemma visit_traced:
  assumes tr: "handoff_traced E s0 ops hs" and r: "run (handoff_step E) ops (s0, no_held) = (s, hs)"
    and v: "desktop E enabled D now q headers (s, hs) = (p, s', hs')"
  shows "handoff_traced E s0 (ops @ [Page_Visit enabled D now q headers]) hs'"
proof -
  let ?op = "Page_Visit enabled D now q headers"
  have ok: "held_ok hs" using tr by (simp add: handoff_traced_def)
  have failed: "handoff_traced E s0 (ops @ [?op]) (snd (finish a (Failed code d h) now hs))" for a code d h
  proof -
    obtain b hs1 where f: "finish a (Failed code d h) now hs = (b, hs1)" by force
    then show ?thesis using finish_held [OF ok f] by (intro traced_snoc [OF tr]) fastforce+
  qed
  have same: "handoff_traced E s0 (ops @ [?op]) hs" by (rule traced_snoc [OF tr ok]) auto
  show ?thesis
  proof (cases "\<exists>a meta aud g issuance s1. q = Some a \<and> enabled \<and> signed_in E now headers s = Some meta \<and> fresh_login a (sm_sid meta) now hs \<and>
      ic_audiences (mi_config s) = [aud] \<and> mint_user E D meta aud (ic_default_user_tenant (mi_config s)) s = (Inr g, issuance, s1)")
    case False
    then show ?thesis using v same failed
      by (auto simp: desktop_def hand_over_def note_failure_def Let_def split: option.splits if_splits list.splits prod.splits sum.splits)
  next
    case True
    then obtain a meta aud g issuance s1 where q: "q = Some a" "enabled" "signed_in E now headers s = Some meta"
      "fresh_login a (sm_sid meta) now hs" "ic_audiences (mi_config s) = [aud]"
      "mint_user E D meta aud (ic_default_user_tenant (mi_config s)) s = (Inr g, issuance, s1)" by blast
    obtain u where u: "Login_Noted a (sm_sid meta) u \<in> set ops"
      using q(4) tr by (auto simp: fresh_login_def handoff_traced_def split: option.splits)
    have new: "minted_for E s0 (ops @ [?op]) a (ugr_access_token g)"
      unfolding minted_for_def good_visit_def using q r u by (intro exI [of _ ops]) auto
    consider "hs' = hs" | b where "finish a (Complete (ugr_access_token g) (ugr_expires_in g) (ugr_tenant g) (ugr_roles g)) now hs = (b, hs')"
      using v q by (auto simp: desktop_def hand_over_def Let_def split: if_splits prod.splits)
    then show ?thesis
    proof cases
      case (2 b)
      from finish_held [OF ok 2] new show ?thesis by (intro traced_snoc [OF tr]) fastforce+
    qed (use same in simp)
  qed
qed

lemma handoff_run_traced: "run (handoff_step E) ops (s0, no_held) = (s, hs) \<Longrightarrow> handoff_traced E s0 ops hs"
proof (induction ops arbitrary: s hs rule: rev_induct)
  case Nil
  then show ?case by (auto simp: handoff_traced_def held_ok_def no_held_def)
next
  case (snoc op ops)
  obtain s1 hs1 where r: "run (handoff_step E) ops (s0, no_held) = (s1, hs1)" by force
  note tr = snoc.IH [OF r]
  then have ok: "held_ok hs1" by (simp add: handoff_traced_def)
  have st: "handoff_step E op (s1, hs1) = (s, hs)" using snoc.prems r by (simp add: run_append)
  show ?case
  proof (cases op)
    case (Page_Visit enabled D now q headers)
    then show ?thesis using visit_traced [OF tr r] st by (cases "desktop E enabled D now q headers (s1, hs1)") auto
  next
    case (Login_Noted a i now)
    then show ?thesis using st note_login_held [OF ok, of a i now] by (intro traced_snoc [OF tr]) fastforce+
  next
    case (Login_Failed a code detail now)
    obtain b hs2 where f: "finish a (Failed code (take_chars 800 detail) (failure_hint code detail)) now hs1 = (b, hs2)" by force
    then show ?thesis using st finish_held [OF ok f] Login_Failed by (intro traced_snoc [OF tr]) (fastforce simp: note_failure_def)+
  next
    case (Collected a now)
    obtain r hs2 where f: "redeem a now hs1 = (r, hs2)" by force
    then show ?thesis using st redeem_held(1-3) [OF ok f] Collected by (intro traced_snoc [OF tr]) (auto split: if_splits)
  next
    case (Elsewhere s')
    then show ?thesis using st ok by (intro traced_snoc [OF tr]) auto
  qed
qed

text \<open>
  C31. A token collected by a desktop app was minted for the person who signed in for that very
  attempt: whatever logins, visits, failures and collections came before, the attempt has a visit
  with a session cookie that was active, that session was made by a login noted under the
  attempt, the token is what the mint gave for it, and nobody has collected it before.
\<close>

theorem handoff_is_bound:
  assumes "run (handoff_step E) ops (s0, no_held) = (s, hs)"
    and "redeem a now hs = (Some (Complete token ttl tenant roles), hs')"
  shows "minted_for E s0 ops a token"
  using handoff_run_traced [OF assms(1)] redeem_held(4) [OF _ assms(2)] by (auto simp: handoff_traced_def)

definition demo_attempt :: string where
  "demo_attempt = replicate 43 (CHR ''A'')"

definition demo_handoff :: "handoff_op list" where
  "demo_handoff = [Login_Noted demo_attempt ''s1'' 1030, Page_Visit True demo_draws 1040 (Some demo_attempt) demo_headers]"

theorem handoff_is_bound_witness:
  "\<exists>token. minted_for demo_mint_env demo_mint demo_handoff demo_attempt token"
proof -
  obtain s hs where r: "run (handoff_step demo_mint_env) demo_handoff (demo_mint, no_held) = (s, hs)" by force
  have "case run (handoff_step demo_mint_env) demo_handoff (demo_mint, no_held) of
      (s, hs) \<Rightarrow> (case fst (redeem demo_attempt 1050 hs) of Some (Complete _ _ _ _) \<Rightarrow> True | _ \<Rightarrow> False)" by code_simp
  then obtain token ttl tenant roles where "fst (redeem demo_attempt 1050 hs) = Some (Complete token ttl tenant roles)"
    by (auto simp: r split: option.splits desktop_outcome.splits)
  then have "redeem demo_attempt 1050 hs = (Some (Complete token ttl tenant roles), snd (redeem demo_attempt 1050 hs))"
    by (metis prod.collapse)
  from handoff_is_bound [OF r this] show ?thesis by blast
qed

end
