(* ===== verification/Admin.thy ===== *)
theory Admin
  imports Internal Console_Reads Log_Control Handoff
begin

text \<open>
  The management surface \<open>http/admin.rs\<close>: the guard in front of every handler, backend API keys,
  sessions, the audit trail, verbosity, custody and the rotation of signing keys. The view
  records extend the rows they show. What surrounds a request is a record \<open>admin_call\<close>: its peer
  and headers, the clocks, the random draws, whether a read of the store fails, and the ack
  channel and interleaving of its one write. SHA-256, JSON and filter parsing are in \<open>admin_env\<close>.
\<close>

section \<open>State and replies\<close>

record 'k admin_state =
  ad_sessions :: session_map
  ad_store :: writer
  ad_admin_key :: "string option"
  ad_audit :: "audit_sink option"
  ad_log :: "log_control option"
  ad_rate_limit :: "(client_source \<times> limiter) option"
  ad_issuer :: "issuer option"
  ad_providers :: "'k registry"
  ad_held :: held

text \<open>What the JSON details of the audit rows are made of.\<close>

datatype admin_detail =
    Key_Named string
  | In_Memory bool
  | Level_Until string timestamp
  | Level_Back string
  | Principal_Made string string string string string "timestamp option"
  | Secret_Made string "timestamp option" "timestamp option"
  | Secret_Named string
  | Grant_Made string "string list" "string list"
  | Grant_On string
  | Provider_Set provider_settings bool

record 'k admin_env =
  av_issuer :: issuer_env
  av_gap :: "nat \<Rightarrow> string"
  av_detail :: "admin_detail \<Rightarrow> string"
  av_value :: "string \<Rightarrow> string option"
  av_filter :: "string \<Rightarrow> bool"
  av_verifier :: "string \<Rightarrow> string"
  av_net :: net
  av_build :: "'k builder"

record admin_call =
  ca_peer :: "string option"
  ca_headers :: header_map
  ca_instant :: nat
  ca_now :: timestamp
  ca_draws :: "string list"
  ca_seed :: bytes
  ca_attached :: bool
  ca_read_fails :: bool
  ca_ack :: ack
  ca_events :: "writer_event list"
  ca_read_fails' :: bool
  ca_now' :: timestamp

datatype 'b admin_answer =
    Refuse nat string string
  | Discovery_Refused nat string discovery_failure
  | Limited response
  | Rejected
  | No_Content
  | Reply nat 'b

definition admin_actor :: string where
  "admin_actor = ''admin_api_key''"

definition admin_event :: "string \<Rightarrow> timestamp \<Rightarrow> audit_row" where
  "admin_event action now = (event_new action Outcome_Success Actor_Admin now)\<lparr>au_actor_id := Some admin_actor\<rparr>"

definition short_id :: "string \<Rightarrow> string" where
  "short_id random_id = take 16 random_id"

section \<open>The guard\<close>

text \<open>Only a wrong key spends from the limiter.\<close>

definition authorised :: "admin_call \<Rightarrow> 'k admin_state \<Rightarrow> 'b admin_answer option \<times> 'k admin_state" where
  "authorised c s =
     (case ad_admin_key s of
        None \<Rightarrow> (Some (Refuse 501 ''lane_disabled'' ''No admin_api_key is configured, so the admin lane is disabled.''), s)
      | Some expected \<Rightarrow>
          (if (case bearer (ca_headers c) of Some key \<Rightarrow> key_matches key expected | None \<Rightarrow> False) then (None, s)
           else
             (let wrong = Refuse 401 ''unauthorised'' ''A valid admin API key is required.''
              in case ad_rate_limit s of
                   None \<Rightarrow> (Some wrong, s)
                 | Some (src, l) \<Rightarrow>
                     (let (resp, l') = rate_limit_check src (ca_peer c) (ca_headers c) ''admin_auth'' (ca_instant c) l
                      in (Some (case resp of Some r \<Rightarrow> Limited r | None \<Rightarrow> wrong),
                          s\<lparr>ad_rate_limit := Some (src, l')\<rparr>)))))"

type_synonym ('b, 'k) handled = "'b admin_answer option \<times> 'k admin_state"

definition guarded :: "admin_call \<Rightarrow> 'k admin_state \<Rightarrow> ('k admin_state \<Rightarrow> ('b, 'k) handled) \<Rightarrow> ('b, 'k) handled" where
  "guarded c s handler =
     (case authorised c s of (Some r, s') \<Rightarrow> (Some r, s') | (None, s') \<Rightarrow> handler s')"

section \<open>Reads, writes and records\<close>

definition admin_read :: "admin_call \<Rightarrow> (db \<Rightarrow> repo_error + 'a) \<Rightarrow> 'k admin_state \<Rightarrow> issuer_error + 'a" where
  "admin_read c query s = with_reader (ca_read_fails c) query (ad_store s)"

definition audited_write ::
  "'k admin_env \<Rightarrow> admin_call \<Rightarrow> admin_write \<Rightarrow> audit_row \<Rightarrow> 'k admin_state \<Rightarrow> (write_failure + bool) option \<times> 'k admin_state" where
  "audited_write E c write event s =
     (let (r, w) = write_admin_audited (ie_crypto (av_issuer E)) (ie_json (av_issuer E)) write
                     (map_option (transactional (ie_pseudonym (av_issuer E)) event) (ad_audit s))
                     (ca_ack c) (ca_events c) (ad_store s)
      in (r, s\<lparr>ad_store := w\<rparr>))"

definition admin_record :: "'k admin_env \<Rightarrow> audit_row \<Rightarrow> 'k admin_state \<Rightarrow> 'k admin_state" where
  "admin_record E event s =
     (case ad_audit s of
        None \<Rightarrow> s
      | Some sink \<Rightarrow>
          (let (sink', w) = sink_record (ie_pseudonym (av_issuer E)) (av_gap E) event (sink, ad_store s)
           in s\<lparr>ad_audit := Some sink', ad_store := w\<rparr>))"

section \<open>API keys\<close>

record api_key_view = api_key_row +
  kv_live :: bool

definition admin_list_keys :: "admin_call \<Rightarrow> 'k admin_state \<Rightarrow> (api_key_view list, 'k) handled" where
  "admin_list_keys c s = guarded c s (\<lambda>s.
     (case admin_read c (\<lambda>d. Inr (list_api_keys d)) s of
        Inl _ \<Rightarrow> (Some (Refuse 500 ''store_error'' ''The key list could not be read.''), s)
      | Inr rows \<Rightarrow>
          (Some (Reply 200 (map (\<lambda>r. api_key_row.extend r \<lparr>kv_live = (kr_revoked_at r = None)\<rparr>) rows)), s)))"

record created_key =
  ck_key_id :: string
  ck_name :: string
  ck_secret :: string
  ck_created_at :: timestamp

definition admin_create_key :: "'k admin_env \<Rightarrow> admin_call \<Rightarrow> string \<Rightarrow> 'k admin_state \<Rightarrow> (created_key, 'k) handled" where
  "admin_create_key E c requested s = guarded c s (\<lambda>s.
     let name = trim_text requested; now = ca_now c in
     if name = []
     then (Some (Refuse 400 ''name_required'' ''A key must say which backend it is for.''), s)
     else
       (let key_id = ''bk_'' @ short_id (ca_draws c ! 0); secret = ca_draws c ! 1;
            event = (admin_event ''key.issued'' now)
              \<lparr>au_key_id := Some key_id, au_detail := Some (av_detail E (Key_Named name))\<rparr>
        in case audited_write E c (InsertApiKey key_id name (ie_hash (av_issuer E) secret) None now) event s of
             (None, s') \<Rightarrow> (None, s')
           | (Some (Inl _), s') \<Rightarrow>
               (Some (Refuse 500 ''store_error'' ''The key could not be stored, so it was not issued.''), s')
           | (Some (Inr _), s') \<Rightarrow>
               (Some (Reply 201 \<lparr>ck_key_id = key_id, ck_name = name, ck_secret = secret, ck_created_at = now\<rparr>), s')))"

definition admin_revoke_key :: "'k admin_env \<Rightarrow> admin_call \<Rightarrow> string \<Rightarrow> 'k admin_state \<Rightarrow> (unit, 'k) handled" where
  "admin_revoke_key E c key_id s = guarded c s (\<lambda>s.
     case audited_write E c (RevokeApiKey key_id (ca_now c))
            ((admin_event ''key.revoked'' (ca_now c))\<lparr>au_key_id := Some key_id\<rparr>) s of
       (None, s') \<Rightarrow> (None, s')
     | (Some (Inr True), s') \<Rightarrow> (Some No_Content, s')
     | (Some (Inr False), s') \<Rightarrow> (Some (Refuse 404 ''unknown_key'' ''No live key with that id.''), s')
     | (Some (Inl _), s') \<Rightarrow> (Some (Refuse 500 ''store_error'' ''The key could not be revoked.''), s'))"

section \<open>Sessions\<close>

record session_view =
  sv_sid :: sid
  sv_sub :: string
  sv_custody_id :: custody_id
  sv_current_gen :: nat
  sv_idle_exp :: timestamp
  sv_absolute_exp :: timestamp

definition session_view_of :: "rehydrated_session \<Rightarrow> session_view" where
  "session_view_of e =
     (let r = rh_session e
      in \<lparr>sv_sid = sr_sid r, sv_sub = sr_sub r, sv_custody_id = sr_custody_id r, sv_current_gen = sr_current_gen r,
          sv_idle_exp = sr_idle_exp r, sv_absolute_exp = sr_absolute_exp r\<rparr>)"

definition admin_list_sessions :: "admin_call \<Rightarrow> 'k admin_state \<Rightarrow> (session_view list, 'k) handled" where
  "admin_list_sessions c s = guarded c s (\<lambda>s.
     (case admin_read c rehydrate s of
        Inl _ \<Rightarrow> (Some (Refuse 500 ''store_error'' ''Sessions could not be read.''), s)
      | Inr rows \<Rightarrow> (Some (Reply 200 (map session_view_of rows)), s)))"

text \<open>A session gone from memory but alive on disk still gets its durable tombstone.\<close>

definition admin_revoke_session :: "'k admin_env \<Rightarrow> admin_call \<Rightarrow> sid \<Rightarrow> 'k admin_state \<Rightarrow> (unit, 'k) handled" where
  "admin_revoke_session E c i s = guarded c s (\<lambda>s.
     let now = ca_now c;
         (killed, m) = tombstone_session_with_reason i now Kill_AdminRevoked (ad_sessions s);
         s1 = s\<lparr>ad_sessions := m\<rparr>;
         s2 = (if killed then s1 else s1\<lparr>ad_store := enqueue (TombstoneSession i now) (ad_store s1)\<rparr>)
     in (Some No_Content,
         admin_record E ((admin_event ''session.revoked'' now)
           \<lparr>au_sid := Some i, au_detail := Some (av_detail E (In_Memory killed))\<rparr>) s2))"

section \<open>The audit trail\<close>

record audit_params =
  ap_since :: "timestamp option"
  ap_until :: "timestamp option"
  ap_action :: "string option"
  ap_subject :: "string option"
  ap_outcome :: "string option"
  ap_actor_kind :: "string option"
  ap_before_seq :: "int option"
  ap_limit :: "nat option"
  ap_format :: "string option"

definition nonempty :: "string option \<Rightarrow> string option" where
  "nonempty x = (case x of Some (y # ys) \<Rightarrow> Some (y # ys) | _ \<Rightarrow> None)"

definition query_of :: "audit_params \<Rightarrow> audit_query" where
  "query_of p =
     \<lparr>aq_since = ap_since p, aq_until = ap_until p, aq_action_prefix = nonempty (ap_action p),
      aq_subject = nonempty (ap_subject p), aq_outcome = nonempty (ap_outcome p),
      aq_actor_kind = nonempty (ap_actor_kind p), aq_before_seq = ap_before_seq p,
      aq_limit = (case ap_limit p of Some n \<Rightarrow> n | None \<Rightarrow> 200)\<rparr>"

text \<open>The detail of a row goes out as JSON again, or not at all if it is none.\<close>

definition audit_view :: "'k admin_env \<Rightarrow> db_audit \<Rightarrow> db_audit" where
  "audit_view E a = a\<lparr>a_row := (a_row a)\<lparr>au_detail := Option.bind (au_detail (a_row a)) (av_value E)\<rparr>\<rparr>"

datatype audit_page =
    Audit_Lines "db_audit list"
  | Audit_Page "db_audit list" "int option" nat audit_stats

definition admin_list_audit :: "'k admin_env \<Rightarrow> admin_call \<Rightarrow> audit_params \<Rightarrow> 'k admin_state \<Rightarrow> (audit_page, 'k) handled" where
  "admin_list_audit E c params s = guarded c s (\<lambda>s.
     let query = query_of params in
     case admin_read c (\<lambda>d. Inr (list_audit query d, audit_stats_of d)) s of
       Inl _ \<Rightarrow> (Some (Refuse 500 ''store_error'' ''The audit trail could not be read.''), s)
     | Inr (rows, stats) \<Rightarrow>
         (let views = map (audit_view E) rows
          in if ap_format params = Some ''ndjson'' then (Some (Reply 200 (Audit_Lines views)), s)
             else (Some (Reply 200 (Audit_Page views (next_before_seq query rows)
                     (case ad_audit s of Some sink \<Rightarrow> ac_retention_days (as_config sink) | None \<Rightarrow> 0) stats)), s)))"

section \<open>Observability\<close>

fun subject_mode_as_str :: "subject_mode \<Rightarrow> string" where
  "subject_mode_as_str Plain = ''plain''"
| "subject_mode_as_str Hashed = ''hashed''"

record observability_view =
  ov_log_format :: string
  ov_configured_filter :: string
  ov_effective_filter :: string
  ov_sinks :: "string list"
  ov_log_file :: "string option"
  ov_log_file_rotation :: "string option"
  ov_override_active :: bool
  ov_override_expires_at :: "timestamp option"
  ov_override_requested_by :: "string option"
  ov_override_max_secs :: nat
  ov_metrics_path :: "string option"
  ov_audit_config :: audit_config
  ov_audit_subject_mode :: string
  ov_audit_queue_depth :: int
  ov_audit_stats :: audit_stats
  ov_audit_dropped_total :: nat
  ov_audit_failed_total :: nat

definition admin_get_observability ::
  "admin_call \<Rightarrow> nat \<Rightarrow> nat \<Rightarrow> 'k admin_state \<Rightarrow> (observability_view, 'k) handled" where
  "admin_get_observability c dropped failed s = guarded c s (\<lambda>s.
     let stats = (case admin_read c (\<lambda>d. Inr (audit_stats_of d)) s of Inr st \<Rightarrow> st | Inl _ \<Rightarrow> no_stats);
         config = (case ad_audit s of Some sink \<Rightarrow> as_config sink | None \<Rightarrow> default_audit_config);
         current = Option.bind (ad_log s) lg_active;
         shown = (\<lambda>f d. case ad_log s of Some g \<Rightarrow> f g | None \<Rightarrow> d);
         file = Option.bind (ad_log s) (lc_file \<circ> lg_config)
     in (Some (Reply 200
          \<lparr>ov_log_format = shown (log_format_as_str \<circ> lc_format \<circ> lg_config) ''unknown'',
           ov_configured_filter = shown (lc_default_filter \<circ> lg_config) ''unknown'',
           ov_effective_filter = shown effective_filter ''unknown'',
           ov_sinks = ''stdout'' # (if file \<noteq> None then [''file''] else []),
           ov_log_file = file,
           ov_log_file_rotation = map_option (file_rotation_as_str \<circ> lc_file_rotation \<circ> lg_config) (ad_log s),
           ov_override_active = (current \<noteq> None),
           ov_override_expires_at = map_option lo_expires_at current,
           ov_override_requested_by = Option.bind current lo_requested_by,
           ov_override_max_secs = (case ad_log s of Some g \<Rightarrow> lc_override_max_secs (lg_config g) | None \<Rightarrow> 0),
           ov_metrics_path = Some ''/metrics'',
           ov_audit_config = config,
           ov_audit_subject_mode = subject_mode_as_str (ac_subject_mode config),
           ov_audit_queue_depth = (if ad_audit s \<noteq> None then w_depth (ad_store s) else 0),
           ov_audit_stats = stats, ov_audit_dropped_total = dropped, ov_audit_failed_total = failed\<rparr>), s))"

definition no_log_control :: "'b admin_answer" where
  "no_log_control = Refuse 501 ''no_log_control''
     ''This process did not install its own subscriber, so verbosity cannot be changed here.''"

definition admin_put_log_level ::
  "'k admin_env \<Rightarrow> admin_call \<Rightarrow> string \<Rightarrow> nat \<Rightarrow> 'k admin_state \<Rightarrow> (string \<times> timestamp, 'k) handled" where
  "admin_put_log_level E c directive duration_secs s = guarded c s (\<lambda>s.
     case ad_log s of
       None \<Rightarrow> (Some no_log_control, s)
     | Some g \<Rightarrow>
         (case set_override (av_filter E) (ca_attached c) directive duration_secs (ca_now c) (Some admin_actor) g of
            (Inr ov, g') \<Rightarrow>
              (Some (Reply 200 (lo_filter ov, lo_expires_at ov)),
               admin_record E ((admin_event ''logging.level_changed'' (ca_now c))
                 \<lparr>au_detail := Some (av_detail E (Level_Until (lo_filter ov) (lo_expires_at ov)))\<rparr>) (s\<lparr>ad_log := Some g'\<rparr>))
          | (Inl (Bad_Filter _), g') \<Rightarrow>
              (Some (Refuse 400 ''bad_filter'' ''That is not a valid tracing filter directive.''), s\<lparr>ad_log := Some g'\<rparr>)
          | (Inl (Too_Long _ _), g') \<Rightarrow>
              (Some (Refuse 400 ''duration_out_of_range''
                 ''The duration must be between 1 second and the configured ceiling.''), s\<lparr>ad_log := Some g'\<rparr>)
          | (Inl Detached, g') \<Rightarrow>
              (Some (Refuse 500 ''reload_failed'' ''The subscriber would not accept the new filter.''), s\<lparr>ad_log := Some g'\<rparr>)))"

definition admin_restore_log_level :: "'k admin_env \<Rightarrow> admin_call \<Rightarrow> 'k admin_state \<Rightarrow> (unit, 'k) handled" where
  "admin_restore_log_level E c s = guarded c s (\<lambda>s.
     case ad_log s of
       None \<Rightarrow> (Some no_log_control, s)
     | Some g \<Rightarrow>
         (case restore (av_filter E) (ca_attached c) g of
            (Inr changed, g') \<Rightarrow>
              (Some No_Content,
               if changed
               then admin_record E ((admin_event ''logging.level_changed'' (ca_now c))
                      \<lparr>au_detail := Some (av_detail E (Level_Back (lc_default_filter (lg_config g))))\<rparr>) (s\<lparr>ad_log := Some g'\<rparr>)
               else s\<lparr>ad_log := Some g'\<rparr>)
          | (Inl _, g') \<Rightarrow>
              (Some (Refuse 500 ''reload_failed'' ''The configured filter could not be restored.''), s\<lparr>ad_log := Some g'\<rparr>)))"

section \<open>Custody and signing keys\<close>

record custody_view =
  cv_custody_id :: custody_id
  cv_status :: string
  cv_access_exp :: timestamp
  cv_next_refresh :: timestamp
  cv_fail_count :: int

definition custody_view_of :: "custody_schedule \<Rightarrow> custody_view" where
  "custody_view_of r =
     \<lparr>cv_custody_id = cs_custody_id r, cv_status = custody_word (cs_status r), cv_access_exp = cs_access_exp r,
      cv_next_refresh = cs_next_refresh r, cv_fail_count = cs_fail_count r\<rparr>"

definition admin_list_custody :: "admin_call \<Rightarrow> 'k admin_state \<Rightarrow> (custody_view list, 'k) handled" where
  "admin_list_custody c s = guarded c s (\<lambda>s.
     (case admin_read c live_custody_schedules s of
        Inl _ \<Rightarrow> (Some (Refuse 500 ''store_error'' ''Custody state could not be read.''), s)
      | Inr rows \<Rightarrow> (Some (Reply 200 (map custody_view_of rows)), s)))"

definition max_rotate_lead_secs :: nat where
  "max_rotate_lead_secs = 30 * 86400"

text \<open>A body that may be absent altogether: \<open>blank\<close> says it is only white space, \<open>parsed\<close> what it says else.\<close>

definition parse_optional :: "'a \<Rightarrow> bool \<Rightarrow> 'a option \<Rightarrow> 'a option" where
  "parse_optional dflt blank parsed = (if blank then Some dflt else parsed)"

definition rotate_note :: "rotation \<Rightarrow> string" where
  "rotate_note r =
     (if ro_immediate r
      then ''The new key signs now and every older key is no longer published. Tokens '' @
           ''issued before this are invalid, and verifiers reject new tokens until they '' @
           ''next refresh their key set.''
      else ''The new key is published now and starts signing at activate_at. Older keys '' @
           ''stay published until previous_retire_at.'')"

definition admin_rotate_signing_key ::
  "'k admin_env \<Rightarrow> admin_call \<Rightarrow> bool \<Rightarrow> nat option option \<Rightarrow> 'k admin_state \<Rightarrow> (rotation \<times> string, 'k) handled" where
  "admin_rotate_signing_key E c blank parsed s = guarded c s (\<lambda>s.
     case ad_issuer s of
       None \<Rightarrow> (Some (Refuse 501 ''lane_disabled''
         (''The token issuer is not configured (token_issuer, issuer_audiences) or its signing keys '' @
          ''could not be loaded at start, so they cannot be rotated here.'')), s)
     | Some issuer \<Rightarrow>
         (case parse_optional None blank parsed of
            None \<Rightarrow> (Some (Refuse 400 ''bad_request''
              ''The body must be empty or a JSON object with an optional activate_in_secs.''), s)
          | Some activate_in_secs \<Rightarrow>
              (if (case activate_in_secs of Some secs \<Rightarrow> max_rotate_lead_secs < secs | None \<Rightarrow> False)
               then (Some (Refuse 400 ''activate_in_out_of_range''
                       ''activate_in_secs must be at most 2592000 (30 days).''), s)
               else
                 (case rotate (av_issuer E) activate_in_secs admin_actor (ca_seed c) (ca_now c) (ca_ack c) (ca_events c)
                         (ca_read_fails' c) (ca_now' c) issuer (ad_store s) of
                    (r, issuer', w) \<Rightarrow>
                      (let s' = s\<lparr>ad_issuer := Some issuer', ad_store := w\<rparr>
                       in case r of
                            None \<Rightarrow> (None, s')
                          | Some (Inr rotation) \<Rightarrow> (Some (Reply 201 (rotation, rotate_note rotation)), s')
                          | Some (Inl _) \<Rightarrow>
                              (Some (Refuse 500 ''store_error'' ''The new key could not be stored, so nothing was rotated.''),
                               s'))))))"

end
