(* ===== verification/Admin_Identity.thy ===== *)
theory Admin_Identity
  imports Admin
begin

text \<open>
  Tenants, principals with their secrets, user grants and the view of the signing keys
  (\<open>http/admin/identity.rs\<close>). A body is what \<open>serde_json\<close> makes of it, \<open>None\<close> where it refuses.
\<close>

section \<open>Shared checks\<close>

definition default_tenant_name :: string where
  "default_tenant_name = ''default''"

definition default_max_ttl_secs :: nat where
  "default_max_ttl_secs = 30 * 86400"

definition max_max_ttl_secs :: nat where
  "max_max_ttl_secs = 365 * 86400"

definition max_secret_life_secs :: nat where
  "max_secret_life_secs = 10 * 365 * 86400"

definition max_list_items :: nat where
  "max_list_items = 64"

definition kinds :: "string list" where
  "kinds = [''ingest'', ''node'', ''replica'', ''reader'', ''admin'']"

definition bad :: "string \<Rightarrow> string \<Rightarrow> 'b admin_answer" where
  "bad e detail = Refuse 400 e detail"

definition store_failed :: "'b admin_answer" where
  "store_failed = Refuse 500 ''store_error'' ''The store could not be read or written.''"

definition parse_body :: "'a option \<Rightarrow> 'b admin_answer + 'a" where
  "parse_body body =
     (case body of
        Some request \<Rightarrow> Inr request
      | None \<Rightarrow> Inl (bad ''bad_request'' ''The body must be a JSON object with the documented fields and no others.''))"

definition admin_slug :: "string \<Rightarrow> bool" where
  "admin_slug s \<longleftrightarrow>
     (let low = (\<lambda>c. 97 \<le> (of_char c :: nat) \<and> (of_char c :: nat) \<le> 122 \<or> is_digit c)
      in 1 \<le> length s \<and> length s \<le> 63 \<and> low (hd s) \<and> list_all (\<lambda>c. low c \<or> c = CHR ''-'') s)"

definition admin_word :: "string \<Rightarrow> bool" where
  "admin_word s \<longleftrightarrow> s \<noteq> [] \<and> length s \<le> 128 \<and> \<not> (contains_any white_codes s \<or> contains_any control_codes s)"

fun clean_items :: "string list \<Rightarrow> string list \<Rightarrow> string list option" where
  "clean_items [] out = Some out"
| "clean_items (item # items) out =
     (if \<not> admin_word item then None
      else clean_items items (if item \<in> set out then out else out @ [item]))"

definition clean_list :: "string list \<Rightarrow> string list option" where
  "clean_list items =
     (case clean_items items [] of
        None \<Rightarrow> None
      | Some out \<Rightarrow> if out \<noteq> [] \<and> length out \<le> max_list_items then Some out else None)"

definition tenant_or_default :: "string option \<Rightarrow> 'b admin_answer + string" where
  "tenant_or_default tenant =
     (let t = (case tenant of Some t \<Rightarrow> t | None \<Rightarrow> default_tenant_name)
      in if admin_slug t then Inr t
         else Inl (bad ''invalid_tenant''
           (''A tenant is lower-case letters, digits and hyphens, starting with a letter or digit, '' @
            ''at most 63 characters.'')))"

definition apply_change ::
  "'k admin_env \<Rightarrow> admin_call \<Rightarrow> admin_write \<Rightarrow> audit_row \<Rightarrow> 'k admin_state \<Rightarrow> ('b admin_answer + bool) option \<times> 'k admin_state" where
  "apply_change E c write event s =
     (let (r, s') = audited_write E c write event s
      in (map_option (\<lambda>r. case r of Inl _ \<Rightarrow> Inl store_failed | Inr ok \<Rightarrow> Inr ok) r, s'))"

definition answer_change ::
  "('b admin_answer + bool) option \<times> 'k admin_state \<Rightarrow> (bool \<Rightarrow> 'k admin_state \<Rightarrow> 'b admin_answer) \<Rightarrow> ('b, 'k) handled" where
  "answer_change x reply =
     (case x of
        (None, s) \<Rightarrow> (None, s)
      | (Some (Inl r), s) \<Rightarrow> (Some r, s)
      | (Some (Inr ok), s) \<Rightarrow> (Some (reply ok s), s))"

definition checked :: "'b admin_answer + 'a \<Rightarrow> 'k admin_state \<Rightarrow> ('a \<Rightarrow> ('b, 'k) handled) \<Rightarrow> ('b, 'k) handled" where
  "checked x s continue = (case x of Inl r \<Rightarrow> (Some r, s) | Inr a \<Rightarrow> continue a)"

definition ensure :: "bool \<Rightarrow> 'b admin_answer \<Rightarrow> 'b admin_answer + unit" where
  "ensure ok r = (if ok then Inr () else Inl r)"

definition mint_secret ::
  "'k admin_env \<Rightarrow> string \<Rightarrow> string \<Rightarrow> timestamp \<Rightarrow> nat option \<Rightarrow> string \<times> new_secret" where
  "mint_secret E draw draw' now expires_in_secs =
     (let secret = ''sbp_'' @ draw
      in (secret, \<lparr>ns_secret_id = ''sps_'' @ short_id draw', ns_hash = ie_hash (av_issuer E) secret,
                   ns_expires_at = map_option (plus_secs now) expires_in_secs\<rparr>))"

definition check_secret_life :: "nat option \<Rightarrow> 'b admin_answer + unit" where
  "check_secret_life secs =
     ensure (case secs of None \<Rightarrow> True | Some n \<Rightarrow> n \<le> max_secret_life_secs)
       (bad ''expiry_out_of_range'' ''An expiry may be at most 10 years away.'')"

definition check_nonzero_life :: "nat option \<Rightarrow> 'b admin_answer + unit" where
  "check_nonzero_life secs =
     ensure (secs \<noteq> Some 0) (bad ''expiry_out_of_range''
       ''expires_in_secs must be at least 1; leave it out for a secret that does not expire.'')"

definition check_list :: "string \<Rightarrow> string \<Rightarrow> string list \<Rightarrow> 'b admin_answer + string list" where
  "check_list e detail items = (case clean_list items of Some xs \<Rightarrow> Inr xs | None \<Rightarrow> Inl (bad e detail))"

definition check_indexes :: "string list option \<Rightarrow> 'b admin_answer + string list" where
  "check_indexes indexes =
     (case indexes of
        None \<Rightarrow> Inr [''*'']
      | Some xs \<Rightarrow> check_list ''invalid_indexes''
          (''indexes must be 1 to 64 distinct words with no spaces; ['' @ [CHR 0x22] @ ''*'' @ [CHR 0x22] @ ''] means all.'') xs)"

record issued_secret =
  iss_secret_id :: string
  iss_secret :: string
  iss_created_at :: timestamp
  iss_expires_at :: "timestamp option"

definition issued_view :: "string \<Rightarrow> new_secret \<Rightarrow> timestamp \<Rightarrow> issued_secret" where
  "issued_view secret stored now =
     \<lparr>iss_secret_id = ns_secret_id stored, iss_secret = secret, iss_created_at = now, iss_expires_at = ns_expires_at stored\<rparr>"

section \<open>Tenants\<close>

record tenant_view = db_tenant +
  tv_live :: bool

definition tenant_view_of :: "db_tenant \<Rightarrow> tenant_view" where
  "tenant_view_of r = db_tenant.extend r \<lparr>tv_live = (t_disabled_at r = None)\<rparr>"

definition admin_list_tenants :: "admin_call \<Rightarrow> 'k admin_state \<Rightarrow> (tenant_view list, 'k) handled" where
  "admin_list_tenants c s = guarded c s (\<lambda>s.
     (case admin_read c (\<lambda>d. Inr (list_tenants d)) s of
        Inl _ \<Rightarrow> (Some store_failed, s)
      | Inr rows \<Rightarrow> (Some (Reply 200 (map tenant_view_of rows)), s)))"

record create_tenant_request =
  ct_tenant :: string
  ct_display_name :: "string option"

definition display_name_ok :: "string \<Rightarrow> bool" where
  "display_name_ok n \<longleftrightarrow> \<not> (n = [] \<or> 128 < length n \<or> contains_any control_codes n)"

definition admin_create_tenant ::
  "'k admin_env \<Rightarrow> admin_call \<Rightarrow> create_tenant_request option \<Rightarrow> 'k admin_state \<Rightarrow> (tenant_view, 'k) handled" where
  "admin_create_tenant E c body s = guarded c s (\<lambda>s.
     checked (parse_body body) s (\<lambda>request.
     checked (tenant_or_default (Some (ct_tenant request))) s (\<lambda>tenant.
     let display_name = map_option trim_text (ct_display_name request); now = ca_now c in
     checked (ensure (case display_name of Some n \<Rightarrow> display_name_ok n | None \<Rightarrow> True)
       (bad ''invalid_display_name'' ''A display name is 1 to 128 characters with no control characters.'')) s (\<lambda>_.
     answer_change (apply_change E c (InsertTenant tenant display_name now)
         ((admin_event ''tenant.created'' now)\<lparr>au_key_id := Some tenant\<rparr>) s) (\<lambda>ok _.
       if ok
       then Reply 201 (tenant_view_of \<lparr>t_tenant_id = tenant, t_display_name = display_name, t_created_at = now,
              t_disabled_at = None\<rparr>)
       else Refuse 409 ''tenant_exists'' ''That tenant already exists.'')))))"

definition admin_disable_tenant :: "'k admin_env \<Rightarrow> admin_call \<Rightarrow> string \<Rightarrow> 'k admin_state \<Rightarrow> (unit, 'k) handled" where
  "admin_disable_tenant E c tenant s = guarded c s (\<lambda>s.
     answer_change (apply_change E c (DisableTenant tenant (ca_now c))
         ((admin_event ''tenant.disabled'' (ca_now c))\<lparr>au_key_id := Some tenant\<rparr>) s) (\<lambda>ok _.
       if ok then No_Content else Refuse 404 ''unknown_tenant'' ''No enabled tenant with that name.''))"

definition admin_enable_tenant :: "'k admin_env \<Rightarrow> admin_call \<Rightarrow> string \<Rightarrow> 'k admin_state \<Rightarrow> (unit, 'k) handled" where
  "admin_enable_tenant E c tenant s = guarded c s (\<lambda>s.
     answer_change (apply_change E c (EnableTenant tenant)
         ((admin_event ''tenant.enabled'' (ca_now c))\<lparr>au_key_id := Some tenant\<rparr>) s) (\<lambda>ok _.
       if ok then No_Content else Refuse 404 ''unknown_tenant'' ''No disabled tenant with that name.''))"

section \<open>Principals\<close>

record principal_view = principal_row +
  pvw_live :: bool

definition principal_view_of :: "principal_row \<Rightarrow> principal_view" where
  "principal_view_of r = principal_row.extend r \<lparr>pvw_live = (pr_revoked_at r = None)\<rparr>"

record secret_view = secret_row +
  sw_live :: bool

definition admin_list_principals ::
  "'k admin_env \<Rightarrow> admin_call \<Rightarrow> string option \<Rightarrow> 'k admin_state \<Rightarrow> (principal_view list, 'k) handled" where
  "admin_list_principals E c tenant s = guarded c s (\<lambda>s.
     (case admin_read c (list_principals (ie_json (av_issuer E)) tenant) s of
        Inl _ \<Rightarrow> (Some store_failed, s)
      | Inr rows \<Rightarrow> (Some (Reply 200 (map principal_view_of rows)), s)))"

definition admin_get_principal ::
  "'k admin_env \<Rightarrow> admin_call \<Rightarrow> string \<Rightarrow> 'k admin_state \<Rightarrow> (principal_view \<times> secret_view list, 'k) handled" where
  "admin_get_principal E c i s = guarded c s (\<lambda>s.
     (case admin_read c (\<lambda>d. bindE (get_principal (ie_json (av_issuer E)) i d) (\<lambda>found.
              Inr (map_option (\<lambda>row. (row, list_principal_secrets i d)) found))) s of
        Inl _ \<Rightarrow> (Some store_failed, s)
      | Inr None \<Rightarrow> (Some (Refuse 404 ''unknown_principal'' ''No principal with that id.''), s)
      | Inr (Some (row, secrets)) \<Rightarrow>
          (Some (Reply 200 (principal_view_of row,
             map (\<lambda>x. secret_row.extend x \<lparr>sw_live = secret_row_live_at (ca_now c) x\<rparr>) secrets)), s)))"

record create_principal_request =
  cp_name :: string
  cp_tenant :: "string option"
  cp_kind :: string
  cp_scopes :: "string list"
  cp_indexes :: "string list option"
  cp_audience :: string
  cp_max_ttl_secs :: "nat option"
  cp_expires_in_secs :: "nat option"

text \<open>The checks in their order; what they give is the principal without its ids and its secret.\<close>

definition principal_asked :: "create_principal_request \<Rightarrow> 'b admin_answer + (string \<times> string \<times> string list \<times> string list \<times> nat)" where
  "principal_asked request =
     bindE (tenant_or_default (cp_tenant request)) (\<lambda>tenant.
     let name = trim_text (cp_name request) in
     bindE (ensure (admin_word name)
       (bad ''invalid_name'' ''A name is 1 to 128 characters with no spaces or control characters.'')) (\<lambda>_.
     bindE (ensure (cp_kind request \<in> set kinds)
       (bad ''invalid_kind'' ''kind must be one of ingest, node, replica, reader, admin.'')) (\<lambda>_.
     bindE (check_list ''invalid_scopes'' ''scopes must be 1 to 64 distinct words with no spaces.'' (cp_scopes request)) (\<lambda>scopes.
     bindE (check_indexes (cp_indexes request)) (\<lambda>indexes.
     bindE (ensure (admin_word (cp_audience request))
       (bad ''invalid_audience'' ''An audience is 1 to 128 characters with no spaces or control characters.'')) (\<lambda>_.
     let max_ttl_secs = (case cp_max_ttl_secs request of Some n \<Rightarrow> n | None \<Rightarrow> default_max_ttl_secs) in
     bindE (ensure (1 \<le> max_ttl_secs \<and> max_ttl_secs \<le> max_max_ttl_secs)
       (bad ''max_ttl_out_of_range'' ''max_ttl_secs must be between 1 second and 365 days.'')) (\<lambda>_.
     bindE (check_nonzero_life (cp_expires_in_secs request)) (\<lambda>_.
     bindE (check_secret_life (cp_expires_in_secs request)) (\<lambda>_.
       Inr (tenant, name, scopes, indexes, max_ttl_secs))))))))))"

definition issue_principal ::
  "'k admin_env \<Rightarrow> admin_call \<Rightarrow> create_principal_request \<Rightarrow> string \<times> string \<times> string list \<times> string list \<times> nat \<Rightarrow>
   'k admin_state \<Rightarrow> (principal_view \<times> issued_secret, 'k) handled" where
  "issue_principal E c request asked s =
     (let (tenant, name, scopes, indexes, max_ttl_secs) = asked;
          now = ca_now c;
          principal_id = ''sp_'' @ short_id (ca_draws c ! 0);
          (secret, stored) = mint_secret E (ca_draws c ! 1) (ca_draws c ! 2) now (cp_expires_in_secs request);
          event = (admin_event ''principal.created'' now)
            \<lparr>au_key_id := Some principal_id,
             au_detail := Some (av_detail E (Principal_Made tenant name (cp_kind request) (cp_audience request)
               (ns_secret_id stored) (ns_expires_at stored)))\<rparr>;
          view = principal_view_of
            \<lparr>pr_principal_id = principal_id, pr_tenant_id = tenant, pr_name = name, pr_kind = cp_kind request,
             pr_scopes = scopes, pr_indexes = indexes, pr_audience = cp_audience request, pr_max_ttl_secs = max_ttl_secs,
             pr_created_at = now, pr_created_by = Some admin_actor, pr_last_used_at = None, pr_revoked_at = None\<rparr>
      in answer_change (apply_change E c (InsertPrincipal
            \<lparr>npr_principal_id = principal_id, npr_tenant_id = tenant, npr_name = name, npr_kind = cp_kind request,
             npr_scopes = scopes, npr_indexes = indexes, npr_audience = cp_audience request,
             npr_max_ttl_secs = max_ttl_secs, npr_created_by = Some admin_actor, npr_secret = stored\<rparr> now) event s) (\<lambda>ok s.
           if ok then Reply 201 (view, issued_view secret stored now)
           else if \<not> ca_read_fails' c \<and> tenant_is_disabled tenant (w_db (ad_store s))
           then Refuse 409 ''tenant_disabled'' ''That tenant is disabled, so it takes no new principals.''
           else Refuse 409 ''principal_exists''
             ''The tenant already has a principal with that name (a revoked one keeps its name).''))"

definition admin_create_principal ::
  "'k admin_env \<Rightarrow> admin_call \<Rightarrow> create_principal_request option \<Rightarrow> 'k admin_state \<Rightarrow> (principal_view \<times> issued_secret, 'k) handled" where
  "admin_create_principal E c body s = guarded c s (\<lambda>s.
     checked (parse_body body) s (\<lambda>request.
     checked (principal_asked request) s (\<lambda>asked. issue_principal E c request asked s)))"

definition admin_revoke_principal :: "'k admin_env \<Rightarrow> admin_call \<Rightarrow> string \<Rightarrow> 'k admin_state \<Rightarrow> (unit, 'k) handled" where
  "admin_revoke_principal E c i s = guarded c s (\<lambda>s.
     answer_change (apply_change E c (RevokePrincipal i (ca_now c))
         ((admin_event ''principal.revoked'' (ca_now c))\<lparr>au_key_id := Some i\<rparr>) s) (\<lambda>ok _.
       if ok then No_Content else Refuse 404 ''unknown_principal'' ''No live principal with that id.''))"

section \<open>Principal secrets\<close>

record add_secret_request =
  sq_expires_in_secs :: "nat option"
  sq_expire_old_in_secs :: "nat option"

record added_secret =
  ns_principal_id :: string
  ns_issued :: issued_secret
  ns_old_secrets_expire_at :: "timestamp option"

definition no_request :: add_secret_request where
  "no_request = \<lparr>sq_expires_in_secs = None, sq_expire_old_in_secs = None\<rparr>"

definition admin_add_secret ::
  "'k admin_env \<Rightarrow> admin_call \<Rightarrow> string \<Rightarrow> bool \<Rightarrow> add_secret_request option \<Rightarrow> 'k admin_state \<Rightarrow> (added_secret, 'k) handled" where
  "admin_add_secret E c i blank body s = guarded c s (\<lambda>s.
     checked (parse_body (parse_optional no_request blank body)) s (\<lambda>request.
     checked (check_nonzero_life (sq_expires_in_secs request)) s (\<lambda>_.
     checked (check_secret_life (sq_expires_in_secs request)) s (\<lambda>_.
     checked (check_secret_life (sq_expire_old_in_secs request)) s (\<lambda>_.
     let now = ca_now c;
         (secret, stored) = mint_secret E (ca_draws c ! 0) (ca_draws c ! 1) now (sq_expires_in_secs request);
         expire_others_at = map_option (plus_secs now) (sq_expire_old_in_secs request);
         event = (admin_event ''principal.secret_added'' now)
           \<lparr>au_key_id := Some i,
            au_detail := Some (av_detail E (Secret_Made (ns_secret_id stored) (ns_expires_at stored) expire_others_at))\<rparr>
     in answer_change (apply_change E c (AddPrincipalSecret i stored expire_others_at now) event s) (\<lambda>ok _.
          if ok
          then Reply 201 \<lparr>ns_principal_id = i, ns_issued = issued_view secret stored now,
                 ns_old_secrets_expire_at = expire_others_at\<rparr>
          else Refuse 404 ''unknown_principal'' ''No live principal with that id.''))))))"

definition admin_revoke_secret ::
  "'k admin_env \<Rightarrow> admin_call \<Rightarrow> string \<Rightarrow> string \<Rightarrow> 'k admin_state \<Rightarrow> (unit, 'k) handled" where
  "admin_revoke_secret E c i secret_id s = guarded c s (\<lambda>s.
     answer_change (apply_change E c (RevokePrincipalSecret i secret_id (ca_now c))
         ((admin_event ''principal.secret_revoked'' (ca_now c))
           \<lparr>au_key_id := Some i, au_detail := Some (av_detail E (Secret_Named secret_id))\<rparr>) s) (\<lambda>ok _.
       if ok then No_Content else Refuse 404 ''unknown_secret'' ''No live secret with that id on that principal.''))"

section \<open>User grants\<close>

record user_grant_view = user_grant_row +
  uv_live :: bool

definition user_grant_view_of :: "user_grant_row \<Rightarrow> user_grant_view" where
  "user_grant_view_of r = user_grant_row.extend r \<lparr>uv_live = (gw_revoked_at r = None)\<rparr>"

definition admin_list_user_grants ::
  "'k admin_env \<Rightarrow> admin_call \<Rightarrow> string option \<Rightarrow> string option \<Rightarrow> 'k admin_state \<Rightarrow> (user_grant_view list, 'k) handled" where
  "admin_list_user_grants E c tenant sub s = guarded c s (\<lambda>s.
     (case admin_read c (list_user_grants (ie_json (av_issuer E)) tenant sub) s of
        Inl _ \<Rightarrow> (Some store_failed, s)
      | Inr rows \<Rightarrow> (Some (Reply 200 (map user_grant_view_of rows)), s)))"

record create_grant_request =
  cg_sub :: string
  cg_tenant :: "string option"
  cg_roles :: "string list"
  cg_indexes :: "string list option"

definition admin_create_user_grant ::
  "'k admin_env \<Rightarrow> admin_call \<Rightarrow> create_grant_request option \<Rightarrow> 'k admin_state \<Rightarrow> (user_grant_view, 'k) handled" where
  "admin_create_user_grant E c body s = guarded c s (\<lambda>s.
     checked (parse_body body) s (\<lambda>request.
     checked (tenant_or_default (cg_tenant request)) s (\<lambda>tenant.
     checked (ensure (\<not> (cg_sub request = [] \<or> 320 < length (cg_sub request) \<or> contains_any control_codes (cg_sub request)))
       (bad ''invalid_sub'' ''sub is 1 to 320 characters with no control characters.'')) s (\<lambda>_.
     checked (check_list ''invalid_roles'' ''roles must be 1 to 64 distinct words with no spaces.'' (cg_roles request)) s (\<lambda>roles.
     checked (check_indexes (cg_indexes request)) s (\<lambda>indexes.
     let now = ca_now c;
         event = (admin_event ''user_grant.created'' now)
           \<lparr>au_subject := Some (cg_sub request), au_detail := Some (av_detail E (Grant_Made tenant roles indexes))\<rparr>;
         view = user_grant_view_of
           \<lparr>gw_sub = cg_sub request, gw_tenant_id = tenant, gw_roles = roles, gw_indexes = indexes, gw_created_at = now,
            gw_created_by = Some admin_actor, gw_revoked_at = None\<rparr>
     in answer_change (apply_change E c (InsertUserGrant
           \<lparr>ng_sub = cg_sub request, ng_tenant_id = tenant, ng_roles = roles, ng_indexes = indexes,
            ng_created_by = Some admin_actor\<rparr> now) event s) (\<lambda>ok s.
          if ok then Reply 201 view
          else if \<not> ca_read_fails' c \<and> tenant_is_disabled tenant (w_db (ad_store s))
          then Refuse 409 ''tenant_disabled'' ''That tenant is disabled, so it takes no new grants.''
          else Refuse 409 ''grant_exists''
            ''That person already has a live grant on that tenant; revoke it to change it.'')))))))"

definition admin_revoke_user_grant ::
  "'k admin_env \<Rightarrow> admin_call \<Rightarrow> string \<Rightarrow> string \<Rightarrow> 'k admin_state \<Rightarrow> (unit, 'k) handled" where
  "admin_revoke_user_grant E c sub tenant s = guarded c s (\<lambda>s.
     answer_change (apply_change E c (RevokeUserGrant sub tenant (ca_now c))
         ((admin_event ''user_grant.revoked'' (ca_now c))
           \<lparr>au_subject := Some sub, au_detail := Some (av_detail E (Grant_On tenant))\<rparr>) s) (\<lambda>ok _.
       if ok then No_Content else Refuse 404 ''unknown_grant'' ''No live grant for that person on that tenant.''))"

section \<open>Signing keys\<close>

record signing_key_view = signing_key_row +
  gv_x :: string
  gv_state :: string

text \<open>Newest first: the first key that is published and has started is the one signing.\<close>

fun key_views :: "issuer_env \<Rightarrow> timestamp \<Rightarrow> bool \<Rightarrow> signing_key_row list \<Rightarrow> signing_key_view list" where
  "key_views E now signing_taken [] = []"
| "key_views E now signing_taken (r # rs) =
     (let published = (sg_removed_at r = None \<and> (case sg_retire_at r of None \<Rightarrow> True | Some t \<Rightarrow> now < t));
          (state, taken) =
            (if sg_removed_at r \<noteq> None then (''removed'', signing_taken)
             else if \<not> published then (''retired'', signing_taken)
             else if now < sg_activate_at r then (''pending'', signing_taken)
             else if \<not> signing_taken then (''signing'', True)
             else (''published'', signing_taken))
      in signing_key_row.extend r \<lparr>gv_x = ie_b64 E (sg_public_key r), gv_state = state\<rparr> # key_views E now taken rs)"

definition admin_list_signing_keys ::
  "'k admin_env \<Rightarrow> admin_call \<Rightarrow> 'k admin_state \<Rightarrow> (signing_key_view list, 'k) handled" where
  "admin_list_signing_keys E c s = guarded c s (\<lambda>s.
     (case admin_read c list_signing_keys s of
        Inl _ \<Rightarrow> (Some store_failed, s)
      | Inr rows \<Rightarrow> (Some (Reply 200 (key_views (av_issuer E) (ca_now c) False rows)), s)))"

end
