(* ===== verification/Admin_Providers.thy ===== *)
theory Admin_Providers
  imports Admin_Identity
begin

text \<open>
  Identity providers as data (\<open>http/admin/providers.rs\<close>) and the collection of a desktop sign-in
  (\<open>http/admin/handoff.rs\<close>). Creating and changing a provider awaits its discovery; \<open>meanwhile\<close>
  is what the other requests do to the state during that await.
\<close>

section \<open>Views and checks\<close>

definition presets :: "string list" where
  "presets = [''entra'', ''okta'', ''auth0'', ''google'', ''keycloak'', ''generic'']"

definition reserved_ids :: "string list" where
  "reserved_ids = [default_provider, ''test'']"

definition default_scopes :: "string list" where
  "default_scopes = [''openid'', ''profile'', ''email'', ''offline_access'']"

definition max_people :: nat where
  "max_people = 256"

record provider_view =
  pz_id :: string
  pz_preset :: string
  pz_display_name :: string
  pz_issuer_url :: string
  pz_client_id :: string
  pz_scopes :: "string list"
  pz_enabled :: bool
  pz_read_only :: bool
  pz_has_secret :: bool
  pz_redirect_uri :: string
  pz_created_at :: "timestamp option"
  pz_updated_at :: "timestamp option"

definition view_of :: "'k registry \<Rightarrow> provider_settings \<Rightarrow> provider_view" where
  "view_of r x =
     \<lparr>pz_id = pv_id x, pz_preset = pv_preset x, pz_display_name = pv_display_name x, pz_issuer_url = pv_issuer_url x,
      pz_client_id = pv_client_id x, pz_scopes = pv_scopes x, pz_enabled = pv_enabled x, pz_read_only = pv_read_only x,
      pz_has_secret = (pv_client_secret x \<noteq> None), pz_redirect_uri = rg_redirect_uri r,
      pz_created_at = pv_created_at x, pz_updated_at = pv_updated_at x\<rparr>"

definition discovery_refused :: "discovery_failure \<Rightarrow> 'b admin_answer" where
  "discovery_refused failure = Discovery_Refused 422 ''discovery_failed'' failure"

definition check_issuer :: "net \<Rightarrow> string \<Rightarrow> 'b admin_answer + unit" where
  "check_issuer N issuer = mapL (Discovery_Refused 400 ''invalid_issuer'') (check_issuer_url N issuer)"

definition check_preset :: "string \<Rightarrow> 'b admin_answer + unit" where
  "check_preset preset =
     ensure (preset \<in> set presets)
       (bad ''invalid_preset'' ''preset is one of entra, okta, auth0, google, keycloak, generic.'')"

definition check_display_name :: "string \<Rightarrow> 'b admin_answer + unit" where
  "check_display_name name =
     ensure (\<not> (trim_text name = [] \<or> 128 < length name \<or> contains_any control_codes name))
       (bad ''invalid_display_name'' ''display_name is 1 to 128 characters with no control characters.'')"

definition check_client_id :: "string \<Rightarrow> 'b admin_answer + unit" where
  "check_client_id client_id =
     ensure (\<not> (client_id = [] \<or> 512 < length client_id \<or> contains_any control_codes client_id))
       (bad ''invalid_client_id'' ''client_id is 1 to 512 characters with no control characters.'')"

definition check_secret :: "string \<Rightarrow> 'b admin_answer + string" where
  "check_secret secret =
     bindE (ensure (\<not> (secret = [] \<or> 4096 < length secret \<or> contains_any control_codes secret))
       (bad ''invalid_secret'' (''client_secret is 1 to 4096 characters with no control characters. '' @
          ''To keep the stored one, leave the field out.''))) (\<lambda>_. Inr secret)"

definition check_scopes :: "string list \<Rightarrow> 'b admin_answer + string list" where
  "check_scopes scopes =
     (let refused = Inl (bad ''invalid_scopes''
            ''scopes must be 1 to 64 distinct words with no spaces, and must include openid.'')
      in case clean_list scopes of
           Some xs \<Rightarrow> if ''openid'' \<in> set xs then Inr xs else refused
         | None \<Rightarrow> refused)"

definition unknown_provider :: "'b admin_answer" where
  "unknown_provider = Refuse 404 ''unknown_provider'' ''No provider has that id.''"

definition read_only_provider :: "'b admin_answer" where
  "read_only_provider = Refuse 409 ''read_only_provider''
     ''The default provider comes from the config file and cannot be changed here.''"

definition provider_exists :: "'b admin_answer" where
  "provider_exists = Refuse 409 ''provider_exists'' ''A provider already has this id.''"

definition provider_id_retired :: "'b admin_answer" where
  "provider_id_retired = Refuse 409 ''provider_id_retired''
     ''People or grants already exist under this id for another issuer. Choose another id.''"

definition namespace_in_use :: "admin_call \<Rightarrow> string \<Rightarrow> 'k admin_state \<Rightarrow> 'b admin_answer + bool" where
  "namespace_in_use c i s = mapL (\<lambda>_. store_failed) (admin_read c (\<lambda>d. Inr (provider_namespace_in_use i d)) s)"

section \<open>Reading\<close>

definition admin_list_providers :: "admin_call \<Rightarrow> 'k admin_state \<Rightarrow> (string \<times> provider_view list, 'k) handled" where
  "admin_list_providers c s = guarded c s (\<lambda>s.
     (Some (Reply 200 (rg_redirect_uri (ad_providers s),
        map (view_of (ad_providers s)) (list_providers (ad_providers s)))), s))"

definition live_settings :: "string \<Rightarrow> 'k admin_state \<Rightarrow> provider_settings option" where
  "live_settings i s =
     (case settings_of i (ad_providers s) of Some x \<Rightarrow> if pv_deleted x then None else Some x | None \<Rightarrow> None)"

definition admin_get_provider :: "admin_call \<Rightarrow> string \<Rightarrow> 'k admin_state \<Rightarrow> (provider_view, 'k) handled" where
  "admin_get_provider c i s = guarded c s (\<lambda>s.
     (Some (case live_settings i s of Some x \<Rightarrow> Reply 200 (view_of (ad_providers s) x) | None \<Rightarrow> unknown_provider), s))"

datatype test_result = Test_Found string discovered_endpoints | Test_Failed string discovery_failure

definition admin_test_provider :: "'k admin_env \<Rightarrow> admin_call \<Rightarrow> string option \<Rightarrow> 'k admin_state \<Rightarrow> (test_result, 'k) handled" where
  "admin_test_provider E c body s = guarded c s (\<lambda>s.
     checked (parse_body body) s (\<lambda>issuer_url.
       (Some (Reply 200 (case probe_issuer (av_net E) issuer_url of
          Inr endpoints \<Rightarrow> Test_Found issuer_url endpoints
        | Inl failure \<Rightarrow> Test_Failed issuer_url failure)), s)))"

definition admin_provider_people :: "admin_call \<Rightarrow> string \<Rightarrow> 'k admin_state \<Rightarrow> (string \<times> person list, 'k) handled" where
  "admin_provider_people c i s = guarded c s (\<lambda>s.
     if live_settings i s = None then (Some unknown_provider, s)
     else case admin_read c (\<lambda>d. Inr (provider_people i max_people d)) s of
            Inl _ \<Rightarrow> (Some store_failed, s)
          | Inr rows \<Rightarrow> (Some (Reply 200 (i, rows)), s))"

section \<open>Changing\<close>

record create_provider_request =
  cq_id :: string
  cq_preset :: string
  cq_display_name :: string
  cq_issuer_url :: string
  cq_client_id :: string
  cq_client_secret :: string
  cq_scopes :: "string list option"
  cq_enabled :: "bool option"

text \<open>The checks of \<open>create_inner\<close> up to the await.\<close>

definition provider_asked ::
  "'k admin_env \<Rightarrow> admin_call \<Rightarrow> create_provider_request \<Rightarrow> 'k admin_state \<Rightarrow> 'b admin_answer + string \<times> string list" where
  "provider_asked E c request s =
     (let i = cq_id request in
      bindE (ensure (admin_slug i) (bad ''invalid_id''
        (''An id is lower-case letters, digits and hyphens, starting with a letter or digit, '' @ ''at most 63 characters.''))) (\<lambda>_.
      bindE (ensure (i \<notin> set reserved_ids) (Refuse 409 ''reserved_id'' ''default and test are reserved ids.'')) (\<lambda>_.
      bindE (check_preset (cq_preset request)) (\<lambda>_.
      bindE (check_display_name (cq_display_name request)) (\<lambda>_.
      bindE (check_issuer (av_net E) (cq_issuer_url request)) (\<lambda>_.
      bindE (check_client_id (cq_client_id request)) (\<lambda>_.
      bindE (check_secret (cq_client_secret request)) (\<lambda>secret.
      bindE (case cq_scopes request of Some xs \<Rightarrow> check_scopes xs | None \<Rightarrow> Inr default_scopes) (\<lambda>scopes.
      bindE (case settings_of i (ad_providers s) of
               Some existing \<Rightarrow>
                 if \<not> pv_deleted existing then Inl provider_exists
                 else ensure (pv_issuer_url existing = cq_issuer_url request) provider_id_retired
             | None \<Rightarrow> bindE (namespace_in_use c i s) (\<lambda>used. ensure (\<not> used) provider_id_retired)) (\<lambda>_.
        Inr (secret, scopes)))))))))))"

definition created_settings :: "create_provider_request \<Rightarrow> string \<Rightarrow> string list \<Rightarrow> timestamp \<Rightarrow> provider_settings" where
  "created_settings request secret scopes now =
     \<lparr>pv_id = cq_id request, pv_preset = cq_preset request, pv_display_name = cq_display_name request,
      pv_issuer_url = cq_issuer_url request, pv_client_id = cq_client_id request, pv_client_secret = Some secret,
      pv_scopes = scopes, pv_enabled = (case cq_enabled request of Some b \<Rightarrow> b | None \<Rightarrow> True), pv_deleted = False,
      pv_read_only = False, pv_created_at = Some now, pv_updated_at = Some now\<rparr>"

text \<open>After the await: the write, and on success the new entry of the registry.\<close>

definition install_after ::
  "'k admin_env \<Rightarrow> admin_call \<Rightarrow> admin_write \<Rightarrow> audit_row \<Rightarrow> provider_settings \<Rightarrow> 'k oidc_client option \<Rightarrow> 'b admin_answer \<Rightarrow>
   ('k registry \<Rightarrow> 'b admin_answer) \<Rightarrow> 'k admin_state \<Rightarrow> ('b, 'k) handled" where
  "install_after E c write event settings client refused accepted s =
     (case apply_change E c write event s of
        (None, s') \<Rightarrow> (None, s')
      | (Some (Inl r), s') \<Rightarrow> (Some r, s')
      | (Some (Inr False), s') \<Rightarrow> (Some refused, s')
      | (Some (Inr True), s') \<Rightarrow>
          (Some (accepted (ad_providers s')), s'\<lparr>ad_providers := install settings client (ad_providers s')\<rparr>))"

definition provider_event :: "'k admin_env \<Rightarrow> string \<Rightarrow> timestamp \<Rightarrow> provider_settings \<Rightarrow> bool \<Rightarrow> audit_row" where
  "provider_event E action now x secret_changed =
     (admin_event action now)\<lparr>au_detail := Some (av_detail E (Provider_Set x secret_changed))\<rparr>"

definition first_client ::
  "'k admin_env \<Rightarrow> ('k admin_state \<Rightarrow> 'k admin_state) \<Rightarrow> provider_settings \<Rightarrow> 'k admin_state \<Rightarrow>
   ('b admin_answer + 'k oidc_client option) \<times> 'k admin_state" where
  "first_client E meanwhile settings s =
     (if pv_enabled settings
      then (mapL discovery_refused (bindE (connect (av_net E) (av_build E) settings (ad_providers s)) (\<lambda>k. Inr (Some k))),
            meanwhile s)
      else (Inr None, s))"

definition create_inner ::
  "'k admin_env \<Rightarrow> admin_call \<Rightarrow> ('k admin_state \<Rightarrow> 'k admin_state) \<Rightarrow> create_provider_request \<Rightarrow> 'k admin_state \<Rightarrow>
   (provider_view, 'k) handled" where
  "create_inner E c meanwhile request s =
     checked (provider_asked E c request s) s (\<lambda>(secret, scopes).
     let now = ca_now c; settings = created_settings request secret scopes now;
         (client, s1) = first_client E meanwhile settings s
     in checked client s1 (\<lambda>client.
          install_after E c (InsertProvider
              \<lparr>np_id = cq_id request, np_preset = pv_preset settings, np_display_name = pv_display_name settings,
               np_issuer_url = pv_issuer_url settings, np_client_id = pv_client_id settings,
               np_client_secret = bytes_of secret, np_scopes = pv_scopes settings, np_enabled = pv_enabled settings\<rparr> now)
            (provider_event E ''provider.created'' now settings True) settings client provider_exists
            (\<lambda>r. Reply 201 (view_of r settings)) s1))"

definition admin_create_provider ::
  "'k admin_env \<Rightarrow> admin_call \<Rightarrow> ('k admin_state \<Rightarrow> 'k admin_state) \<Rightarrow> create_provider_request option \<Rightarrow> 'k admin_state \<Rightarrow>
   (provider_view, 'k) handled" where
  "admin_create_provider E c meanwhile body s = guarded c s (\<lambda>s.
     checked (parse_body body) s (\<lambda>request. create_inner E c meanwhile request s))"

record update_provider_request =
  uq_preset :: "string option"
  uq_display_name :: "string option"
  uq_issuer_url :: "string option"
  uq_client_id :: "string option"
  uq_client_secret :: "string option"
  uq_scopes :: "string list option"
  uq_enabled :: "bool option"

definition changed :: "('a \<Rightarrow> 'b admin_answer + 'a) \<Rightarrow> 'a option \<Rightarrow> 'a \<Rightarrow> 'b admin_answer + 'a" where
  "changed check requested cur = (case requested of None \<Rightarrow> Inr cur | Some x \<Rightarrow> check x)"

definition keeping :: "('a \<Rightarrow> 'b admin_answer + unit) \<Rightarrow> 'a \<Rightarrow> 'b admin_answer + 'a" where
  "keeping check x = bindE (check x) (\<lambda>_. Inr x)"

text \<open>\<open>next\<close> of \<open>update_inner\<close>, and the secret to store when the request brings one.\<close>

definition next_settings ::
  "'k admin_env \<Rightarrow> update_provider_request \<Rightarrow> provider_settings \<Rightarrow> 'b admin_answer + provider_settings" where
  "next_settings E q cur =
     bindE (changed (keeping check_preset) (uq_preset q) (pv_preset cur)) (\<lambda>preset.
     bindE (changed (keeping check_display_name) (uq_display_name q) (pv_display_name cur)) (\<lambda>name.
     bindE (changed (keeping (check_issuer (av_net E))) (uq_issuer_url q) (pv_issuer_url cur)) (\<lambda>issuer.
     bindE (changed (keeping check_client_id) (uq_client_id q) (pv_client_id cur)) (\<lambda>client_id.
     bindE (case uq_client_secret q of
              None \<Rightarrow> Inr (pv_client_secret cur)
            | Some x \<Rightarrow> bindE (check_secret x) (\<lambda>y. Inr (Some y))) (\<lambda>secret.
     bindE (changed check_scopes (uq_scopes q) (pv_scopes cur)) (\<lambda>scopes.
       Inr (cur\<lparr>pv_preset := preset, pv_display_name := name, pv_issuer_url := issuer, pv_client_id := client_id,
              pv_client_secret := secret, pv_scopes := scopes,
              pv_enabled := (case uq_enabled q of Some b \<Rightarrow> b | None \<Rightarrow> pv_enabled cur)\<rparr>)))))))"

definition connection_changed :: "provider_settings \<Rightarrow> provider_settings \<Rightarrow> bool" where
  "connection_changed cur x \<longleftrightarrow>
     pv_issuer_url x \<noteq> pv_issuer_url cur \<or> pv_client_id x \<noteq> pv_client_id cur \<or>
     pv_client_secret x \<noteq> pv_client_secret cur \<or> pv_scopes x \<noteq> pv_scopes cur"

definition issuer_locked :: "'b admin_answer" where
  "issuer_locked = Refuse 409 ''issuer_locked''
     (''People or grants already exist under this provider, and they belong to its issuer. '' @
      ''Add a new provider for the other issuer.'')"

definition check_issuer_lock :: "admin_call \<Rightarrow> string \<Rightarrow> provider_settings \<Rightarrow> provider_settings \<Rightarrow> 'k admin_state \<Rightarrow> 'b admin_answer + unit" where
  "check_issuer_lock c i cur x s =
     (if pv_issuer_url x = pv_issuer_url cur then Inr ()
      else bindE (namespace_in_use c i s) (\<lambda>used. ensure (\<not> used) issuer_locked))"

definition next_client ::
  "'k admin_env \<Rightarrow> ('k admin_state \<Rightarrow> 'k admin_state) \<Rightarrow> string \<Rightarrow> provider_settings \<Rightarrow> provider_settings \<Rightarrow> 'k admin_state \<Rightarrow>
   ('b admin_answer + 'k oidc_client option) \<times> 'k admin_state" where
  "next_client E meanwhile i cur x s =
     (let reusable = (\<not> connection_changed cur x \<and> pv_enabled cur)
      in if pv_enabled x \<and> \<not> reusable
         then (mapL discovery_refused (bindE (connect (av_net E) (av_build E) x (ad_providers s)) (\<lambda>k. Inr (Some k))), meanwhile s)
         else if reusable then (Inr (connected_client i (ad_providers s)), s)
         else (Inr None, s))"

definition update_inner ::
  "'k admin_env \<Rightarrow> admin_call \<Rightarrow> ('k admin_state \<Rightarrow> 'k admin_state) \<Rightarrow> string \<Rightarrow> update_provider_request \<Rightarrow> 'k admin_state \<Rightarrow>
   (provider_view, 'k) handled" where
  "update_inner E c meanwhile i q s =
     (case live_settings i s of
        None \<Rightarrow> (Some unknown_provider, s)
      | Some cur \<Rightarrow>
          if pv_read_only cur then (Some read_only_provider, s)
          else checked (next_settings E q cur) s (\<lambda>x.
               checked (check_issuer_lock c i cur x s) s (\<lambda>_.
               let (client, s1) = next_client E meanwhile i cur x s in
               checked client s1 (\<lambda>client.
               let now = ca_now c; final = x\<lparr>pv_updated_at := Some now\<rparr>
               in install_after E c (UpdateProvider
                     \<lparr>pu_id = i, pu_preset = pv_preset x, pu_display_name = pv_display_name x,
                      pu_issuer_url = pv_issuer_url x, pu_client_id = pv_client_id x,
                      pu_client_secret = map_option bytes_of (uq_client_secret q), pu_scopes = pv_scopes x,
                      pu_enabled = pv_enabled x\<rparr> now)
                   (provider_event E ''provider.updated'' now final (uq_client_secret q \<noteq> None)) final client unknown_provider
                   (\<lambda>r. Reply 200 (view_of r final)) s1))))"

definition admin_update_provider ::
  "'k admin_env \<Rightarrow> admin_call \<Rightarrow> ('k admin_state \<Rightarrow> 'k admin_state) \<Rightarrow> string \<Rightarrow> update_provider_request option \<Rightarrow>
   'k admin_state \<Rightarrow> (provider_view, 'k) handled" where
  "admin_update_provider E c meanwhile i body s = guarded c s (\<lambda>s.
     checked (parse_body body) s (\<lambda>q. update_inner E c meanwhile i q s))"

definition admin_remove_provider :: "'k admin_env \<Rightarrow> admin_call \<Rightarrow> string \<Rightarrow> 'k admin_state \<Rightarrow> (unit, 'k) handled" where
  "admin_remove_provider E c i s = guarded c s (\<lambda>s.
     case live_settings i s of
       None \<Rightarrow> (Some unknown_provider, s)
     | Some x \<Rightarrow>
         if pv_read_only x then (Some read_only_provider, s)
         else install_after E c (DeleteProvider i (ca_now c)) (provider_event E ''provider.deleted'' (ca_now c) x False)
                (x\<lparr>pv_deleted := True, pv_enabled := False, pv_client_secret := None\<rparr>) None unknown_provider (\<lambda>_. No_Content) s)"

section \<open>Collecting a desktop sign-in\<close>

definition admin_redeem ::
  "'k admin_env \<Rightarrow> admin_call \<Rightarrow> (string \<times> string) option \<Rightarrow> 'k admin_state \<Rightarrow> (desktop_outcome option, 'k) handled" where
  "admin_redeem E c body s = guarded c s (\<lambda>s.
     checked (parse_body body) s (\<lambda>(attempt, verifier).
       if \<not> verifier_matches (av_verifier E) attempt verifier
       then (Some (Refuse 403 ''bad_verifier'' ''that verifier does not belong to that attempt''), s)
       else (let (r, hs) = redeem attempt (ca_now c) (ad_held s) in (Some (Reply 200 r), s\<lparr>ad_held := hs\<rparr>))))"

end
