(* ===== verification/Admin_Safety.thy ===== *)
theory Admin_Safety
  imports Admin_Providers
begin

text \<open>
  The admin lane as a whole: the routes of \<open>http/admin.rs\<close> as one function, what it takes to get
  past the guard, and that no change goes unrecorded.
\<close>

section \<open>The routes\<close>

text \<open>
  One constructor per route, with what axum has extracted of the path, the query and a typed JSON
  body; \<open>Rq_Malformed\<close> is a request it refused before a handler ran.
\<close>

datatype admin_request =
    Rq_List_Keys
  | Rq_Create_Key string
  | Rq_Revoke_Key string
  | Rq_List_Sessions
  | Rq_Revoke_Session sid
  | Rq_List_Custody
  | Rq_List_Signing_Keys
  | Rq_Rotate_Signing_Key bool "nat option option"
  | Rq_List_Tenants
  | Rq_Create_Tenant "create_tenant_request option"
  | Rq_Disable_Tenant string
  | Rq_Enable_Tenant string
  | Rq_List_Principals "string option"
  | Rq_Create_Principal "create_principal_request option"
  | Rq_Get_Principal string
  | Rq_Revoke_Principal string
  | Rq_Add_Secret string bool "add_secret_request option"
  | Rq_Revoke_Secret string string
  | Rq_List_User_Grants "string option" "string option"
  | Rq_Create_User_Grant "create_grant_request option"
  | Rq_Revoke_User_Grant string string
  | Rq_List_Providers
  | Rq_Create_Provider "create_provider_request option"
  | Rq_Test_Provider "string option"
  | Rq_Get_Provider string
  | Rq_Update_Provider string "update_provider_request option"
  | Rq_Remove_Provider string
  | Rq_Provider_People string
  | Rq_Redeem "(string \<times> string) option"
  | Rq_List_Audit audit_params
  | Rq_Get_Observability nat nat
  | Rq_Put_Log_Level string nat
  | Rq_Restore_Log_Level
  | Rq_Malformed

datatype admin_body =
    Nothing
  | Key_List "api_key_view list"
  | Key_Made created_key
  | Session_List "session_view list"
  | Custody_List "custody_view list"
  | Signing_Key_List "signing_key_view list"
  | Rotation_Planned "rotation \<times> string"
  | Tenant_List "tenant_view list"
  | Tenant_Made tenant_view
  | Principal_List "principal_view list"
  | Principal_Shown "principal_view \<times> secret_view list"
  | Principal_Issued "principal_view \<times> issued_secret"
  | Secret_Added added_secret
  | Grant_List "user_grant_view list"
  | Grant_Shown user_grant_view
  | Provider_List "string \<times> provider_view list"
  | Provider_Shown provider_view
  | Provider_Tested test_result
  | People_List "string \<times> person list"
  | Handoff_Answer "desktop_outcome option"
  | Audit_Answer audit_page
  | Observability_Shown observability_view
  | Level_Shown "string \<times> timestamp"

definition as_body :: "('b \<Rightarrow> admin_body) \<Rightarrow> ('b, 'k) handled \<Rightarrow> (admin_body, 'k) handled" where
  "as_body f x = (map_option (map_admin_answer f) (fst x), snd x)"

fun admin_route ::
  "'k admin_env \<Rightarrow> admin_call \<Rightarrow> ('k admin_state \<Rightarrow> 'k admin_state) \<Rightarrow> admin_request \<Rightarrow> 'k admin_state \<Rightarrow> (admin_body, 'k) handled"
where
  "admin_route E c mw Rq_List_Keys s = as_body Key_List (admin_list_keys c s)"
| "admin_route E c mw (Rq_Create_Key name) s = as_body Key_Made (admin_create_key E c name s)"
| "admin_route E c mw (Rq_Revoke_Key i) s = as_body (\<lambda>_. Nothing) (admin_revoke_key E c i s)"
| "admin_route E c mw Rq_List_Sessions s = as_body Session_List (admin_list_sessions c s)"
| "admin_route E c mw (Rq_Revoke_Session i) s = as_body (\<lambda>_. Nothing) (admin_revoke_session E c i s)"
| "admin_route E c mw Rq_List_Custody s = as_body Custody_List (admin_list_custody c s)"
| "admin_route E c mw Rq_List_Signing_Keys s = as_body Signing_Key_List (admin_list_signing_keys E c s)"
| "admin_route E c mw (Rq_Rotate_Signing_Key blank body) s =
     as_body Rotation_Planned (admin_rotate_signing_key E c blank body s)"
| "admin_route E c mw Rq_List_Tenants s = as_body Tenant_List (admin_list_tenants c s)"
| "admin_route E c mw (Rq_Create_Tenant body) s = as_body Tenant_Made (admin_create_tenant E c body s)"
| "admin_route E c mw (Rq_Disable_Tenant t) s = as_body (\<lambda>_. Nothing) (admin_disable_tenant E c t s)"
| "admin_route E c mw (Rq_Enable_Tenant t) s = as_body (\<lambda>_. Nothing) (admin_enable_tenant E c t s)"
| "admin_route E c mw (Rq_List_Principals t) s = as_body Principal_List (admin_list_principals E c t s)"
| "admin_route E c mw (Rq_Create_Principal body) s = as_body Principal_Issued (admin_create_principal E c body s)"
| "admin_route E c mw (Rq_Get_Principal i) s = as_body Principal_Shown (admin_get_principal E c i s)"
| "admin_route E c mw (Rq_Revoke_Principal i) s = as_body (\<lambda>_. Nothing) (admin_revoke_principal E c i s)"
| "admin_route E c mw (Rq_Add_Secret i blank body) s = as_body Secret_Added (admin_add_secret E c i blank body s)"
| "admin_route E c mw (Rq_Revoke_Secret i j) s = as_body (\<lambda>_. Nothing) (admin_revoke_secret E c i j s)"
| "admin_route E c mw (Rq_List_User_Grants t sub) s = as_body Grant_List (admin_list_user_grants E c t sub s)"
| "admin_route E c mw (Rq_Create_User_Grant body) s = as_body Grant_Shown (admin_create_user_grant E c body s)"
| "admin_route E c mw (Rq_Revoke_User_Grant sub t) s = as_body (\<lambda>_. Nothing) (admin_revoke_user_grant E c sub t s)"
| "admin_route E c mw Rq_List_Providers s = as_body Provider_List (admin_list_providers c s)"
| "admin_route E c mw (Rq_Create_Provider body) s = as_body Provider_Shown (admin_create_provider E c mw body s)"
| "admin_route E c mw (Rq_Test_Provider body) s = as_body Provider_Tested (admin_test_provider E c body s)"
| "admin_route E c mw (Rq_Get_Provider i) s = as_body Provider_Shown (admin_get_provider c i s)"
| "admin_route E c mw (Rq_Update_Provider i body) s = as_body Provider_Shown (admin_update_provider E c mw i body s)"
| "admin_route E c mw (Rq_Remove_Provider i) s = as_body (\<lambda>_. Nothing) (admin_remove_provider E c i s)"
| "admin_route E c mw (Rq_Provider_People i) s = as_body People_List (admin_provider_people c i s)"
| "admin_route E c mw (Rq_Redeem body) s = as_body Handoff_Answer (admin_redeem E c body s)"
| "admin_route E c mw (Rq_List_Audit params) s = as_body Audit_Answer (admin_list_audit E c params s)"
| "admin_route E c mw (Rq_Get_Observability dropped failed) s = as_body Observability_Shown (admin_get_observability c dropped failed s)"
| "admin_route E c mw (Rq_Put_Log_Level directive secs) s = as_body Level_Shown (admin_put_log_level E c directive secs s)"
| "admin_route E c mw Rq_Restore_Log_Level s = as_body (\<lambda>_. Nothing) (admin_restore_log_level E c s)"
| "admin_route E c mw Rq_Malformed s = (Some Rejected, s)"

lemmas handler_defs =
  admin_list_keys_def admin_create_key_def admin_revoke_key_def admin_list_sessions_def admin_revoke_session_def
  admin_list_custody_def admin_list_signing_keys_def admin_rotate_signing_key_def admin_list_tenants_def
  admin_create_tenant_def admin_disable_tenant_def admin_enable_tenant_def admin_list_principals_def
  admin_create_principal_def admin_get_principal_def admin_revoke_principal_def admin_add_secret_def
  admin_revoke_secret_def admin_list_user_grants_def admin_create_user_grant_def admin_revoke_user_grant_def
  admin_list_providers_def admin_create_provider_def admin_test_provider_def admin_get_provider_def
  admin_update_provider_def admin_remove_provider_def admin_provider_people_def admin_redeem_def
  admin_list_audit_def admin_get_observability_def admin_put_log_level_def admin_restore_log_level_def

section \<open>Getting past the guard\<close>

definition holds_key :: "admin_call \<Rightarrow> 'k admin_state \<Rightarrow> bool" where
  "holds_key c s \<longleftrightarrow> (\<exists>key. ad_admin_key s = Some key \<and> bearer (ca_headers c) = Some key)"

definition turned_away :: "'b admin_answer \<Rightarrow> bool" where
  "turned_away r \<longleftrightarrow>
     (case r of Refuse status _ _ \<Rightarrow> status = 401 \<or> status = 501 | Limited resp \<Rightarrow> rp_status resp = 429 | Rejected \<Rightarrow> True | _ \<Rightarrow> False)"

lemma guarded_open: "holds_key c s \<Longrightarrow> guarded c s h = h s"
  by (auto simp: guarded_def authorised_def holds_key_def key_matches_iff)

lemma rate_limit_check_429: "rate_limit_check src peer headers b t l = (Some resp, l') \<Longrightarrow> rp_status resp = 429"
  by (auto simp: rate_limit_check_def Let_def split: option.splits prod.splits decision.splits)

lemma authorised_shut:
  assumes "\<not> holds_key c s"
  obtains r l where "authorised c s = (Some r, s\<lparr>ad_rate_limit := l\<rparr>)" "turned_away r"
proof (cases "ad_admin_key s")
  case None
  then have "authorised c s = (Some (Refuse 501 ''lane_disabled'' ''No admin_api_key is configured, so the admin lane is disabled.''),
      s\<lparr>ad_rate_limit := ad_rate_limit s\<rparr>)" by (simp add: authorised_def)
  then show thesis by (rule that) (simp add: turned_away_def)
next
  case (Some expected)
  let ?wrong = "Refuse 401 ''unauthorised'' ''A valid admin API key is required.''"
  have k: "(case bearer (ca_headers c) of Some key \<Rightarrow> key_matches key expected | None \<Rightarrow> False) = False"
    using assms Some by (auto simp: holds_key_def key_matches_iff split: option.split)
  show thesis
  proof (cases "ad_rate_limit s")
    case None
    with Some k have "authorised c s = (Some ?wrong, s\<lparr>ad_rate_limit := None\<rparr>)" by (simp add: authorised_def)
    then show thesis by (rule that) (simp add: turned_away_def)
  next
    case (Some sl)
    obtain src l where sl: "sl = (src, l)" by force
    obtain resp l' where lim: "rate_limit_check src (ca_peer c) (ca_headers c) ''admin_auth'' (ca_instant c) l = (resp, l')" by force
    have "authorised c s = (Some (case resp of Some r \<Rightarrow> Limited r | None \<Rightarrow> ?wrong), s\<lparr>ad_rate_limit := Some (src, l')\<rparr>)"
      using Some sl k lim \<open>ad_admin_key s = Some expected\<close> by (simp add: authorised_def)
    then show thesis
      by (rule that) (use lim rate_limit_check_429 in \<open>auto simp: turned_away_def split: option.split\<close>)
  qed
qed

lemma guarded_shut: "\<not> holds_key c s \<Longrightarrow> as_body f (guarded c s h) = authorised c s"
  by (auto simp: holds_key_def key_matches_iff guarded_def authorised_def as_body_def Let_def split: option.splits prod.splits)

text \<open>
  C15. Without the admin key nothing happens: whatever the route and the body, the request is
  answer_change 401, 429 or 501 or not even read, and the only part of the state that may change is the
  limiter that counts wrong keys.
\<close>

theorem admin_needs_the_key:
  assumes "\<not> holds_key c s"
  shows "\<exists>r l. admin_route E c mw request s = (Some r, s\<lparr>ad_rate_limit := l\<rparr>) \<and> turned_away r"
proof (cases "request = Rq_Malformed")
  case True
  then show ?thesis by (auto simp: turned_away_def intro!: exI [of _ "ad_rate_limit s"])
next
  case False
  then have "admin_route E c mw request s = authorised c s"
    using assms by (cases request) (simp_all add: handler_defs guarded_shut)
  then show ?thesis using authorised_shut [OF assms] by metis
qed

section \<open>A write among others\<close>

text \<open>Commands that leave a part \<open>obs\<close> of the store as it is, and a channel on which only such are about.\<close>

definition leaves :: "crypto \<Rightarrow> json \<Rightarrow> (db \<Rightarrow> 'o) \<Rightarrow> command \<Rightarrow> bool" where
  "leaves cr js obs cmd \<longleftrightarrow> (\<forall>d b d' b'. db_ok d \<longrightarrow> apply_command cr js cmd (d, b) = Inr (d', b') \<longrightarrow> obs d' = obs d)"

interpretation lv: write_through cr js obs "leaves cr js obs" "Admin aw au k" k
  for cr js obs aw au k
  by unfold_locales (auto simp: leaves_def)

definition clear_channel :: "'k admin_env \<Rightarrow> admin_call \<Rightarrow> (db \<Rightarrow> 'o) \<Rightarrow> writer \<Rightarrow> bool" where
  "clear_channel E c obs w \<longleftrightarrow>
     (let keeps = leaves (ie_crypto (av_issuer E)) (ie_json (av_issuer E)) obs; k = ca_ack c
      in db_ok (w_db w) \<and> k \<notin> fst ` set (w_acked w) \<and> list_all keeps (w_queue w) \<and> k \<notin> batch_acks (w_queue w) \<and>
         list_all (bystander k keeps) (ca_events c))"

lemma write_fate:
  assumes "clear_channel E c obs w"
    and "write_admin_audited (ie_crypto (av_issuer E)) (ie_json (av_issuer E)) aw au (ca_ack c) (ca_events c) w = (r, w')"
  obtains (ok) applied d0 d1 where "r = Some (Inr applied)" "db_ok d0" "obs d0 = obs (w_db w)"
      "apply_admin (ie_crypto (av_issuer E)) (ie_json (av_issuer E)) aw d0 = Inr (d1, applied)"
      "obs (w_db w') = obs (case au of None \<Rightarrow> d1 | Some row \<Rightarrow> insert_audit (tier_a_row aw applied row) d1)"
  | (no) "\<And>applied. r \<noteq> Some (Inr applied)" "obs (w_db w') = obs (w_db w)"
proof -
  let ?cr = "ie_crypto (av_issuer E)" and ?js = "ie_json (av_issuer E)"
  obtain r0 where b: "blocking ?cr ?js (Admin aw au (ca_ack c)) (ca_ack c) (ca_events c) w = (r0, w')"
    and r: "r = map_option admin_reply r0"
    using assms(2) by (auto simp: write_admin_audited_def Let_def split: prod.splits)
  from lv.blocking_fate [OF _ _ _ _ _ b] assms(1)
  consider (1) msg d0 b d1 b' where "r0 = Some (Inr msg)" "good_reply ?cr ?js (Admin aw au (ca_ack c)) d0 msg" "db_ok d0"
      "obs d0 = obs (w_db w)" "apply_command ?cr ?js (Admin aw au (ca_ack c)) (d0, b) = Inr (d1, b')" "obs (w_db w') = obs d1"
    | (2) "\<forall>msg. r0 = Some (Inr msg) \<longrightarrow> \<not> acked_ok msg" "obs (w_db w') = obs (w_db w)"
    unfolding clear_channel_def Let_def by metis
  then show thesis
  proof cases
    case 1
    then obtain d2 applied where ap: "apply_admin ?cr ?js aw d0 = Inr (d2, applied)" "msg = Admin_Sent (Inr applied)"
      by (auto simp: good_reply_def)
    with 1 show thesis by (intro ok [of applied d0 d2]) (auto simp: r bindE_Inr_iff)
  next
    case 2
    have "r \<noteq> Some (Inr applied)" for applied
    proof
      assume "r = Some (Inr applied)"
      then obtain x where x: "r0 = Some x" "admin_reply x = Inr applied" by (auto simp: r)
      then obtain msg where "x = Inr msg" "acked_ok msg" by (cases x rule: admin_reply.cases) (auto simp: acked_ok_def)
      with 2(1) x(1) show False by blast
    qed
    with 2(2) show thesis by (intro no) auto
  qed
qed

section \<open>Every change is recorded\<close>

text \<open>What the trail says the admin did at a time: the actions it records as successful.\<close>

definition successes :: "timestamp \<Rightarrow> db \<Rightarrow> string list" where
  "successes now d =
     map au_action (filter (\<lambda>r. au_actor_id r = Some admin_actor \<and> au_at r = now \<and> au_outcome r = ''success'')
       (map a_row (audit_tbl d)))"

fun accepted :: "'b admin_answer option \<Rightarrow> bool" where
  "accepted (Some No_Content) = True"
| "accepted (Some (Reply _ _)) = True"
| "accepted _ = False"

definition records :: "timestamp \<Rightarrow> string list \<Rightarrow> 'k admin_state \<Rightarrow> ('b, 'k) handled \<Rightarrow> bool" where
  "records now actions s x \<longleftrightarrow>
     successes now (w_db (ad_store (snd x))) =
     successes now (w_db (ad_store s)) @ (if accepted (fst x) then actions else [])"

text \<open>A row the admin lane writes, and the state in which its write is the only one of its kind.\<close>

definition admin_made :: "timestamp \<Rightarrow> string \<Rightarrow> audit_row \<Rightarrow> bool" where
  "admin_made now action e \<longleftrightarrow>
     au_action e = action \<and> au_at e = now \<and> au_actor_id e = Some admin_actor \<and> au_actor_kind e = ''admin'' \<and>
     au_outcome e = ''success''"

definition alone :: "'k admin_env \<Rightarrow> admin_call \<Rightarrow> 'k admin_state \<Rightarrow> bool" where
  "alone E c s \<longleftrightarrow> clear_channel E c (successes (ca_now c)) (ad_store s) \<and> ad_audit s \<noteq> None"

lemma admin_made_event [simp]: "admin_made now action (admin_event action now)"
  by (simp add: admin_made_def admin_event_def event_new_def)

lemma admin_made_update [simp]:
  "admin_made now action (e\<lparr>au_key_id := x\<rparr>) = admin_made now action e"
  "admin_made now action (e\<lparr>au_detail := x\<rparr>) = admin_made now action e"
  "admin_made now action (e\<lparr>au_subject := x\<rparr>) = admin_made now action e"
  by (simp_all add: admin_made_def)

lemma pseudonymise_made [simp]: "admin_made now action (pseudonymise f sink e) = admin_made now action e"
  by (auto simp: pseudonymise_def admin_made_def Let_def)

lemma successes_insert:
  assumes "admin_made now action e"
  shows "successes now (insert_audit (tier_a_row aw applied e) d) = successes now d @ (if applied then [action] else [])"
  using assms by (simp add: successes_def insert_audit_def tier_a_row_def admin_made_def)

lemma audited_write_records:
  assumes "alone E c s" and "admin_made (ca_now c) action event" and "audited_write E c aw event s = (r, s')"
  shows "successes (ca_now c) (w_db (ad_store s')) =
     successes (ca_now c) (w_db (ad_store s)) @ (if r = Some (Inr True) then [action] else [])" (is ?rec)
    and "r = Some (Inr applied) \<Longrightarrow> \<exists>d0 d1. apply_admin (ie_crypto (av_issuer E)) (ie_json (av_issuer E)) aw d0 = Inr (d1, applied)"
proof -
  obtain sink where sink: "ad_audit s = Some sink" using assms(1) by (auto simp: alone_def)
  have w: "write_admin_audited (ie_crypto (av_issuer E)) (ie_json (av_issuer E)) aw
      (Some (transactional (ie_pseudonym (av_issuer E)) event sink)) (ca_ack c) (ca_events c) (ad_store s) = (r, ad_store s')"
    using assms(3) by (auto simp: audited_write_def sink Let_def split: prod.splits)
  have u: "clear_channel E c (successes (ca_now c)) (ad_store s)" using assms(1) by (simp add: alone_def)
  have "?rec \<and> (r = Some (Inr applied) \<longrightarrow> (\<exists>d0 d1. apply_admin (ie_crypto (av_issuer E)) (ie_json (av_issuer E)) aw d0 = Inr (d1, applied)))"
    using u w
  proof (cases rule: write_fate)
    case (ok applied d0 d1)
    have "same_audit d0 d1" using ok(4) by (rule apply_admin_audit)
    then have "successes (ca_now c) d1 = successes (ca_now c) d0" by (simp add: successes_def same_audit_def)
    with ok assms(2) show ?thesis by (auto simp: transactional_def successes_insert)
  qed auto
  then show ?rec and "r = Some (Inr applied) \<Longrightarrow> \<exists>d0 d1. apply_admin (ie_crypto (av_issuer E)) (ie_json (av_issuer E)) aw d0 = Inr (d1, applied)"
    by blast+
qed

subsection \<open>The shapes of the handlers\<close>

definition refusing :: "'b admin_answer + 'a \<Rightarrow> bool" where
  "refusing x \<longleftrightarrow> (\<forall>r. x = Inl r \<longrightarrow> \<not> accepted (Some r))"

lemma accepted_map [simp]: "accepted (map_option (map_admin_answer f) r) = accepted r"
proof (cases r)
  case (Some x)
  then show ?thesis by (cases x) simp_all
qed simp

lemma records_as_body [simp]: "records now as s (as_body f x) = records now as s x"
  by (simp add: records_def as_body_def)

lemma records_same: "w_db (ad_store s') = w_db (ad_store s) \<Longrightarrow> accepted r \<longrightarrow> as = [] \<Longrightarrow> records now as s (r, s')"
  by (auto simp: records_def)

lemma records_guarded: "(holds_key c s \<Longrightarrow> records now as s (h s)) \<Longrightarrow> records now as s (guarded c s h)"
proof (cases "holds_key c s")
  case False
  then obtain r l where "authorised c s = (Some r, s\<lparr>ad_rate_limit := l\<rparr>)" "turned_away (r :: 'b admin_answer)"
    by (rule authorised_shut)
  then show ?thesis by (cases r) (auto simp: guarded_def records_def turned_away_def)
qed (simp add: guarded_open)

lemma records_checked:
  "refusing x \<Longrightarrow> (\<And>a. x = Inr a \<Longrightarrow> records now as s (f a)) \<Longrightarrow> records now as s (checked x s f)"
  by (cases x) (auto simp: checked_def refusing_def records_def)

lemma records_answered:
  assumes "alone E c s" and "admin_made (ca_now c) action event"
    and "\<And>s. accepted (Some (reply True s))" "\<And>s. \<not> accepted (Some (reply False s))"
  shows "records (ca_now c) [action] s (answer_change (apply_change E c aw event s) reply)"
proof -
  obtain r s' where w: "audited_write E c aw event s = (r, s')" by force
  from audited_write_records(1) [OF assms(1,2) w] assms(3,4) show ?thesis
    by (auto simp: records_def answer_change_def apply_change_def w store_failed_def split: option.splits sum.splits bool.splits)
qed

lemma records_install_after:
  assumes "alone E c s" and "admin_made (ca_now c) action event"
    and "\<not> accepted (Some refused)" "\<And>r. accepted (Some (reply r))"
  shows "records (ca_now c) [action] s (install_after E c aw event x client refused reply s)"
proof -
  obtain r s' where w: "audited_write E c aw event s = (r, s')" by force
  from audited_write_records(1) [OF assms(1,2) w] assms(3,4) show ?thesis
    by (auto simp: records_def install_after_def apply_change_def w store_failed_def split: option.splits sum.splits bool.splits)
qed

lemma refusing_basic [simp]:
  "refusing (Inr a)" "refusing (Inl r) = (\<not> accepted (Some r))" "refusing (ensure b r) = (b \<or> \<not> accepted (Some r))"
  by (simp_all add: refusing_def ensure_def)

lemma refusing_bindE [intro]: "refusing x \<Longrightarrow> (\<And>a. x = Inr a \<Longrightarrow> refusing (f a)) \<Longrightarrow> refusing (bindE x f)"
  by (cases x) (auto simp: refusing_def)

lemma refusing_checks [simp]:
  "refusing (parse_body body)" "refusing (tenant_or_default t)" "refusing (check_list e d xs)" "refusing (check_secret_life n)"
  "refusing (check_nonzero_life n)" "refusing (check_preset p)" "refusing (check_display_name p)" "refusing (check_client_id p)"
  by (simp_all add: parse_body_def tenant_or_default_def check_list_def check_secret_life_def check_nonzero_life_def
      check_preset_def check_display_name_def check_client_id_def bad_def Let_def split: option.split)

lemma refusing_more [simp]:
  "refusing (check_indexes ys)" "refusing (check_secret p)" "refusing (check_scopes xs)"
  "refusing (check_issuer N i)" "refusing (mapL discovery_refused z)" "refusing (namespace_in_use c i s)"
  by (auto simp: check_indexes_def check_secret_def check_scopes_def check_issuer_def discovery_refused_def namespace_in_use_def
      bad_def store_failed_def mapL_def Let_def intro!: refusing_bindE split: option.split sum.split)

lemma refusing_changed [simp]:
  "(\<And>x. refusing (f x)) \<Longrightarrow> refusing (changed f r y)" "(\<And>x. refusing (g x)) \<Longrightarrow> refusing (keeping g z)"
  by (auto simp: changed_def keeping_def split: option.split)

lemma refusing_asked:
  "refusing (principal_asked q)" "refusing (provider_asked E c p s)" "refusing (next_settings E u cur)"
  "refusing (check_issuer_lock c i cur x s)" "refusing (fst (next_client E mw i cur x s))" "refusing (fst (first_client E mw x s))"
  unfolding principal_asked_def provider_asked_def next_settings_def check_issuer_lock_def next_client_def first_client_def Let_def
  by ((intro refusing_bindE)?; simp add: bad_def provider_exists_def provider_id_retired_def issuer_locked_def refusing_bindE split: option.split)+

lemma records_from: "successes now (w_db (ad_store s1)) = successes now (w_db (ad_store s)) \<Longrightarrow> records now as s1 x \<Longrightarrow> records now as s x"
  by (simp add: records_def)

text \<open>While discovery is awaited, other requests may run; they are not the admin's at this second.\<close>

definition stays_alone :: "'k admin_env \<Rightarrow> admin_call \<Rightarrow> ('k admin_state \<Rightarrow> 'k admin_state) \<Rightarrow> bool" where
  "stays_alone E c meanwhile \<longleftrightarrow>
     (\<forall>s. alone E c s \<longrightarrow> alone E c (meanwhile s) \<and>
        successes (ca_now c) (w_db (ad_store (meanwhile s))) = successes (ca_now c) (w_db (ad_store s)))"

lemma awaited_alone:
  assumes "alone E c s" and "stays_alone E c mw" and "x = first_client E mw y s \<or> x = next_client E mw i cur y s"
  shows "alone E c (snd x)" and "successes (ca_now c) (w_db (ad_store (snd x))) = successes (ca_now c) (w_db (ad_store s))"
    and "refusing (fst x)"
  using assms refusing_asked(5) [of E mw i cur y s] refusing_asked(6) [of E mw y s]
  by (auto simp: first_client_def next_client_def stays_alone_def Let_def)

lemma records_create_inner:
  assumes "alone E c s" and "stays_alone E c mw"
  shows "records (ca_now c) [''provider.created''] s (create_inner E c mw q s)"
  unfolding create_inner_def
proof (intro records_checked refusing_asked, clarify)
  fix secret scopes
  define settings where "settings = created_settings q secret scopes (ca_now c)"
  obtain client :: "provider_view admin_answer + _" and s1 where f: "first_client E mw settings s = (client, s1)" by force
  note a = awaited_alone [OF assms disjI1 [OF f [symmetric]], simplified]
  show "records (ca_now c) [''provider.created''] s
      (let now = ca_now c; settings = created_settings q secret scopes now; (client, s1) = first_client E mw settings s
       in checked client s1 (\<lambda>client. install_after E c (InsertProvider
              \<lparr>np_id = cq_id q, np_preset = pv_preset settings, np_display_name = pv_display_name settings,
               np_issuer_url = pv_issuer_url settings, np_client_id = pv_client_id settings,
               np_client_secret = bytes_of secret, np_scopes = pv_scopes settings, np_enabled = pv_enabled settings\<rparr> now)
            (provider_event E ''provider.created'' now settings True) settings client provider_exists
            (\<lambda>r. Reply 201 (view_of r settings)) s1))"
    unfolding Let_def settings_def [symmetric] f prod.case
    by (rule records_from [OF a(2)], intro records_checked records_install_after a)
      (simp_all add: provider_event_def provider_exists_def)
qed

lemma records_update_inner:
  assumes "alone E c s" and "stays_alone E c mw"
  shows "records (ca_now c) [''provider.updated''] s (update_inner E c mw i q s)"
proof (cases "live_settings i s")
  case None
  then show ?thesis by (simp add: update_inner_def unknown_provider_def records_same)
next
  case (Some cur)
  have "records (ca_now c) [''provider.updated''] s
      (let (client, s1) = next_client E mw i cur x s in checked client s1 (\<lambda>client.
         let now = ca_now c; final = x\<lparr>pv_updated_at := Some now\<rparr>
         in install_after E c (aw now) (provider_event E ''provider.updated'' now final b) final client unknown_provider
             (\<lambda>r. Reply 200 (view_of r final)) s1))" for x b aw
  proof -
    obtain client :: "provider_view admin_answer + _" and s1 where f: "next_client E mw i cur x s = (client, s1)" by force
    note a = awaited_alone [OF assms disjI2 [OF f [symmetric]], simplified]
    show ?thesis unfolding f Let_def prod.case
      by (rule records_from [OF a(2)], intro records_checked records_install_after a)
        (simp_all add: provider_event_def unknown_provider_def)
  qed
  with Some show ?thesis
    by (auto simp: update_inner_def read_only_provider_def intro!: records_checked refusing_asked records_same)
qed

fun action_of :: "admin_request \<Rightarrow> string list" where
  "action_of (Rq_Create_Key _) = [''key.issued'']"
| "action_of (Rq_Revoke_Key _) = [''key.revoked'']"
| "action_of (Rq_Rotate_Signing_Key _ _) = [''signing_key.rotated'']"
| "action_of (Rq_Create_Tenant _) = [''tenant.created'']"
| "action_of (Rq_Disable_Tenant _) = [''tenant.disabled'']"
| "action_of (Rq_Enable_Tenant _) = [''tenant.enabled'']"
| "action_of (Rq_Create_Principal _) = [''principal.created'']"
| "action_of (Rq_Revoke_Principal _) = [''principal.revoked'']"
| "action_of (Rq_Add_Secret _ _ _) = [''principal.secret_added'']"
| "action_of (Rq_Revoke_Secret _ _) = [''principal.secret_revoked'']"
| "action_of (Rq_Create_User_Grant _) = [''user_grant.created'']"
| "action_of (Rq_Revoke_User_Grant _ _) = [''user_grant.revoked'']"
| "action_of (Rq_Create_Provider _) = [''provider.created'']"
| "action_of (Rq_Update_Provider _ _) = [''provider.updated'']"
| "action_of (Rq_Remove_Provider _) = [''provider.deleted'']"
| "action_of _ = []"

lemma admin_record_db [simp]: "w_db (ad_store (admin_record E e s)) = w_db (ad_store s)"
  by (auto simp: admin_record_def sink_record_def sink_enqueue_def enqueue_def Let_def split: option.split prod.split)

text \<open>The routes that read, or whose record is not part of a transaction, commit nothing themselves.\<close>

lemma reading_records:
  assumes "action_of request = []"
  shows "records now [] s (admin_route E c mw request s)"
  using assms
  by (cases request)
    (auto simp: handler_defs no_log_control_def enqueue_def Let_def intro!: records_guarded records_checked records_same
       split: sum.split option.split prod.split log_control_error.split)

lemma key_routes_record:
  assumes "alone E c s"
  shows "records (ca_now c) [''key.issued''] s (admin_create_key E c name s)"
    and "records (ca_now c) [''key.revoked''] s (admin_revoke_key E c i s)"
proof -
  show "records (ca_now c) [''key.issued''] s (admin_create_key E c name s)"
    unfolding admin_create_key_def
  proof (rule records_guarded)
    let ?e = "(admin_event ''key.issued'' (ca_now c))\<lparr>au_key_id := Some (''bk_'' @ short_id (ca_draws c ! 0)),
      au_detail := Some (av_detail E (Key_Named (trim_text name)))\<rparr>"
    let ?w = "InsertApiKey (''bk_'' @ short_id (ca_draws c ! 0)) (trim_text name) (ie_hash (av_issuer E) (ca_draws c ! 1)) None (ca_now c)"
    obtain r s' where w: "audited_write E c ?w ?e s = (r, s')" by force
    have "admin_made (ca_now c) ''key.issued'' ?e" by simp
    note a = audited_write_records [OF assms this w]
    have "r \<noteq> Some (Inr False)" using a(2) [of False] by (auto simp: bindE_Inr_iff)
    with a(1) w show "records (ca_now c) [''key.issued''] s (let name = trim_text name; now = ca_now c in
     if name = []
     then (Some (Refuse 400 ''name_required'' ''A key must say which backend it is for.''), s)
     else
       (let key_id = ''bk_'' @ short_id (ca_draws c ! 0); secret = ca_draws c ! 1;
            event = (admin_event ''key.issued'' now)
              \<lparr>au_key_id := Some key_id, au_detail := Some (av_detail E (Key_Named name))\<rparr>
        in case audited_write E c (InsertApiKey key_id name (ie_hash (av_issuer E) secret) None now) event s of
             (None, s') \<Rightarrow> (None, s')
           | (Some (Inl _), s') \<Rightarrow>
               (Some (Refuse 500 ''store_error'' ''The key could not be stored, so it was not issued.''), s')
           | (Some (Inr _), s') \<Rightarrow>
               (Some (Reply 201 \<lparr>ck_key_id = key_id, ck_name = name, ck_secret = secret, ck_created_at = now\<rparr>), s')))"
      by (auto simp: records_def Let_def split: option.splits sum.splits)
  qed
  let ?e = "(admin_event ''key.revoked'' (ca_now c))\<lparr>au_key_id := Some i\<rparr>"
  obtain r s' where w: "audited_write E c (RevokeApiKey i (ca_now c)) ?e s = (r, s')" by force
  have "admin_made (ca_now c) ''key.revoked'' ?e" by simp
  note a = audited_write_records(1) [OF assms this w]
  show "records (ca_now c) [''key.revoked''] s (admin_revoke_key E c i s)"
    unfolding admin_revoke_key_def
    by (rule records_guarded, use a w in \<open>auto simp: records_def split: option.splits sum.splits bool.splits\<close>)
qed

lemma identity_routes_record:
  assumes "alone E c s"
  shows "records (ca_now c) [''tenant.created''] s (admin_create_tenant E c q1 s)"
    and "records (ca_now c) [''tenant.disabled''] s (admin_disable_tenant E c t s)"
    and "records (ca_now c) [''tenant.enabled''] s (admin_enable_tenant E c t s)"
    and "records (ca_now c) [''principal.created''] s (admin_create_principal E c q2 s)"
    and "records (ca_now c) [''principal.revoked''] s (admin_revoke_principal E c i s)"
    and "records (ca_now c) [''principal.secret_added''] s (admin_add_secret E c i blank q3 s)"
    and "records (ca_now c) [''principal.secret_revoked''] s (admin_revoke_secret E c i j s)"
    and "records (ca_now c) [''user_grant.created''] s (admin_create_user_grant E c q4 s)"
    and "records (ca_now c) [''user_grant.revoked''] s (admin_revoke_user_grant E c sub t s)"
  unfolding admin_create_tenant_def admin_disable_tenant_def admin_enable_tenant_def admin_create_principal_def issue_principal_def
    admin_revoke_principal_def admin_add_secret_def admin_revoke_secret_def admin_create_user_grant_def
    admin_revoke_user_grant_def Let_def case_prod_beta
  by (intro records_guarded records_checked records_answered assms refusing_asked; simp add: bad_def)+

lemma provider_routes_record:
  assumes "alone E c s" and "stays_alone E c mw"
  shows "records (ca_now c) [''provider.created''] s (admin_create_provider E c mw q5 s)"
    and "records (ca_now c) [''provider.updated''] s (admin_update_provider E c mw i q6 s)"
    and "records (ca_now c) [''provider.deleted''] s (admin_remove_provider E c i s)"
proof -
  show "records (ca_now c) [''provider.created''] s (admin_create_provider E c mw q5 s)"
    "records (ca_now c) [''provider.updated''] s (admin_update_provider E c mw i q6 s)"
    unfolding admin_create_provider_def admin_update_provider_def
    by (intro records_guarded records_checked records_create_inner records_update_inner assms; simp)+
  show "records (ca_now c) [''provider.deleted''] s (admin_remove_provider E c i s)"
    unfolding admin_remove_provider_def
    by (auto simp: unknown_provider_def read_only_provider_def provider_event_def
        intro!: records_guarded records_install_after records_same assms split: option.split)
qed

text \<open>
  The rotation writes through the issuer, with the issuer's own sink. It answers with an error also
  when the key is stored and only the reload behind it failed, so an error does not say that nothing
  was rotated.
\<close>

lemma rotate_records:
  assumes "alone E c s" and "is_audit i \<noteq> None"
    and rot: "rotate (av_issuer E) lead admin_actor seed (ca_now c) (ca_ack c) (ca_events c) rf now' i (ad_store s) = (r, i', w)"
  obtains "successes (ca_now c) (w_db w) = successes (ca_now c) (w_db (ad_store s)) @ [''signing_key.rotated'']" "r \<noteq> None"
  | "successes (ca_now c) (w_db w) = successes (ca_now c) (w_db (ad_store s))" "\<And>plan. r \<noteq> Some (Inr plan)"
proof -
  obtain sink where sink: "is_audit i = Some sink" using assms(2) by auto
  define key where "key = generate (av_issuer E) seed"
  define plan where "plan = rotation_plan (is_policy i) lead (nk_kid key) (ca_now c)"
  define e where "e = (event_new ''signing_key.rotated'' Outcome_Success Actor_Admin (ca_now c))
    \<lparr>au_actor_id := Some admin_actor, au_key_id := Some (nk_kid key), au_detail := Some (ie_rotated_detail (av_issuer E) plan)\<rparr>"
  define aw where "aw = RotateSigningKey key (ca_now c) (ro_activate_at plan) (ro_previous_retire_at plan)"
  obtain r0 w0 where wr: "write_admin_audited (ie_crypto (av_issuer E)) (ie_json (av_issuer E)) aw
      (Some (transactional (ie_pseudonym (av_issuer E)) e sink)) (ca_ack c) (ca_events c) (ad_store s) = (r0, w0)" by force
  have made: "admin_made (ca_now c) ''signing_key.rotated'' e" by (simp add: e_def admin_made_def event_new_def)
  have w: "w0 = w" and r: "r = None \<longleftrightarrow> r0 = None" "\<And>p. r = Some (Inr p) \<Longrightarrow> \<exists>b. r0 = Some (Inr b)"
    using rot wr
    by (auto simp: rotate_def issuer_write_def sink key_def plan_def e_def aw_def Let_def
        split: prod.splits option.splits sum.splits)
  have u: "clear_channel E c (successes (ca_now c)) (ad_store s)" using assms(1) by (simp add: alone_def)
  from u wr show thesis
  proof (cases rule: write_fate)
    case (ok applied d0 d1)
    have "same_audit d0 d1" using ok(4) by (rule apply_admin_audit)
    then have "successes (ca_now c) d1 = successes (ca_now c) d0" by (simp add: successes_def same_audit_def)
    moreover have applied using ok(4) by (auto simp: aw_def bindE_Inr_iff)
    ultimately show thesis using ok made r(1) by (intro that(1)) (simp_all add: transactional_def successes_insert w)
  next
    case no
    then show thesis using r(2) by (intro that(2)) (auto simp: w)
  qed
qed

lemma rotate_route_records:
  assumes "alone E c s" and "\<And>i. ad_issuer s = Some i \<Longrightarrow> is_audit i \<noteq> None"
    and x: "x = admin_rotate_signing_key E c blank body s"
  shows "records (ca_now c) [''signing_key.rotated''] s x \<or> \<not> accepted (fst x) \<and>
     successes (ca_now c) (w_db (ad_store (snd x))) = successes (ca_now c) (w_db (ad_store s)) @ [''signing_key.rotated'']"
proof (cases "holds_key c s \<and> fst x \<noteq> Some (Refuse 400 ''activate_in_out_of_range'' ''activate_in_secs must be at most 2592000 (30 days).'')")
  case False
  then have "records (ca_now c) [''signing_key.rotated''] s x"
    by (auto simp: x admin_rotate_signing_key_def guarded_open Let_def intro!: records_guarded records_same
        split: option.splits if_splits prod.splits sum.splits)
  then show ?thesis ..
next
  case True
  show ?thesis
  proof (cases "ad_issuer s")
    case (Some i)
    have "?thesis" if p: "parse_optional None blank body = Some lead" and
      "\<not> (case lead of Some secs \<Rightarrow> max_rotate_lead_secs < secs | None \<Rightarrow> False)" for lead
    proof -
      obtain r i' w where rot: "rotate (av_issuer E) lead admin_actor (ca_seed c) (ca_now c) (ca_ack c) (ca_events c)
          (ca_read_fails' c) (ca_now' c) i (ad_store s) = (r, i', w)" by (metis prod_cases3)
      with True Some that have f: "snd x = s\<lparr>ad_issuer := Some i', ad_store := w\<rparr>"
        "accepted (fst x) \<longleftrightarrow> (\<exists>plan. r = Some (Inr plan))"
        by (auto simp: x admin_rotate_signing_key_def guarded_open Let_def split: option.splits sum.splits)
      from assms(1) assms(2) [OF Some] rot show ?thesis
        by (cases rule: rotate_records) (auto simp: records_def f)
    qed
    then show ?thesis using True Some
      by (cases "parse_optional None blank body")
        (auto simp: x admin_rotate_signing_key_def guarded_open intro!: records_same split: if_splits)
  qed (auto simp: x admin_rotate_signing_key_def intro!: records_guarded records_same)
qed

subsection \<open>Records that ride the queue\<close>

text \<open>
  A force-logout has taken effect when its record is made, and a change of verbosity is no row of the
  store: their records go to the writer's queue, behind a bound. What the queue holds of the admin's
  successes, and the route's share of it.
\<close>

definition promised :: "timestamp \<Rightarrow> writer \<Rightarrow> string list" where
  "promised now w =
     map au_action (filter (\<lambda>r. au_actor_id r = Some admin_actor \<and> au_at r = now \<and> au_outcome r = ''success'')
       (List.map_filter (\<lambda>c. case c of Audit r \<Rightarrow> Some r | _ \<Rightarrow> None) (w_queue w)))"

fun queued_action :: "admin_request \<Rightarrow> 'k admin_state \<Rightarrow> string list" where
  "queued_action (Rq_Revoke_Session _) s = [''session.revoked'']"
| "queued_action (Rq_Put_Log_Level _ _) s = [''logging.level_changed'']"
| "queued_action Rq_Restore_Log_Level s =
     (case ad_log s of Some g \<Rightarrow> if lg_override_active g then [''logging.level_changed''] else [] | None \<Rightarrow> [])"
| "queued_action _ s = []"

definition gap_full :: "'k admin_state \<Rightarrow> bool" where
  "gap_full s \<longleftrightarrow>
     (case ad_audit s of None \<Rightarrow> False | Some k \<Rightarrow> wrap_i64 (int (ac_queue_capacity (as_config k))) \<le> w_depth (ad_store s))"

definition gap_count :: "'k admin_state \<Rightarrow> nat" where
  "gap_count s = (case ad_audit s of None \<Rightarrow> 0 | Some k \<Rightarrow> as_pending_gap k)"

definition hands_over :: "timestamp \<Rightarrow> string list \<Rightarrow> 'k admin_state \<Rightarrow> ('b, 'k) handled \<Rightarrow> bool" where
  "hands_over now actions s x \<longleftrightarrow>
     (let told = (if accepted (fst x) then actions else [])
      in if told \<noteq> [] \<and> gap_full s
         then promised now (ad_store (snd x)) = promised now (ad_store s) \<and> gap_count (snd x) = gap_count s + 1
         else promised now (ad_store (snd x)) = promised now (ad_store s) @ told)"

lemma promised_enqueue:
  "w_running w \<Longrightarrow> promised now (enqueue c w) = promised now w @ (case c of
     Audit r \<Rightarrow> if au_actor_id r = Some admin_actor \<and> au_at r = now \<and> au_outcome r = ''success'' then [au_action r] else [] | _ \<Rightarrow> [])"
  by (auto simp: promised_def enqueue_def map_filter_def split: command.split)

lemma promised_depth [simp]: "promised now (w\<lparr>w_depth := n\<rparr>) = promised now w"
  by (simp add: promised_def)

lemma admin_record_hands_over:
  assumes "admin_made now action event" and "ad_audit s \<noteq> None" and "w_running (ad_store s)"
  shows "if gap_full s
     then promised now (ad_store (admin_record E event s)) = promised now (ad_store s) \<and> gap_count (admin_record E event s) = gap_count s + 1
     else promised now (ad_store (admin_record E event s)) = promised now (ad_store s) @ [action]"
proof -
  obtain k where k: "ad_audit s = Some k" using assms(2) by blast
  define row where "row = pseudonymise (ie_pseudonym (av_issuer E)) k event"
  have "admin_made now action row" using assms(1) by (simp add: row_def)
  then have row: "promised now (sink_enqueue row w) = promised now w @ [action]" if "w_running w" for w
    using that by (simp add: sink_enqueue_def promised_enqueue admin_made_def)
  have gap: "promised now (sink_enqueue (gap_row render n t) w) = promised now w" "w_running (sink_enqueue r w)" if "w_running w" for render n t r w
    using that by (simp add: sink_enqueue_def promised_enqueue gap_row_def event_new_def, simp add: sink_enqueue_def enqueue_def)
  show ?thesis
    using assms(3) by (auto simp: admin_record_def sink_record_def k gap_full_def gap_count_def Let_def row gap row_def [symmetric])
qed

lemma hands_over_record:
  assumes "admin_made now action event" and "ad_audit s1 = ad_audit s" "ad_audit s \<noteq> None" and "w_running (ad_store s1)"
    and "promised now (ad_store s1) = promised now (ad_store s)" "w_depth (ad_store s1) = w_depth (ad_store s)" and "accepted r"
  shows "hands_over now [action] s (r, admin_record E event s1)"
proof -
  have "gap_full s1 = gap_full s" "gap_count s1 = gap_count s" using assms(2,6) by (simp_all add: gap_full_def gap_count_def split: option.split)
  with admin_record_hands_over [OF assms(1), of s1 E] assms(2-5,7) show ?thesis by (simp add: hands_over_def split: if_splits)
qed

lemma hands_over_same: "ad_store s' = ad_store s \<Longrightarrow> accepted r \<longrightarrow> as = [] \<Longrightarrow> hands_over now as s (r, s')"
  by (simp add: hands_over_def)

lemma hands_over_as_body [simp]: "hands_over now as s (as_body f x) = hands_over now as s x"
  by (simp add: hands_over_def as_body_def)

lemma hands_over_guarded: "(holds_key c s \<Longrightarrow> hands_over now as s (h s)) \<Longrightarrow> hands_over now as s (guarded c s h)"
proof (cases "holds_key c s")
  case False
  then obtain r l where "authorised c s = (Some r, s\<lparr>ad_rate_limit := l\<rparr>)" "turned_away (r :: 'b admin_answer)"
    by (rule authorised_shut)
  then show ?thesis by (cases r) (auto simp: guarded_def hands_over_def turned_away_def)
qed (simp add: guarded_open)

lemma hands_over_checked:
  "refusing x \<Longrightarrow> (\<And>a. x = Inr a \<Longrightarrow> hands_over now as s (f a)) \<Longrightarrow> hands_over now as s (checked x s f)"
  by (cases x) (auto simp: checked_def refusing_def hands_over_def)

lemma revoke_session_hands_over:
  assumes "ad_audit s \<noteq> None" and "w_running (ad_store s)"
  shows "hands_over (ca_now c) [''session.revoked''] s (admin_revoke_session E c i s)"
  unfolding admin_revoke_session_def
proof (rule hands_over_guarded)
  have e: "admin_made (ca_now c) ''session.revoked'' ((admin_event ''session.revoked'' (ca_now c))\<lparr>au_sid := Some i, au_detail := d\<rparr>)" for d
    using admin_made_event [of "ca_now c" "''session.revoked''"] by (simp add: admin_made_def)
  show "hands_over (ca_now c) [''session.revoked''] s (let now = ca_now c;
         (killed, m) = tombstone_session_with_reason i now Kill_AdminRevoked (ad_sessions s);
         s1 = s\<lparr>ad_sessions := m\<rparr>;
         s2 = (if killed then s1 else s1\<lparr>ad_store := enqueue (TombstoneSession i now) (ad_store s1)\<rparr>)
     in (Some No_Content, admin_record E ((admin_event ''session.revoked'' now)
           \<lparr>au_sid := Some i, au_detail := Some (av_detail E (In_Memory killed))\<rparr>) s2))"
    using assms
    by (auto simp: Let_def case_prod_beta intro!: hands_over_record [OF e] promised_enqueue [THEN trans]) (simp_all add: enqueue_def)
qed

lemma level_routes_hand_over:
  assumes "ad_audit s \<noteq> None" and "w_running (ad_store s)"
  shows "hands_over (ca_now c) [''logging.level_changed''] s (admin_put_log_level E c directive secs s)"
    and "hands_over (ca_now c) (queued_action Rq_Restore_Log_Level s) s (admin_restore_log_level E c s)"
proof -
  show "hands_over (ca_now c) [''logging.level_changed''] s (admin_put_log_level E c directive secs s)"
    unfolding admin_put_log_level_def using assms
    by (intro hands_over_guarded)
      (auto simp: no_log_control_def hands_over_same intro!: hands_over_record split: option.split sum.split prod.split log_control_error.split)
  show "hands_over (ca_now c) (queued_action Rq_Restore_Log_Level s) s (admin_restore_log_level E c s)"
    unfolding admin_restore_log_level_def using assms
    by (intro hands_over_guarded)
      (auto simp: no_log_control_def restore_def hands_over_same Let_def intro!: hands_over_record split: option.split sum.split prod.split if_splits)
qed

lemma reading_hands_over:
  assumes "action_of request = []" and "ad_audit s \<noteq> None" and "w_running (ad_store s)"
  shows "hands_over (ca_now c) (queued_action request s) s (admin_route E c mw request s)"
proof (cases "\<exists>i x y. request = Rq_Revoke_Session i \<or> request = Rq_Put_Log_Level x y \<or> request = Rq_Restore_Log_Level")
  case True
  then show ?thesis using revoke_session_hands_over [OF assms(2,3)] level_routes_hand_over [OF assms(2,3)] by auto
next
  case False
  with assms(1) show ?thesis
    by (cases request)
      (auto simp: handler_defs Let_def intro!: hands_over_guarded hands_over_checked hands_over_same
         split: sum.split option.split prod.split)
qed

text \<open>
  C16. No change without its record. Whatever the request, when the admin's other requests are not at
  the same second: a request that is accepted has added exactly the action of its route to the
  successful actions in the audit trail, and one that is refused, fails or still blocks has added
  none, except that a rotation that stored its key and then could not reload is recorded although
  the reply is an error. The three routes whose record rides the queue (force-logout, setting and
  restoring verbosity; restoring records only what it undoes) commit nothing themselves: accepted, they have queued
  exactly their action, or, when the queue of records is full, counted it in the gap the next record
  will report; refused, and for every other route, they have queued nothing. The broker has an
  audit sink, and for the queued records its writer runs.
\<close>

theorem every_change_is_recorded:
  assumes "alone E c s" and "stays_alone E c mw" and "\<And>i. ad_issuer s = Some i \<Longrightarrow> is_audit i \<noteq> None"
    and "admin_route E c mw request s = (r, s')"
  shows "(successes (ca_now c) (w_db (ad_store s')) =
       successes (ca_now c) (w_db (ad_store s)) @ (if accepted r then action_of request else []) \<or>
     (\<exists>blank body. request = Rq_Rotate_Signing_Key blank body) \<and> \<not> accepted r \<and>
       successes (ca_now c) (w_db (ad_store s')) = successes (ca_now c) (w_db (ad_store s)) @ action_of request) \<and>
     (action_of request = [] \<and> w_running (ad_store s) \<longrightarrow>
       (if accepted r \<and> queued_action request s \<noteq> [] \<and> gap_full s
        then promised (ca_now c) (ad_store s') = promised (ca_now c) (ad_store s) \<and> gap_count s' = gap_count s + 1
        else promised (ca_now c) (ad_store s') =
          promised (ca_now c) (ad_store s) @ (if accepted r then queued_action request s else [])))"
    (is "?committed \<and> (?own \<longrightarrow> ?queued)")
proof
  show "?own \<longrightarrow> ?queued"
    using reading_hands_over [of request s c E mw] assms(1,4) by (auto simp: hands_over_def alone_def split: if_splits)
  show ?committed
  proof (cases "\<exists>blank body. request = Rq_Rotate_Signing_Key blank body")
    case True
    then obtain blank body where q: "request = Rq_Rotate_Signing_Key blank body" by blast
    then have "s' = snd (admin_rotate_signing_key E c blank body s)" "accepted r = accepted (fst (admin_rotate_signing_key E c blank body s))"
      using assms(4) by (auto simp: as_body_def)
    with rotate_route_records [OF assms(1,3) refl, of blank body] q show ?thesis by (auto simp: records_def)
  next
    case False
    have "records (ca_now c) (action_of request) s (admin_route E c mw request s)"
    proof (cases "action_of request = []")
      case True
      then show ?thesis using reading_records by metis
    next
      case nonempty: False
      with False assms(1,2) show ?thesis
        by (cases request) (simp_all add: key_routes_record identity_routes_record provider_routes_record)
    qed
    with assms(4) show ?thesis by (simp add: records_def)
  qed
qed

section \<open>An example lane\<close>

text \<open>A list of strings as text: each character after a \<open>c\<close>, each string closed by an \<open>e\<close>.\<close>

fun unlines :: "string \<Rightarrow> string list \<Rightarrow> string \<Rightarrow> string list option" where
  "unlines item out [] = (if item = [] then Some out else None)"
| "unlines item out (c # cs) =
     (if c = CHR ''c'' then (case cs of x # cs' \<Rightarrow> unlines (item @ [x]) out cs' | [] \<Rightarrow> None)
      else if c = CHR ''e'' then unlines [] (out @ [item]) cs else None)"

definition line_json :: json where
  "line_json = \<lparr>to_json = concat \<circ> map (\<lambda>x. concat (map (\<lambda>c. [CHR ''c'', c]) x) @ [CHR ''e'']), from_json = unlines [] []\<rparr>"

lemma line_json_ok: "json_ok line_json"
proof -
  have item: "unlines item out (concat (map (\<lambda>c. [CHR ''c'', c]) x) @ CHR ''e'' # rest) = unlines [] (out @ [item @ x]) rest"
    for item out x rest by (induction x arbitrary: item) simp_all
  have "unlines [] out (concat (map (\<lambda>x. concat (map (\<lambda>c. [CHR ''c'', c]) x) @ [CHR ''e'']) xs)) = Some (out @ xs)" for out xs
    by (induction xs arbitrary: out) (simp_all add: item)
  then show ?thesis by (simp add: json_ok_def line_json_def)
qed

definition demo_admin_env :: "unit admin_env" where
  "demo_admin_env = \<lparr>av_issuer = demo_ie\<lparr>ie_json := line_json\<rparr>, av_gap = (\<lambda>_. []), av_detail = (\<lambda>_. []), av_value = Some,
     av_filter = (\<lambda>_. True), av_verifier = (\<lambda>v. v), av_net = demo_net, av_build = demo_build\<rparr>"

definition demo_admin :: "unit admin_state" where
  "demo_admin = \<lparr>ad_sessions = demo_map, ad_store = new_writer (migrated_db 0), ad_admin_key = Some ''adm'',
     ad_audit = Some (sink_new default_audit_config), ad_log = None, ad_rate_limit = None, ad_issuer = None,
     ad_providers = demo_registry, ad_held = no_held\<rparr>"

definition demo_call :: "string \<Rightarrow> admin_call" where
  "demo_call key = \<lparr>ca_peer = None, ca_headers = [(''authorization'', ''Bearer '' @ key)], ca_instant = 0, ca_now = 1000,
     ca_draws = [''d0'', ''d1'', ''d2''], ca_seed = [], ca_attached = True, ca_read_fails = False, ca_ack = 7,
     ca_events = demo_turn, ca_read_fails' = False, ca_now' = 1000\<rparr>"

lemma demo_clear: "clear_channel E (demo_call key) obs (new_writer (migrated_db 0))"
  by (simp add: clear_channel_def demo_call_def demo_turn_def new_writer_def batch_acks_def db_ok_migrated Let_def)

theorem admin_needs_the_key_witness:
  "\<not> holds_key (demo_call ''guess'') demo_admin \<and>
   (\<exists>r l. admin_route demo_admin_env (demo_call ''guess'') (\<lambda>s. s) (Rq_Create_Key ''mine'') demo_admin =
      (Some r, demo_admin\<lparr>ad_rate_limit := l\<rparr>) \<and> turned_away r)"
proof -
  have "\<not> holds_key (demo_call ''guess'') demo_admin"
    by (simp add: holds_key_def demo_call_def demo_admin_def bearer_def header_str_def strip_prefix_def) code_simp
  with admin_needs_the_key [OF this, of demo_admin_env "\<lambda>s. s" "Rq_Create_Key ''mine''"] show ?thesis by blast
qed

theorem every_change_is_recorded_witness:
  "(case admin_route demo_admin_env (demo_call ''adm'') (\<lambda>s. s) (Rq_Create_Key ''edge'') demo_admin of
      (r, s') \<Rightarrow> accepted r \<and> successes 1000 (w_db (ad_store s')) = [''key.issued'']) \<and>
   (case admin_route demo_admin_env (demo_call ''adm'') (\<lambda>s. s) (Rq_Revoke_Session ''s1'') demo_admin of
      (r, s') \<Rightarrow> accepted r \<and> promised 1000 (ad_store s') = [''session.revoked''])"
proof -
  let ?route = "\<lambda>q. admin_route demo_admin_env (demo_call ''adm'') (\<lambda>s. s) q demo_admin"
  obtain r s' r2 s2 where rt: "?route (Rq_Create_Key ''edge'') = (r, s')" "?route (Rq_Revoke_Session ''s1'') = (r2, s2)" by force
  have "accepted (fst (?route (Rq_Create_Key ''edge''))) \<and> accepted (fst (?route (Rq_Revoke_Session ''s1'')))" by code_simp
  then have acc: "accepted r" "accepted r2" unfolding rt by simp_all
  have al: "alone demo_admin_env (demo_call ''adm'') demo_admin" by (simp add: alone_def demo_admin_def demo_clear)
  have full: "\<not> gap_full demo_admin" by code_simp
  have run: "w_running (ad_store demo_admin)" "promised 1000 (ad_store demo_admin) = []" by code_simp+
  have now: "ca_now (demo_call ''adm'') = 1000" by (simp add: demo_call_def)
  from every_change_is_recorded [OF al _ _ rt(1)] every_change_is_recorded [OF al _ _ rt(2)] acc full run
  show ?thesis
    unfolding rt now by (simp add: stays_alone_def demo_admin_def successes_def new_writer_def migrated_db_def)
qed

end
