(* ===== verification/Admin_Effects.thy ===== *)
theory Admin_Effects
  imports Admin_Safety
begin

text \<open>
  What the admin lane's answers are worth to the rest of the broker: a secret it hands out opens the
  token lane for exactly the principal it shows, and the key it shows as signing is the key the
  issuer signs with.
\<close>

section \<open>Accepted requests\<close>

lemma guarded_Reply:
  fixes h :: "'k admin_state \<Rightarrow> ('b, 'k) handled"
  assumes "guarded c s h = (Some (Reply n b), s')"
  shows "holds_key c s" and "h s = (Some (Reply n b), s')"
proof -
  show key: "holds_key c s"
  proof (rule ccontr)
    assume "\<not> holds_key c s"
    then obtain r l where "authorised c s = (Some r, s\<lparr>ad_rate_limit := l\<rparr>)" "turned_away (r :: 'b admin_answer)"
      by (rule authorised_shut)
    with assms show False by (auto simp: guarded_def turned_away_def)
  qed
  with assms show "h s = (Some (Reply n b), s')" by (simp add: guarded_open)
qed

lemma checked_Reply:
  assumes "checked x s f = (Some (Reply n b), s')" and "refusing x"
  obtains a where "x = Inr a" "f a = (Some (Reply n b), s')"
  using assms by (cases x) (auto simp: checked_def)

lemma answer_change_Reply:
  assumes "answer_change (apply_change E c aw e s) reply = (Some (Reply n b), s')" and "\<And>s. \<not> accepted (Some (reply False s))"
  shows "audited_write E c aw e s = (Some (Inr True), s')" and "reply True s' = Reply n b"
proof -
  obtain r s1 where w: "audited_write E c aw e s = (r, s1)" by force
  have "accepted (Some (Reply n b))" by simp
  with assms w have "r = Some (Inr True) \<and> s1 = s' \<and> reply True s' = Reply n b"
    by (auto simp: answer_change_def apply_change_def store_failed_def split: option.splits sum.splits bool.splits)
      (metis (full_types) accepted.simps(2))+
  with w show "audited_write E c aw e s = (Some (Inr True), s')" "reply True s' = Reply n b" by auto
qed

section \<open>A principal's first secret\<close>

lemma concat_map_unique:
  assumes "distinct (map k xs)" and "x \<in> set xs" and "\<And>y. y \<in> set xs \<Longrightarrow> k y \<noteq> k x \<Longrightarrow> f y = []"
  shows "concat (map f xs) = f x"
proof -
  obtain pre post where xs: "xs = pre @ x # post" using assms(2) by (auto simp: in_set_conv_decomp)
  have "k x \<notin> k ` (set pre \<union> set post)" using assms(1) by (auto simp: xs)
  then have "f y = []" if "y \<in> set pre \<union> set post" for y
    using that by (intro assms(3)) (auto simp: xs, (metis UnI1 UnI2 imageI)+)
  then have "map f pre = map (\<lambda>_. []) pre" "map f post = map (\<lambda>_. []) post" by simp_all
  then have "concat (map f pre) = []" "concat (map f post) = []" by simp_all
  then show ?thesis by (simp only: xs map_append list.map concat_append concat.simps append_Nil append_Nil2)
qed

lemma live_rows_unique:
  assumes ok: "db_ok d" and s: "x \<in> set (secret_tbl d)" and p: "q \<in> set (principal_tbl d)" and t: "u \<in> set (tenant_tbl d)"
    and "p_principal_id q = ps_principal_id x" "t_tenant_id u = p_tenant_id q" "p_revoked_at q = None" "t_disabled_at u = None"
  shows "live_principal_rows (ps_secret_hash x) now d = (if secret_live_at now x then [q] else [])"
proof -
  let ?g = "\<lambda>q. if p_revoked_at q = None then
      concat (map (\<lambda>t. if t_tenant_id t = p_tenant_id q then if t_disabled_at t = None then [q] else [] else []) (tenant_tbl d)) else []"
  let ?f = "\<lambda>y. concat (map (\<lambda>q. if p_principal_id q = ps_principal_id y then ?g q else []) (principal_tbl d))"
  have keys: "distinct (map ps_secret_hash (secret_tbl d))" "distinct (map p_principal_id (principal_tbl d))"
    "distinct (map t_tenant_id (tenant_tbl d))" using ok by (simp_all add: db_ok_def db_keys_ok_def)
  have "?g q = [q]" using assms(6-8) by (simp, subst concat_map_unique [OF keys(3) t]) auto
  then have f: "?f x = [q]" using assms(5) by (subst concat_map_unique [OF keys(2) p]) auto
  have "live_principal_rows (ps_secret_hash x) now d =
      concat (map (\<lambda>y. if ps_secret_hash y = ps_secret_hash x then if secret_live_at now y then ?f y else [] else []) (secret_tbl d))"
    by (simp add: live_principal_rows_def)
  also have "\<dots> = (if secret_live_at now x then ?f x else [])" by (subst concat_map_unique [OF keys(1) s]) auto
  finally show ?thesis by (simp add: f)
qed

lemma enabled_tenant:
  assumes "\<exists>u \<in> set (tenant_tbl d). t_tenant_id u = x" and "\<not> tenant_is_disabled x d"
  obtains u where "u \<in> set (tenant_tbl d)" "t_tenant_id u = x" "t_disabled_at u = None"
proof (cases "sql_find (\<lambda>t. t_tenant_id t = x) (tenant_tbl d)")
  case None
  with assms(1) show thesis by (auto simp: sql_find_def find_None_iff)
next
  case (Some u)
  then have "u \<in> set (tenant_tbl d)" "t_tenant_id u = x" by (auto simp: sql_find_def find_Some_iff)
  with Some assms(2) show thesis by (intro that) (auto simp: tenant_is_disabled_def)
qed

lemma insert_principal_found:
  assumes "db_ok d" and "json_ok js" and ins: "insert_principal js p now d = Inr (d', True)" and "npr_max_ttl_secs p < 2 ^ 63"
  shows "find_live_principal_by_secret js (ns_hash (npr_secret p)) t d' =
     Inr (if open_past t (ns_expires_at (npr_secret p))
          then Some \<lparr>pr_principal_id = npr_principal_id p, pr_tenant_id = npr_tenant_id p, pr_name = npr_name p,
                  pr_kind = npr_kind p, pr_scopes = npr_scopes p, pr_indexes = npr_indexes p, pr_audience = npr_audience p,
                  pr_max_ttl_secs = npr_max_ttl_secs p, pr_created_at = now, pr_created_by = npr_created_by p,
                  pr_last_used_at = None, pr_revoked_at = None\<rparr>
          else None)"
proof -
  obtain d1 e where en: "ensure_tenant (npr_tenant_id p) now d = (d1, e)" by force
  define x where "x = \<lparr>ps_secret_id = ns_secret_id (npr_secret p), ps_principal_id = npr_principal_id p,
    ps_secret_hash = ns_hash (npr_secret p), ps_created_at = now, ps_expires_at = ns_expires_at (npr_secret p), ps_revoked_at = None\<rparr>"
  define q where "q = \<lparr>p_principal_id = npr_principal_id p, p_tenant_id = npr_tenant_id p, p_name = npr_name p, p_kind = npr_kind p,
    p_scope = to_json js (npr_scopes p), p_indexes = to_json js (npr_indexes p), p_audience = npr_audience p,
    p_max_ttl_secs = wrap_i64 (int (npr_max_ttl_secs p)), p_created_at = now, p_created_by = npr_created_by p,
    p_last_used_at = None, p_revoked_at = None\<rparr>"
  have t: "secret_tbl d' = secret_tbl d1 @ [x]" "principal_tbl d' = principal_tbl d1 @ [q]" "tenant_tbl d' = tenant_tbl d1" "e"
    using ins by (auto simp: insert_principal_def en insert_secret_def bindE_Inr_iff Let_def x_def q_def split: if_splits)
  have "in_i64 (int (npr_max_ttl_secs p))" using assms(4) by (simp add: in_i64_def i64_min_def i64_max_def)
  then have row: "principal_row_of js q = Inr \<lparr>pr_principal_id = npr_principal_id p, pr_tenant_id = npr_tenant_id p, pr_name = npr_name p,
                  pr_kind = npr_kind p, pr_scopes = npr_scopes p, pr_indexes = npr_indexes p, pr_audience = npr_audience p,
                  pr_max_ttl_secs = npr_max_ttl_secs p, pr_created_at = now, pr_created_by = npr_created_by p,
                  pr_last_used_at = None, pr_revoked_at = None\<rparr>"
    using assms(2) by (simp add: principal_row_of_def q_def json_list_def json_ok_def wrap_i64_id)
  have "\<exists>u \<in> set (tenant_tbl d1). t_tenant_id u = npr_tenant_id p" and en': "\<not> tenant_is_disabled (npr_tenant_id p) d1"
    using en t(4) by (auto simp: ensure_tenant_def insert_tenant_def Let_def sql_exists_iff split: if_splits)
  then obtain u where u: "u \<in> set (tenant_tbl d')" "t_tenant_id u = npr_tenant_id p" "t_disabled_at u = None"
    unfolding t(3) by (rule enabled_tenant)
  have "db_ok d'" using ins assms(1) by (rule insert_principal_ok)
  from live_rows_unique [OF this, of x q u t] t u
  have "live_principal_rows (ns_hash (npr_secret p)) t d' = (if open_past t (ns_expires_at (npr_secret p)) then [q] else [])"
    by (simp add: secret_live_at_def x_def q_def)
  then show ?thesis using row by (simp add: find_live_principal_by_secret_def)
qed

lemma found_insert_audit: "find_live_principal_by_secret js h t (insert_audit row d) = find_live_principal_by_secret js h t d"
  by (simp add: find_live_principal_by_secret_def live_principal_rows_def insert_audit_def cong: if_cong)

text \<open>What a request asks for: words in the order of their first mention, and the documented defaults.\<close>

definition first_mentions :: "string list \<Rightarrow> string list" where
  "first_mentions xs = rev (remdups (rev xs))"

definition asked_row :: "create_principal_request \<Rightarrow> string \<Rightarrow> timestamp \<Rightarrow> principal_row" where
  "asked_row request principal_id now =
     \<lparr>pr_principal_id = principal_id,
      pr_tenant_id = (case cp_tenant request of Some t \<Rightarrow> t | None \<Rightarrow> ''default''),
      pr_name = trim_text (cp_name request), pr_kind = cp_kind request,
      pr_scopes = first_mentions (cp_scopes request),
      pr_indexes = (case cp_indexes request of Some xs \<Rightarrow> first_mentions xs | None \<Rightarrow> [''*'']),
      pr_audience = cp_audience request,
      pr_max_ttl_secs = (case cp_max_ttl_secs request of Some n \<Rightarrow> n | None \<Rightarrow> 30 * 86400),
      pr_created_at = now, pr_created_by = Some ''admin_api_key'', pr_last_used_at = None, pr_revoked_at = None\<rparr>"

lemma clean_items_first: "clean_items xs (first_mentions ys) = Some out \<Longrightarrow> out = first_mentions (ys @ xs)"
proof (induction xs arbitrary: ys)
  case (Cons x xs)
  have "(if x \<in> set (first_mentions ys) then first_mentions ys else first_mentions ys @ [x]) = first_mentions (ys @ [x])"
    by (simp add: first_mentions_def)
  with Cons.prems have "clean_items xs (first_mentions (ys @ [x])) = Some out" by (simp split: if_splits)
  from Cons.IH [OF this] show ?case by simp
qed simp

lemma clean_list_first: "clean_list xs = Some out \<Longrightarrow> out = first_mentions xs"
  using clean_items_first [of xs "[]" out] by (auto simp: clean_list_def first_mentions_def split: option.splits if_splits)

lemma principal_asked_row:
  assumes "principal_asked request = Inr (tenant, name, scopes, indexes, ttl)"
  shows "\<lparr>pr_principal_id = pid, pr_tenant_id = tenant, pr_name = name, pr_kind = cp_kind request,
           pr_scopes = scopes, pr_indexes = indexes, pr_audience = cp_audience request, pr_max_ttl_secs = ttl,
           pr_created_at = now, pr_created_by = Some admin_actor, pr_last_used_at = None, pr_revoked_at = None\<rparr> =
         asked_row request pid now" and "ttl \<le> max_max_ttl_secs"
  using assms
  by (auto simp: principal_asked_def asked_row_def bindE_Inr_iff ensure_def tenant_or_default_def default_tenant_name_def check_list_def
      check_indexes_def default_max_ttl_secs_def admin_actor_def Let_def dest: clean_list_first split: if_splits option.splits)

lemma created_principal_write:
  assumes "admin_create_principal E c (Some request) s = (Some (Reply 201 (view, secret)), s')"
  obtains p e where "audited_write E c (InsertPrincipal p (ca_now c)) e s = (Some (Inr True), s')"
    "asked_row request (pr_principal_id view) (ca_now c) =
       \<lparr>pr_principal_id = npr_principal_id p, pr_tenant_id = npr_tenant_id p, pr_name = npr_name p,
        pr_kind = npr_kind p, pr_scopes = npr_scopes p, pr_indexes = npr_indexes p, pr_audience = npr_audience p,
        pr_max_ttl_secs = npr_max_ttl_secs p, pr_created_at = ca_now c, pr_created_by = npr_created_by p,
        pr_last_used_at = None, pr_revoked_at = None\<rparr>" "npr_max_ttl_secs p \<le> max_max_ttl_secs"
    "ns_hash (npr_secret p) = ie_hash (av_issuer E) (iss_secret secret)"
    "ns_expires_at (npr_secret p) = map_option (plus_secs (ca_now c)) (cp_expires_in_secs request)"
    "principal_row.truncate view = asked_row request (pr_principal_id view) (ca_now c)"
    "iss_expires_at secret = map_option (plus_secs (ca_now c)) (cp_expires_in_secs request)"
proof -
  have "checked (principal_asked request) s (\<lambda>asked. issue_principal E c request asked s) = (Some (Reply 201 (view, secret)), s')"
    using guarded_Reply(2) [OF assms [unfolded admin_create_principal_def]] by (simp add: parse_body_def checked_def)
  then show thesis
  proof (rule checked_Reply)
    fix asked assume asked: "principal_asked request = Inr asked" "issue_principal E c request asked s = (Some (Reply 201 (view, secret)), s')"
    obtain tenant name scopes indexes ttl where a: "asked = (tenant, name, scopes, indexes, ttl)" by (cases asked)
    note row = principal_asked_row [OF asked(1) [unfolded a]]
    obtain sec stored where m: "mint_secret E (ca_draws c ! 1) (ca_draws c ! 2) (ca_now c) (cp_expires_in_secs request) = (sec, stored)"
      by force
    then have st: "ns_hash stored = ie_hash (av_issuer E) sec" "ns_expires_at stored = map_option (plus_secs (ca_now c)) (cp_expires_in_secs request)"
      by (auto simp: mint_secret_def Let_def)
    note r = answer_change_Reply [OF asked(2) [unfolded issue_principal_def a m Let_def prod.case]]
    have v: "view = principal_view_of (asked_row request (''sp_'' @ short_id (ca_draws c ! 0)) (ca_now c))"
      and se: "secret = issued_view sec stored (ca_now c)" using r(2) by (simp_all add: row(1))
    have pid: "pr_principal_id view = ''sp_'' @ short_id (ca_draws c ! 0)"
      by (simp add: v principal_view_of_def asked_row_def principal_row.defs)
    define p where "p = \<lparr>npr_principal_id = ''sp_'' @ short_id (ca_draws c ! 0), npr_tenant_id = tenant, npr_name = name,
      npr_kind = cp_kind request, npr_scopes = scopes, npr_indexes = indexes, npr_audience = cp_audience request,
      npr_max_ttl_secs = ttl, npr_created_by = Some admin_actor, npr_secret = stored\<rparr>"
    have w: "\<exists>e. audited_write E c (InsertPrincipal p (ca_now c)) e s = (Some (Inr True), s')"
      unfolding p_def by (rule exI, rule r(1)) simp
    have "principal_row.truncate view = asked_row request (pr_principal_id view) (ca_now c)"
      by (simp add: pid) (simp add: v principal_view_of_def asked_row_def principal_row.defs)
    with w show thesis
      by (elim exE, intro that [of p])
        (simp_all add: pid row(2) st se issued_view_def p_def row(1))
  qed (rule refusing_asked)
qed

text \<open>
  C18. The secret shown once is the one that works, for what was asked: when a principal is created,
  the token lane resolves that secret to the principal shown, with the tenant, name, kind, scopes,
  indexes, audience and longest lifetime of the request or their defaults, at every later time until
  \<open>expires_in_secs\<close> after the creation (forever when the request gives none), and to nobody after it.
  Other commands in between leave the lookup of that secret alone.
\<close>

theorem created_principal_authenticates:
  assumes "json_ok (ie_json (av_issuer E))"
    and "clear_channel E c (\<lambda>d t. find_live_principal_by_secret (ie_json (av_issuer E)) (ie_hash (av_issuer E) (iss_secret secret)) t d) (ad_store s)"
    and "admin_create_principal E c (Some request) s = (Some (Reply 201 (view, secret)), s')"
  shows "principal_row.truncate view = asked_row request (pr_principal_id view) (ca_now c) \<and>
     iss_expires_at secret = map_option (plus_secs (ca_now c)) (cp_expires_in_secs request) \<and>
     authenticate (av_issuer E) False t (ad_store s') (iss_secret secret) =
       Inr (if open_past t (map_option (plus_secs (ca_now c)) (cp_expires_in_secs request))
            then Some (asked_row request (pr_principal_id view) (ca_now c)) else None)"
  using assms(3)
proof (rule created_principal_write)
  fix p e
  let ?js = "ie_json (av_issuer E)" and ?h = "ie_hash (av_issuer E) (iss_secret secret)"
  assume w: "audited_write E c (InsertPrincipal p (ca_now c)) e s = (Some (Inr True), s')"
    and p: "asked_row request (pr_principal_id view) (ca_now c) =
       \<lparr>pr_principal_id = npr_principal_id p, pr_tenant_id = npr_tenant_id p, pr_name = npr_name p,
        pr_kind = npr_kind p, pr_scopes = npr_scopes p, pr_indexes = npr_indexes p, pr_audience = npr_audience p,
        pr_max_ttl_secs = npr_max_ttl_secs p, pr_created_at = ca_now c, pr_created_by = npr_created_by p,
        pr_last_used_at = None, pr_revoked_at = None\<rparr>" "npr_max_ttl_secs p \<le> max_max_ttl_secs"
    and h: "ns_hash (npr_secret p) = ?h" "ns_expires_at (npr_secret p) = map_option (plus_secs (ca_now c)) (cp_expires_in_secs request)"
    and shown: "principal_row.truncate view = asked_row request (pr_principal_id view) (ca_now c)"
      "iss_expires_at secret = map_option (plus_secs (ca_now c)) (cp_expires_in_secs request)"
  from w obtain au where wr: "write_admin_audited (ie_crypto (av_issuer E)) ?js (InsertPrincipal p (ca_now c)) au
      (ca_ack c) (ca_events c) (ad_store s) = (Some (Inr True), ad_store s')"
    by (auto simp: audited_write_def Let_def split: prod.splits)
  from assms(2) wr show ?thesis
  proof (cases rule: write_fate)
    case (ok applied d0 d1)
    have ins: "insert_principal ?js p (ca_now c) d0 = Inr (d1, True)" using ok(1,4) by simp
    have "find_live_principal_by_secret ?js ?h t (w_db (ad_store s')) = find_live_principal_by_secret ?js ?h t d1"
      using ok(5) [THEN fun_cong, of t] by (auto simp: found_insert_audit split: option.splits)
    also have "\<dots> = Inr (if open_past t (ns_expires_at (npr_secret p)) then Some (asked_row request (pr_principal_id view) (ca_now c)) else None)"
      using insert_principal_found [OF ok(2) assms(1) ins] p by (simp add: h max_max_ttl_secs_def)
    finally show ?thesis using shown by (simp add: authenticate_def with_reader_def h)
  qed blast
qed

definition demo_principal_request :: create_principal_request where
  "demo_principal_request = \<lparr>cp_name = ''ci'', cp_tenant = None, cp_kind = ''ingest'', cp_scopes = [''write''], cp_indexes = None,
     cp_audience = ''search'', cp_max_ttl_secs = None, cp_expires_in_secs = Some 60\<rparr>"

theorem created_principal_authenticates_witness:
  "\<exists>view secret s' row. admin_create_principal demo_admin_env (demo_call ''adm'') (Some demo_principal_request) demo_admin =
       (Some (Reply 201 (view, secret)), s') \<and>
     authenticate (av_issuer demo_admin_env) False 1059 (ad_store s') (iss_secret secret) = Inr (Some row) \<and>
     pr_tenant_id row = ''default'' \<and> pr_scopes row = [''write''] \<and> pr_indexes row = [''*''] \<and> pr_max_ttl_secs row = 2592000 \<and>
     authenticate (av_issuer demo_admin_env) False 1060 (ad_store s') (iss_secret secret) = Inr None"
proof -
  have "case fst (admin_create_principal demo_admin_env (demo_call ''adm'') (Some demo_principal_request) demo_admin) of
      Some (Reply n (view, secret)) \<Rightarrow> n = 201 | _ \<Rightarrow> False" by code_simp
  moreover obtain x s' where x: "admin_create_principal demo_admin_env (demo_call ''adm'') (Some demo_principal_request) demo_admin = (x, s')"
    by force
  ultimately obtain view secret where xv: "x = Some (Reply 201 (view, secret))"
    unfolding x by (auto split: option.splits admin_answer.splits)
  note r = x [unfolded xv]
  have j: "json_ok (ie_json (av_issuer demo_admin_env))" by (simp add: demo_admin_env_def line_json_ok)
  have cl: "clear_channel demo_admin_env (demo_call ''adm'') obs (ad_store demo_admin)" for obs :: "db \<Rightarrow> 'o"
    by (simp add: demo_admin_def demo_clear)
  have "map_option (plus_secs (ca_now (demo_call ''adm''))) (cp_expires_in_secs demo_principal_request) = Some 1060" by code_simp
  with created_principal_authenticates [OF j cl r, of 1059] created_principal_authenticates [OF j cl r, of 1060] r
  show ?thesis by (intro exI conjI) (auto simp: open_past_def asked_row_def demo_principal_request_def first_mentions_def)
qed

section \<open>The key shown as signing\<close>

lemma key_views_taken: "filter (\<lambda>v. gv_state v = ''signing'') (key_views E now True rows) = []"
  by (induction rows) (simp_all add: Let_def signing_key_row.defs)

lemma key_views_signing:
  "map sg_kid (filter (\<lambda>v. gv_state v = ''signing'') (key_views E now False rows)) =
   (case find (\<lambda>r. sg_activate_at r \<le> now \<and> sg_removed_at r = None \<and> open_past now (sg_retire_at r)) rows of
      None \<Rightarrow> [] | Some r \<Rightarrow> [sg_kid r])"
  by (induction rows)
    (auto simp: Let_def signing_key_row.defs key_views_taken open_past_def split: option.splits)

lemma find_filter: "find P (filter Q xs) = find (\<lambda>x. Q x \<and> P x) xs"
  by (induction xs) simp_all

definition row_of_key :: "db_signing_key \<Rightarrow> signing_key_row" where
  "row_of_key k = \<lparr>sg_kid = sk_kid k, sg_public_key = sk_public_key k, sg_created_at = sk_created_at k,
     sg_activate_at = sk_activate_at k, sg_retire_at = sk_retire_at k, sg_removed_at = sk_removed_at k\<rparr>"

text \<open>Both lists are in the same order; the one the issuer loads has no removed keys.\<close>

lemma key_rows_listed:
  assumes "list_signing_keys d = Inr rows"
  shows "rows = map row_of_key (signing_key_order (signing_key_tbl d))"
proof -
  have "map id rows = map row_of_key (signing_key_order (signing_key_tbl d))"
    by (rule mapE_map [OF assms [unfolded list_signing_keys_def]]) (auto simp: signing_key_row_of_def row_of_key_def split: if_splits)
  then show ?thesis by simp
qed

lemma key_rows_loaded:
  assumes "load_signing_keys cr d = Inr rows"
  shows "rows = map (\<lambda>k. (row_of_key k, opened_seed cr k)) (filter (\<lambda>k. sk_removed_at k = None) (signing_key_order (signing_key_tbl d)))"
proof -
  have "map id rows = map (\<lambda>k. (row_of_key k, opened_seed cr k)) (signing_key_order (filter (\<lambda>k. sk_removed_at k = None) (signing_key_tbl d)))"
    by (rule mapE_map [OF assms [unfolded load_signing_keys_def]])
      (auto simp: signing_key_row_of_def row_of_key_def bindE_Inr_iff split: if_splits)
  then show ?thesis by (simp add: signing_key_order_def rev_filter [symmetric] filter_sort)
qed

text \<open>
  C19. The console shows as signing exactly the key tokens are signed with at that moment: the first
  key that is published and has started is the one the issuer's own cache would use after a reload,
  provided every published key's seed opens.
\<close>

theorem signing_view_agrees:
  assumes "admin_list_signing_keys E c s = (Some (Reply 200 views), s')"
    and "reload (av_issuer E) False (ca_now c) (ad_store s) i = (Inr (), i')"
    and "\<forall>k \<in> set (kc_keys (is_cache i')). ck_signing k \<noteq> None"
  shows "map sg_kid (filter (\<lambda>v. gv_state v = ''signing'') views) =
     (case cache_signing (ca_now c) (is_cache i') of None \<Rightarrow> [] | Some (kid, _) \<Rightarrow> [kid])"
proof -
  let ?d = "w_db (ad_store s)" and ?now = "ca_now c"
  define ks where "ks = signing_key_order (signing_key_tbl ?d)"
  define signs where "signs k \<longleftrightarrow> sk_activate_at k \<le> ?now \<and> sk_removed_at k = None \<and> open_past ?now (sk_retire_at k)" for k :: db_signing_key
  from guarded_Reply(2) [OF assms(1) [unfolded admin_list_signing_keys_def]]
  have "views = key_views (av_issuer E) ?now False (map row_of_key ks)"
    by (auto simp: admin_read_def with_reader_def store_failed_def ks_def dest: key_rows_listed split: sum.splits if_splits)
  then have views: "map sg_kid (filter (\<lambda>v. gv_state v = ''signing'') views) = (case find signs ks of None \<Rightarrow> [] | Some k \<Rightarrow> [sk_kid k])"
    by (simp add: key_views_signing find_map comp_def row_of_key_def signs_def [abs_def] split: option.split)
  define mk where "mk k = \<lparr>ck_row = row_of_key k, ck_signing = usable_seed (av_issuer E) (row_of_key k) (opened_seed (ie_crypto (av_issuer E)) k)\<rparr>" for k :: db_signing_key
  have keys: "kc_keys (is_cache i') = map mk (filter (\<lambda>k. sk_removed_at k = None) ks)"
    using assms(2) by (auto simp: reload_def with_reader_def cache_build_def mk_def ks_def dest!: key_rows_loaded split: sum.splits)
  have usable: "ck_signing (mk k) \<noteq> None" if "k \<in> set ks" "sk_removed_at k = None" for k using assms(3) that by (auto simp: keys)
  have "find (\<lambda>k. sk_removed_at k = None \<and> signs_at ?now (mk k)) ks = find signs ks"
    using usable by (intro find_cong refl) (auto simp: signs_at_def key_published_def signs_def mk_def row_of_key_def)
  then have "find (signs_at ?now) (kc_keys (is_cache i')) = map_option mk (find signs ks)"
    by (simp add: keys find_map find_filter comp_def)
  moreover have "ck_signing (mk k) \<noteq> None" if "find signs ks = Some k" for k
    using that usable by (auto simp: find_Some_iff signs_def)
  ultimately show ?thesis unfolding views
    by (auto simp: cache_signing_def mk_def row_of_key_def split: option.splits)
qed

definition demo_keyed :: "unit admin_state" where
  "demo_keyed = demo_admin\<lparr>ad_store := snd demo_booted\<rparr>"

theorem signing_view_agrees_witness:
  "\<exists>views s'. admin_list_signing_keys demo_admin_env (demo_call ''adm'') demo_keyed = (Some (Reply 200 views), s') \<and>
     map sg_kid (filter (\<lambda>v. gv_state v = ''signing'') views) = [''k1'']"
proof -
  let ?E = demo_admin_env and ?c = "demo_call ''adm''"
  have "case fst (admin_list_signing_keys ?E ?c demo_keyed) of Some (Reply n views) \<Rightarrow> n = 200 | _ \<Rightarrow> False" by code_simp
  then obtain views s' where v: "admin_list_signing_keys ?E ?c demo_keyed = (Some (Reply 200 views), s')"
    by (cases "admin_list_signing_keys ?E ?c demo_keyed") (auto split: option.splits admin_answer.splits)
  obtain r i' where l: "reload (av_issuer ?E) False (ca_now ?c) (ad_store demo_keyed) (fst demo_booted) = (r, i')" by force
  have "r = Inr () \<and> list_all (\<lambda>k. ck_signing k \<noteq> None) (kc_keys (is_cache i')) \<and> map_option fst (cache_signing (ca_now ?c) (is_cache i')) = Some ''k1''"
    if "reload (av_issuer ?E) False (ca_now ?c) (ad_store demo_keyed) (fst demo_booted) = (r, i')" for r i'
  proof -
    have "case reload (av_issuer ?E) False (ca_now ?c) (ad_store demo_keyed) (fst demo_booted) of (r, i') \<Rightarrow>
        r = Inr () \<and> list_all (\<lambda>k. ck_signing k \<noteq> None) (kc_keys (is_cache i')) \<and> map_option fst (cache_signing (ca_now ?c) (is_cache i')) = Some ''k1''"
      by code_simp
    with that show ?thesis by simp
  qed
  from this [OF l] signing_view_agrees [OF v, of "fst demo_booted" i'] l v show ?thesis
    by (intro exI [of _ views]) (auto simp: list_all_iff)
qed

end
