(* ===== verification/Admin_Registry.thy ===== *)
theory Admin_Registry
  imports Admin_Safety
begin

text \<open>
  The registry of identity providers and the provider table: the admin lane changes both, the store
  first, and keeps them in step.
\<close>

section \<open>The registry and the store\<close>

text \<open>
  An entry of the registry stands for a row: what a restart would make of that row, but for the time
  of its last change, which a deletion leaves behind in memory.
\<close>

definition rows_with_id :: "string \<Rightarrow> db_provider list \<Rightarrow> db_provider list" where
  "rows_with_id i ps = filter (\<lambda>p. ip_id p = i) ps"

definition stands_for :: "'k admin_env \<Rightarrow> provider_settings option \<Rightarrow> db_provider list \<Rightarrow> bool" where
  "stands_for E x ps \<longleftrightarrow>
     (case x of
        None \<Rightarrow> ps = []
      | Some y \<Rightarrow>
          pv_read_only y \<and> ps = [] \<or>
          (\<exists>p w. ps = [p] \<and> provider_row_of (ie_crypto (av_issuer E)) (ie_json (av_issuer E)) p = Inr w \<and>
             settings_of_row w = y\<lparr>pv_updated_at := Some (ip_updated_at p)\<rparr>))"

definition registry_mirrors :: "'k admin_env \<Rightarrow> 'k admin_state \<Rightarrow> bool" where
  "registry_mirrors E s \<longleftrightarrow>
     (\<forall>i. stands_for E (settings_of i (ad_providers s)) (rows_with_id i (provider_tbl (w_db (ad_store s)))))"

lemma rows_of_update:
  assumes "\<And>r. sel r \<Longrightarrow> ip_id r = i" and "\<And>r. ip_id (f r) = ip_id r"
  shows "rows_with_id j (sql_update sel f ps) = (if j = i then sql_update sel f (rows_with_id i ps) else rows_with_id j ps)"
proof -
  have "ip_id (if sel r then f r else r) = ip_id r" for r by (simp add: assms(2))
  then show ?thesis using assms(1)
    by (induction ps) (auto simp: rows_with_id_def sql_update_def)
qed

lemma settings_of_install: "settings_of j (install x client r) = (if j = pv_id x then Some x else settings_of j r)"
  by (simp add: settings_of_def install_def)

text \<open>A change of one provider's row, and the entry installed for it.\<close>

lemma install_mirrors:
  assumes "registry_mirrors E s" and "clear_channel E c provider_tbl (ad_store s)"
    and "install_after E c aw event x client refused reply s = (r, s')"
    and "\<And>d d' applied. db_ok d \<Longrightarrow> provider_tbl d = provider_tbl (w_db (ad_store s)) \<Longrightarrow>
       apply_admin (ie_crypto (av_issuer E)) (ie_json (av_issuer E)) aw d = Inr (d', applied) \<Longrightarrow>
       (if applied then stands_for E (Some x) (rows_with_id (pv_id x) (provider_tbl d')) else rows_with_id (pv_id x) (provider_tbl d') = rows_with_id (pv_id x) (provider_tbl d)) \<and>
       (\<forall>j. j \<noteq> pv_id x \<longrightarrow> rows_with_id j (provider_tbl d') = rows_with_id j (provider_tbl d))"
  shows "registry_mirrors E s'"
proof -
  obtain r1 s1 where w: "audited_write E c aw event s = (r1, s1)" by force
  define au where "au = map_option (transactional (ie_pseudonym (av_issuer E)) event) (ad_audit s)"
  from w have wr: "write_admin_audited (ie_crypto (av_issuer E)) (ie_json (av_issuer E)) aw au (ca_ack c) (ca_events c) (ad_store s) =
      (r1, ad_store s1)" and reg: "ad_providers s1 = ad_providers s"
    by (auto simp: audited_write_def au_def Let_def split: prod.splits)
  have s': "s' = (if r1 = Some (Inr True) then s1\<lparr>ad_providers := install x client (ad_providers s1)\<rparr> else s1)"
    using assms(3) by (auto simp: install_after_def apply_change_def w split: option.splits sum.splits bool.splits)
  from assms(2) wr show ?thesis
  proof (cases rule: write_fate)
    case (ok applied d0 d1)
    have "provider_tbl (w_db (ad_store s1)) = provider_tbl d1" using ok(5) by (auto simp: insert_audit_def split: option.splits)
    with assms(1) assms(4) [OF ok(2-4)] ok(1,3) show ?thesis
      by (auto simp: registry_mirrors_def s' reg settings_of_install split: if_splits) metis
  next
    case no
    with assms(1) show ?thesis by (simp add: registry_mirrors_def s' reg)
  qed
qed

section \<open>The three changes\<close>

lemma rows_of_distinct: "distinct (map ip_id ps) \<Longrightarrow> rows_with_id i ps = [] \<or> (\<exists>p. rows_with_id i ps = [p] \<and> ip_id p = i)"
proof (induction ps)
  case (Cons p ps)
  then have "ip_id p = i \<Longrightarrow> rows_with_id i ps = []" by (auto simp: rows_with_id_def filter_empty_conv intro: rev_image_eqI)
  with Cons show ?case by (auto simp: rows_with_id_def)
qed (simp add: rows_with_id_def)

lemma rows_of_one:
  assumes "db_ok d"
  obtains "rows_with_id i (provider_tbl d) = []" | p where "rows_with_id i (provider_tbl d) = [p]" "ip_id p = i"
  using rows_of_distinct [of "provider_tbl d" i] assms by (auto simp: db_ok_def db_keys_ok_def)

lemma update_one:
  assumes "rows_with_id i ps = [p]" and "\<And>r. sel r \<Longrightarrow> ip_id r = i" and "\<And>r. ip_id (f r) = ip_id r"
  shows "rows_with_id j (sql_update sel f ps) = (if j = i then [if sel p then f p else p] else rows_with_id j ps)"
    and "0 < sql_count sel ps \<longleftrightarrow> sel p"
proof -
  show "rows_with_id j (sql_update sel f ps) = (if j = i then [if sel p then f p else p] else rows_with_id j ps)"
    using assms by (simp add: rows_of_update) (simp add: sql_update_def)
  have "r \<in> set ps \<Longrightarrow> sel r \<Longrightarrow> r \<in> set (rows_with_id i ps)" for r using assms(2) by (simp add: rows_with_id_def)
  moreover have "p \<in> set ps" using assms(1) by (metis filter_is_subset list.set_intros(1) rows_with_id_def subsetD)
  ultimately show "0 < sql_count sel ps \<longleftrightarrow> sel p" using assms(1) by (auto simp: sql_count_pos)
qed

lemma rows_with_id_append: "rows_with_id j (ps @ [p]) = rows_with_id j ps @ (if ip_id p = j then [p] else [])"
  by (simp add: rows_with_id_def)

definition good_env :: "'k admin_env \<Rightarrow> bool" where
  "good_env E \<longleftrightarrow> crypto_ok (ie_crypto (av_issuer E)) \<and> json_ok (ie_json (av_issuer E))"

lemma created_row_stands:
  assumes "good_env E" and "utf8_ok (bytes_of secret)" and "ip_id p = pv_id x" "ip_deleted_at p = None" "ip_preset p = pv_preset x"
    "ip_display_name p = pv_display_name x" "ip_issuer_url p = pv_issuer_url x" "ip_client_id p = pv_client_id x"
    "ip_scopes p = to_json (ie_json (av_issuer E)) (pv_scopes x)" "ip_enabled p = pv_enabled x"
    "ip_client_secret_sealed p = cseal (ie_crypto (av_issuer E)) (bytes_of secret) (provider_secret_context (pv_id x))"
    "pv_client_secret x = Some secret" "\<not> pv_deleted x" "\<not> pv_read_only x" "pv_created_at x = Some (ip_created_at p)"
  shows "stands_for E (Some x) [p]"
  using assms
  by (auto simp: stands_for_def provider_row_of_def settings_of_row_def json_list_def good_env_def crypto_ok_def json_ok_def
      from_utf8_def Let_def)

lemma insert_mirrors:
  assumes "good_env E" and "utf8_ok (bytes_of secret)" and "db_ok d"
    and x: "x = created_settings q secret scopes now"
    and ins: "insert_provider (ie_crypto (av_issuer E)) (ie_json (av_issuer E))
       \<lparr>np_id = cq_id q, np_preset = pv_preset x, np_display_name = pv_display_name x, np_issuer_url = pv_issuer_url x,
        np_client_id = pv_client_id x, np_client_secret = bytes_of secret, np_scopes = pv_scopes x, np_enabled = pv_enabled x\<rparr> now d = (d', applied)"
  shows "(if applied then stands_for E (Some x) (rows_with_id (pv_id x) (provider_tbl d'))
      else rows_with_id (pv_id x) (provider_tbl d') = rows_with_id (pv_id x) (provider_tbl d)) \<and>
     (\<forall>j. j \<noteq> pv_id x \<longrightarrow> rows_with_id j (provider_tbl d') = rows_with_id j (provider_tbl d))"
proof -
  have xs: "pv_id x = cq_id q" "pv_client_secret x = Some secret" "\<not> pv_deleted x" "\<not> pv_read_only x" "pv_created_at x = Some now"
    by (simp_all add: x created_settings_def)
  show ?thesis
  proof (cases rule: rows_of_one [OF assms(3), of "pv_id x"])
    case 1
    then have "\<not> sql_exists (\<lambda>r. ip_id r = pv_id x) (provider_tbl d)" by (auto simp: rows_with_id_def sql_exists_iff filter_empty_conv)
    with ins 1 xs assms(1,2) show ?thesis
      by (auto simp: insert_provider_def rows_with_id_append intro!: created_row_stands)
  next
    case (2 p)
    then have ex: "sql_exists (\<lambda>r. ip_id r = pv_id x) (provider_tbl d)"
      by (auto simp: rows_with_id_def sql_exists_iff dest: filter_eq_ConsD)
    let ?sel = "\<lambda>r. ip_id r = pv_id x \<and> ip_deleted_at r \<noteq> None \<and> ip_issuer_url r = pv_issuer_url x"
    let ?f = "\<lambda>r :: db_provider. r\<lparr>ip_preset := pv_preset x, ip_display_name := pv_display_name x, ip_client_id := pv_client_id x,
      ip_client_secret_sealed := cseal (ie_crypto (av_issuer E)) (bytes_of secret) (provider_secret_context (pv_id x)),
      ip_scopes := to_json (ie_json (av_issuer E)) (pv_scopes x), ip_enabled := pv_enabled x,
      ip_created_at := now, ip_updated_at := now, ip_deleted_at := None\<rparr>"
    have d': "provider_tbl d' = sql_update ?sel ?f (provider_tbl d)" "applied = (0 < sql_count ?sel (provider_tbl d))"
      using ins ex xs(1) by (auto simp: insert_provider_def Let_def)
    have "stands_for E (Some x) [?f p]" if "?sel p" using that xs assms(1,2) by (intro created_row_stands) simp_all
    with update_one [OF 2(1), of ?sel ?f] 2 show ?thesis unfolding d' by auto
  qed
qed

lemma stands_for_row:
  assumes "stands_for E (Some cur) (rows_with_id i ps)" and "\<not> pv_read_only cur"
  obtains p scopes u where "rows_with_id i ps = [p]" "ip_id p = i" "json_list (ie_json (av_issuer E)) (ip_scopes p) = Inr scopes"
    "cur = \<lparr>pv_id = i, pv_preset = ip_preset p, pv_display_name = ip_display_name p, pv_issuer_url = ip_issuer_url p,
      pv_client_id = ip_client_id p,
      pv_client_secret = (if ip_deleted_at p \<noteq> None then None
        else case copen (ie_crypto (av_issuer E)) (ip_client_secret_sealed p) (provider_secret_context i) of
               Inr plain \<Rightarrow> from_utf8 plain | Inl _ \<Rightarrow> None),
      pv_scopes = scopes, pv_enabled = ip_enabled p, pv_deleted = (ip_deleted_at p \<noteq> None), pv_read_only = False,
      pv_created_at = Some (ip_created_at p), pv_updated_at = u\<rparr>"
proof -
  obtain p w where p: "rows_with_id i ps = [p]" "provider_row_of (ie_crypto (av_issuer E)) (ie_json (av_issuer E)) p = Inr w"
    "settings_of_row w = cur\<lparr>pv_updated_at := Some (ip_updated_at p)\<rparr>"
    using assms by (auto simp: stands_for_def)
  have "p \<in> set (rows_with_id i ps)" using p(1) by simp
  then have i: "ip_id p = i" by (simp add: rows_with_id_def)
  obtain scopes where sc: "json_list (ie_json (av_issuer E)) (ip_scopes p) = Inr scopes"
    using p(2) by (auto simp: provider_row_of_def Let_def bindE_Inr_iff)
  show thesis
    by (rule that [OF p(1) i sc, of "pv_updated_at cur"], cases cur)
      (use p(2,3) i sc in \<open>auto simp: provider_row_of_def settings_of_row_def Let_def\<close>)
qed

lemma update_mirrors:
  assumes "good_env E" and cur: "stands_for E (Some cur) (rows_with_id i (provider_tbl d))" "\<not> pv_read_only cur"
    and nx: "next_settings E q cur = (Inr x :: 'b admin_answer + _)" and secret: "\<And>y. uq_client_secret q = Some y \<Longrightarrow> utf8_ok (bytes_of y)"
    and up: "update_provider (ie_crypto (av_issuer E)) (ie_json (av_issuer E))
       \<lparr>pu_id = i, pu_preset = pv_preset x, pu_display_name = pv_display_name x, pu_issuer_url = pv_issuer_url x, pu_client_id = pv_client_id x,
        pu_client_secret = map_option bytes_of (uq_client_secret q), pu_scopes = pv_scopes x, pu_enabled = pv_enabled x\<rparr> now d = (d', applied)"
  shows "(if applied then stands_for E (Some (x\<lparr>pv_updated_at := Some now\<rparr>)) (rows_with_id i (provider_tbl d'))
      else rows_with_id i (provider_tbl d') = rows_with_id i (provider_tbl d)) \<and>
     (\<forall>j. j \<noteq> i \<longrightarrow> rows_with_id j (provider_tbl d') = rows_with_id j (provider_tbl d))"
proof -
  obtain p where p: "rows_with_id i (provider_tbl d) = [p]" "ip_id p = i"
    and c: "pv_id cur = i" "pv_deleted cur = (ip_deleted_at p \<noteq> None)" "pv_created_at cur = Some (ip_created_at p)"
    "ip_deleted_at p = None \<Longrightarrow> pv_client_secret cur = (case copen (ie_crypto (av_issuer E)) (ip_client_secret_sealed p) (provider_secret_context i) of
        Inr plain \<Rightarrow> from_utf8 plain | Inl _ \<Rightarrow> None)"
    using cur by (rule stands_for_row) (erule that, simp_all)
  have n: "pv_id x = pv_id cur" "pv_deleted x = pv_deleted cur" "pv_read_only x = pv_read_only cur" "pv_created_at x = pv_created_at cur"
    "pv_client_secret x = (case uq_client_secret q of None \<Rightarrow> pv_client_secret cur | Some y \<Rightarrow> Some y)"
    using nx by (auto simp: next_settings_def bindE_Inr_iff check_secret_def split: option.splits)
  let ?sel = "\<lambda>r. ip_id r = i \<and> ip_deleted_at r = None"
  let ?f = "\<lambda>r :: db_provider. r\<lparr>ip_preset := pv_preset x, ip_display_name := pv_display_name x, ip_issuer_url := pv_issuer_url x,
    ip_client_id := pv_client_id x, ip_client_secret_sealed := (case map_option bytes_of (uq_client_secret q) of
        None \<Rightarrow> ip_client_secret_sealed r | Some y \<Rightarrow> cseal (ie_crypto (av_issuer E)) y (provider_secret_context i)),
    ip_scopes := to_json (ie_json (av_issuer E)) (pv_scopes x), ip_enabled := pv_enabled x, ip_updated_at := now\<rparr>"
  have d': "provider_tbl d' = sql_update ?sel ?f (provider_tbl d)" "applied = (0 < sql_count ?sel (provider_tbl d))"
    using up by (cases "uq_client_secret q"; auto simp: update_provider_def Let_def)+
  have "stands_for E (Some (x\<lparr>pv_updated_at := Some now\<rparr>)) [?f p]" if "?sel p"
    using that n c cur(2) assms(1) secret
    by (auto simp: stands_for_def provider_row_of_def settings_of_row_def json_list_def good_env_def crypto_ok_def json_ok_def
        from_utf8_def Let_def split: option.splits)
  with update_one [OF p(1), of ?sel ?f] p(1) show ?thesis unfolding d' by auto
qed

lemma delete_mirrors:
  assumes cur: "stands_for E (Some cur) (rows_with_id i (provider_tbl d))" "\<not> pv_read_only cur"
    and del: "delete_provider i now d = (d', applied)"
  shows "(if applied
      then stands_for E (Some (cur\<lparr>pv_deleted := True, pv_enabled := False, pv_client_secret := None\<rparr>)) (rows_with_id i (provider_tbl d'))
      else rows_with_id i (provider_tbl d') = rows_with_id i (provider_tbl d)) \<and>
     (\<forall>j. j \<noteq> i \<longrightarrow> rows_with_id j (provider_tbl d') = rows_with_id j (provider_tbl d))"
proof -
  let ?sel = "\<lambda>r. ip_id r = i \<and> ip_deleted_at r = None"
  let ?f = "\<lambda>r :: db_provider. r\<lparr>ip_deleted_at := Some now, ip_updated_at := now, ip_enabled := False, ip_client_secret_sealed := []\<rparr>"
  have d': "provider_tbl d' = sql_update ?sel ?f (provider_tbl d)" "applied = (0 < sql_count ?sel (provider_tbl d))"
    using del by (auto simp: delete_provider_def Let_def)
  from cur show ?thesis
  proof (rule stands_for_row)
    fix p scopes u assume p: "rows_with_id i (provider_tbl d) = [p]" "ip_id p = i" and sc: "json_list (ie_json (av_issuer E)) (ip_scopes p) = Inr scopes"
      and c: "cur = \<lparr>pv_id = i, pv_preset = ip_preset p, pv_display_name = ip_display_name p, pv_issuer_url = ip_issuer_url p,
      pv_client_id = ip_client_id p,
      pv_client_secret = (if ip_deleted_at p \<noteq> None then None
        else case copen (ie_crypto (av_issuer E)) (ip_client_secret_sealed p) (provider_secret_context i) of
               Inr plain \<Rightarrow> from_utf8 plain | Inl _ \<Rightarrow> None),
      pv_scopes = scopes, pv_enabled = ip_enabled p, pv_deleted = (ip_deleted_at p \<noteq> None), pv_read_only = False,
      pv_created_at = Some (ip_created_at p), pv_updated_at = u\<rparr>"
    have "stands_for E (Some (cur\<lparr>pv_deleted := True, pv_enabled := False, pv_client_secret := None\<rparr>)) [?f p]"
      by (subst c) (simp add: stands_for_def provider_row_of_def settings_of_row_def sc p(2) Let_def)
    with update_one [OF p(1), of ?sel ?f] p(1) show ?thesis unfolding d' by auto
  qed
qed

section \<open>Every other route\<close>

fun provider_write :: "admin_write \<Rightarrow> bool" where
  "provider_write (InsertProvider _ _) = True"
| "provider_write (UpdateProvider _ _) = True"
| "provider_write (DeleteProvider _ _) = True"
| "provider_write _ = False"

lemma apply_admin_providers:
  assumes "apply_admin cr js aw d = Inr (d', applied)" and "\<not> provider_write aw"
  shows "provider_tbl d' = provider_tbl d"
  using assms by (cases aw) (auto simp: bindE_Inr_iff repo_defs Let_def case_prod_beta split: if_splits option.splits)

definition same_providers :: "'k admin_state \<Rightarrow> ('b, 'k) handled \<Rightarrow> bool" where
  "same_providers s x \<longleftrightarrow>
     ad_providers (snd x) = ad_providers s \<and> provider_tbl (w_db (ad_store (snd x))) = provider_tbl (w_db (ad_store s))"

lemma same_providers_refl:
  "ad_providers s' = ad_providers s \<Longrightarrow> w_db (ad_store s') = w_db (ad_store s) \<Longrightarrow> same_providers s (r, s')"
  by (simp add: same_providers_def)

lemma same_providers_mirrors: "same_providers s x \<Longrightarrow> registry_mirrors E s \<Longrightarrow> registry_mirrors E (snd x)"
  by (simp add: same_providers_def registry_mirrors_def)

lemma same_providers_as_body [simp]: "same_providers s (as_body f x) = same_providers s x"
  by (simp add: same_providers_def as_body_def)

lemma same_providers_guarded: "(holds_key c s \<Longrightarrow> same_providers s (h s)) \<Longrightarrow> same_providers s (guarded c s h)"
proof (cases "holds_key c s")
  case False
  then obtain r l where "authorised c s = (Some r, s\<lparr>ad_rate_limit := l\<rparr>)" "turned_away (r :: 'b admin_answer)"
    by (rule authorised_shut)
  then show ?thesis by (simp add: guarded_def same_providers_def)
qed (simp add: guarded_open)

lemma same_providers_checked: "(\<And>a. x = Inr a \<Longrightarrow> same_providers s (f a)) \<Longrightarrow> same_providers s (checked x s f)"
  by (cases x) (auto simp: checked_def same_providers_def)

lemma write_keeps_providers:
  assumes "clear_channel E c provider_tbl w" and "\<not> provider_write aw"
    and "write_admin_audited (ie_crypto (av_issuer E)) (ie_json (av_issuer E)) aw au (ca_ack c) (ca_events c) w = (r, w')"
  shows "provider_tbl (w_db w') = provider_tbl (w_db w)"
  using assms(1,3)
proof (cases rule: write_fate)
  case (ok applied d0 d1)
  then show ?thesis using apply_admin_providers [OF ok(4) assms(2)] by (auto simp: insert_audit_def split: option.splits)
qed

lemma same_providers_write:
  assumes "clear_channel E c provider_tbl (ad_store s)" and "\<not> provider_write aw" and "audited_write E c aw e s = (r, s')"
  shows "same_providers s (r', s')"
  using assms(3) write_keeps_providers [OF assms(1,2)] by (auto simp: audited_write_def same_providers_def Let_def split: prod.splits)

lemma same_providers_answered:
  assumes "clear_channel E c provider_tbl (ad_store s)" and "\<not> provider_write aw"
  shows "same_providers s (answer_change (apply_change E c aw e s) reply)"
proof -
  obtain r s' where w: "audited_write E c aw e s = (r, s')" by force
  then show ?thesis using same_providers_write [OF assms w]
    by (auto simp: answer_change_def apply_change_def split: option.splits sum.splits)
qed

lemma admin_record_providers [simp]: "ad_providers (admin_record E e s) = ad_providers s"
  by (auto simp: admin_record_def Let_def split: option.split prod.split)

lemma same_providers_rotate:
  assumes "clear_channel E c provider_tbl (ad_store s)"
  shows "same_providers s (admin_rotate_signing_key E c blank body s)"
proof -
  have "provider_tbl (w_db w) = provider_tbl (w_db (ad_store s))"
    if rot: "rotate (av_issuer E) lead who seed now (ca_ack c) (ca_events c) rf now' i (ad_store s) = (r, i', w)" for lead who seed now rf now' i r i' w
  proof -
    define key where "key = generate (av_issuer E) seed"
    define plan where "plan = rotation_plan (is_policy i) lead (nk_kid key) now"
    define e where "e = (event_new ''signing_key.rotated'' Outcome_Success Actor_Admin now)
      \<lparr>au_actor_id := Some who, au_key_id := Some (nk_kid key), au_detail := Some (ie_rotated_detail (av_issuer E) plan)\<rparr>"
    let ?aw = "RotateSigningKey key now (ro_activate_at plan) (ro_previous_retire_at plan)"
    obtain r0 w0 where wr: "write_admin_audited (ie_crypto (av_issuer E)) (ie_json (av_issuer E)) ?aw
        (map_option (transactional (ie_pseudonym (av_issuer E)) e) (is_audit i)) (ca_ack c) (ca_events c) (ad_store s) = (r0, w0)" by force
    have "w0 = w" using rot wr
      by (auto simp: rotate_def issuer_write_def key_def plan_def e_def Let_def split: prod.splits option.splits sum.splits)
    with write_keeps_providers [OF assms _ wr] show ?thesis by simp
  qed
  then show ?thesis unfolding admin_rotate_signing_key_def
    by (intro same_providers_guarded) (auto simp: same_providers_def Let_def split: option.split sum.split prod.split)
qed

fun changes_provider :: "admin_request \<Rightarrow> bool" where
  "changes_provider (Rq_Create_Provider _) = True"
| "changes_provider (Rq_Update_Provider _ _) = True"
| "changes_provider (Rq_Remove_Provider _) = True"
| "changes_provider _ = False"

lemma other_routes_same:
  assumes "clear_channel E c provider_tbl (ad_store s)" and "\<not> changes_provider request"
  shows "same_providers s (admin_route E c mw request s)"
proof (cases "action_of request = []")
  case True
  then show ?thesis
    by (cases request)
      (auto simp: handler_defs enqueue_def Let_def intro!: same_providers_guarded same_providers_checked same_providers_refl split: sum.split option.split prod.split log_control_error.split)
next
  case False
  note w = same_providers_write [OF assms(1)]
  have keys: "same_providers s (admin_create_key E c name s)" "same_providers s (admin_revoke_key E c i s)" for name i
    unfolding admin_create_key_def admin_revoke_key_def Let_def
    by (rule same_providers_guarded, (auto simp: same_providers_refl split: prod.split option.split sum.split bool.split; erule w [rotated]; simp))+
  have "same_providers s (admin_create_tenant E c q1 s)" "same_providers s (admin_disable_tenant E c t s)"
    "same_providers s (admin_enable_tenant E c t s)" "same_providers s (admin_create_principal E c q2 s)"
    "same_providers s (admin_revoke_principal E c i s)" "same_providers s (admin_add_secret E c i blank q3 s)"
    "same_providers s (admin_revoke_secret E c i j s)" "same_providers s (admin_create_user_grant E c q4 s)"
    "same_providers s (admin_revoke_user_grant E c sub t s)" for q1 t q2 i blank q3 j q4 sub
    unfolding admin_create_tenant_def admin_disable_tenant_def admin_enable_tenant_def admin_create_principal_def issue_principal_def
      admin_revoke_principal_def admin_add_secret_def admin_revoke_secret_def admin_create_user_grant_def
      admin_revoke_user_grant_def Let_def case_prod_beta
    by (intro same_providers_guarded same_providers_checked same_providers_answered assms(1); simp)+
  with keys same_providers_rotate [OF assms(1)] False assms(2) show ?thesis by (cases request) simp_all
qed

section \<open>In step\<close>

definition stays_in_step :: "'k admin_env \<Rightarrow> admin_call \<Rightarrow> ('k admin_state \<Rightarrow> 'k admin_state) \<Rightarrow> bool" where
  "stays_in_step E c meanwhile \<longleftrightarrow>
     (\<forall>s. registry_mirrors E s \<and> clear_channel E c provider_tbl (ad_store s) \<longrightarrow>
        registry_mirrors E (meanwhile s) \<and> clear_channel E c provider_tbl (ad_store (meanwhile s)) \<and>
        (\<forall>i. settings_of i (ad_providers (meanwhile s)) = settings_of i (ad_providers s)))"

fun secret_of :: "admin_request \<Rightarrow> string option" where
  "secret_of (Rq_Create_Provider (Some q)) = Some (cq_client_secret q)"
| "secret_of (Rq_Update_Provider _ (Some q)) = uq_client_secret q"
| "secret_of _ = None"

lemma checked_mirrors:
  "registry_mirrors E s \<Longrightarrow> (\<And>a. x = Inr a \<Longrightarrow> registry_mirrors E (snd (f a))) \<Longrightarrow> registry_mirrors E (snd (checked x s f))"
  by (cases x) (auto simp: checked_def)

lemma guarded_mirrors:
  "registry_mirrors E s \<Longrightarrow> registry_mirrors E (snd (h s)) \<Longrightarrow> registry_mirrors E (snd (guarded c s h))"
proof (cases "holds_key c s")
  case False
  assume m: "registry_mirrors E s"
  from False obtain r l where "authorised c s = (Some r, s\<lparr>ad_rate_limit := l\<rparr>)" "turned_away (r :: 'b admin_answer)"
    by (rule authorised_shut)
  with m show ?thesis by (simp add: guarded_def registry_mirrors_def)
qed (simp add: guarded_open)

lemma awaited_mirrors:
  assumes "registry_mirrors E s" and "clear_channel E c provider_tbl (ad_store s)" and "stays_in_step E c mw"
    and "x = first_client E mw y s \<or> x = next_client E mw i cur y s"
  shows "registry_mirrors E (snd x)" and "clear_channel E c provider_tbl (ad_store (snd x))"
    and "settings_of j (ad_providers (snd x)) = settings_of j (ad_providers s)"
  using assms by (auto simp: first_client_def next_client_def stays_in_step_def Let_def)

lemma create_keeps_mirror:
  assumes "good_env E" and "registry_mirrors E s" and "clear_channel E c provider_tbl (ad_store s)" and "stays_in_step E c mw"
    and "utf8_ok (bytes_of (cq_client_secret q))"
  shows "registry_mirrors E (snd (create_inner E c mw q s))"
  unfolding create_inner_def
proof (intro checked_mirrors assms(2), clarify)
  fix secret scopes assume asked: "provider_asked E c q s = (Inr (secret, scopes) :: provider_view admin_answer + _)"
  then have secret: "secret = cq_client_secret q"
    by (auto simp: provider_asked_def bindE_Inr_iff check_secret_def Let_def)
  define x where "x = created_settings q secret scopes (ca_now c)"
  obtain client :: "provider_view admin_answer + _" and s1 where f: "first_client E mw x s = (client, s1)" by force
  note a = awaited_mirrors [OF assms(2-4) disjI1 [OF f [symmetric]], simplified]
  have "registry_mirrors E (snd (install_after E c (InsertProvider
      \<lparr>np_id = cq_id q, np_preset = pv_preset x, np_display_name = pv_display_name x, np_issuer_url = pv_issuer_url x,
       np_client_id = pv_client_id x, np_client_secret = bytes_of secret, np_scopes = pv_scopes x, np_enabled = pv_enabled x\<rparr> (ca_now c))
      e x cl refused reply s1))" for e cl refused reply
    by (rule install_mirrors [OF a(1,2) prod.collapse [symmetric]])
      (rule insert_mirrors [OF assms(1) _ _ x_def], use assms(5) secret in auto)
  then show "registry_mirrors E (snd (let now = ca_now c; settings = created_settings q secret scopes now;
         (client, s1) = first_client E mw settings s
     in checked client s1 (\<lambda>client.
          install_after E c (InsertProvider
              \<lparr>np_id = cq_id q, np_preset = pv_preset settings, np_display_name = pv_display_name settings,
               np_issuer_url = pv_issuer_url settings, np_client_id = pv_client_id settings,
               np_client_secret = bytes_of secret, np_scopes = pv_scopes settings, np_enabled = pv_enabled settings\<rparr> now)
            (provider_event E ''provider.created'' now settings True) settings client provider_exists
            (\<lambda>r. Reply 201 (view_of r settings)) s1)))"
    unfolding Let_def x_def [symmetric] f prod.case by (intro checked_mirrors a(1))
qed

lemma stands_for_id: "stands_for E (Some cur) (rows_with_id i ps) \<Longrightarrow> \<not> pv_read_only cur \<Longrightarrow> pv_id cur = i"
  by (erule (1) stands_for_row) (simp only: provider_settings.select_convs)

lemma update_keeps_mirror:
  assumes "good_env E" and "registry_mirrors E s" and "clear_channel E c provider_tbl (ad_store s)" and "stays_in_step E c mw"
    and "\<And>y. uq_client_secret q = Some y \<Longrightarrow> utf8_ok (bytes_of y)"
  shows "registry_mirrors E (snd (update_inner E c mw i q s))"
proof (cases "live_settings i s")
  case (Some cur)
  then have cur: "settings_of i (ad_providers s) = Some cur" by (auto simp: live_settings_def split: option.splits if_splits)
  show ?thesis
  proof (cases "pv_read_only cur")
    case False
    have inst: "registry_mirrors E (snd (install_after E c (UpdateProvider
          \<lparr>pu_id = i, pu_preset = pv_preset x, pu_display_name = pv_display_name x, pu_issuer_url = pv_issuer_url x, pu_client_id = pv_client_id x,
           pu_client_secret = map_option bytes_of (uq_client_secret q), pu_scopes = pv_scopes x, pu_enabled = pv_enabled x\<rparr> (ca_now c))
          e (x\<lparr>pv_updated_at := Some (ca_now c)\<rparr>) cl refused reply s1))"
      if nx: "next_settings E q cur = (Inr x :: provider_view admin_answer + _)" and f: "next_client E mw i cur x s = (client, s1)"
      for x e cl refused reply s1 and client :: "provider_view admin_answer + 'a oidc_client option"
    proof -
      note a = awaited_mirrors [OF assms(2-4) disjI2 [OF f [symmetric]], simplified]
      have st: "stands_for E (Some cur) (rows_with_id i (provider_tbl (w_db (ad_store s1))))"
        using a(1) a(3) [of i] cur by (auto simp: registry_mirrors_def dest: spec [of _ i])
      have "pv_id x = i" using nx stands_for_id [OF st False] by (auto simp: next_settings_def bindE_Inr_iff)
      then have i: "pv_id (x\<lparr>pv_updated_at := Some (ca_now c)\<rparr>) = i" by simp
      show ?thesis
        by (rule install_mirrors [OF a(1,2) prod.collapse [symmetric]], unfold i, rule update_mirrors [OF assms(1) _ False nx assms(5)])
          (use st in \<open>simp_all split: prod.splits\<close>)
    qed
    have awaited: "registry_mirrors E s1" if "next_client E mw i cur x s = (client, s1)"
      for x s1 and client :: "provider_view admin_answer + 'a oidc_client option"
      using awaited_mirrors(1) [OF assms(2-4) disjI2 [OF that [symmetric]]] by simp
    show ?thesis using Some False assms(2)
      by (auto simp: update_inner_def Let_def intro!: checked_mirrors split: prod.split) (erule awaited, erule (1) inst)
  qed (use Some assms(2) in \<open>simp add: update_inner_def\<close>)
qed (use assms(2) in \<open>simp add: update_inner_def\<close>)

lemma remove_keeps_mirror:
  assumes "registry_mirrors E s" and "clear_channel E c provider_tbl (ad_store s)"
  shows "registry_mirrors E (snd (admin_remove_provider E c i s))"
proof (cases "live_settings i s")
  case (Some cur)
  then have st: "stands_for E (Some cur) (rows_with_id i (provider_tbl (w_db (ad_store s))))"
    using assms(1) by (auto simp: live_settings_def registry_mirrors_def split: option.splits if_splits) metis
  let ?x = "cur\<lparr>pv_deleted := True, pv_enabled := False, pv_client_secret := None\<rparr>"
  have i: "pv_id ?x = i" if "\<not> pv_read_only cur" using stands_for_id [OF st that] by simp
  have "registry_mirrors E (snd (install_after E c (DeleteProvider i (ca_now c)) e ?x None unknown_provider (\<lambda>_. (No_Content :: unit admin_answer)) s))"
    if "\<not> pv_read_only cur" for e
    by (rule install_mirrors [OF assms prod.collapse [symmetric]], unfold i [OF that], rule delete_mirrors [OF _ that])
      (use st in \<open>simp_all split: prod.splits\<close>)
  then show ?thesis unfolding admin_remove_provider_def
    by (intro guarded_mirrors assms(1)) (use Some assms(1) in simp)
qed (use assms(1) in \<open>simp add: admin_remove_provider_def guarded_mirrors\<close>)

text \<open>
  C17. The registry of providers follows the store. Where the registry holds, for every id, what the
  row of that id says (an entry that configuration fixes has no row), it still does after any request
  the admin lane answers: a provider is installed, changed or retired in memory exactly when its row is,
  with the same settings and the secret the row seals, and a refused or failed change leaves both. The
  work of others while a discovery is awaited is assumed to keep them in step and to leave the settings alone.
\<close>
theorem registry_follows_store:
  assumes "good_env E" and "registry_mirrors E s" and "clear_channel E c provider_tbl (ad_store s)"
    and "stays_in_step E c meanwhile"
    and "\<And>y. secret_of request = Some y \<Longrightarrow> utf8_ok (bytes_of y)"
  shows "registry_mirrors E (snd (admin_route E c meanwhile request s))"
proof (cases "changes_provider request")
  case True
  then show ?thesis
    by (cases request)
      (auto simp: as_body_def admin_create_provider_def admin_update_provider_def parse_body_def remove_keeps_mirror assms
        intro!: guarded_mirrors checked_mirrors create_keeps_mirror update_keeps_mirror split: option.splits)
next
  case False
  then show ?thesis using same_providers_mirrors other_routes_same assms(2,3) by blast
qed

definition demo_asked :: create_provider_request where
  "demo_asked = \<lparr>cq_id = ''acme'', cq_preset = ''generic'', cq_display_name = ''Acme'', cq_issuer_url = ''https://idp'',
     cq_client_id = ''app'', cq_client_secret = ''secret'', cq_scopes = None, cq_enabled = Some False\<rparr>"

theorem registry_follows_store_witness:
  "case admin_route demo_admin_env (demo_call ''adm'') (\<lambda>s. s) (Rq_Create_Provider (Some demo_asked)) demo_admin of
     (r, s') \<Rightarrow> accepted r \<and> settings_of ''acme'' (ad_providers s') \<noteq> None \<and> registry_mirrors demo_admin_env s'"
proof -
  let ?x = "admin_route demo_admin_env (demo_call ''adm'') (\<lambda>s. s) (Rq_Create_Provider (Some demo_asked)) demo_admin"
  have "accepted (fst ?x) \<and> settings_of ''acme'' (ad_providers (snd ?x)) \<noteq> None" by code_simp
  moreover have "good_env demo_admin_env"
    by (simp add: good_env_def demo_admin_env_def line_json_ok demo_ie_def demo_crypto_ok)
  moreover have "list_all (\<lambda>(i, e). pv_read_only (en_settings e)) (rg_entries demo_registry)" by code_simp
  then have "registry_mirrors demo_admin_env demo_admin"
    by (auto simp: registry_mirrors_def stands_for_def rows_with_id_def demo_admin_def migrated_db_def new_writer_def
        settings_of_def dget_def list_all_iff split: option.split dest: map_of_SomeD)
  moreover have "utf8_ok (bytes_of y)" if "secret_of (Rq_Create_Provider (Some demo_asked)) = Some y" for y
    using that by (auto simp: demo_asked_def) code_simp
  ultimately show ?thesis
    using registry_follows_store [of demo_admin_env demo_admin "demo_call ''adm''" "\<lambda>s. s" "Rq_Create_Provider (Some demo_asked)"]
    by (simp add: case_prod_beta stays_in_step_def demo_clear demo_admin_def)
qed

end
