(* ===== verification/Spec2Isabelle.thy ===== *)
theory Spec2Isabelle
  imports Session_Grace Session_Refresh Keepalive_Safety Login_Safety Issuer_Safety Internal_Safety Config_Safety
    Console_Reads Log_Control Handoff Admin_Effects Admin_Registry
begin

text \<open>
  \<^bold>\<open>Verification of the session broker.\<close>

  The broker (crate \<open>session-broker\<close> under \<open>src/repo/crates/\<close>) logs people in at OIDC providers,
  keeps the upstream grants to itself and gives browsers an opaque cookie instead. Backends exchange
  that cookie for the upstream token; people and machines are minted tokens of the broker's own. File
  names below are relative to \<open>src/repo/crates/session-broker/src/\<close>.

  \<^bold>\<open>The parts and how they meet.\<close>
  The session map (\<open>session.rs\<close>) is the authority on sessions and lives in memory. Each operation
  returns the commands that make it durable; they go through a queue to one writer thread
  (\<open>store/writer.rs\<close>) that applies batches as SQLite transactions (\<open>store/repo.rs\<close>, \<open>store/mod.rs\<close>) with
  sealed columns (\<open>store/crypto.rs\<close>). What must be on disk before it is acknowledged (custody of a
  grant, changes of the admin lane) waits for an ack. A login (\<open>http/auth.rs\<close>, \<open>oauth.rs\<close>,
  \<open>providers.rs\<close>) takes custody first (\<open>custody.rs\<close>) and creates the session after it; the keepalive
  worker (\<open>keepalive.rs\<close>) renews the grants and ends sessions whose grant is revoked. The internal lane
  (\<open>http/internal.rs\<close>, \<open>http/authz.rs\<close>) and the token endpoints (\<open>http/token.rs\<close>, \<open>http/user_token.rs\<close>)
  read both. The admin lane (\<open>http/admin.rs\<close>, \<open>http/admin/\<close>) changes keys, tenants, principals, grants,
  providers and signing keys, each change in one transaction with its audit row (\<open>audit.rs\<close>). At boot
  (\<open>main.rs\<close>) the map and the schedule are rebuilt from the store.

  \<^bold>\<open>Foundations.\<close>
  \<^item> \<open>Prelude\<close>: 64-bit words, results as sums (\<open>bindE\<close>, \<open>mapE\<close>), keyed containers (locale \<open>kv_map\<close>,
    interpreted on the association lists that stand for \<open>HashMap\<close>, \<open>DashMap\<close> and \<open>BTreeMap\<close>), runs of guarded steps.
  \<^item> \<open>Clock\<close>: \<open>clock.rs\<close>, \<open>token.rs\<close>. \<open>Text\<close>: the Rust string operations the code uses. \<open>Crypto\<close>: the
    keyring of \<open>store/crypto.rs\<close>; the AEAD is a parameter.

  \<^bold>\<open>The store.\<close>
  \<^item> \<open>Schema\<close>, \<open>Repo\<close>, \<open>Repo_Admin\<close>, \<open>Console_Reads\<close>: the tables and statements of \<open>store/mod.rs\<close> and
    \<open>store/repo.rs\<close>, with keys, foreign keys and CHECKs.
  \<^item> \<open>Writer\<close>, \<open>Writer_Handle\<close>: commands, batches, acks and the calls that wait for one.
  \<^item> \<open>Sealing\<close>, \<open>Store_Safety\<close>, \<open>Store_Records\<close>: a batch is all or nothing under I/O errors at any step;
    committed states satisfy the schema; the audit trail is append-only; revocations stay; what is
    sealed opens under its own context only, and a reseal changes no plaintext.

  \<^bold>\<open>Sessions.\<close>
  \<^item> \<open>Session\<close> models \<open>session.rs\<close>. \<open>Session_Entry\<close>, \<open>Session_Wf\<close>: the invariant of an entry and of the
    map with its token index, kept by every operation. \<open>Session_Safety\<close>, \<open>Session_Grace\<close>,
    \<open>Session_Refresh\<close>: kills are final, the absolute ceiling holds, rotation does not invalidate,
    refreshes coalesce, live tokens are bounded, the sweep is not observable.
  \<^item> \<open>Durability\<close>, \<open>Write_Behind\<close>, \<open>Broker\<close>, \<open>Restart\<close>: the abstract store a map stands for, the
    simulation between map operations and their commands, and that a drained store gives every token
    the same resolution after a restart. \<open>Boot\<close>: the background tasks of \<open>main.rs\<close>.
  \<^item> \<open>Audit_Sink\<close>: \<open>audit.rs\<close>; every event is a row, or counted in a gap.

  \<^bold>\<open>Upstream.\<close>
  \<^item> \<open>Keepalive\<close>, \<open>Keepalive_Safety\<close>: \<open>keepalive.rs\<close>; single flight, propagation of a revocation, and
    that nothing else logs anyone out.
  \<^item> \<open>Oauth\<close>, \<open>Providers\<close>, \<open>Custody\<close>: the OIDC client, the registry of providers, custody and renewal.

  \<^bold>\<open>The HTTP lanes.\<close>
  \<^item> \<open>Http\<close>, \<open>Http_Session\<close>, \<open>Rate_Limit\<close>: configuration, guards, the session lane, the limiter.
  \<^item> \<open>Login\<close>, \<open>Login_Safety\<close>: login and callback; a callback is bound to the login it finishes, no
    session before custody, people are distinct, redirects stay on the origin (a tab excepted).
  \<^item> \<open>Desktop\<close>, \<open>Handoff\<close>: the sign-in of desktop apps.
  \<^item> \<open>Internal\<close>, \<open>Internal_Safety\<close>: exchange and edge check.
  \<^item> \<open>Issuer\<close>, \<open>Key_Order\<close>, \<open>Issuer_Safety\<close>, \<open>Mint\<close>, \<open>Mint_Safety\<close>: signing keys, their rotation, and
    the two endpoints that mint; tokens stay verifiable and say what the holder is entitled to.
  \<^item> \<open>Config\<close>, \<open>Config_Safety\<close>, \<open>Log_Control\<close>: \<open>config.rs\<close> and the verbosity control of \<open>telemetry/mod.rs\<close>.
  \<^item> \<open>Admin\<close>, \<open>Admin_Identity\<close>, \<open>Admin_Providers\<close>: every handler of the admin lane. \<open>Admin_Safety\<close>: the
    router; nothing without the key, no change without its record. \<open>Admin_Effects\<close>, \<open>Admin_Registry\<close>:
    what an answer is worth to the other lanes, and that the registry of providers follows the store.

  \<^bold>\<open>Parameters.\<close> Code outside the repository enters as functions in records: \<open>crypto\<close> (seal and open,
  law \<open>crypto_ok\<close>), \<open>json\<close> (lists of strings, law \<open>json_ok\<close>), \<open>idp\<close> and \<open>net\<close> (what providers and their
  discovery documents answer), \<open>builder\<close>, \<open>issuer_env\<close> (Ed25519, SHA-256, base64url, the JSON of claims),
  the environments of the lanes and of the admin lane (\<open>admin_env\<close>), and the floating point operations of
  the keepalive arithmetic. Every witness instantiates them with concrete functions. Clocks, random draws,
  the interleaving of the writer with a waiting call and, in the theories of the store and of the calls that
  wait for an ack, I/O errors at any step are arguments. Each theorem says in its text which of them it
  holds for: \<open>Broker\<close> and \<open>Restart\<close> are about turns without I/O errors (a failed batch is dropped and what it
  carried is not written again), \<open>Custody\<close> and \<open>Login_Safety\<close> say what the reaper may do to a grant no session
  rests on yet. A call whose ack never comes returns \<open>None\<close>.

  \<^bold>\<open>Bounds.\<close> Every function is total: loops recurse on their list, or carry a measure
  (\<open>take_due_loop\<close> on the heap, the eviction loops on the size of their table). The one function with fuel
  is the trimming of configuration values, whose fuel is the length of the value: each round removes a byte. \<open>u64\<close>, \<open>u32\<close> and
  \<open>i64\<close> arithmetic saturates or wraps as the source does where a value can reach the bound.

  \<^bold>\<open>Not modelled.\<close> The crate \<open>mock-idp\<close> (a stand-in provider for tests) and all tests; routing, TLS,
  response hardening, health pages and server-sent events (\<open>http/hardening.rs\<close>, \<open>http/ops.rs\<close>,
  \<open>http/events.rs\<close>), metrics and tracing, which only report; \<open>http/wellknown.rs\<close>, which prints what
  \<open>jwks\<close> returns; the text format of key files; the sub-commands, signals and server start-up of
  \<open>main.rs\<close>; the HTML of the pages and the JSON text of replies, which are kept as values.
\<close>

end
